(* ===== verification/Prelude.thy ===== *)
theory Prelude
  imports Main "HOL-Library.AList"
begin

text \<open>
  Shared vocabulary of the development.

  The code is Python 2 talking to a redis server.  Every handler is modelled as a function of
  type \<open>redis \<Rightarrow> (exn + 'a) \<times> redis\<close> (the redis record itself is declared in the theory Redis;
  here the state type is a parameter): the state that was written before an exception is kept,
  exactly as the writes the Python code has sent to the server are.

  The weakest-precondition transformer \<open>wp\<close> turns a handler into a condition on its start
  state; its equations are simplification rules, so the component theories prove a fact about a
  handler by \<open>simp add: wp_eqs\<close>.
\<close>

named_theorems wp_eqs "symbolic execution of handlers"
named_theorems keys_neq "pairs of redis keys that can never be the same string"
named_theorems pres_intros "a handler keeps a predicate of the state"

section \<open>Exceptions\<close>

text \<open>The exceptions the modelled code can raise; \<open>ResponseError\<close> is the client's exception for
  an error reply of the server.\<close>

datatype exn =
    ValueError | TypeError | KeyError | IndexError | AttributeError
  | AssertionError | ZeroDivisionError | SyntaxError | NameError | RuntimeError | ResponseError

section \<open>Handlers: state with exceptions\<close>

type_synonym ('s, 'a) handler = "'s \<Rightarrow> (exn + 'a) \<times> 's"

definition retM :: "'a \<Rightarrow> ('s, 'a) handler" where
  "retM x = (\<lambda>s. (Inr x, s))"

definition raiseM :: "exn \<Rightarrow> ('s, 'a) handler" where
  "raiseM e = (\<lambda>s. (Inl e, s))"

definition bindM :: "('s, 'a) handler \<Rightarrow> ('a \<Rightarrow> ('s, 'b) handler) \<Rightarrow> ('s, 'b) handler" where
  "bindM m f = (\<lambda>s. case m s of (Inl e, s') \<Rightarrow> (Inl e, s') | (Inr x, s') \<Rightarrow> f x s')"

definition thenM :: "('s, 'a) handler \<Rightarrow> ('s, 'b) handler \<Rightarrow> ('s, 'b) handler" where
  "thenM m k = bindM m (\<lambda>_. k)"

text \<open>\<open>try: m except: h\<close> with a bare \<open>except\<close>.\<close>

definition tryM :: "('s, 'a) handler \<Rightarrow> ('s, 'a) handler \<Rightarrow> ('s, 'a) handler" where
  "tryM m h = (\<lambda>s. case m s of (Inl e, s') \<Rightarrow> h s' | (Inr x, s') \<Rightarrow> (Inr x, s'))"

definition liftE :: "exn + 'a \<Rightarrow> ('s, 'a) handler" where
  "liftE r = (\<lambda>s. (r, s))"

text \<open>\<open>for x in xs: body(x)\<close>, stopping at the first exception.\<close>

fun forM :: "'a list \<Rightarrow> ('a \<Rightarrow> ('s, unit) handler) \<Rightarrow> ('s, unit) handler" where
  "forM [] f = retM ()"
| "forM (x # xs) f = thenM (f x) (forM xs f)"

text \<open>A loop that collects the value of each round.\<close>

fun mapM :: "'a list \<Rightarrow> ('a \<Rightarrow> ('s, 'b) handler) \<Rightarrow> ('s, 'b list) handler" where
  "mapM [] f = retM []"
| "mapM (x # xs) f = bindM (f x) (\<lambda>y. bindM (mapM xs f) (\<lambda>ys. retM (y # ys)))"

section \<open>Weakest preconditions\<close>

definition wp :: "('s, 'a) handler \<Rightarrow> ('a \<Rightarrow> 's \<Rightarrow> bool) \<Rightarrow> (exn \<Rightarrow> 's \<Rightarrow> bool) \<Rightarrow> 's \<Rightarrow> bool" where
  "wp m Q E s = (case m s of (Inl e, s') \<Rightarrow> E e s' | (Inr x, s') \<Rightarrow> Q x s')"

lemma wp_retM [wp_eqs]: "wp (retM x) Q E = Q x"
  by (simp add: fun_eq_iff wp_def retM_def)

lemma wp_raiseM [wp_eqs]: "wp (raiseM e) Q E = E e"
  by (simp add: fun_eq_iff wp_def raiseM_def)

lemma wp_bindM [wp_eqs]: "wp (bindM m f) Q E s = wp m (\<lambda>x. wp (f x) Q E) E s"
  by (simp add: wp_def bindM_def split: sum.split prod.split)

lemma wp_thenM [wp_eqs]: "wp (thenM m k) Q E s = wp m (\<lambda>_. wp k Q E) E s"
  by (simp add: thenM_def wp_bindM)

lemma wp_tryM [wp_eqs]: "wp (tryM m h) Q E s = wp m Q (\<lambda>_. wp h Q E) s"
  by (simp add: wp_def tryM_def split: sum.split prod.split)

lemma wp_liftE [wp_eqs]: "wp (liftE r) Q E s = (case r of Inl e \<Rightarrow> E e s | Inr x \<Rightarrow> Q x s)"
  by (simp add: wp_def liftE_def)

lemma wp_if [wp_eqs]: "wp (if b then m else k) Q E s = (if b then wp m Q E s else wp k Q E s)"
  by simp

lemma wp_mono:
  "wp m Q E s \<Longrightarrow> (\<And>x t. Q x t \<Longrightarrow> Q' x t) \<Longrightarrow> (\<And>e t. E e t \<Longrightarrow> E' e t) \<Longrightarrow> wp m Q' E' s"
  by (auto simp: wp_def split: sum.splits prod.splits)

lemma wp_run_eq: "wp m (\<lambda>x t. x = v \<and> t = u) (\<lambda>_ _. False) s \<longleftrightarrow> m s = (Inr v, u)"
  by (cases "m s"; cases "fst (m s)") (auto simp: wp_def)

lemma wp_state: "wp m (\<lambda>_. P) (\<lambda>_. P) s \<longleftrightarrow> P (snd (m s))"
  by (simp add: wp_def split: sum.split prod.split)

lemma wpI: "m s = (r, t) \<Longrightarrow> (case r of Inl e \<Rightarrow> E e t | Inr x \<Rightarrow> Q x t) \<Longrightarrow> wp m Q E s"
  by (simp add: wp_def)

lemma wp_InrD: "wp m Q E s \<Longrightarrow> m s = (Inr x, t) \<Longrightarrow> Q x t"
  by (simp add: wp_def)

lemma wp_InlD: "wp m Q E s \<Longrightarrow> m s = (Inl e, t) \<Longrightarrow> E e t"
  by (simp add: wp_def)

section \<open>Predicates of the state that a handler keeps\<close>

definition keeps :: "('s \<Rightarrow> bool) \<Rightarrow> ('s, 'a) handler \<Rightarrow> bool" where
  "keeps P m \<longleftrightarrow> (\<forall>s. P s \<longrightarrow> P (snd (m s)))"

lemma keepsD: "keeps P m \<Longrightarrow> P s \<Longrightarrow> P (snd (m s))"
  by (simp add: keeps_def)

lemma wp_keeps: "keeps P m \<Longrightarrow> P s \<Longrightarrow> wp m (\<lambda>_. P) (\<lambda>_. P) s"
  by (simp add: wp_state keepsD)

lemma keepsI: "(\<And>s. P s \<Longrightarrow> wp m (\<lambda>_. P) (\<lambda>_. P) s) \<Longrightarrow> keeps P m"
  by (simp add: keeps_def wp_state)

lemma keeps_retM [pres_intros]: "keeps P (retM x)"
  by (simp add: keeps_def retM_def)

lemma keeps_raiseM [pres_intros]: "keeps P (raiseM e)"
  by (simp add: keeps_def raiseM_def)

lemma keeps_liftE [pres_intros]: "keeps P (liftE r)"
  by (simp add: keeps_def liftE_def)

lemma keeps_bindM [pres_intros]: "keeps P m \<Longrightarrow> (\<And>x. keeps P (f x)) \<Longrightarrow> keeps P (bindM m f)"
  by (fastforce simp: keeps_def bindM_def split: prod.splits sum.splits)

lemma keeps_thenM [pres_intros]: "keeps P m \<Longrightarrow> keeps P k \<Longrightarrow> keeps P (thenM m k)"
  by (simp add: thenM_def keeps_bindM)

lemma keeps_tryM [pres_intros]: "keeps P m \<Longrightarrow> keeps P h \<Longrightarrow> keeps P (tryM m h)"
  by (fastforce simp: keeps_def tryM_def split: prod.splits sum.splits)

lemma keeps_if [pres_intros]: "(b \<Longrightarrow> keeps P m) \<Longrightarrow> (\<not> b \<Longrightarrow> keeps P k) \<Longrightarrow> keeps P (if b then m else k)"
  by simp

lemma keeps_option [pres_intros]:
  "keeps P m \<Longrightarrow> (\<And>x. keeps P (f x)) \<Longrightarrow> keeps P (case v of None \<Rightarrow> m | Some x \<Rightarrow> f x)"
  by (cases v) auto

lemma keeps_forM [pres_intros]: "(\<And>x. x \<in> set xs \<Longrightarrow> keeps P (f x)) \<Longrightarrow> keeps P (forM xs f)"
  by (induction xs) (auto intro: pres_intros)

lemma keeps_mapM [pres_intros]: "(\<And>x. x \<in> set xs \<Longrightarrow> keeps P (f x)) \<Longrightarrow> keeps P (mapM xs f)"
  by (induction xs) (auto intro!: pres_intros)

section \<open>Histories\<close>

text \<open>
  A component that serves requests, one after the other: what every request keeps, every history of
  requests keeps.  A simulation adds an abstraction of the state on which every request is a step of a
  simpler system.
\<close>

locale state_machine =
  fixes step :: "'op \<Rightarrow> 's \<Rightarrow> 's"
    and inv :: "'s \<Rightarrow> bool"
  assumes inv_step: "inv s \<Longrightarrow> inv (step op s)"
begin

lemma inv_run: "inv s \<Longrightarrow> inv (fold step ops s)"
  by (induction ops arbitrary: s) (simp_all add: inv_step)

end

locale simulation = state_machine +
  fixes abs :: "'b \<Rightarrow> 'c"
    and astep :: "'c \<Rightarrow> 'c \<Rightarrow> bool"
  assumes sim_step: "inv s \<Longrightarrow> astep (abs s) (abs (step op s))"
begin

lemma sim_run: "inv s \<Longrightarrow> astep\<^sup>*\<^sup>* (abs s) (abs (fold step ops s))"
proof (induction ops arbitrary: s)
  case (Cons op ops)
  have "astep (abs s) (abs (step op s))" "astep\<^sup>*\<^sup>* (abs (step op s)) (abs (fold step ops (step op s)))"
    using Cons sim_step inv_step by auto
  then show ?case by (simp add: converse_rtranclp_into_rtranclp)
qed simp

end

section \<open>Association lists as finite maps\<close>

text \<open>
  The interface the components see of a keyed store: look up, store, remove.  The redis key space
  and the hashes stored in it both provide it.
\<close>

locale kv_store =
  fixes lookup :: "'m \<Rightarrow> 'k \<Rightarrow> 'v option"
    and store :: "'k \<Rightarrow> 'v \<Rightarrow> 'm \<Rightarrow> 'm"
    and remove :: "'k \<Rightarrow> 'm \<Rightarrow> 'm"
  assumes lookup_store: "lookup (store k v m) = (lookup m)(k := Some v)"
    and lookup_remove: "lookup (remove k m) = (lookup m)(k := None)"
begin

lemma lookup_store_same: "lookup (store k v m) k = Some v"
  by (simp add: lookup_store)

lemma lookup_store_other: "j \<noteq> k \<Longrightarrow> lookup (store k v m) j = lookup m j"
  by (simp add: lookup_store)

lemma lookup_remove_same: "lookup (remove k m) k = None"
  by (simp add: lookup_remove)

lemma lookup_remove_other: "j \<noteq> k \<Longrightarrow> lookup (remove k m) j = lookup m j"
  by (simp add: lookup_remove)

lemma store_twice: "lookup (store k v (store k w m)) = lookup (store k v m)"
  by (simp add: lookup_store)

lemma store_commute: "j \<noteq> k \<Longrightarrow> lookup (store j v (store k w m)) = lookup (store k w (store j v m))"
  by (simp add: lookup_store fun_upd_twist)

lemma dom_store: "dom (lookup (store k v m)) = insert k (dom (lookup m))"
  by (simp add: lookup_store)

lemma dom_remove: "dom (lookup (remove k m)) = dom (lookup m) - {k}"
  by (simp add: lookup_remove)

end

interpretation al: kv_store map_of AList.update AList.delete
  by unfold_locales (simp_all add: update_conv' delete_conv')

lemma map_of_eq_None: "map_of xs k = None \<longleftrightarrow> k \<notin> fst ` set xs"
  by (simp add: map_of_eq_None_iff)

section \<open>Lists\<close>

text \<open>\<open>xs[lo:hi]\<close> of Python for bounds that may be negative or past the end.\<close>

definition py_slice :: "'a list \<Rightarrow> int \<Rightarrow> int \<Rightarrow> 'a list" where
  "py_slice xs lo hi =
     (let n = int (length xs);
          clip = (\<lambda>i. if i < 0 then max 0 (n + i) else min n i)
      in take (nat (clip hi - clip lo)) (drop (nat (clip lo)) xs))"

text \<open>\<open>xs[i]\<close> of Python.\<close>

definition py_nth :: "'a list \<Rightarrow> int \<Rightarrow> exn + 'a" where
  "py_nth xs i =
     (if i < - int (length xs) \<or> int (length xs) \<le> i then Inl IndexError
      else Inr (xs ! nat (i mod int (length xs))))"

lemma length_py_slice_le: "length (py_slice xs lo hi) \<le> length xs"
  by (simp only: py_slice_def Let_def length_take length_drop) linarith

lemma py_slice_prefix: "0 \<le> k \<Longrightarrow> py_slice xs 0 k = take (nat k) xs"
  by (auto simp: py_slice_def Let_def min_def)

lemma py_slice_nat: "py_slice xs (int a) (int b) = take (b - a) (drop a xs)"
proof (cases "a \<le> length xs")
  case True
  then show ?thesis
    by (cases "b \<le> length xs") (auto simp: py_slice_def Let_def min_def nat_diff_distrib' nat_int_add [symmetric])
next
  case False
  then show ?thesis by (simp add: py_slice_def Let_def min_def)
qed

lemma set_py_slice: "set (py_slice xs lo hi) \<subseteq> set xs"
  by (auto simp: py_slice_def Let_def dest: in_set_takeD in_set_dropD)

lemma sum_list_concat: "sum_list (concat xss) = sum_list (map sum_list xss)"
  for xss :: "'a::comm_monoid_add list list"
  by (induction xss) auto

end
