(* ===== verification/XxlArith.thy ===== *)
theory XxlArith
  imports Prelude "HOL-Library.Product_Lexorder"
begin

text \<open>
  The board generator of the match-three game (model/xiaoxiaole_arith.py): the search for straight
  runs of empty cells (\<open>CheckBeeLine\<close>), the table of bent five-cell shapes (\<open>get_Type_L\<close>) and
  \<open>Maths_Mgr\<close>, which plants the runs it is asked for and fills the rest of the board so that no
  further run can appear.

  A board is the list of its rows; a cell holds 0 while it is empty and a figure 1..5 after.
  Randomness is a tape of naturals: \<open>random.choice(xs)\<close> consumes one number \<open>r\<close> and returns
  \<open>xs[r mod len(xs)]\<close>, so every outcome of the code is the outcome of some tape.
\<close>

section \<open>Boards\<close>

type_synonym board = "int list list"
type_synonym point = "nat \<times> nat"

text \<open>Points stay whole in quantified statements.\<close>

declare split_paired_All [simp del] split_paired_Ex [simp del]

definition HEIGHT :: nat where "HEIGHT = 8"
definition WIDTH :: nat where "WIDTH = 8"
definition TYPECount :: nat where "TYPECount = 5"

lemmas board_consts [simp] = HEIGHT_def WIDTH_def TYPECount_def

definition TYPE_BB :: "int list" where
  "TYPE_BB = map int [1..<TYPECount + 1]"

definition getZeros :: board where
  "getZeros = replicate HEIGHT (replicate WIDTH 0)"

definition on_board :: "point \<Rightarrow> bool" where
  "on_board c \<longleftrightarrow> fst c < HEIGHT \<and> snd c < WIDTH"

definition wf_board :: "board \<Rightarrow> bool" where
  "wf_board t \<longleftrightarrow> length t = HEIGHT \<and> (\<forall>r \<in> set t. length r = WIDTH)"

definition cell :: "board \<Rightarrow> point \<Rightarrow> int" where
  "cell t c = t ! fst c ! snd c"

definition set_cell :: "board \<Rightarrow> point \<Rightarrow> int \<Rightarrow> board" where
  "set_cell t c v = t[fst c := (t ! fst c)[snd c := v]]"

lemma wf_getZeros [simp]: "wf_board getZeros"
  by (simp add: wf_board_def getZeros_def)

lemma cell_getZeros [simp]: "on_board c \<Longrightarrow> cell getZeros c = 0"
  by (simp add: cell_def getZeros_def on_board_def)

lemma wf_set_cell [simp]:
  assumes "wf_board t" shows "wf_board (set_cell t c v)"
proof (cases "fst c < length t")
  case True
  then have "length (t ! fst c) = WIDTH" using assms by (auto simp: wf_board_def)
  then have "\<forall>r \<in> set (set_cell t c v). length r = WIDTH"
    using assms set_update_subset_insert [of t "fst c" "(t ! fst c)[snd c := v]"]
    by (auto simp: wf_board_def set_cell_def)
  then show ?thesis using assms by (simp add: wf_board_def set_cell_def)
next
  case False
  then show ?thesis using assms by (simp add: set_cell_def list_update_beyond)
qed

lemma cell_set_cell:
  assumes "wf_board t" "on_board c" "on_board d"
  shows "cell (set_cell t c v) d = (if d = c then v else cell t d)"
proof -
  have "length (t ! fst c) = WIDTH" "fst c < length t"
    using assms by (auto simp: wf_board_def on_board_def)
  then show ?thesis
    using assms by (auto simp: cell_def set_cell_def on_board_def nth_list_update prod_eq_iff)
qed

text \<open>Cells in the order \<open>for x in xrange(HEIGHT): for y in xrange(WIDTH)\<close> visits them.\<close>

definition scan :: "point list" where
  "scan = [(x, y). x \<leftarrow> [0..<HEIGHT], y \<leftarrow> [0..<WIDTH]]"

lemma set_scan: "set scan = {c. on_board c}"
  by (auto simp: scan_def on_board_def)

section \<open>Randomness\<close>

type_synonym 'a rnd = "(nat list, 'a) handler"

definition next_rand :: "nat rnd" where
  "next_rand = (\<lambda>tape. case tape of [] \<Rightarrow> (Inr 0, []) | r # rest \<Rightarrow> (Inr r, rest))"

definition choice :: "'a list \<Rightarrow> 'a rnd" where
  "choice xs = bindM next_rand (\<lambda>r.
     if xs = [] then raiseM IndexError else retM (xs ! (r mod length xs)))"

text \<open>\<open>random.shuffle\<close>: for \<open>i\<close> from the last index down to 1, swap with a random earlier one.\<close>

definition swap :: "'a list \<Rightarrow> nat \<Rightarrow> nat \<Rightarrow> 'a list" where
  "swap xs i j = xs[i := xs ! j, j := xs ! i]"

fun shuffle_from :: "nat \<Rightarrow> 'a list \<Rightarrow> 'a list rnd" where
  "shuffle_from 0 xs = retM xs"
| "shuffle_from (Suc i) xs =
     bindM next_rand (\<lambda>r. shuffle_from i (swap xs (Suc i) (r mod (Suc i + 1))))"

definition shuffle :: "'a list \<Rightarrow> 'a list rnd" where
  "shuffle xs = shuffle_from (length xs - 1) xs"

section \<open>Bent shapes\<close>

definition Sort_point :: "point list \<Rightarrow> point list" where
  "Sort_point ps = sort ps"

definition bent :: "nat \<Rightarrow> nat \<Rightarrow> nat \<Rightarrow> nat \<Rightarrow> nat \<Rightarrow> nat \<Rightarrow> point list" where
  "bent ax ay lenX lenY x y =
     Sort_point (remdups (map (\<lambda>j. (ax + x, ay + j)) [0..<lenY] @ map (\<lambda>i. (ax + i, ay + y)) [0..<lenX]))"

definition append_new :: "'a list \<Rightarrow> 'a \<Rightarrow> 'a list" where
  "append_new xs x = (if x \<in> set xs then xs else xs @ [x])"

definition bents :: "int \<Rightarrow> int \<Rightarrow> nat \<Rightarrow> nat \<Rightarrow> point list list" where
  "bents endX endY lenX lenY =
     [bent ax ay lenX lenY x y. ax \<leftarrow> [0..<nat endX], ay \<leftarrow> [0..<nat endY], x \<leftarrow> [0..<lenX], y \<leftarrow> [0..<lenY]]"

fun type_l_loop :: "int \<Rightarrow> int \<Rightarrow> (nat \<times> nat) list \<Rightarrow> point list list \<Rightarrow> point list list" where
  "type_l_loop xr yr [] res = res"
| "type_l_loop xr yr ((lenX, lenY) # ls) res =
     (let endX = xr - int lenX + 1; endY = yr - int lenY + 1
      in if endX < 0 \<or> endY < 0 then []
         else type_l_loop xr yr ls (foldl append_new res (bents endX endY lenX lenY)))"

definition get_Type_L :: "int \<Rightarrow> int \<Rightarrow> nat \<Rightarrow> point list list" where
  "get_Type_L xr yr len_count =
     (if len_count < 5 \<or> len_count > 15 then []
      else type_l_loop xr yr
        (if len_count mod 2 = 0
         then [(len_count div 2, len_count div 2 + 1), (len_count div 2 + 1, len_count div 2)]
         else [((len_count + 1) div 2, (len_count + 1) div 2)]) [])"

definition Type_Five_L_ALL :: "point list list" where
  "Type_Five_L_ALL = get_Type_L 8 8 5"

section \<open>Straight runs of empty cells\<close>

datatype axis = X | Y

text \<open>The next cell along the axis, and the one before, when they are on the board.\<close>

fun fwd :: "axis \<Rightarrow> point \<Rightarrow> point option" where
  "fwd Y (x, y) = (if y + 1 < WIDTH then Some (x, y + 1) else None)"
| "fwd X (x, y) = (if x + 1 < HEIGHT then Some (x + 1, y) else None)"

fun bwd :: "axis \<Rightarrow> point \<Rightarrow> point option" where
  "bwd Y (x, y) = (if 0 < y then Some (x, y - 1) else None)"
| "bwd X (x, y) = (if 0 < x then Some (x - 1, y) else None)"

text \<open>
  \<open>getNear\<close>: mark the cell, then follow the axis forward and backward through cells that are
  still 0, appending them to the shared list \<open>Points\<close>.  The fuel bounds the depth of the
  recursion; \<open>None\<close> would be "out of fuel" and never happens from \<open>run\<close> (\<open>get_near_run\<close>).
\<close>

fun get_near :: "nat \<Rightarrow> axis \<Rightarrow> point \<Rightarrow> board \<times> point list \<Rightarrow> (board \<times> point list) option" where
  "get_near 0 a c st = None"
| "get_near (Suc n) a c (t, ps) =
     (let try = (\<lambda>nb (t, ps). case nb of
          None \<Rightarrow> Some (t, ps)
        | Some d \<Rightarrow> if cell t d = 0 \<and> d \<notin> set ps then get_near n a d (t, ps @ [d]) else Some (t, ps))
      in Option.bind (try (fwd a c) (set_cell t c 1, ps)) (try (bwd a c)))"

definition depth :: nat where "depth = HEIGHT + WIDTH"

definition dict_append :: "nat \<Rightarrow> 'a \<Rightarrow> (nat \<times> 'a list) list \<Rightarrow> (nat \<times> 'a list) list" where
  "dict_append k v d = AList.update k ((case map_of d k of None \<Rightarrow> [] | Some vs \<Rightarrow> vs) @ [v]) d"

type_synonym tiles = "(nat \<times> point list list) list"

definition bee_step :: "axis \<Rightarrow> nat \<Rightarrow> (board \<times> tiles) option \<Rightarrow> point \<Rightarrow> (board \<times> tiles) option" where
  "bee_step a minLen st c = Option.bind st (\<lambda>(t, d).
     if cell t c \<noteq> 0 then Some (t, d)
     else Option.bind (get_near depth a c (t, [c])) (\<lambda>(t', ps).
       if minLen \<le> length ps
       then Some (set_cell (foldl (\<lambda>b p. set_cell b p 1) t' ps) c 1, dict_append (length ps) ps d)
       else Some (set_cell t' c 1, d)))"

definition CheckBeeLine :: "board \<Rightarrow> axis \<Rightarrow> nat \<Rightarrow> tiles option" where
  "CheckBeeLine t a minLen = map_option snd (foldl (bee_step a minLen) (Some (t, [])) scan)"

end
