(* ===== verification/XxlRuns.thy ===== *)
theory XxlRuns
  imports XxlArith
begin

text \<open>
  Correctness of \<open>CheckBeeLine\<close>: it never runs out of fuel, every list of cells it reports is a
  maximal straight run of empty cells of the asked length at least, and every empty cell lies in
  a maximal run that is reported when it is long enough.
\<close>

section \<open>Rays\<close>

fun shift :: "axis \<Rightarrow> point \<Rightarrow> nat \<Rightarrow> point" where
  "shift Y (x, y) k = (x, y + k)"
| "shift X (x, y) k = (x + k, y)"

definition ray :: "axis \<Rightarrow> point \<Rightarrow> nat \<Rightarrow> point list" where
  "ray a c n = map (shift a c) [0..<n]"

lemma shift_0 [simp]: "shift a c 0 = c"
  by (cases a; cases c) auto

lemma shift_shift [simp]: "shift a (shift a c i) j = shift a c (i + j)"
  by (cases a; cases c) auto

lemma shift_inj [simp]: "shift a c i = shift a c j \<longleftrightarrow> i = j"
  by (cases a; cases c) auto

lemma fwd_on_board: "on_board c \<Longrightarrow> fwd a c = (if on_board (shift a c (Suc 0)) then Some (shift a c (Suc 0)) else None)"
  by (cases a; cases c) (auto simp: on_board_def)

lemma bwd_fwd: "on_board c \<Longrightarrow> bwd a c = Some d \<longleftrightarrow> on_board d \<and> shift a d (Suc 0) = c"
  by (cases a; cases c; cases d) (auto simp: on_board_def)

lemma shift_ne: "0 < k \<Longrightarrow> shift a c k \<noteq> c"
  by (cases a; cases c) auto

lemma off_board: "\<not> on_board (shift a c 8)"
  by (cases a; cases c) (auto simp: on_board_def)

lemma shift_back_ne: "shift a d (Suc 0) = c \<Longrightarrow> d \<noteq> shift a c k"
  by (cases a; cases c; cases d) auto

lemma length_ray [simp]: "length (ray a c n) = n"
  by (simp add: ray_def)

lemma set_ray: "set (ray a c n) = shift a c ` {..<n}"
  by (auto simp: ray_def)

lemma ray_Suc: "ray a c (Suc n) = c # map (shift a c) [1..<Suc n]"
  by (simp add: ray_def upt_rec del: upt_Suc)

lemma sorted_ray: "sorted (ray a c n)"
  by (cases a; cases c) (auto simp: ray_def sorted_iff_nth_mono)

lemma take_drop_ray: "take m (drop i (ray a c n)) = ray a (shift a c i) (min m (n - i))"
  by (intro nth_equalityI) (auto simp: ray_def nth_drop)

section \<open>\<open>getNear\<close> on a run\<close>

definition empty_run :: "board \<Rightarrow> axis \<Rightarrow> point \<Rightarrow> nat \<Rightarrow> bool" where
  "empty_run t a c n \<longleftrightarrow> (\<forall>k < n. on_board (shift a c k) \<and> cell t (shift a c k) = 0)"

definition stops_after :: "board \<Rightarrow> axis \<Rightarrow> point \<Rightarrow> bool" where
  "stops_after t a c \<longleftrightarrow> (\<forall>d. fwd a c = Some d \<longrightarrow> cell t d \<noteq> 0)"

definition stops_before :: "board \<Rightarrow> axis \<Rightarrow> point \<Rightarrow> bool" where
  "stops_before t a c \<longleftrightarrow> (\<forall>d. bwd a c = Some d \<longrightarrow> cell t d \<noteq> 0)"

definition mark :: "board \<Rightarrow> point set \<Rightarrow> board \<Rightarrow> bool" where
  "mark t ps t' \<longleftrightarrow> wf_board t' \<and> (\<forall>d. on_board d \<longrightarrow> cell t' d = (if d \<in> ps then 1 else cell t d))"

lemma get_near_run:
  assumes "wf_board t" "0 < n" "n \<le> fuel" "empty_run t a c n" "stops_after t a (shift a c (n - 1))"
    "stops_before t a c" "\<And>k. 0 < k \<Longrightarrow> k < n \<Longrightarrow> shift a c k \<notin> set ps"
  shows "\<exists>t'. get_near fuel a c (t, ps) = Some (t', ps @ map (shift a c) [1..<n])
              \<and> mark t (set (ray a c n)) t'"
  using assms
proof (induction n arbitrary: fuel c t ps)
  case (Suc n)
  then obtain f where f: "fuel = Suc f" by (cases fuel) auto
  let ?t1 = "set_cell t c 1"
  have c: "on_board c" "cell t c = 0"
    using Suc.prems(4) unfolding empty_run_def by (metis shift_0 zero_less_Suc)+
  have t1: "cell ?t1 d = (if d = c then 1 else cell t d)" if "on_board d" for d
    using Suc.prems(1) c(1) that by (rule cell_set_cell)
  have bw: "cell t d \<noteq> 0" "on_board d" "d \<noteq> c" if "bwd a c = Some d" for d
  proof -
    show "cell t d \<noteq> 0" using that Suc.prems(6) unfolding stops_before_def by blast
    show "on_board d" "d \<noteq> c"
      using that shift_ne [of "Suc 0" a d] bwd_fwd [OF c(1), of a d] by auto
  qed
  show ?case
  proof (cases n)
    case 0
    have fw: "cell ?t1 d \<noteq> 0" if "fwd a c = Some d" for d
      using that Suc.prems(5) 0 c t1 [of d] unfolding stops_after_def
      by (auto simp: fwd_on_board split: if_splits)
    have "get_near fuel a c (t, ps) = Some (?t1, ps)"
      using fw bw t1 by (auto simp: f Let_def split: option.split)
    moreover have "mark t (set (ray a c (Suc n))) ?t1"
      using t1 Suc.prems(1) by (auto simp: mark_def 0 set_ray lessThan_Suc)
    ultimately show ?thesis by (simp add: 0)
  next
    case (Suc m)
    let ?c = "shift a c (Suc 0)"
    have cells: "on_board (shift a c k)" "cell t (shift a c k) = 0" if "k \<le> n" for k
      using Suc.prems(4) that unfolding empty_run_def by auto
    have on: "on_board ?c" "cell t ?c = 0" using cells [of "Suc 0"] Suc by auto
    have zc: "cell ?t1 ?c = 0" using on t1 shift_ne [of "Suc 0" a c] by simp
    have new: "?c \<notin> set ps" using Suc.prems(7) [of "Suc 0"] Suc by simp
    have run: "empty_run ?t1 a ?c n"
      unfolding empty_run_def
    proof (intro allI impI)
      fix k assume "k < n"
      then show "on_board (shift a ?c k) \<and> cell ?t1 (shift a ?c k) = 0"
        using cells [of "Suc k"] t1 [of "shift a c (Suc k)"] shift_ne [of "Suc k" a c] by simp
    qed
    have last: "shift a ?c (n - 1) = shift a c n" using Suc by simp
    have after: "stops_after ?t1 a (shift a c n)"
      unfolding stops_after_def
    proof (intro allI impI)
      fix d assume d: "fwd a (shift a c n) = Some d"
      then have "on_board d" "d = shift a c (Suc n)"
        using cells [of n] by (auto simp: fwd_on_board split: if_splits)
      then show "cell ?t1 d \<noteq> 0"
        using d Suc.prems(5) t1 [of d] shift_ne [of "Suc n" a c] by (simp add: stops_after_def)
    qed
    have before: "stops_before ?t1 a ?c"
      unfolding stops_before_def
    proof (intro allI impI)
      fix d assume "bwd a ?c = Some d"
      then have "shift a d (Suc 0) = ?c" "on_board d" using on(1) by (auto simp: bwd_fwd)
      then have "d = c" by (cases a; cases d; cases c) auto
      then show "cell ?t1 d \<noteq> 0" using t1 c by simp
    qed
    have fresh: "shift a ?c k \<notin> set (ps @ [?c])" if "0 < k" "k < n" for k
      using that Suc.prems(7) [of "Suc k"] by simp
    obtain t' where t': "get_near f a ?c (?t1, ps @ [?c]) = Some (t', (ps @ [?c]) @ map (shift a ?c) [1..<n])"
        and mk: "mark ?t1 (set (ray a ?c n)) t'"
      using Suc.IH [OF _ _ _ run, of f "ps @ [?c]"] after before fresh Suc.prems(1,3) Suc f last by auto
    have tail: "[?c] @ map (shift a ?c) [1..<n] = map (shift a c) [1..<Suc n]"
    proof -
      have "map (shift a ?c) [1..<n] = map (shift a c) (map Suc [1..<n])" by simp
      then show ?thesis using Suc by (simp add: map_Suc_upt upt_conv_Cons [of "Suc 0"] del: map_map upt_Suc)
    qed
    have ray: "set (ray a c (Suc n)) = insert c (set (ray a ?c n))"
      by (auto simp: set_ray lessThan_Suc_eq_insert_0 image_image)
    have mark: "mark t (set (ray a c (Suc n))) t'"
      using mk t1 unfolding ray mark_def by auto
    have "get_near fuel a c (t, ps) = Some (t', (ps @ [?c]) @ map (shift a ?c) [1..<n])"
    proof -
      have "cell t' d \<noteq> 0" if "bwd a c = Some d" for d
        using bw [OF that] mark by (auto simp: mark_def)
      moreover have "fwd a c = Some ?c" using c on by (simp add: fwd_on_board)
      ultimately show ?thesis using t' zc new by (auto simp: f Let_def split: option.split)
    qed
    then show ?thesis using mark tail by auto
  qed
qed simp

section \<open>The whole scan\<close>

text \<open>A maximal straight run of empty cells of \<open>t\<close>.\<close>

definition maximal_run :: "board \<Rightarrow> axis \<Rightarrow> point list \<Rightarrow> bool" where
  "maximal_run t a ps \<longleftrightarrow> (\<exists>c n. 0 < n \<and> ps = ray a c n \<and> empty_run t a c n \<and>
     stops_before t a c \<and> stops_after t a (shift a c (n - 1)))"

lemma maximal_run_exists:
  assumes "on_board c" "cell t c = 0"
  obtains n where "0 < n" "n \<le> 8" "empty_run t a c n" "stops_after t a (shift a c (n - 1))"
proof -
  let ?P = "\<lambda>k. \<not> (on_board (shift a c k) \<and> cell t (shift a c k) = 0)"
  define n where "n = (LEAST k. ?P k)"
  have P8: "?P 8" by (simp add: off_board)
  have Pn: "?P n" unfolding n_def by (rule LeastI [of ?P, OF P8])
  have below: "on_board (shift a c k) \<and> cell t (shift a c k) = 0" if "k < n" for k
    using not_less_Least [of k ?P] that by (auto simp: n_def)
  have n8: "n \<le> 8" unfolding n_def by (rule Least_le [of ?P, OF P8])
  have n0: "0 < n"
  proof (rule ccontr)
    assume "\<not> 0 < n"
    with Pn assms show False by simp
  qed
  have "stops_after t a (shift a c (n - 1))"
    unfolding stops_after_def
  proof (intro allI impI)
    fix d assume d: "fwd a (shift a c (n - 1)) = Some d"
    have "on_board (shift a c (n - 1))" using below [of "n - 1"] n0 by simp
    with d n0 have "on_board d" "d = shift a c n"
      by (auto simp: fwd_on_board split: if_splits)
    with Pn show "cell t d \<noteq> 0" by simp
  qed
  with n0 n8 below that show ?thesis by (auto simp: empty_run_def)
qed

lemma sorted_scan: "sorted scan"
  by (simp add: scan_def upt_rec)

lemma scan_before:
  assumes "scan = pre @ c # post" "on_board c" "bwd a c = Some d"
  shows "d \<in> set pre"
proof -
  have "on_board d" "shift a d (Suc 0) = c" using assms by (auto simp: bwd_fwd)
  then have "d \<in> set scan" "d < c"
    by (cases a; cases d; cases c; auto simp: set_scan)+
  moreover have "\<forall>e \<in> set (c # post). c \<le> e"
    using sorted_scan unfolding assms(1) sorted_append by simp
  ultimately have "d \<notin> set (c # post)" by (metis leD)
  with \<open>d \<in> set scan\<close> show ?thesis unfolding assms(1) by auto
qed

definition lines :: "tiles \<Rightarrow> point list set" where
  "lines d = (\<Union>(l, pss) \<in> set d. set pss)"

lemma lines_dict_append: "lines (dict_append k v d) \<subseteq> insert v (lines d)"
  and lines_dict_append_new: "v \<in> lines (dict_append k v d)"
  by (induction d) (auto simp: lines_def dict_append_def split: if_splits option.splits)

lemma lines_dict_append_old: "lines d \<subseteq> lines (dict_append k v d)"
  by (induction d) (auto simp: lines_def dict_append_def split: if_splits option.splits)

definition scan_inv :: "axis \<Rightarrow> nat \<Rightarrow> board \<Rightarrow> point set \<Rightarrow> board \<Rightarrow> tiles \<Rightarrow> bool" where
  "scan_inv a m t0 dn t d \<longleftrightarrow> wf_board t \<and>
     (\<forall>c. on_board c \<longrightarrow> cell t c \<noteq> cell t0 c \<longrightarrow> cell t0 c = 0 \<and> cell t c = 1) \<and>
     (\<forall>c. on_board c \<longrightarrow> on_board (shift a c (Suc 0)) \<longrightarrow> cell t0 c = 0 \<longrightarrow> cell t0 (shift a c (Suc 0)) = 0 \<longrightarrow>
        (cell t c = 0 \<longleftrightarrow> cell t (shift a c (Suc 0)) = 0)) \<and>
     (\<forall>c. on_board c \<longrightarrow> c \<in> dn \<longrightarrow> cell t c \<noteq> 0) \<and>
     (\<forall>ps \<in> lines d. maximal_run t0 a ps \<and> m \<le> length ps) \<and>
     (\<forall>c. on_board c \<longrightarrow> cell t0 c = 0 \<longrightarrow> cell t c \<noteq> 0 \<longrightarrow>
        (\<exists>ps. c \<in> set ps \<and> maximal_run t0 a ps \<and> (m \<le> length ps \<longrightarrow> ps \<in> lines d)))"

lemma wf_foldl_mark: "wf_board t \<Longrightarrow> wf_board (foldl (\<lambda>b p. set_cell b p v) t ps)"
  by (induction ps arbitrary: t) auto

lemma cell_foldl_mark:
  assumes "wf_board t" "\<forall>p \<in> set ps. on_board p" "on_board d"
  shows "cell (foldl (\<lambda>b p. set_cell b p v) t ps) d = (if d \<in> set ps then v else cell t d)"
    and "wf_board (foldl (\<lambda>b p. set_cell b p v) t ps)"
  using assms by (induction ps arbitrary: t) (auto simp: cell_set_cell)

text \<open>What one visit of an unmarked cell finds.\<close>

lemma visit_run:
  assumes inv: "scan_inv a m t0 (set pre) t d" and sc: "scan = pre @ c # post"
    and z: "cell t c = 0"
  obtains n t' where "0 < n" "maximal_run t0 a (ray a c n)" "empty_run t a c n"
    "get_near depth a c (t, [c]) = Some (t', ray a c n)" "mark t (set (ray a c n)) t'"
    "\<forall>e. fwd a (shift a c (n - 1)) = Some e \<longrightarrow> cell t0 e \<noteq> 0"
    "\<forall>e. bwd a c = Some e \<longrightarrow> cell t0 e \<noteq> 0"
proof -
  have c: "on_board c" using sc set_scan by (metis in_set_conv_decomp mem_Collect_eq)
  have wf: "wf_board t" using inv by (simp add: scan_inv_def)
  obtain n where n: "0 < n" "n \<le> 8" "empty_run t a c n" "stops_after t a (shift a c (n - 1))"
    using maximal_run_exists [OF c z] by blast
  have before: "cell t e \<noteq> 0" "on_board e" "shift a e (Suc 0) = c" if "bwd a c = Some e" for e
  proof -
    show e: "on_board e" "shift a e (Suc 0) = c" using that c by (auto simp: bwd_fwd)
    have "e \<in> set pre" using sc c that by (rule scan_before)
    with e inv show "cell t e \<noteq> 0" by (simp add: scan_inv_def)
  qed
  have same: "cell t0 e = 0" if "on_board e" "cell t e = 0" for e
    using inv that unfolding scan_inv_def by (metis zero_neq_one)
  have closed: "cell t e = 0 \<longleftrightarrow> cell t (shift a e (Suc 0)) = 0"
    if "on_board e" "on_board (shift a e (Suc 0))" "cell t0 e = 0" "cell t0 (shift a e (Suc 0)) = 0" for e
    using inv that unfolding scan_inv_def by blast
  have run0: "empty_run t0 a c n" using n(3) same by (auto simp: empty_run_def)
  have last: "on_board (shift a c (n - 1))" "cell t (shift a c (n - 1)) = 0"
    using n(1,3) by (auto simp: empty_run_def)
  have fw0: "cell t0 e \<noteq> 0" if f: "fwd a (shift a c (n - 1)) = Some e" for e
  proof
    assume z0: "cell t0 e = 0"
    have e: "on_board e" "e = shift a (shift a c (n - 1)) (Suc 0)"
      using f last(1) by (auto simp: fwd_on_board split: if_splits)
    have "cell t e = 0" using closed [OF last(1)] e z0 last same [OF last] by auto
    then show False using n(4) f by (simp add: stops_after_def)
  qed
  have bw0: "cell t0 e \<noteq> 0" if b: "bwd a c = Some e" for e
    using before [OF b] closed [of e] c z same [OF c z] by auto
  have "\<exists>t'. get_near depth a c (t, [c]) = Some (t', [c] @ map (shift a c) [1..<n])
              \<and> mark t (set (ray a c n)) t'"
  proof (rule get_near_run [OF wf n(1) _ n(3,4)])
    show "stops_before t a c" using before by (simp add: stops_before_def)
    show "shift a c k \<notin> set [c]" if "0 < k" "k < n" for k using that shift_ne by simp
  qed (use n(2) in \<open>simp add: depth_def\<close>)
  moreover have "[c] @ map (shift a c) [1..<n] = ray a c n"
    using n(1) ray_Suc [of a c "n - 1"] by simp
  moreover have "maximal_run t0 a (ray a c n)"
    unfolding maximal_run_def stops_before_def stops_after_def using n(1) run0 fw0 bw0 by blast
  ultimately obtain t' where "get_near depth a c (t, [c]) = Some (t', ray a c n)"
      "mark t (set (ray a c n)) t'" "maximal_run t0 a (ray a c n)" by metis
  then show ?thesis using that [of n t'] n(1,3) fw0 bw0 by blast
qed

lemma bee_step_inv:
  assumes inv: "scan_inv a m t0 (set pre) t d" and sc: "scan = pre @ c # post"
  shows "\<exists>t' d'. bee_step a m (Some (t, d)) c = Some (t', d') \<and> scan_inv a m t0 (set (pre @ [c])) t' d'"
proof (cases "cell t c = 0")
  case False
  then have "scan_inv a m t0 (set (pre @ [c])) t d"
    using inv unfolding scan_inv_def by simp
  then show ?thesis using False by (simp add: bee_step_def)
next
  case True
  obtain n t1 where n: "0 < n" and mx: "maximal_run t0 a (ray a c n)" and er: "empty_run t a c n"
    and near: "get_near depth a c (t, [c]) = Some (t1, ray a c n)" and mk: "mark t (set (ray a c n)) t1"
    and fw0: "\<forall>e. fwd a (shift a c (n - 1)) = Some e \<longrightarrow> cell t0 e \<noteq> 0"
    and bw0: "\<forall>e. bwd a c = Some e \<longrightarrow> cell t0 e \<noteq> 0"
    using visit_run [OF inv sc True] by metis
  let ?ps = "ray a c n"
  let ?d = "if m \<le> n then dict_append n ?ps d else d"
  define t2 where "t2 = (if m \<le> n then set_cell (foldl (\<lambda>b p. set_cell b p 1) t1 ?ps) c 1 else set_cell t1 c 1)"
  have c: "on_board c" using sc set_scan by (metis in_set_conv_decomp mem_Collect_eq)
  have cin: "c \<in> set ?ps" using n by (auto simp: set_ray intro!: image_eqI [of _ _ 0])
  have on: "on_board p" "cell t p = 0" if "p \<in> set ?ps" for p
    using er that by (auto simp: empty_run_def set_ray)
  have wf1: "wf_board t1" using mk by (simp add: mark_def)
  have t2: "cell t2 e = (if e \<in> set ?ps then 1 else cell t e)" if "on_board e" for e
    using that mk cin cell_foldl_mark [OF wf1, of ?ps] on
    by (auto simp: t2_def mark_def cell_set_cell [OF _ c] wf1)
  have wf2: "wf_board t2" using cell_foldl_mark(2) [OF wf1, of ?ps c] on c wf1 by (auto simp: t2_def)
  have eq: "bee_step a m (Some (t, d)) c = Some (t2, ?d)"
    using True near by (simp add: bee_step_def t2_def)
  have z0: "cell t0 p = 0" if "on_board p" "cell t p = 0" for p
    using inv that unfolding scan_inv_def by (metis zero_neq_one)
  have closed: "cell t2 p = 0 \<longleftrightarrow> cell t2 (shift a p (Suc 0)) = 0"
    if p: "on_board p" "on_board (shift a p (Suc 0))" "cell t0 p = 0" "cell t0 (shift a p (Suc 0)) = 0" for p
  proof -
    have "p \<in> set ?ps \<longleftrightarrow> shift a p (Suc 0) \<in> set ?ps"
    proof
      assume "p \<in> set ?ps"
      then obtain k where k: "k < n" "p = shift a c k" by (auto simp: set_ray)
      have "k \<noteq> n - 1" using fw0 p k by (auto simp: fwd_on_board)
      with k show "shift a p (Suc 0) \<in> set ?ps" by (auto simp: set_ray intro!: image_eqI [of _ _ "Suc k"])
    next
      assume "shift a p (Suc 0) \<in> set ?ps"
      then obtain k where k: "k < n" "shift a p (Suc 0) = shift a c k" by (auto simp: set_ray)
      have "k \<noteq> 0" using bw0 p k c by (auto simp: bwd_fwd)
      with k have "p = shift a c (k - 1)" by (cases a; cases p; cases c) auto
      with k show "p \<in> set ?ps" by (auto simp: set_ray)
    qed
    moreover have "cell t p = 0 \<longleftrightarrow> cell t (shift a p (Suc 0)) = 0"
      using inv p unfolding scan_inv_def by blast
    ultimately show ?thesis using p t2 by simp
  qed
  have "scan_inv a m t0 (set (pre @ [c])) t2 ?d"
    unfolding scan_inv_def
  proof (intro conjI)
    show "\<forall>e. on_board e \<longrightarrow> cell t2 e \<noteq> cell t0 e \<longrightarrow> cell t0 e = 0 \<and> cell t2 e = 1"
    proof (intro allI impI)
      fix e assume e: "on_board e" "cell t2 e \<noteq> cell t0 e"
      show "cell t0 e = 0 \<and> cell t2 e = 1"
      proof (cases "e \<in> set ?ps")
        case True
        then show ?thesis using e t2 z0 on by simp
      next
        case False
        then show ?thesis using e t2 inv unfolding scan_inv_def by simp
      qed
    qed
    show "\<forall>e. on_board e \<longrightarrow> e \<in> set (pre @ [c]) \<longrightarrow> cell t2 e \<noteq> 0"
      using inv t2 cin unfolding scan_inv_def by auto
    show "\<forall>ps \<in> lines ?d. maximal_run t0 a ps \<and> m \<le> length ps"
      using inv mx lines_dict_append [of n ?ps d] unfolding scan_inv_def by (auto split: if_splits)
    show "\<forall>e. on_board e \<longrightarrow> cell t0 e = 0 \<longrightarrow> cell t2 e \<noteq> 0 \<longrightarrow>
        (\<exists>ps. e \<in> set ps \<and> maximal_run t0 a ps \<and> (m \<le> length ps \<longrightarrow> ps \<in> lines ?d))"
    proof (intro allI impI)
      fix e assume e: "on_board e" "cell t0 e = 0" "cell t2 e \<noteq> 0"
      show "\<exists>ps. e \<in> set ps \<and> maximal_run t0 a ps \<and> (m \<le> length ps \<longrightarrow> ps \<in> lines ?d)"
      proof (cases "e \<in> set ?ps")
        case True
        then show ?thesis using mx lines_dict_append_new by (intro exI [of _ ?ps]) auto
      next
        case False
        then have "cell t e \<noteq> 0" using e t2 by simp
        then obtain ps where "e \<in> set ps" "maximal_run t0 a ps" "m \<le> length ps \<longrightarrow> ps \<in> lines d"
          using inv e unfolding scan_inv_def by blast
        then show ?thesis using lines_dict_append_old [of d n ?ps] by (intro exI [of _ ps]) auto
      qed
    qed
  qed (use wf2 closed in auto)
  then show ?thesis using eq by blast
qed

lemma bee_scan_inv:
  assumes "scan_inv a m t0 (set pre) t d" "scan = pre @ cs"
  shows "\<exists>t' d'. foldl (bee_step a m) (Some (t, d)) cs = Some (t', d') \<and> scan_inv a m t0 (set scan) t' d'"
  using assms
proof (induction cs arbitrary: pre t d)
  case (Cons c cs)
  obtain t' d' where "bee_step a m (Some (t, d)) c = Some (t', d')" "scan_inv a m t0 (set (pre @ [c])) t' d'"
    using bee_step_inv [OF Cons.prems] by blast
  then show ?case using Cons.IH [of "pre @ [c]" t' d'] Cons.prems(2) by simp
qed simp

lemma CheckBeeLine_ok:
  assumes "wf_board t"
  obtains d where "CheckBeeLine t a m = Some d"
    and "\<And>ps. ps \<in> lines d \<Longrightarrow> maximal_run t a ps \<and> m \<le> length ps"
    and "\<And>c. on_board c \<Longrightarrow> cell t c = 0 \<Longrightarrow>
           \<exists>ps. c \<in> set ps \<and> maximal_run t a ps \<and> (m \<le> length ps \<longrightarrow> ps \<in> lines d)"
proof -
  have "scan_inv a m t (set []) t []"
    using assms by (simp add: scan_inv_def lines_def)
  then obtain t' d where r: "foldl (bee_step a m) (Some (t, [])) scan = Some (t', d)"
      "scan_inv a m t (set scan) t' d"
    using bee_scan_inv [of a m t "[]" t "[]" scan] by auto
  show ?thesis
  proof (rule that)
    show "CheckBeeLine t a m = Some d" by (simp add: CheckBeeLine_def r(1))
    show "maximal_run t a ps \<and> m \<le> length ps" if "ps \<in> lines d" for ps
      using r(2) that unfolding scan_inv_def by blast
    show "\<exists>ps. c \<in> set ps \<and> maximal_run t a ps \<and> (m \<le> length ps \<longrightarrow> ps \<in> lines d)"
      if "on_board c" "cell t c = 0" for c
      using r(2) that unfolding scan_inv_def set_scan by blast
  qed
qed

text \<open>Two maximal runs along one axis that share a cell are the same.\<close>

lemma rays_start:
  assumes share: "shift a c i = shift a c' j" "i < n" "j < n'"
    and run: "empty_run t a c n" and stop: "stops_before t a c'" and on: "on_board c'"
  shows "\<exists>k. c = shift a c' k"
proof (rule ccontr)
  assume no: "\<nexists>k. c = shift a c' k"
  have "c' = shift a c (i - j) \<and> j < i"
  proof -
    have "\<not> i \<le> j"
    proof
      assume "i \<le> j"
      then have "c = shift a c' (j - i)" using share(1) by (cases a; cases c; cases c') auto
      with no show False by blast
    qed
    then show ?thesis using share(1) by (cases a; cases c; cases c') auto
  qed
  then obtain k where k: "c' = shift a c (Suc k)" "Suc k < n"
    using share(2) by (metis Suc_diff_Suc diff_le_self le_less_trans)
  then have "on_board (shift a c k)" "cell t (shift a c k) = 0" using run by (auto simp: empty_run_def)
  moreover have "bwd a c' = Some (shift a c k)" using calculation on k by (simp add: bwd_fwd)
  ultimately show False using stop by (simp add: stops_before_def)
qed

lemma run_ends:
  assumes "empty_run t a c n" "stops_after t a (shift a c (m - 1))" "0 < m" "m < n"
  shows False
proof -
  have "on_board (shift a c m)" "cell t (shift a c m) = 0" "on_board (shift a c (m - 1))"
    using assms by (auto simp: empty_run_def)
  then show False using assms(2,3) by (auto simp: stops_after_def fwd_on_board)
qed

lemma maximal_run_unique:
  assumes "maximal_run t a ps" "maximal_run t a qs" "e \<in> set ps" "e \<in> set qs"
  shows "ps = qs"
proof -
  obtain c n where p: "0 < n" "ps = ray a c n" "empty_run t a c n" "stops_before t a c"
    "stops_after t a (shift a c (n - 1))" using assms(1) by (auto simp: maximal_run_def)
  obtain c' n' where q: "0 < n'" "qs = ray a c' n'" "empty_run t a c' n'" "stops_before t a c'"
    "stops_after t a (shift a c' (n' - 1))" using assms(2) by (auto simp: maximal_run_def)
  obtain i j where ij: "shift a c i = shift a c' j" "i < n" "j < n'"
    using assms(3,4) p q by (auto simp: set_ray)
  have on: "on_board c" "on_board c'" using p(1,3) q(1,3) by (metis empty_run_def shift_0)+
  obtain k where "c = shift a c' k" using rays_start [OF ij p(3) q(4) on(2)] by blast
  moreover obtain l where "c' = shift a c l"
    using rays_start [OF ij(1) [symmetric] ij(3,2) q(3) p(4) on(1)] by blast
  ultimately have "shift a c 0 = shift a c (l + k)" by (metis shift_0 shift_shift)
  then have "l = 0" unfolding shift_inj by simp
  with \<open>c' = shift a c l\<close> have eq: "c' = c" by simp
  have "\<not> n' < n" using run_ends [OF p(3), of n'] q(1,5) unfolding eq by blast
  moreover have "\<not> n < n'" using run_ends [OF q(3), of n] p(1,5) unfolding eq by blast
  ultimately show ?thesis using p(2) q(2) eq by (metis linorder_neqE_nat)
qed

text \<open>\<open>CheckBeeLine\<close> against its specification: exactly the maximal runs of the asked length.\<close>

lemma CheckBeeLine_exact:
  assumes "wf_board t"
  obtains d where "CheckBeeLine t a m = Some d"
    and "lines d = {ps. maximal_run t a ps \<and> m \<le> length ps}"
proof -
  obtain d where d: "CheckBeeLine t a m = Some d"
    "\<And>ps. ps \<in> lines d \<Longrightarrow> maximal_run t a ps \<and> m \<le> length ps"
    "\<And>c. on_board c \<Longrightarrow> cell t c = 0 \<Longrightarrow>
       \<exists>ps. c \<in> set ps \<and> maximal_run t a ps \<and> (m \<le> length ps \<longrightarrow> ps \<in> lines d)"
    using CheckBeeLine_ok [OF assms, of a m] by metis
  have "ps \<in> lines d" if ps: "maximal_run t a ps" "m \<le> length ps" for ps
  proof -
    obtain c n where cn: "0 < n" "ps = ray a c n" "empty_run t a c n"
      using ps(1) by (auto simp: maximal_run_def)
    then have "c \<in> set ps" "on_board c" "cell t c = 0"
      by (auto simp: set_ray empty_run_def intro!: image_eqI [of _ _ 0] dest: spec [of _ 0])
    with d(3) [of c] ps maximal_run_unique show ?thesis by metis
  qed
  with d show ?thesis using that by blast
qed

end
