(* ===== verification/XxlMaths.thy ===== *)
theory XxlMaths
  imports XxlRuns
begin

text \<open>
  \<open>Maths_Mgr\<close> of model/xiaoxiaole_arith.py: plant the requested runs, longest first, then
  \<open>full_table\<close>.  The state is the board and the tape of random numbers.
\<close>

section \<open>State and helpers\<close>

type_synonym 'a mm = "(board \<times> nat list, 'a) handler"

definition lift_rnd :: "'a rnd \<Rightarrow> 'a mm" where
  "lift_rnd m = (\<lambda>(t, tape). case m tape of (r, tape') \<Rightarrow> (r, (t, tape')))"

definition get_tab :: "board mm" where
  "get_tab = (\<lambda>(t, tape). (Inr t, (t, tape)))"

definition put_tab :: "board \<Rightarrow> unit mm" where
  "put_tab t = (\<lambda>(_, tape). (Inr (), (t, tape)))"

definition checkAllIn :: "board \<Rightarrow> point list \<Rightarrow> bool" where
  "checkAllIn t ps = list_all (\<lambda>p. cell t p = 0) ps"

definition Set_type :: "int \<Rightarrow> point list \<Rightarrow> board \<Rightarrow> board" where
  "Set_type ty ps t = foldl (\<lambda>b p. set_cell b p ty) t ps"

section \<open>Choosing the cells of a run\<close>

text \<open>\<open>Math_T\<close>: the first bent shape of a random order whose cells are all empty; the length
  argument is not used by the code.\<close>

definition Math_T :: "nat \<Rightarrow> point list mm" where
  "Math_T len = bindM get_tab (\<lambda>t. bindM (lift_rnd (shuffle Type_Five_L_ALL)) (\<lambda>shapes.
     retM (case find (checkAllIn t) shapes of None \<Rightarrow> [] | Some ps \<Rightarrow> ps)))"

definition beelines :: "tiles \<Rightarrow> point list list" where
  "beelines d = concat (map snd d)"

definition Math_I :: "nat \<Rightarrow> point list mm" where
  "Math_I len = bindM get_tab (\<lambda>t.
     case (CheckBeeLine t X len, CheckBeeLine t Y len) of
       (Some dx, Some dy) \<Rightarrow>
         (let lines = beelines dx @ beelines dy
          in if lines \<noteq> []
             then bindM (lift_rnd (choice lines)) (\<lambda>line.
                    let pts = Sort_point line
                    in bindM (lift_rnd (choice [0..<length pts - len + 1])) (\<lambda>i.
                         retM (take len (drop i pts))))
             else retM [])
     | _ \<Rightarrow> raiseM AssertionError)"

definition set_type :: "int \<Rightarrow> point list \<Rightarrow> unit mm" where
  "set_type ty ps = bindM get_tab (\<lambda>t. put_tab (Set_type ty ps t))"

section \<open>Planting\<close>

datatype five = TYPE_FIVE_I | TYPE_FIVE_L

fun plant_five :: "int \<Rightarrow> five list \<Rightarrow> unit mm" where
  "plant_five ty [] = retM ()"
| "plant_five ty (TYPE_FIVE_L # fs) =
     bindM (Math_T 5) (\<lambda>ps. if ps \<noteq> [] then set_type ty ps else plant_five ty fs)"
| "plant_five ty (TYPE_FIVE_I # fs) = bindM (Math_I 5) (\<lambda>ps. set_type ty ps)"

definition plant :: "nat \<Rightarrow> int \<Rightarrow> unit mm" where
  "plant len ty =
     (if len = 5 then bindM (lift_rnd (shuffle [TYPE_FIVE_L, TYPE_FIVE_I])) (plant_five ty)
      else if len \<in> {3, 4, 5, 6, 7, 8} then bindM (Math_I len) (set_type ty)
      else retM ())"

text \<open>\<open>mathsDict_len_type\<close>: the types by length, in the order of the request.\<close>

definition by_len :: "(int \<times> nat) list \<Rightarrow> (nat \<times> int list) list" where
  "by_len req = foldl (\<lambda>d (ty, len). dict_append len ty d) [] req"

definition plan :: "(int \<times> nat) list \<Rightarrow> (nat \<times> int) list" where
  "plan req = (let d = by_len req in
     [(len, ty). len \<leftarrow> rev (sort (map fst d)), ty \<leftarrow> (case map_of d len of None \<Rightarrow> [] | Some ts \<Rightarrow> ts)])"

section \<open>Filling\<close>

text \<open>The four neighbours that are on the board, in the order W, S, A, D.\<close>

definition around :: "point \<Rightarrow> point list" where
  "around c = (case c of (x, y) \<Rightarrow>
     (if 0 < x then [(x - 1, y)] else []) @ (if x + 1 \<le> 7 then [(x + 1, y)] else []) @
     (if 0 < y then [(x, y - 1)] else []) @ (if y + 1 \<le> 7 then [(x, y + 1)] else []))"

definition ignores :: "board \<Rightarrow> point \<Rightarrow> int list" where
  "ignores t c = filter (\<lambda>v. v \<noteq> 0) (map (cell t) (around c))"

definition fill_cell :: "point \<Rightarrow> unit mm" where
  "fill_cell c = bindM get_tab (\<lambda>t.
     if cell t c = 0
     then bindM (lift_rnd (choice (filter (\<lambda>v. v \<notin> set (ignores t c)) TYPE_BB))) (\<lambda>v.
            put_tab (set_cell t c v))
     else retM ())"

definition full_table :: "unit mm" where
  "full_table = forM scan fill_cell"

definition do_job :: "(int \<times> nat) list \<Rightarrow> board mm" where
  "do_job req = thenM (forM (plan req) (\<lambda>(len, ty). plant len ty)) (thenM full_table get_tab)"

definition Maths_Mgr :: "(int \<times> nat) list \<Rightarrow> nat list \<Rightarrow> exn + board" where
  "Maths_Mgr req tape = fst (do_job req (getZeros, tape))"

section \<open>Symbolic execution\<close>

lemma wp_get_tab [wp_eqs]: "wp get_tab Q E st = Q (fst st) st"
  by (cases st) (simp add: wp_def get_tab_def)

lemma wp_put_tab [wp_eqs]: "wp (put_tab t) Q E st = Q () (t, snd st)"
  by (cases st) (simp add: wp_def put_tab_def)

lemma wp_next_rand [wp_eqs]:
  "wp next_rand Q E tape = (case tape of [] \<Rightarrow> Q 0 [] | r # rest \<Rightarrow> Q r rest)"
  by (simp add: wp_def next_rand_def split: list.split)

lemma wp_choiceI:
  assumes "xs \<noteq> []" "\<And>x tape'. x \<in> set xs \<Longrightarrow> Q x (fst st, tape')"
  shows "wp (lift_rnd (choice xs)) Q E st"
  using assms
  by (cases st; cases "snd st")
    (auto simp: wp_def lift_rnd_def choice_def bindM_def next_rand_def retM_def)

lemma set_swapped: "i < length xs \<Longrightarrow> j < length xs \<Longrightarrow> set (swap xs i j) = set xs"
  by (simp add: swap_def set_swap)

lemma length_swap [simp]: "length (swap xs i j) = length xs"
  by (simp add: swap_def)

lemma wp_shuffle_from:
  assumes "n < length xs \<or> n = 0" "\<And>ys tape'. set ys = set xs \<Longrightarrow> length ys = length xs \<Longrightarrow> Q ys tape'"
  shows "wp (shuffle_from n xs) Q E tape"
  using assms
proof (induction n arbitrary: xs tape)
  case 0
  then show ?case by (simp add: wp_eqs)
next
  case (Suc n)
  have len: "Suc n < length xs" using Suc.prems by simp
  have step: "wp (shuffle_from n (swap xs (Suc n) (r mod Suc (Suc n)))) Q E tp" for r tp
  proof (rule Suc.IH)
    have "r mod Suc (Suc n) < length xs"
      using len mod_less_divisor [of "Suc (Suc n)" r] by linarith
    then have "set (swap xs (Suc n) (r mod Suc (Suc n))) = set xs"
      using len by (intro set_swapped)
    then show "Q ys x" if "set ys = set (swap xs (Suc n) (r mod Suc (Suc n)))"
      "length ys = length (swap xs (Suc n) (r mod Suc (Suc n)))" for ys x
      using that Suc.prems(2) by simp
  qed (use len in simp)
  show ?case
    using step [of 0] by (simp add: wp_bindM wp_next_rand step split: list.split)
qed

lemma wp_shuffleI:
  assumes "\<And>ys tape'. set ys = set xs \<Longrightarrow> length ys = length xs \<Longrightarrow> Q ys (fst st, tape')"
  shows "wp (lift_rnd (shuffle xs)) Q E st"
proof -
  have "wp (shuffle xs) (\<lambda>ys tape'. Q ys (fst st, tape')) (\<lambda>e tape'. E e (fst st, tape')) (snd st)"
    unfolding shuffle_def by (rule wp_shuffle_from) (use assms in auto)
  then show ?thesis
    by (cases st) (auto simp: wp_def lift_rnd_def split: prod.splits sum.splits)
qed

section \<open>\<open>full_table\<close>\<close>

definition figures :: "board \<Rightarrow> bool" where
  "figures t \<longleftrightarrow> wf_board t \<and> (\<forall>c. on_board c \<longrightarrow> 0 \<le> cell t c \<and> cell t c \<le> int TYPECount)"

text \<open>\<open>done\<close> cells are full, the others untouched, and two equal neighbours were there before.\<close>

definition fill_inv :: "board \<Rightarrow> point set \<Rightarrow> board \<Rightarrow> bool" where
  "fill_inv t0 dn t \<longleftrightarrow> figures t \<and>
     (\<forall>c. on_board c \<longrightarrow> (cell t0 c \<noteq> 0 \<or> c \<notin> dn \<longrightarrow> cell t c = cell t0 c) \<and> (c \<in> dn \<longrightarrow> cell t c \<noteq> 0)) \<and>
     (\<forall>c d. on_board c \<longrightarrow> d \<in> set (around c) \<longrightarrow> cell t c = cell t d \<longrightarrow> cell t c \<noteq> 0 \<longrightarrow>
        cell t0 c \<noteq> 0 \<and> cell t0 d \<noteq> 0)"

lemma around_on_board: "on_board c \<Longrightarrow> d \<in> set (around c) \<Longrightarrow> on_board d \<and> d \<noteq> c \<and> c \<in> set (around d)"
  by (cases c; cases d) (auto simp: around_def on_board_def split: if_splits)

lemma length_around: "length (around c) \<le> 4"
  by (cases c) (simp add: around_def)

lemma choice_left: "filter (\<lambda>v. v \<notin> set (ignores t c)) TYPE_BB \<noteq> []"
proof
  assume "filter (\<lambda>v. v \<notin> set (ignores t c)) TYPE_BB = []"
  then have "set TYPE_BB \<subseteq> set (ignores t c)" by (auto simp: filter_empty_conv)
  then have "card (set TYPE_BB) \<le> length (ignores t c)"
    by (meson card_length card_mono finite_set le_trans)
  also have "\<dots> \<le> 4" unfolding ignores_def
    by (rule order_trans [OF length_filter_le]) (simp add: length_around)
  finally show False by (simp add: TYPE_BB_def upt_rec)
qed

lemma fill_inv_step:
  assumes inv: "fill_inv t0 dn t" and c: "on_board c" "cell t c = 0"
    and v: "v \<in> set TYPE_BB" "v \<notin> set (ignores t c)"
  shows "fill_inv t0 (insert c dn) (set_cell t c v)"
proof -
  have wf: "wf_board t" using inv by (simp add: fill_inv_def figures_def)
  have v1: "0 < v \<and> v \<le> 5" using v(1) by (auto simp: TYPE_BB_def)
  have cell': "cell (set_cell t c v) d = (if d = c then v else cell t d)" if "on_board d" for d
    using wf c(1) that by (rule cell_set_cell)
  have notv: "cell t d \<noteq> v" if "d \<in> set (around c)" for d
    using that v v1 by (auto simp: ignores_def)
  have t0c: "cell t0 c = 0" using inv c by (metis fill_inv_def)
  have cn: "c \<notin> dn" using inv c unfolding fill_inv_def by blast
  have pairs: "cell t0 a \<noteq> 0 \<and> cell t0 b \<noteq> 0"
    if ab: "on_board a" "b \<in> set (around a)" "cell (set_cell t c v) a = cell (set_cell t c v) b"
      "cell (set_cell t c v) a \<noteq> 0" for a b
  proof -
    have b: "on_board b" "b \<noteq> a" "a \<in> set (around b)" using around_on_board [OF ab(1,2)] by auto
    consider "a = c" | "b = c" | "a \<noteq> c" "b \<noteq> c" by blast
    then show ?thesis
    proof cases
      case 1
      with ab b notv [of b] show ?thesis by (auto simp: cell' c(1))
    next
      case 2
      with ab b notv [of a] show ?thesis by (auto simp: cell' c(1))
    next
      case 3
      with ab b have "cell t a = cell t b" "cell t a \<noteq> 0" by (simp_all add: cell')
      with inv ab show ?thesis unfolding fill_inv_def by blast
    qed
  qed
  have fig: "figures (set_cell t c v)"
    using inv v1 wf by (simp add: figures_def fill_inv_def cell')
  have cells: "(cell t0 d \<noteq> 0 \<or> d \<notin> insert c dn \<longrightarrow> cell (set_cell t c v) d = cell t0 d) \<and>
      (d \<in> insert c dn \<longrightarrow> cell (set_cell t c v) d \<noteq> 0)" if d: "on_board d" for d
  proof (cases "d = c")
    case True
    then show ?thesis using v1 t0c c(1) by (simp add: cell')
  next
    case False
    then show ?thesis using d inv by (simp add: cell') (metis fill_inv_def)
  qed
  show ?thesis
    unfolding fill_inv_def using fig cells pairs by blast
qed

lemma fill_cell_inv:
  assumes "fill_inv t0 dn (fst st)" "on_board c"
  shows "wp (fill_cell c) (\<lambda>_ st'. fill_inv t0 (insert c dn) (fst st')) (\<lambda>_ _. False) st"
proof (cases "cell (fst st) c = 0")
  case True
  show ?thesis
    using True assms
    by (auto simp: fill_cell_def wp_bindM wp_get_tab wp_put_tab intro!: wp_choiceI choice_left fill_inv_step)
next
  case False
  then have "fill_inv t0 (insert c dn) (fst st)"
    using assms unfolding fill_inv_def by blast
  with False show ?thesis by (simp add: fill_cell_def wp_eqs)
qed

lemma full_table_inv:
  assumes "fill_inv t0 dn (fst st)" "\<And>c. c \<in> set cs \<Longrightarrow> on_board c"
  shows "wp (forM cs fill_cell) (\<lambda>_ st'. fill_inv t0 (dn \<union> set cs) (fst st')) (\<lambda>_ _. False) st"
  using assms
proof (induction cs arbitrary: dn st)
  case Nil
  then show ?case by (simp add: wp_eqs)
next
  case (Cons c cs)
  have "wp (fill_cell c) (\<lambda>_ st'. fill_inv t0 (insert c dn) (fst st')) (\<lambda>_ _. False) st"
    using Cons.prems by (intro fill_cell_inv) auto
  then show ?case
    unfolding forM.simps wp_thenM
  proof (rule wp_mono)
    fix x :: unit and st' :: "board \<times> nat list" assume "fill_inv t0 (insert c dn) (fst st')"
    then have "wp (forM cs fill_cell) (\<lambda>_ st'. fill_inv t0 (insert c dn \<union> set cs) (fst st')) (\<lambda>_ _. False) st'"
      using Cons.prems by (intro Cons.IH) auto
    then show "wp (forM cs fill_cell) (\<lambda>_ st'. fill_inv t0 (dn \<union> set (c # cs)) (fst st')) (\<lambda>_ _. False) st'"
      by simp
  qed simp
qed

text \<open>Equal neighbours of a start board satisfy the pair clause trivially.\<close>

lemma fill_inv_start: "figures t \<Longrightarrow> fill_inv t {} t"
  by (auto simp: fill_inv_def)

lemma full_table_wp:
  assumes "figures (fst st)"
  shows "wp full_table (\<lambda>_ st'. fill_inv (fst st) {c. on_board c} (fst st')) (\<lambda>_ _. False) st"
  using full_table_inv [OF fill_inv_start [OF assms], of scan] by (simp add: full_table_def set_scan)

section \<open>Bent shapes\<close>

lemma set_bent:
  "set (bent ax ay lx ly x y) = {(ax + x, ay + j) |j. j < ly} \<union> {(ax + i, ay + y) |i. i < lx}"
  by (auto simp: bent_def Sort_point_def)

lemma card_bent:
  assumes "x < lx" "y < ly"
  shows "length (bent ax ay lx ly x y) = lx + ly - 1 \<and> distinct (bent ax ay lx ly x y)"
proof -
  let ?R = "(\<lambda>j. (ax + x, ay + j)) ` {..<ly}" and ?C = "(\<lambda>i. (ax + i, ay + y)) ` {..<lx}"
  have d: "distinct (bent ax ay lx ly x y)" by (simp add: bent_def Sort_point_def)
  have "set (bent ax ay lx ly x y) = ?R \<union> ?C" by (auto simp: set_bent)
  moreover have "?R \<inter> ?C = {(ax + x, ay + y)}" using assms by auto
  moreover have "card ?R = ly" "card ?C = lx" by (simp_all add: card_image inj_on_def)
  moreover have "card (?R \<union> ?C) + card (?R \<inter> ?C) = card ?R + card ?C"
    by (rule card_Un_Int [symmetric]) auto
  ultimately show ?thesis using d distinct_card [OF d] assms by simp
qed

lemma foldl_append_new: "set (foldl append_new res xs) = set res \<union> set xs"
  by (induction xs arbitrary: res) (auto simp: append_new_def)

lemma type_l_loop_mem:
  assumes "ps \<in> set (type_l_loop xr yr ls res)"
  shows "ps \<in> set res \<or> (\<exists>lx ly ax ay x y. (lx, ly) \<in> set ls \<and> ps = bent ax ay lx ly x y \<and> x < lx \<and> y < ly \<and>
           int ax + int lx \<le> xr \<and> int ay + int ly \<le> yr)"
  using assms
proof (induction xr yr ls res rule: type_l_loop.induct)
  case (2 xr yr lx ly ls res)
  let ?ex = "xr - int lx + 1" and ?ey = "yr - int ly + 1"
  show ?case
  proof (cases "?ex < 0 \<or> ?ey < 0")
    case True
    then show ?thesis using "2.prems" by (simp add: Let_def)
  next
    case False
    then have "ps \<in> set (type_l_loop xr yr ls (foldl append_new res (bents ?ex ?ey lx ly)))"
      using "2.prems" by (simp add: Let_def)
    from "2.IH" [OF refl refl False this]
    consider "ps \<in> set res" | "ps \<in> set (bents ?ex ?ey lx ly)"
      | "\<exists>lx ly ax ay x y. (lx, ly) \<in> set ls \<and> ps = bent ax ay lx ly x y \<and> x < lx \<and> y < ly \<and>
           int ax + int lx \<le> xr \<and> int ay + int ly \<le> yr"
      unfolding foldl_append_new by blast
    then show ?thesis
    proof cases
      case 2
      then obtain ax ay x y where "ps = bent ax ay lx ly x y" "ax < nat ?ex" "ay < nat ?ey" "x < lx" "y < ly"
        by (auto simp: bents_def)
      then have "ps = bent ax ay lx ly x y \<and> x < lx \<and> y < ly \<and> int ax + int lx \<le> xr \<and> int ay + int ly \<le> yr"
        by linarith
      then show ?thesis by (metis list.set_intros(1))
    next
      case 3
      then show ?thesis by (metis list.set_intros(2))
    qed auto
  qed
qed simp

text \<open>A bent shape of a board of \<open>xr\<close> by \<open>yr\<close> cells: a full row and a full column of a box.\<close>

definition bent_in :: "int \<Rightarrow> int \<Rightarrow> nat \<Rightarrow> point list \<Rightarrow> bool" where
  "bent_in xr yr len ps \<longleftrightarrow> distinct ps \<and> length ps = len \<and>
     (\<forall>c \<in> set ps. int (fst c) < xr \<and> int (snd c) < yr)"

lemma get_Type_L_bent:
  assumes "ps \<in> set (get_Type_L xr yr len)"
  shows "bent_in xr yr len ps"
proof -
  have len: "5 \<le> len" using assms by (auto simp: get_Type_L_def split: if_splits)
  let ?ls = "if len mod 2 = 0 then [(len div 2, len div 2 + 1), (len div 2 + 1, len div 2)]
             else [((len + 1) div 2, (len + 1) div 2)]"
  have "ps \<in> set (type_l_loop xr yr ?ls [])"
    using assms by (simp add: get_Type_L_def split: if_splits)
  then obtain lx ly ax ay x y where l: "(lx, ly) \<in> set ?ls"
    and ps: "ps = bent ax ay lx ly x y" "x < lx" "y < ly" "int ax + int lx \<le> xr" "int ay + int ly \<le> yr"
    using type_l_loop_mem [of ps xr yr ?ls "[]"] by (metis empty_iff list.set(1))
  have "lx + ly - 1 = len"
  proof (cases "even len")
    case True
    then obtain k where "len = 2 * k" by (rule evenE)
    with l show ?thesis by auto
  next
    case False
    then obtain k where "len = 2 * k + 1" by (rule oddE)
    with l show ?thesis by auto
  qed
  then show ?thesis
    using ps card_bent [of x lx y ly ax ay] by (auto simp: bent_in_def set_bent)
qed

section \<open>Planting\<close>

lemma bent_five_on_board: "ps \<in> set Type_Five_L_ALL \<Longrightarrow> distinct ps \<and> length ps = 5 \<and> (\<forall>c \<in> set ps. on_board c)"
  using get_Type_L_bent [of ps 8 8 5] by (auto simp: Type_Five_L_ALL_def bent_in_def on_board_def)

definition has_room :: "board \<Rightarrow> nat \<Rightarrow> bool" where
  "has_room t len \<longleftrightarrow> (\<exists>a ps. maximal_run t a ps \<and> len \<le> length ps)"

definition free_line :: "board \<Rightarrow> nat \<Rightarrow> point list \<Rightarrow> bool" where
  "free_line t len ps \<longleftrightarrow> (\<exists>a c. ps = ray a c len \<and> empty_run t a c len)"

lemma set_beelines: "set (beelines d) = lines d"
  by (auto simp: beelines_def lines_def)

lemma Math_I_wp:
  assumes "wf_board (fst st)" "0 < len"
  shows "wp (Math_I len)
    (\<lambda>ps st'. fst st' = fst st \<and> (if has_room (fst st) len then free_line (fst st) len ps else ps = []))
    (\<lambda>_ _. False) st"
proof -
  let ?t = "fst st"
  obtain dx where dx: "CheckBeeLine ?t X len = Some dx" "lines dx = {ps. maximal_run ?t X ps \<and> len \<le> length ps}"
    using CheckBeeLine_exact [OF assms(1)] by metis
  obtain dy where dy: "CheckBeeLine ?t Y len = Some dy" "lines dy = {ps. maximal_run ?t Y ps \<and> len \<le> length ps}"
    using CheckBeeLine_exact [OF assms(1)] by metis
  have room: "has_room ?t len \<longleftrightarrow> beelines dx @ beelines dy \<noteq> []"
  proof -
    have "has_room ?t len \<longleftrightarrow> lines dx \<union> lines dy \<noteq> {}"
      by (auto simp: has_room_def dx dy) (metis axis.exhaust)+
    also have "\<dots> \<longleftrightarrow> set (beelines dx @ beelines dy) \<noteq> {}" by (simp add: set_beelines)
    finally show ?thesis by simp
  qed
  have pick: "free_line ?t len (take len (drop i (Sort_point line)))"
    if "line \<in> set (beelines dx @ beelines dy)" "i \<in> set [0..<length (Sort_point line) - len + 1]" for line i
  proof -
    from that(1) obtain a where "maximal_run ?t a line" "len \<le> length line"
      by (auto simp: set_beelines dx dy)
    then obtain c n where l: "line = ray a c n" "empty_run ?t a c n" "len \<le> n"
      by (auto simp: maximal_run_def)
    then have "Sort_point line = line" using sorted_ray by (simp add: Sort_point_def sorted_sort_id)
    with that(2) l have "take len (drop i (Sort_point line)) = ray a (shift a c i) len" "i + len \<le> n"
      by (auto simp: take_drop_ray min_def)
    moreover have "empty_run ?t a (shift a c i) len"
      using l(2) calculation(2) by (auto simp: empty_run_def)
    ultimately show ?thesis by (auto simp: free_line_def)
  qed
  show ?thesis
  proof (cases "beelines dx @ beelines dy = []")
    case True
    then show ?thesis using room by (simp add: Math_I_def wp_bindM wp_get_tab dx dy wp_retM)
  next
    case False
    then show ?thesis
      using room pick
      by (auto simp: Math_I_def wp_bindM wp_get_tab dx dy wp_retM Let_def simp del: set_append append_is_Nil_conv
          intro!: wp_choiceI)
  qed
qed

text \<open>
  What planting may do to a board, request by request: lay a straight run or a bent shape of the
  asked length over empty cells, or nothing when no straight run has room or the length is not one
  the planner knows.
\<close>

inductive plants :: "board \<Rightarrow> (nat \<times> int) list \<Rightarrow> board \<Rightarrow> bool" where
  plants_done: "plants t [] t"
| plants_skip: "\<lbrakk>len \<in> {3..8} \<Longrightarrow> \<not> has_room t len; plants t rest t'\<rbrakk> \<Longrightarrow> plants t ((len, ty) # rest) t'"
| plants_line: "\<lbrakk>len \<in> {3..8}; free_line t len ps; plants (Set_type ty ps t) rest t'\<rbrakk>
    \<Longrightarrow> plants t ((len, ty) # rest) t'"
| plants_corner: "\<lbrakk>ps \<in> set Type_Five_L_ALL; checkAllIn t ps; plants (Set_type ty ps t) rest t'\<rbrakk>
    \<Longrightarrow> plants t ((5, ty) # rest) t'"

inductive_cases plants_NilE: "plants t [] t'"

lemma figures_Set_type:
  assumes "figures t" "\<forall>p \<in> set ps. on_board p" "ty \<in> {1..5}"
  shows "figures (Set_type ty ps t)"
  using assms cell_foldl_mark [of t ps _ ty] wf_foldl_mark [of t ty ps] by (simp add: figures_def Set_type_def)

lemma free_line_on_board: "free_line t len ps \<Longrightarrow> (\<forall>p \<in> set ps. on_board p \<and> cell t p = 0) \<and> length ps = len"
  by (auto simp: free_line_def empty_run_def set_ray)

text \<open>One request.\<close>

definition one_plant :: "board \<Rightarrow> nat \<Rightarrow> int \<Rightarrow> board \<Rightarrow> bool" where
  "one_plant t len ty t' \<longleftrightarrow>
     (t' = t \<and> (len \<in> {3..8} \<longrightarrow> \<not> has_room t len)) \<or>
     (\<exists>ps. t' = Set_type ty ps t \<and> (len \<in> {3..8} \<and> free_line t len ps \<or>
        len = 5 \<and> ps \<in> set Type_Five_L_ALL \<and> checkAllIn t ps))"

lemma Set_type_Nil [simp]: "Set_type ty [] t = t"
  by (simp add: Set_type_def)

lemma straight_plant:
  assumes "figures (fst st)" "len \<in> {3..8}"
  shows "wp (bindM (Math_I len) (set_type ty)) (\<lambda>_ st'. one_plant (fst st) len ty (fst st')) (\<lambda>_ _. False) st"
  unfolding wp_bindM
proof (rule wp_mono [OF Math_I_wp])
  fix ps and st' :: "board \<times> nat list"
  assume "fst st' = fst st \<and> (if has_room (fst st) len then free_line (fst st) len ps else ps = [])"
  then show "wp (set_type ty ps) (\<lambda>_ st'. one_plant (fst st) len ty (fst st')) (\<lambda>_ _. False) st'"
    using assms(2) by (auto simp: set_type_def wp_bindM wp_get_tab wp_put_tab one_plant_def split: if_splits)
qed (use assms in \<open>auto simp: figures_def\<close>)

lemma Math_T_wp:
  "wp (Math_T len) (\<lambda>ps st'. fst st' = fst st \<and> (ps = [] \<or> ps \<in> set Type_Five_L_ALL \<and> checkAllIn (fst st) ps))
     E st"
  by (auto simp: Math_T_def wp_bindM wp_get_tab wp_retM find_Some_iff in_set_conv_nth
      intro!: wp_shuffleI split: option.split) (metis nth_mem in_set_conv_nth)+

lemma plant_five_wp:
  assumes "figures (fst st)" "TYPE_FIVE_I \<in> set fs"
  shows "wp (plant_five ty fs) (\<lambda>_ st'. one_plant (fst st) 5 ty (fst st')) (\<lambda>_ _. False) st"
  using assms
proof (induction fs arbitrary: st)
  case (Cons f fs)
  show ?case
  proof (cases f)
    case TYPE_FIVE_I
    then show ?thesis using straight_plant [OF Cons.prems(1), of 5 ty] by simp
  next
    case TYPE_FIVE_L
    show ?thesis
      unfolding TYPE_FIVE_L plant_five.simps wp_bindM
    proof (rule wp_mono [OF Math_T_wp])
      fix ps and st' :: "board \<times> nat list"
      assume h: "fst st' = fst st \<and> (ps = [] \<or> ps \<in> set Type_Five_L_ALL \<and> checkAllIn (fst st) ps)"
      have "wp (plant_five ty fs) (\<lambda>_ st'. one_plant (fst st) 5 ty (fst st')) (\<lambda>_ _. False) st'"
        using Cons.IH [of st'] Cons.prems h TYPE_FIVE_L by simp
      with h show "wp (if ps \<noteq> [] then set_type ty ps else plant_five ty fs)
          (\<lambda>_ st'. one_plant (fst st) 5 ty (fst st')) (\<lambda>_ _. False) st'"
        by (auto simp: set_type_def wp_bindM wp_get_tab wp_put_tab one_plant_def)
    qed simp
  qed
qed simp

lemma plant_wp:
  assumes "figures (fst st)"
  shows "wp (plant len ty) (\<lambda>_ st'. one_plant (fst st) len ty (fst st')) (\<lambda>_ _. False) st"
proof -
  consider "len = 5" | "len \<noteq> 5" "len \<in> {3..8}" | "len \<notin> {3..8}" by blast
  then show ?thesis
  proof cases
    case 1
    have "wp (lift_rnd (shuffle [TYPE_FIVE_L, TYPE_FIVE_I]))
        (\<lambda>x. wp (plant_five ty x) (\<lambda>_ st'. one_plant (fst st) 5 ty (fst st')) (\<lambda>_ _. False)) (\<lambda>_ _. False) st"
      by (rule wp_shuffleI) (use assms in \<open>auto intro: plant_five_wp [of "(fst st, _)", simplified]\<close>)
    with 1 show ?thesis by (simp add: plant_def wp_bindM)
  next
    case 2
    then have "plant len ty = bindM (Math_I len) (set_type ty)" by (auto simp: plant_def)
    then show ?thesis using straight_plant [OF assms] 2 by simp
  next
    case 3
    then have "plant len ty = retM ()" by (auto simp: plant_def)
    moreover have "one_plant (fst st) len ty (fst st)" using 3 unfolding one_plant_def by blast
    ultimately show ?thesis by (simp add: wp_retM)
  qed
qed

lemma figures_one_plant:
  assumes "figures t" "one_plant t len ty t'" "ty \<in> {1..5}"
  shows "figures t'"
  using assms figures_Set_type [of t _ ty] free_line_on_board bent_five_on_board
  unfolding one_plant_def by blast

lemma plants_step: "one_plant t len ty t1 \<Longrightarrow> plants t1 rest t' \<Longrightarrow> plants t ((len, ty) # rest) t'"
  unfolding one_plant_def by (blast intro: plants.intros)

lemma planting_wp:
  assumes "figures (fst st)" "\<forall>(len, ty) \<in> set reqs. ty \<in> {1..5}"
  shows "wp (forM reqs (\<lambda>(len, ty). plant len ty))
     (\<lambda>_ st'. plants (fst st) reqs (fst st') \<and> figures (fst st')) (\<lambda>_ _. False) st"
  using assms
proof (induction reqs arbitrary: st)
  case Nil
  then show ?case by (simp add: wp_retM plants_done)
next
  case (Cons r reqs)
  obtain len ty where r: "r = (len, ty)" by (cases r)
  have ty: "ty \<in> {1..5}" using Cons.prems(2) r by auto
  show ?case
    unfolding forM.simps wp_thenM r prod.case
  proof (rule wp_mono [OF plant_wp [OF Cons.prems(1)]])
    fix u :: unit and st' :: "board \<times> nat list"
    assume one: "one_plant (fst st) len ty (fst st')"
    then have "figures (fst st')" using Cons.prems(1) ty by (auto intro: figures_one_plant)
    then have "wp (forM reqs (\<lambda>(len, ty). plant len ty))
       (\<lambda>_ st''. plants (fst st') reqs (fst st'') \<and> figures (fst st'')) (\<lambda>_ _. False) st'"
      using Cons.IH Cons.prems(2) by simp
    then show "wp (forM reqs (\<lambda>(len, ty). plant len ty))
       (\<lambda>_ st''. plants (fst st) ((len, ty) # reqs) (fst st'') \<and> figures (fst st'')) (\<lambda>_ _. False) st'"
      by (rule wp_mono) (use one plants_step in auto)
  qed simp
qed

section \<open>The order of the plan\<close>

lemma map_of_by_len:
  "map_of (by_len req) len =
     (let ts = map fst (filter (\<lambda>r. snd r = len) req) in if ts = [] then None else Some ts)"
proof (induction req rule: rev_induct)
  case Nil
  then show ?case by (simp add: by_len_def)
next
  case (snoc r req)
  have "by_len (req @ [r]) = dict_append (snd r) (fst r) (by_len req)"
    by (simp add: by_len_def split: prod.split)
  then show ?case
    using snoc by (auto simp: dict_append_def update_conv' Let_def split: option.splits if_splits)
qed

lemma distinct_by_len: "distinct (map fst (by_len req))"
  by (induction req rule: rev_induct)
    (auto simp: by_len_def dict_append_def distinct_update split: prod.split)

lemma by_len_snoc: "by_len (req @ [r]) = dict_append (snd r) (fst r) (by_len req)"
  by (simp add: by_len_def split: prod.split)

lemma keys_dict_append: "fst ` set (dict_append k v d) = insert k (fst ` set d)"
  by (simp add: dict_append_def dom_update)

lemma keys_by_len: "fst ` set (by_len req) = snd ` set req"
proof (induction req rule: rev_induct)
  case Nil
  then show ?case by (simp add: by_len_def)
next
  case (snoc r req)
  then show ?case by (simp add: by_len_snoc keys_dict_append)
qed

lemma filter_concat_key:
  assumes "distinct ks" "\<And>k x. x \<in> set (f k) \<Longrightarrow> fst x = k"
  shows "filter (\<lambda>x. fst x = len) (concat (map f ks)) = (if len \<in> set ks then f len else [])"
  using assms
proof (induction ks)
  case (Cons k ks)
  have "filter (\<lambda>x. fst x = len) (f k) = (if k = len then f k else [])"
    using Cons.prems(2) by (auto simp: filter_id_conv filter_empty_conv)
  with Cons show ?case by auto
qed simp

lemma sorted_wrt_concat_key:
  assumes "sorted_wrt (\<ge>) ks" "\<And>k x. x \<in> set (f k) \<Longrightarrow> fst x = k"
  shows "sorted_wrt (\<ge>) (map fst (concat (map f (ks :: nat list))))"
  using assms
proof (induction ks)
  case (Cons k ks)
  have "map fst (f k) = replicate (length (f k)) k"
    using Cons.prems(2) by (auto simp: list_eq_iff_nth_eq)
  moreover have "sorted_wrt (\<ge>) (replicate n k)" for n :: nat by (induction n) auto
  ultimately show ?case using Cons by (fastforce simp: sorted_wrt_append)
qed simp

text \<open>The planner works through the requests longest first, and the requests of one length
  stay in the order they were asked in; none is lost, added or duplicated.\<close>

theorem plan_order:
  "sorted_wrt (\<ge>) (map fst (plan req)) \<and>
   (\<forall>len. map snd (filter (\<lambda>p. fst p = len) (plan req)) = map fst (filter (\<lambda>r. snd r = len) req))"
proof -
  define f where "f len = map (Pair len) (case map_of (by_len req) len of None \<Rightarrow> [] | Some ts \<Rightarrow> ts)" for len
  define ks where "ks = rev (sort (map fst (by_len req)))"
  have plan: "plan req = concat (map f ks)"
    unfolding plan_def ks_def Let_def f_def [abs_def] ..
  have key: "fst x = k" if "x \<in> set (f k)" for k x using that by (auto simp: f_def)
  have ks: "distinct ks" "sorted_wrt (\<ge>) ks" "set ks = snd ` set req"
    using distinct_by_len [of req] keys_by_len [of req] sorted_sort [of "map fst (by_len req)"]
    by (simp_all add: ks_def sorted_wrt_rev)
  have "map snd (filter (\<lambda>p. fst p = len) (plan req)) = map fst (filter (\<lambda>r. snd r = len) req)" for len
  proof -
    have "map snd (filter (\<lambda>p. fst p = len) (plan req)) = (if len \<in> set ks then map snd (f len) else [])"
      unfolding plan by (subst filter_concat_key [OF ks(1)]) (auto dest: key)
    also have "\<dots> = map fst (filter (\<lambda>r. snd r = len) req)"
      unfolding ks(3) f_def map_of_by_len
      by (auto simp: Let_def comp_def filter_empty_conv image_iff)
    finally show ?thesis .
  qed
  then show ?thesis using sorted_wrt_concat_key [OF ks(2) key] plan by auto
qed

section \<open>Boards made by \<open>Maths_Mgr\<close>\<close>

lemma set_plan: "(len, ty) \<in> set (plan req) \<Longrightarrow> (ty, len) \<in> set req"
proof -
  assume "(len, ty) \<in> set (plan req)"
  then have "ty \<in> set (case map_of (by_len req) len of None \<Rightarrow> [] | Some ts \<Rightarrow> ts)"
    by (auto simp: plan_def Let_def)
  then show ?thesis by (auto simp: map_of_by_len Let_def split: if_splits)
qed

lemma do_job_wp:
  assumes "figures (fst st)" "\<forall>(ty, len) \<in> set req. ty \<in> {1..5}"
  shows "wp (do_job req) (\<lambda>b st'. \<exists>t. plants (fst st) (plan req) t \<and> fill_inv t {c. on_board c} b)
     (\<lambda>_ _. False) st"
proof -
  have tys: "\<forall>(len, ty) \<in> set (plan req). ty \<in> {1..5}" using assms(2) set_plan by fastforce
  show ?thesis
    unfolding do_job_def wp_thenM wp_get_tab
  proof (rule wp_mono [OF planting_wp [OF assms(1) tys]])
    fix u :: unit and st' :: "board \<times> nat list"
    assume p: "plants (fst st) (plan req) (fst st') \<and> figures (fst st')"
    then have "wp full_table (\<lambda>_ st''. fill_inv (fst st') {c. on_board c} (fst st'')) (\<lambda>_ _. False) st'"
      by (intro full_table_wp) simp
    then show "wp full_table (\<lambda>_ st''. \<exists>t. plants (fst st) (plan req) t \<and> fill_inv t {c. on_board c} (fst st''))
        (\<lambda>_ _. False) st'"
      by (rule wp_mono) (use p in auto)
  qed simp
qed

text \<open>C3: whatever the random numbers are, the generator returns a full 8 by 8 board of figures
  1..5; it is a planted board (every request laid over empty cells as a straight run or a bent shape
  of its length, skipped only when no straight run of that length has room or the length is unknown)
  whose empty cells were filled so that two equal neighbours always were both planted: the filling
  adds no match of its own.\<close>

theorem Maths_Mgr_board:
  assumes "\<forall>(ty, len) \<in> set req. ty \<in> {1..5}"
  shows "\<exists>b planted. Maths_Mgr req tape = Inr b \<and> plants getZeros (plan req) planted \<and> wf_board b \<and>
    (\<forall>c. on_board c \<longrightarrow> 1 \<le> cell b c \<and> cell b c \<le> 5 \<and> (cell planted c \<noteq> 0 \<longrightarrow> cell b c = cell planted c)) \<and>
    (\<forall>c d. on_board c \<longrightarrow> d \<in> set (around c) \<longrightarrow> cell b c = cell b d \<longrightarrow>
       cell planted c \<noteq> 0 \<and> cell planted d \<noteq> 0)"
proof -
  have "figures getZeros" by (simp add: figures_def)
  then have w: "wp (do_job req) (\<lambda>b st'. \<exists>t. plants getZeros (plan req) t \<and> fill_inv t {c. on_board c} b)
     (\<lambda>_ _. False) (getZeros, tape)"
    using do_job_wp [of "(getZeros, tape)" req] assms by simp
  obtain r st' where r: "do_job req (getZeros, tape) = (r, st')" by (cases "do_job req (getZeros, tape)")
  then obtain b where b: "r = Inr b" using w by (cases r) (auto simp: wp_def)
  obtain t where t: "plants getZeros (plan req) t" "fill_inv t {c. on_board c} b"
    using w r b by (auto simp: wp_def)
  have full: "1 \<le> cell b c \<and> cell b c \<le> 5 \<and> (cell t c \<noteq> 0 \<longrightarrow> cell b c = cell t c)" if "on_board c" for c
  proof -
    have "0 \<le> cell b c" "cell b c \<le> 5" "cell b c \<noteq> 0" "cell t c \<noteq> 0 \<longrightarrow> cell b c = cell t c"
      using t(2) that unfolding fill_inv_def figures_def by auto
    then show ?thesis by linarith
  qed
  have pairs: "cell t c \<noteq> 0 \<and> cell t d \<noteq> 0"
    if "on_board c" "d \<in> set (around c)" "cell b c = cell b d" for c d
    using t(2) that full [of c] unfolding fill_inv_def by (metis not_one_le_zero)
  have "wf_board b" using t(2) by (simp add: fill_inv_def figures_def)
  then show ?thesis using r b t(1) full pairs unfolding Maths_Mgr_def by (metis fst_conv)
qed

theorem Maths_Mgr_board_witness:
  "\<exists>b planted. Maths_Mgr [(5, 3), (2, 4)] [] = Inr b \<and> plants getZeros (plan [(5, 3), (2, 4)]) planted \<and> wf_board b \<and>
    (\<forall>c. on_board c \<longrightarrow> 1 \<le> cell b c \<and> cell b c \<le> 5 \<and> (cell planted c \<noteq> 0 \<longrightarrow> cell b c = cell planted c)) \<and>
    (\<forall>c d. on_board c \<longrightarrow> d \<in> set (around c) \<longrightarrow> cell b c = cell b d \<longrightarrow>
       cell planted c \<noteq> 0 \<and> cell planted d \<noteq> 0)"
  by (rule Maths_Mgr_board) simp

text \<open>On every board and for every length, the search along an axis returns, without running
  out of fuel, exactly the maximal straight runs of empty cells of at least that length.\<close>

theorem CheckBeeLine_runs:
  assumes "wf_board t"
  shows "\<exists>d. CheckBeeLine t a m = Some d \<and>
    (\<forall>ps. ps \<in> lines d \<longleftrightarrow> maximal_run t a ps \<and> m \<le> length ps)"
proof -
  obtain d where "CheckBeeLine t a m = Some d" "lines d = {ps. maximal_run t a ps \<and> m \<le> length ps}"
    by (rule CheckBeeLine_exact [OF assms])
  then show ?thesis by (intro exI [of _ d]) simp
qed

theorem CheckBeeLine_runs_witness:
  "\<exists>d. CheckBeeLine getZeros Y 3 = Some d \<and>
    (\<forall>ps. ps \<in> lines d \<longleftrightarrow> maximal_run getZeros Y ps \<and> 3 \<le> length ps)"
  by (rule CheckBeeLine_runs) simp

text \<open>Every bent shape the table lists has exactly the asked number of cells, no cell twice and
  all of them inside the given board.\<close>

theorem get_Type_L_shapes:
  assumes "ps \<in> set (get_Type_L xr yr len)"
  shows "distinct ps \<and> length ps = len \<and> (\<forall>c \<in> set ps. int (fst c) < xr \<and> int (snd c) < yr)"
  using get_Type_L_bent [OF assms] by (simp add: bent_in_def)

theorem get_Type_L_shapes_witness:
  "[(0, 0), (0, 1), (0, 2), (1, 0), (2, 0)] \<in> set (get_Type_L 3 3 5) \<and>
   distinct ([(0, 0), (0, 1), (0, 2), (1, 0), (2, 0)] :: point list) \<and>
   length ([(0, 0), (0, 1), (0, 2), (1, 0), (2, 0)] :: point list) = 5 \<and> (0::int) < 3"
proof -
  have mem: "[(0, 0), (0, 1), (0, 2), (1, 0), (2, 0)] \<in> set (get_Type_L 3 3 5)" by code_simp
  from get_Type_L_shapes [OF mem] mem show ?thesis by simp
qed

end
