(* ===== verification/XxlModel.thy ===== *)
theory XxlModel
  imports XxlMaths
begin

text \<open>
  Match detection of the match-three game (model/xiaoxiaoleModel.py): for one figure, the straight
  runs of three or more equal cells (\<open>filter\<close>, \<open>checkIncrease\<close>), merged where they share a cell
  (\<open>relevance\<close>); and the way a board is drawn (\<open>setCanvas\<close>).
\<close>

section \<open>\<open>checkIncrease\<close>: runs of consecutive numbers\<close>

text \<open>The loop of \<open>checkIncrease\<close> over the rest of the index list, with \<open>tmp_list\<close> and \<open>results\<close>
  (\<open>enumerate\<close> gives the current value and \<open>index_list[index + 1]\<close> its successor, if any).\<close>

definition keep_run :: "nat list list \<Rightarrow> nat list \<Rightarrow> nat list list" where
  "keep_run results tmp = (if 3 \<le> length tmp \<and> tmp \<notin> set results then results @ [tmp] else results)"

fun check_loop :: "nat list \<Rightarrow> nat list \<Rightarrow> nat list list \<Rightarrow> nat list list" where
  "check_loop [] tmp results = keep_run results tmp"
| "check_loop [v] tmp results = keep_run results (if tmp = [] then [v] else tmp)"
| "check_loop (v # w # vs) tmp results =
     (let tmp1 = (if tmp = [] then [v] else tmp)
      in if v + 1 \<noteq> w then check_loop (w # vs) [] (keep_run results tmp1)
         else check_loop (w # vs) (tmp1 @ [v + 1]) results)"

definition checkIncrease :: "nat list \<Rightarrow> nat list list" where
  "checkIncrease index_list = check_loop index_list [] []"

section \<open>\<open>filter\<close>: the runs of one figure on a board\<close>

definition row_indexs :: "board \<Rightarrow> int \<Rightarrow> nat \<Rightarrow> nat list" where
  "row_indexs t num row = filter (\<lambda>y. cell t (row, y) = num) [0..<WIDTH]"

definition col_indexs :: "board \<Rightarrow> int \<Rightarrow> nat \<Rightarrow> nat list" where
  "col_indexs t num col = filter (\<lambda>x. cell t (x, col) = num) [0..<HEIGHT]"

definition pointList :: "board \<Rightarrow> int \<Rightarrow> point list list" where
  "pointList t num =
     concat (map (\<lambda>row. map (map (\<lambda>y. (row, y))) (checkIncrease (row_indexs t num row))) [0..<HEIGHT]) @
     concat (map (\<lambda>col. map (map (\<lambda>x. (x, col))) (checkIncrease (col_indexs t num col))) [0..<WIDTH])"

section \<open>\<open>relevance\<close>: merging runs that share a cell\<close>

text \<open>
  The recursive search threads the list of runs not yet visited (\<open>datas_points\<close>) and the points of
  the group (\<open>tmp_point_lists\<close>), both mutated in place by the code.  The fuel bounds the depth;
  \<open>None\<close> would be "out of fuel".
\<close>

definition add_points :: "point list \<Rightarrow> point list \<Rightarrow> point list" where
  "add_points tmp sample = foldl append_new tmp sample"

definition related :: "point list \<Rightarrow> point list list \<Rightarrow> point list list" where
  "related sample datas = foldl (\<lambda>rel p. foldl (\<lambda>rel l. if p \<in> set l then append_new rel l else rel) rel datas) [] sample"

fun visit :: "nat \<Rightarrow> point list \<Rightarrow> point list list \<times> point list \<Rightarrow> (point list list \<times> point list) option" where
  "visit 0 sample st = None"
| "visit (Suc n) sample (datas, tmp) =
     (if datas = [] then Some (datas, tmp)
      else let tmp1 = add_points tmp sample
        in if sample \<notin> set datas then Some (datas, tmp1)
           else foldl (\<lambda>st rel. Option.bind st (visit n rel)) (Some (remove1 sample datas, tmp1))
                  (if remove1 sample datas = [] then [] else related sample (remove1 sample datas)))"

text \<open>The outer call (\<open>isfirst\<close>): start from the first run, record the group, go on.\<close>

fun relevance :: "nat \<Rightarrow> point list list \<Rightarrow> point list list option" where
  "relevance n [] = Some []"
| "relevance 0 (d # ds) = None"
| "relevance (Suc n) (d # ds) =
     Option.bind (visit (length (d # ds) + 1) d (d # ds, [])) (\<lambda>(datas, group).
       map_option ((#) group) (relevance n datas))"

definition resultLists :: "board \<Rightarrow> int \<Rightarrow> point list list option" where
  "resultLists t num = (let ps = pointList t num in relevance (length ps) ps)"

section \<open>Results of a board\<close>

record result =
  rlen :: nat
  coordinates :: "point list"
  rtype :: int

definition getResult :: "board \<Rightarrow> int \<Rightarrow> result list option" where
  "getResult t num = map_option (map (\<lambda>g. \<lparr>rlen = length g, coordinates = g, rtype = num\<rparr>)) (resultLists t num)"

definition getResults :: "board \<Rightarrow> result list option" where
  "getResults t = foldl (\<lambda>acc num. Option.bind acc (\<lambda>rs. map_option ((@) rs) (getResult t num)))
     (Some []) (map int [1..<TYPECount + 1])"

section \<open>Drawing the board\<close>

datatype kind = KIND_RANDOM | KIND_CHANCE | KIND_MATHS

text \<open>\<open>getCanvas_by_random\<close>: every cell uniformly 1..5.\<close>

definition reshape :: "int list \<Rightarrow> board" where
  "reshape ns = map (\<lambda>x. map (\<lambda>y. ns ! (WIDTH * x + y)) [0..<WIDTH]) [0..<HEIGHT]"

definition canvas_by_random :: "board rnd" where
  "canvas_by_random = bindM (mapM [0..<HEIGHT * WIDTH] (\<lambda>_. choice TYPE_BB)) (\<lambda>ns. retM (reshape ns))"

text \<open>\<open>random_type\<close>: a number in 1..sum of the weights, then the first kind, in increasing order,
  whose running total reaches it.  A table whose weights leave no such kind gives \<open>None\<close>, and
  an empty range raises \<open>ValueError\<close>.\<close>

fun pick_kind :: "(int \<times> int) list \<Rightarrow> int \<Rightarrow> int \<Rightarrow> int option" where
  "pick_kind [] num acc = None"
| "pick_kind ((k, w) # kws) num acc = (if num \<le> acc + w then Some k else pick_kind kws num (acc + w))"

definition weights :: "(int \<times> int) list \<Rightarrow> int" where
  "weights tbl = sum_list (map snd tbl)"

definition random_type :: "(int \<times> int) list \<Rightarrow> int option rnd" where
  "random_type tbl = bindM next_rand (\<lambda>r.
     if weights tbl < 1 then raiseM ValueError
     else retM (pick_kind (sort_key fst tbl) (1 + int r mod weights tbl) 0))"

text \<open>The array of \<open>None\<close>s a degenerate table would give is outside the model: such a table
  raises here.\<close>

definition canvas_by_chance :: "(int \<times> int) list \<Rightarrow> board rnd" where
  "canvas_by_chance tbl =
     bindM (mapM [0..<HEIGHT * WIDTH] (\<lambda>_. random_type tbl)) (\<lambda>ns.
       if None \<in> set ns then raiseM TypeError else retM (reshape (map the ns)))"

definition lift_maths :: "(int \<times> nat) list \<Rightarrow> board rnd" where
  "lift_maths req = (\<lambda>tape. case do_job req (getZeros, tape) of (r, (_, tape')) \<Rightarrow> (r, tape'))"

text \<open>\<open>setCanvas\<close>: the kind decides, and a table of the wrong type fails the assertion.\<close>

definition setCanvas :: "kind \<Rightarrow> (int \<times> int) list option \<Rightarrow> (int \<times> nat) list option \<Rightarrow> board rnd" where
  "setCanvas k chance maths = (case k of
       KIND_RANDOM \<Rightarrow> canvas_by_random
     | KIND_CHANCE \<Rightarrow> (case chance of None \<Rightarrow> raiseM AssertionError | Some tbl \<Rightarrow> canvas_by_chance tbl)
     | KIND_MATHS \<Rightarrow> (case maths of None \<Rightarrow> raiseM AssertionError | Some req \<Rightarrow> lift_maths req))"

definition mgr_run :: "kind \<Rightarrow> (int \<times> int) list option \<Rightarrow> (int \<times> nat) list option \<Rightarrow> (board \<times> result list) rnd" where
  "mgr_run k chance maths = bindM (setCanvas k chance maths) (\<lambda>t.
     case getResults t of None \<Rightarrow> raiseM AssertionError | Some rs \<Rightarrow> retM (t, rs))"

end
