(* ===== verification/XxlMatch.thy ===== *)
theory XxlMatch
  imports XxlModel
begin

text \<open>
  Correctness of match detection: \<open>checkIncrease\<close> finds exactly the maximal blocks of three or
  more consecutive numbers, \<open>pointList\<close> exactly the maximal straight runs of a figure, and
  \<open>relevance\<close> computes the connected components of the runs under "shares a cell".
\<close>

section \<open>\<open>checkIncrease\<close>\<close>

text \<open>A maximal block \<open>b, \<dots>, e - 1\<close> of consecutive members of \<open>S\<close>, at least three long.\<close>

definition block :: "nat set \<Rightarrow> nat \<Rightarrow> nat \<Rightarrow> bool" where
  "block S b e \<longleftrightarrow> b + 3 \<le> e \<and> {b..<e} \<subseteq> S \<and> e \<notin> S \<and> (b = 0 \<or> b - 1 \<notin> S)"

lemma set_keep_run: "set (keep_run res tmp) = set res \<union> (if 3 \<le> length tmp then {tmp} else {})"
  by (auto simp: keep_run_def)

lemma block_in: "block S b c \<Longrightarrow> b \<in> S \<and> b < c"
  by (auto simp: block_def)

lemma block_interval:
  assumes "a < e"
  shows "block {a..<e} b c \<longleftrightarrow> b = a \<and> c = e \<and> a + 3 \<le> e"
proof
  assume h: "block {a..<e} b c"
  then have bc: "b + 3 \<le> c" "\<And>x. b \<le> x \<Longrightarrow> x < c \<Longrightarrow> a \<le> x \<and> x < e" "c \<notin> {a..<e}" "b = 0 \<or> b - 1 \<notin> {a..<e}"
    unfolding block_def by (auto simp: subset_iff)
  have "a \<le> b" "b < e" using bc(1) bc(2) [of b] by auto
  moreover have "b \<le> c - 1" "c - 1 < c" using bc(1) by auto
  then have "c - 1 < e" using bc(2) by blast
  then have "c \<le> e" by linarith
  moreover have "c = e" using bc(1,3) \<open>a \<le> b\<close> \<open>c \<le> e\<close> by auto
  moreover have "b = a" using bc(4) \<open>a \<le> b\<close> \<open>b < e\<close> by auto
  ultimately show "b = a \<and> c = e \<and> a + 3 \<le> e" using bc(1) by auto
qed (auto simp: block_def)

lemma block_gap:
  assumes "a < e" "\<forall>x \<in> S. e < x"
  shows "block ({a..<e} \<union> S) b c \<longleftrightarrow> block {a..<e} b c \<or> block S b c"
proof
  assume h: "block ({a..<e} \<union> S) b c"
  then have bc: "b + 3 \<le> c" "\<And>x. b \<le> x \<Longrightarrow> x < c \<Longrightarrow> x \<in> {a..<e} \<union> S" "c \<notin> {a..<e} \<union> S"
      "b = 0 \<or> b - 1 \<notin> {a..<e} \<union> S"
    unfolding block_def by (auto simp: subset_iff)
  have e: "e \<notin> {a..<e} \<union> S" using assms(2) by auto
  show "block {a..<e} b c \<or> block S b c"
  proof (cases "b < e")
    case True
    have "c \<le> e" using bc(2) [of e] True e by (meson linorder_not_less less_imp_le)
    then have "{b..<c} \<subseteq> {a..<e}" using bc(2) assms(2) by fastforce
    then show ?thesis using bc(1,3,4) unfolding block_def by blast
  next
    case False
    then have "{b..<c} \<subseteq> S" using bc(2) by fastforce
    then show ?thesis using bc(1,3,4) unfolding block_def by blast
  qed
next
  assume "block {a..<e} b c \<or> block S b c"
  then show "block ({a..<e} \<union> S) b c"
  proof
    assume "block {a..<e} b c"
    then have "b = a" "c = e" "a + 3 \<le> e" using block_interval [OF assms(1)] by auto
    then show ?thesis using assms(2) unfolding block_def by fastforce
  next
    assume h: "block S b c"
    then have "e < b" "b < c" using assms(2) block_in by blast+
    then show ?thesis using h unfolding block_def by auto
  qed
qed

lemma set_check_loop:
  assumes "sorted_wrt (<) (v # vs)" "tmp = [] \<and> a = v \<or> tmp = [a..<Suc v] \<and> a \<le> v"
  shows "set (check_loop (v # vs) tmp res) =
    set res \<union> {[b..<c] |b c. block ({a..<Suc v} \<union> set vs) b c}"
  using assms
proof (induction vs arbitrary: v tmp a res)
  case Nil
  then have t: "(if tmp = [] then [v] else tmp) = [a..<Suc v]" "a < Suc v" by auto
  then show ?case
    by (auto simp: set_keep_run block_interval simp del: upt_Suc)
next
  case (Cons w vs)
  let ?t = "if tmp = [] then [v] else tmp"
  have t: "?t = [a..<Suc v]" "a < Suc v" using Cons.prems by auto
  have w: "v < w" "\<forall>x \<in> set vs. w < x" "sorted_wrt (<) (w # vs)" using Cons.prems(1) by auto
  show ?case
  proof (cases "v + 1 = w")
    case True
    have "?t @ [w] = [a..<Suc w]" unfolding t(1) using t(2) True by auto
    then have "set (check_loop (w # vs) (?t @ [v + 1]) res) =
        set res \<union> {[b..<c] |b c. block ({a..<Suc w} \<union> set vs) b c}"
      using Cons.IH [OF w(3), of "?t @ [w]" a res] t True by (simp del: upt_Suc)
    moreover have "{a..<Suc w} \<union> set vs = {a..<Suc v} \<union> set (w # vs)" using True t by auto
    ultimately show ?thesis using True by (simp add: Let_def del: upt_Suc)
  next
    case False
    have gap: "\<forall>x \<in> {w..<Suc w} \<union> set vs. Suc v < x" using w False by auto
    have "set (check_loop (w # vs) [] (keep_run res ?t)) =
        set (keep_run res ?t) \<union> {[b..<c] |b c. block ({w..<Suc w} \<union> set vs) b c}"
      using Cons.IH [OF w(3), of "[]" w "keep_run res ?t"] by simp
    moreover have "set (keep_run res ?t) = set res \<union> {[b..<c] |b c. block {a..<Suc v} b c}"
      unfolding t(1) set_keep_run using block_interval [OF t(2)] by auto
    moreover have "{a..<Suc v} \<union> set (w # vs) = {a..<Suc v} \<union> ({w..<Suc w} \<union> set vs)" by auto
    ultimately show ?thesis
      using False block_gap [OF t(2) gap] by (auto simp: Let_def simp del: upt_Suc)
  qed
qed

lemma set_checkIncrease:
  assumes "sorted_wrt (<) xs"
  shows "set (checkIncrease xs) = {[b..<c] |b c. block (set xs) b c}"
proof (cases xs)
  case Nil
  then show ?thesis by (auto simp: checkIncrease_def set_keep_run block_def)
next
  case (Cons v vs)
  have "{v..<Suc v} \<union> set vs = set xs" using Cons by auto
  then show ?thesis using set_check_loop [of v vs "[]" v "[]"] assms Cons by (simp add: checkIncrease_def)
qed

lemma distinct_keep_run: "distinct res \<Longrightarrow> distinct (keep_run res tmp)"
  by (simp add: keep_run_def)

lemma distinct_checkIncrease: "distinct (checkIncrease xs)"
proof -
  have "distinct res \<Longrightarrow> distinct (check_loop xs tmp res)" for tmp res
    by (induction xs tmp res rule: check_loop.induct) (auto simp: distinct_keep_run Let_def)
  then show ?thesis by (simp add: checkIncrease_def)
qed

section \<open>The runs of a figure\<close>

text \<open>A maximal straight run of three or more cells that hold \<open>num\<close>.\<close>

definition match_run :: "board \<Rightarrow> int \<Rightarrow> axis \<Rightarrow> point list \<Rightarrow> bool" where
  "match_run t num a ps \<longleftrightarrow> (\<exists>c n. 3 \<le> n \<and> ps = ray a c n \<and>
     (\<forall>k < n. on_board (shift a c k) \<and> cell t (shift a c k) = num) \<and>
     \<not> (on_board (shift a c n) \<and> cell t (shift a c n) = num) \<and>
     (\<forall>d. bwd a c = Some d \<longrightarrow> cell t d \<noteq> num))"

lemma sorted_indexs:
  "sorted_wrt (<) (row_indexs t num r)" "sorted_wrt (<) (col_indexs t num r)"
  by (auto simp: row_indexs_def col_indexs_def intro!: sorted_wrt_filter)

lemma map_ray:
  "map (\<lambda>y. (r, y)) [b..<e] = ray Y (r, b) (e - b)" "map (\<lambda>x. (x, r)) [b..<e] = ray X (b, r) (e - b)"
  by (auto simp: ray_def list_eq_iff_nth_eq)

definition stretch :: "board \<Rightarrow> int \<Rightarrow> axis \<Rightarrow> point \<Rightarrow> nat \<Rightarrow> bool" where
  "stretch t num a c n \<longleftrightarrow> 3 \<le> n \<and>
     (\<forall>k < n. on_board (shift a c k) \<and> cell t (shift a c k) = num) \<and>
     \<not> (on_board (shift a c n) \<and> cell t (shift a c n) = num) \<and>
     (\<forall>d. bwd a c = Some d \<longrightarrow> cell t d \<noteq> num)"

lemma match_run_stretch: "match_run t num a ps \<longleftrightarrow> (\<exists>c n. ps = ray a c n \<and> stretch t num a c n)"
  by (auto simp: match_run_def stretch_def)

lemma set_indexs:
  "set (row_indexs t num r) = {y. y < 8 \<and> cell t (r, y) = num}"
  "set (col_indexs t num r) = {x. x < 8 \<and> cell t (x, r) = num}"
  by (auto simp: row_indexs_def col_indexs_def)

lemma block_row:
  assumes "r < 8"
  shows "block (set (row_indexs t num r)) b (b + n) \<longleftrightarrow> stretch t num Y (r, b) n"
proof -
  have "{b..<b + n} \<subseteq> {y. y < 8 \<and> cell t (r, y) = num} \<longleftrightarrow> (\<forall>k < n. b + k < 8 \<and> cell t (r, b + k) = num)"
    by (auto simp: subset_iff) (metis add_diff_inverse_nat le_add_diff_inverse less_diff_conv2 linorder_not_less nat_add_left_cancel_less)+
  moreover have "(b = 0 \<or> b - 1 \<notin> {y. y < 8 \<and> cell t (r, y) = num}) \<longleftrightarrow>
      (\<forall>d. bwd Y (r, b) = Some d \<longrightarrow> cell t d \<noteq> num)" if "b < 8"
    using that by auto
  moreover have "b < 8" if "\<forall>k < n. b + k < 8 \<and> Q k" "3 \<le> n" for Q
    using that by (auto dest: spec [of _ 0])
  ultimately show ?thesis
    using assms unfolding block_def stretch_def set_indexs by (auto simp: on_board_def simp del: bwd.simps)
qed

lemma block_col:
  assumes "r < 8"
  shows "block (set (col_indexs t num r)) b (b + n) \<longleftrightarrow> stretch t num X (b, r) n"
proof -
  have "{b..<b + n} \<subseteq> {y. y < 8 \<and> cell t (y, r) = num} \<longleftrightarrow> (\<forall>k < n. b + k < 8 \<and> cell t (b + k, r) = num)"
    by (auto simp: subset_iff) (metis add_diff_inverse_nat le_add_diff_inverse less_diff_conv2 linorder_not_less nat_add_left_cancel_less)+
  moreover have "(b = 0 \<or> b - 1 \<notin> {y. y < 8 \<and> cell t (y, r) = num}) \<longleftrightarrow>
      (\<forall>d. bwd X (b, r) = Some d \<longrightarrow> cell t d \<noteq> num)" if "b < 8"
    using that by auto
  moreover have "b < 8" if "\<forall>k < n. b + k < 8 \<and> Q k" "3 \<le> n" for Q
    using that by (auto dest: spec [of _ 0])
  ultimately show ?thesis
    using assms unfolding block_def stretch_def set_indexs by (auto simp: on_board_def simp del: bwd.simps)
qed

text \<open>The candidate list of a figure is exactly the list of its maximal straight runs.\<close>

lemma set_pointList: "set (pointList t num) = {ps. \<exists>a. match_run t num a ps}"
proof -
  have rows: "(\<exists>r < 8. \<exists>b e. ps = map (\<lambda>y. (r, y)) [b..<e] \<and> block (set (row_indexs t num r)) b e)
      \<longleftrightarrow> match_run t num Y ps" for ps
  proof
    assume "\<exists>r < 8. \<exists>b e. ps = map (\<lambda>y. (r, y)) [b..<e] \<and> block (set (row_indexs t num r)) b e"
    then obtain r b e where h: "r < 8" "ps = ray Y (r, b) (e - b)" "block (set (row_indexs t num r)) b e"
      unfolding map_ray by blast
    then have "e = b + (e - b)" by (auto simp: block_def)
    with h block_row [OF h(1), of t num b "e - b"] show "match_run t num Y ps"
      unfolding match_run_stretch by metis
  next
    assume "match_run t num Y ps"
    then obtain c n where h: "ps = ray Y c n" "stretch t num Y c n" unfolding match_run_stretch by blast
    moreover have "on_board c" using h(2) by (auto simp: stretch_def dest: spec [of _ 0])
    moreover have "ps = map (\<lambda>y. (fst c, y)) [snd c..<snd c + n]"
      using h(1) map_ray(1) [of "fst c" "snd c" "snd c + n"] by simp
    ultimately show "\<exists>r < 8. \<exists>b e. ps = map (\<lambda>y. (r, y)) [b..<e] \<and> block (set (row_indexs t num r)) b e"
      using block_row [of "fst c" t num "snd c" n]
      by (intro exI [of _ "fst c"] exI [of _ "snd c"] exI [of _ "snd c + n"] conjI) (auto simp: on_board_def)
  qed
  have cols: "(\<exists>r < 8. \<exists>b e. ps = map (\<lambda>x. (x, r)) [b..<e] \<and> block (set (col_indexs t num r)) b e)
      \<longleftrightarrow> match_run t num X ps" for ps
  proof
    assume "\<exists>r < 8. \<exists>b e. ps = map (\<lambda>x. (x, r)) [b..<e] \<and> block (set (col_indexs t num r)) b e"
    then obtain r b e where h: "r < 8" "ps = ray X (b, r) (e - b)" "block (set (col_indexs t num r)) b e"
      unfolding map_ray by blast
    then have "e = b + (e - b)" by (auto simp: block_def)
    with h block_col [OF h(1), of t num b "e - b"] show "match_run t num X ps"
      unfolding match_run_stretch by metis
  next
    assume "match_run t num X ps"
    then obtain c n where h: "ps = ray X c n" "stretch t num X c n" unfolding match_run_stretch by blast
    moreover have "on_board c" using h(2) by (auto simp: stretch_def dest: spec [of _ 0])
    moreover have "ps = map (\<lambda>x. (x, snd c)) [fst c..<fst c + n]"
      using h(1) map_ray(2) [of "snd c" "fst c" "fst c + n"] by simp
    ultimately show "\<exists>r < 8. \<exists>b e. ps = map (\<lambda>x. (x, r)) [b..<e] \<and> block (set (col_indexs t num r)) b e"
      using block_col [of "snd c" t num "fst c" n]
      by (intro exI [of _ "snd c"] exI [of _ "fst c"] exI [of _ "fst c + n"] conjI) (auto simp: on_board_def)
  qed
  have imgr: "ps \<in> map f ` {[b..<c] |b c. block S b c} \<longleftrightarrow> (\<exists>b e. ps = map f [b..<e] \<and> block S b e)"
    for f :: "nat \<Rightarrow> point" and S ps by blast
  have "set (pointList t num) =
      {ps. (\<exists>r < 8. \<exists>b e. ps = map (\<lambda>y. (r, y)) [b..<e] \<and> block (set (row_indexs t num r)) b e) \<or>
           (\<exists>r < 8. \<exists>b e. ps = map (\<lambda>x. (x, r)) [b..<e] \<and> block (set (col_indexs t num r)) b e)}"
    by (rule set_eqI)
      (simp add: pointList_def set_checkIncrease [OF sorted_indexs(1)] set_checkIncrease [OF sorted_indexs(2)]
        imgr Bex_def)
  also have "\<dots> = {ps. \<exists>a. match_run t num a ps}"
    unfolding rows cols by (auto, metis axis.exhaust)
  finally show ?thesis .
qed

lemma distinct_ray: "distinct (ray a c n)"
  by (simp add: ray_def distinct_map inj_on_def)

lemma match_run_facts:
  assumes "match_run t num a ps"
  shows "3 \<le> length ps \<and> distinct ps \<and> (\<forall>c \<in> set ps. on_board c \<and> cell t c = num)"
  using assms unfolding match_run_def by (auto simp: set_ray distinct_ray)

section \<open>\<open>relevance\<close>: connected components\<close>

definition share :: "point list \<Rightarrow> point list \<Rightarrow> bool" where
  "share p q \<longleftrightarrow> set p \<inter> set q \<noteq> {}"

text \<open>Runs reachable from one run through runs that share cells, inside a given set of runs.\<close>

definition linked :: "point list set \<Rightarrow> (point list \<times> point list) set" where
  "linked D = {(p, q). p \<in> D \<and> q \<in> D \<and> share p q}"

lemma set_add_points: "set (add_points tmp sample) = set tmp \<union> set sample"
  by (simp add: add_points_def foldl_append_new)

lemma distinct_append_new: "distinct xs \<Longrightarrow> distinct (append_new xs x)"
  by (simp add: append_new_def)

lemma distinct_add_points: "distinct tmp \<Longrightarrow> distinct (add_points tmp sample)"
  unfolding add_points_def by (induction sample arbitrary: tmp) (auto simp: distinct_append_new)

lemma set_related: "set (related sample datas) = {l \<in> set datas. share sample l}"
proof -
  have inner: "set (foldl (\<lambda>rel l. if p \<in> set l then append_new rel l else rel) rel ds) =
      set rel \<union> {l \<in> set ds. p \<in> set l}" for p rel ds
    by (induction ds arbitrary: rel) (auto simp: append_new_def)
  have "set (foldl (\<lambda>rel p. foldl (\<lambda>rel l. if p \<in> set l then append_new rel l else rel) rel datas) rel sample) =
      set rel \<union> {l \<in> set datas. \<exists>p \<in> set sample. p \<in> set l}" for rel
    by (induction sample arbitrary: rel) (auto simp: inner)
  then show ?thesis by (auto simp: related_def share_def)
qed

text \<open>What a visit has done when it moves from \<open>(D, T)\<close> to \<open>(D', T')\<close>: it removed a set of runs that
  are linked to the sample, added exactly their points, and left no run that shares a cell with one
  it removed.\<close>

definition visited :: "point list set \<Rightarrow> point list \<Rightarrow> point list list \<Rightarrow> point list \<Rightarrow> point list list \<Rightarrow> point list \<Rightarrow> bool" where
  "visited U s D T D' T' \<longleftrightarrow> distinct D' \<and> (distinct T \<longrightarrow> distinct T') \<and> set D' \<subseteq> set D \<and> length D' \<le> length D \<and>
     set T' = set T \<union> \<Union> (set ` (set D - set D')) \<and>
     (\<forall>r \<in> set D - set D'. (s, r) \<in> (linked U)\<^sup>*) \<and>
     (\<forall>r \<in> set D - set D'. \<forall>d \<in> set D'. \<not> share r d)"

lemma visited_refl: "distinct D \<Longrightarrow> visited U s D T D T"
  by (simp add: visited_def)

lemma visited_trans:
  assumes "visited U s D T D1 T1" "visited U s D1 T1 D2 T2"
  shows "visited U s D T D2 T2"
proof -
  have split: "set D - set D2 = (set D - set D1) \<union> (set D1 - set D2)"
    using assms unfolding visited_def by auto
  show ?thesis
    using assms unfolding visited_def split by (auto simp: image_Un)
qed

lemma visited_from:
  assumes "visited U r D T D' T'" "(s, r) \<in> (linked U)\<^sup>*"
  shows "visited U s D T D' T'"
  using assms unfolding visited_def by (meson rtrancl_trans)

lemma visit_loop:
  assumes IH: "\<And>r D T. length D < n \<Longrightarrow> distinct D \<Longrightarrow> set D \<subseteq> U \<Longrightarrow> r \<in> U \<Longrightarrow> (r \<notin> set D \<longrightarrow> set r \<subseteq> set T) \<Longrightarrow>
      \<exists>D' T'. visit n r (D, T) = Some (D', T') \<and> visited U r D T D' T' \<and> r \<notin> set D'"
    and "length D < n" "distinct D" "set D \<subseteq> U"
    "\<And>r. r \<in> set rs \<Longrightarrow> r \<in> U \<and> (s, r) \<in> (linked U)\<^sup>* \<and> (r \<notin> set D \<longrightarrow> set r \<subseteq> set T)"
  shows "\<exists>D' T'. foldl (\<lambda>st r. Option.bind st (visit n r)) (Some (D, T)) rs = Some (D', T') \<and>
     visited U s D T D' T' \<and> (\<forall>r \<in> set rs. r \<notin> set D')"
  using assms(2-)
proof (induction rs arbitrary: D T)
  case Nil
  then show ?case by (auto intro: visited_refl)
next
  case (Cons r rs)
  obtain D1 T1 where v: "visit n r (D, T) = Some (D1, T1)" "visited U r D T D1 T1" "r \<notin> set D1"
    using IH [of D r T] Cons.prems by auto
  have v1: "visited U s D T D1 T1" using v(2) Cons.prems(4) [of r] by (auto intro: visited_from)
  have pre: "q \<in> U \<and> (s, q) \<in> (linked U)\<^sup>* \<and> (q \<notin> set D1 \<longrightarrow> set q \<subseteq> set T1)" if "q \<in> set rs" for q
    using Cons.prems(4) [of q] that v1 unfolding visited_def by auto
  have "length D1 < n" "distinct D1" "set D1 \<subseteq> U"
    using v1 Cons.prems unfolding visited_def by auto
  from Cons.IH [OF this pre]
  obtain D2 T2 where "foldl (\<lambda>st r. Option.bind st (visit n r)) (Some (D1, T1)) rs = Some (D2, T2)"
      "visited U s D1 T1 D2 T2" "\<forall>q \<in> set rs. q \<notin> set D2" by blast
  moreover have "r \<notin> set D2" using v(3) calculation(2) unfolding visited_def by auto
  ultimately show ?case using v(1) visited_trans [OF v1] by auto
qed

lemma visit_ok:
  assumes "length D < n" "distinct D" "set D \<subseteq> U" "s \<in> U" "s \<notin> set D \<longrightarrow> set s \<subseteq> set T"
  shows "\<exists>D' T'. visit n s (D, T) = Some (D', T') \<and> visited U s D T D' T' \<and> s \<notin> set D'"
  using assms
proof (induction n arbitrary: s D T)
  case (Suc n)
  let ?T1 = "add_points T s" and ?D1 = "remove1 s D"
  show ?case
  proof (cases "s \<in> set D")
    case False
    then have "set ?T1 = set T" using Suc.prems by (auto simp: set_add_points)
    moreover have "distinct T \<longrightarrow> distinct ?T1" by (simp add: distinct_add_points)
    ultimately have "visited U s D T D ?T1" "visited U s D T D T"
      using Suc.prems by (simp_all add: visited_def)
    then show ?thesis using False by (cases "D = []") (auto simp: Let_def)
  next
    case True
    have "0 < length D" using True by (cases D) auto
    moreover have "length ?D1 = length D - 1" using True by (simp add: length_remove1)
    ultimately have "length ?D1 < n" using Suc.prems(1) by linarith
    then have D1: "length ?D1 < n" "distinct ?D1" "set ?D1 = set D - {s}" "set ?D1 \<subseteq> U"
      using Suc.prems True by (auto simp: length_remove1)
    let ?rs = "if ?D1 = [] then [] else related s ?D1"
    have rs: "set ?rs = {l \<in> set ?D1. share s l}" by (auto simp: set_related)
    have "\<exists>D' T'. foldl (\<lambda>st r. Option.bind st (visit n r)) (Some (?D1, ?T1)) ?rs = Some (D', T') \<and>
       visited U s ?D1 ?T1 D' T' \<and> (\<forall>r \<in> set ?rs. r \<notin> set D')"
    proof (rule visit_loop [OF _ D1(1,2,4)])
      show "r \<in> U \<and> (s, r) \<in> (linked U)\<^sup>* \<and> (r \<notin> set ?D1 \<longrightarrow> set r \<subseteq> set ?T1)" if "r \<in> set ?rs" for r
        using that D1(4) Suc.prems(4) unfolding rs by (auto simp: linked_def intro!: r_into_rtrancl)
    qed (rule Suc.IH)
    then obtain D' T' where f: "foldl (\<lambda>st r. Option.bind st (visit n r)) (Some (?D1, ?T1)) ?rs = Some (D', T')"
      "visited U s ?D1 ?T1 D' T'" "\<forall>r \<in> set ?rs. r \<notin> set D'" by blast
    have sub: "set D' \<subseteq> set D - {s}" using f(2) D1(3) by (simp add: visited_def)
    then have split: "set D - set D' = insert s (set ?D1 - set D')" using True D1(3) by auto
    have far: "\<not> share s d" if "d \<in> set D'" for d
      using that f(3) sub D1(3) unfolding rs by auto
    have "visited U s D T D' T'"
      using f(2) far True D1 sub
      unfolding visited_def split set_add_points
      by (auto simp: distinct_add_points length_remove1)
    then show ?thesis using True f(1) sub by (auto simp: Let_def)
  qed
qed simp

text \<open>The groups of a list of runs: disjoint, each the points of one connected component.\<close>

definition components :: "point list list \<Rightarrow> point list list \<Rightarrow> bool" where
  "components ds gs \<longleftrightarrow>
     (\<forall>g \<in> set gs. distinct g) \<and>
     (\<forall>i j. i < length gs \<longrightarrow> j < length gs \<longrightarrow> i \<noteq> j \<longrightarrow> set (gs ! i) \<inter> set (gs ! j) = {}) \<and>
     \<Union> (set ` set gs) = \<Union> (set ` set ds) \<and>
     (\<forall>d \<in> set ds. \<exists>g \<in> set gs. set d \<subseteq> set g) \<and>
     (\<forall>g \<in> set gs. \<exists>d \<in> set ds. set d \<subseteq> set g \<and> set g = \<Union> (set ` {r \<in> set ds. (d, r) \<in> (linked (set ds))\<^sup>*}))"

lemma linked_mono: "A \<subseteq> B \<Longrightarrow> (linked A)\<^sup>* \<subseteq> (linked B)\<^sup>*"
  by (rule rtrancl_mono) (auto simp: linked_def)

text \<open>Nothing is linked from outside a part no run of which touches the rest.\<close>

lemma linked_stays:
  assumes "(d, r) \<in> (linked (R \<union> D))\<^sup>*" "d \<in> R" "\<forall>p \<in> R. \<forall>q \<in> D. \<not> share p q"
  shows "r \<in> R"
  using assms(1,2)
proof (induction rule: rtrancl_induct)
  case (step y z)
  then show ?case using assms(3) by (auto simp: linked_def)
qed

lemma linked_within:
  assumes "(d, r) \<in> (linked (R \<union> D))\<^sup>*" "d \<in> D" "\<forall>p \<in> R. \<forall>q \<in> D. \<not> share p q"
  shows "r \<in> D \<and> (d, r) \<in> (linked D)\<^sup>*"
  using assms(1,2)
proof (induction rule: rtrancl_induct)
  case (step y z)
  then have "y \<in> D" "z \<in> D" "(y, z) \<in> linked D"
    using assms(3) by (auto simp: linked_def share_def)
  then show ?case using step by (meson rtrancl.rtrancl_into_rtrancl)
qed simp

lemma relevance_ok:
  assumes "length ds \<le> n" "distinct ds"
  shows "\<exists>gs. relevance n ds = Some gs \<and> components ds gs"
  using assms
proof (induction n arbitrary: ds)
  case 0
  then show ?case by (simp add: components_def)
next
  case (Suc n)
  show ?case
  proof (cases ds)
    case Nil
    then show ?thesis by (simp add: components_def)
  next
    case (Cons d rest)
    obtain D' g where v: "visit (length ds + 1) d (ds, []) = Some (D', g)" "visited (set ds) d ds [] D' g" "d \<notin> set D'"
      using visit_ok [of ds "length ds + 1" "set ds" d "[]"] Suc.prems Cons by auto
    let ?R = "set ds - set D'"
    have R: "set ds = ?R \<union> set D'" "d \<in> ?R" "\<forall>p \<in> ?R. \<forall>q \<in> set D'. \<not> share p q" "set g = \<Union> (set ` ?R)"
      "distinct g" "distinct D'" "\<forall>r \<in> ?R. (d, r) \<in> (linked (set ds))\<^sup>*" "set D' \<subseteq> set ds"
      using v Cons by (auto simp: visited_def)
    have "card (set D') < card (set ds)"
      using R(2,8) by (intro psubset_card_mono) auto
    then have "length D' < length ds"
      using R(6) Suc.prems(2) by (simp add: distinct_card)
    then obtain gs where gs: "relevance n D' = Some gs" "components D' gs"
      using Suc.IH [of D'] Suc.prems R(6) by auto
    have here: "set g = \<Union> (set ` {r \<in> set ds. (d, r) \<in> (linked (set ds))\<^sup>*})"
    proof -
      have "{r \<in> set ds. (d, r) \<in> (linked (set ds))\<^sup>*} = ?R"
        using R(7) linked_stays [of d _ ?R "set D'", folded R(1), OF _ R(2,3)] by blast
      then show ?thesis using R(4) by simp
    qed
    have apart: "set g \<inter> set h = {}" if "h \<in> set gs" for h
    proof -
      have "set h \<subseteq> \<Union> (set ` set D')" using gs(2) that by (auto simp: components_def)
      then show ?thesis using R(3,4) by (fastforce simp: share_def)
    qed
    have "components ds (g # gs)"
      unfolding components_def
    proof (intro conjI)
      show "\<forall>h \<in> set (g # gs). distinct h" using R(5) gs(2) by (simp add: components_def)
      show "\<forall>i j. i < length (g # gs) \<longrightarrow> j < length (g # gs) \<longrightarrow> i \<noteq> j \<longrightarrow> set ((g # gs) ! i) \<inter> set ((g # gs) ! j) = {}"
        using gs(2) apart by (auto simp: components_def nth_Cons split: nat.splits) (metis IntI empty_iff nth_mem)+
      show "\<Union> (set ` set (g # gs)) = \<Union> (set ` set ds)"
      proof -
        have "\<Union> (set ` set gs) = \<Union> (set ` set D')" using gs(2) by (simp add: components_def)
        moreover have "\<Union> (set ` set ds) = \<Union> (set ` ?R) \<union> \<Union> (set ` set D')" using R(8) by auto
        ultimately show ?thesis using R(4) by simp
      qed
      show "\<forall>p \<in> set ds. \<exists>h \<in> set (g # gs). set p \<subseteq> set h"
      proof
        fix p assume "p \<in> set ds"
        then consider "p \<in> ?R" | "p \<in> set D'" by blast
        then show "\<exists>h \<in> set (g # gs). set p \<subseteq> set h"
          using R(4) gs(2) unfolding components_def by cases auto
      qed
      show "\<forall>h \<in> set (g # gs). \<exists>p \<in> set ds. set p \<subseteq> set h \<and>
          set h = \<Union> (set ` {r \<in> set ds. (p, r) \<in> (linked (set ds))\<^sup>*})"
      proof
        fix h assume "h \<in> set (g # gs)"
        then consider "h = g" | "h \<in> set gs" by auto
        then show "\<exists>p \<in> set ds. set p \<subseteq> set h \<and> set h = \<Union> (set ` {r \<in> set ds. (p, r) \<in> (linked (set ds))\<^sup>*})"
        proof cases
          case 1
          then show ?thesis using here R(2,4) by auto
        next
          case 2
          have "\<forall>h \<in> set gs. \<exists>p \<in> set D'. set p \<subseteq> set h \<and>
              set h = \<Union> (set ` {r \<in> set D'. (p, r) \<in> (linked (set D'))\<^sup>*})"
            using gs(2) unfolding components_def by (elim conjE) assumption
          from bspec [OF this 2] obtain p where p: "p \<in> set D'" "set p \<subseteq> set h"
              "set h = \<Union> (set ` {r \<in> set D'. (p, r) \<in> (linked (set D'))\<^sup>*})"
            by (elim bexE conjE) (rule that)
          have inside: "r \<in> set D' \<and> (p, r) \<in> (linked (set D'))\<^sup>*" if "(p, r) \<in> (linked (set ds))\<^sup>*" for r
            using linked_within [of p r ?R "set D'", folded R(1), OF that p(1) R(3)] .
          have outside: "(p, r) \<in> (linked (set ds))\<^sup>*" if "(p, r) \<in> (linked (set D'))\<^sup>*" for r
            using linked_mono [OF R(8)] that by (rule subsetD)
          have "{r \<in> set ds. (p, r) \<in> (linked (set ds))\<^sup>*} = {r \<in> set D'. (p, r) \<in> (linked (set D'))\<^sup>*}"
            using inside outside R(8) by (intro Collect_cong iffI conjI) (blast+)
          then show ?thesis using p R(8) by (intro bexI [of _ p]) auto
        qed
      qed
    qed
    then show ?thesis using v(1) gs(1) Cons by simp
  qed
qed

section \<open>What \<open>getResults\<close> reports\<close>

lemma distinct_concat_map:
  assumes "distinct xs" "\<And>x. x \<in> set xs \<Longrightarrow> distinct (f x)"
    "\<And>x y. x \<in> set xs \<Longrightarrow> y \<in> set xs \<Longrightarrow> x \<noteq> y \<Longrightarrow> set (f x) \<inter> set (f y) = {}"
  shows "distinct (concat (map f xs))"
  using assms
proof (induction xs)
  case (Cons x xs)
  have "set (f x) \<inter> (\<Union>y \<in> set xs. set (f y)) = {}"
    using Cons.prems(1,3) by (fastforce simp: disjoint_iff)
  then show ?case using Cons by simp
qed simp

lemma in_row_runs:
  assumes "ps \<in> set (map (map (\<lambda>y. (r, y))) (checkIncrease (row_indexs t num r)))"
  shows "3 \<le> length ps \<and> fst ` set ps = {r} \<and> 3 \<le> card (snd ` set ps)"
proof -
  obtain b c where h: "ps = map (\<lambda>y. (r, y)) [b..<c]" "b + 3 \<le> c"
    using assms by (auto simp: set_checkIncrease [OF sorted_indexs(1)] block_def)
  then have "fst ` set ps = {r}" by (auto simp: image_image image_constant_conv)
  moreover have "snd ` set ps = {b..<c}" using h(1) by (simp add: image_image)
  ultimately show ?thesis using h by simp
qed

lemma in_col_runs:
  assumes "ps \<in> set (map (map (\<lambda>x. (x, r))) (checkIncrease (col_indexs t num r)))"
  shows "3 \<le> length ps \<and> snd ` set ps = {r}"
proof -
  obtain b c where h: "ps = map (\<lambda>x. (x, r)) [b..<c]" "b + 3 \<le> c"
    using assms by (auto simp: set_checkIncrease [OF sorted_indexs(2)] block_def)
  then have "snd ` set ps = {r}" by (auto simp: image_image image_constant_conv)
  then show ?thesis using h by simp
qed

lemma distinct_pointList: "distinct (pointList t num)"
proof -
  let ?rows = "\<lambda>r. map (map (\<lambda>y. (r, y))) (checkIncrease (row_indexs t num r))"
  let ?cols = "\<lambda>r. map (map (\<lambda>x. (x, r))) (checkIncrease (col_indexs t num r))"
  have inj: "inj (map (\<lambda>y. (r, y)))" "inj (map (\<lambda>x. (x, r)))" for r :: nat
    by (rule list.inj_map, simp add: inj_def)+
  have d: "distinct (?rows r)" "distinct (?cols r)" for r
    unfolding distinct_map
    by (rule conjI [OF distinct_checkIncrease inj_on_subset [OF inj(1) subset_UNIV]],
      rule conjI [OF distinct_checkIncrease inj_on_subset [OF inj(2) subset_UNIV]])
  have apart: "set (?rows r) \<inter> set (?rows c) = {}" "set (?cols r) \<inter> set (?cols c) = {}" if "r \<noteq> c" for r c
  proof -
    have "False" if "ps \<in> set (?rows r)" "ps \<in> set (?rows c)" for ps
      using in_row_runs [OF that(1)] in_row_runs [OF that(2)] \<open>r \<noteq> c\<close> by (metis singleton_inject)
    then show "set (?rows r) \<inter> set (?rows c) = {}" by blast
    have "False" if "ps \<in> set (?cols r)" "ps \<in> set (?cols c)" for ps
      using in_col_runs [OF that(1)] in_col_runs [OF that(2)] \<open>r \<noteq> c\<close> by (metis singleton_inject)
    then show "set (?cols r) \<inter> set (?cols c) = {}" by blast
  qed
  have rows: "distinct (concat (map ?rows [0..<HEIGHT]))"
    by (rule distinct_concat_map [OF distinct_upt d(1) apart(1)])
  have cols: "distinct (concat (map ?cols [0..<WIDTH]))"
    by (rule distinct_concat_map [OF distinct_upt d(2) apart(2)])
  have cross: "ps \<notin> set (?cols c)" if "ps \<in> set (?rows r)" for r c ps
  proof
    assume "ps \<in> set (?cols c)"
    then have "3 \<le> card (snd ` set ps)" "snd ` set ps = {c}"
      using in_row_runs [OF that] in_col_runs by blast+
    then show False by simp
  qed
  have "set (concat (map ?rows [0..<HEIGHT])) \<inter> set (concat (map ?cols [0..<WIDTH])) = {}"
    unfolding set_concat set_map using cross by blast
  then show ?thesis unfolding pointList_def using rows cols by (simp only: distinct_append)
qed

lemma resultLists_ok: "\<exists>gs. resultLists t num = Some gs \<and> components (pointList t num) gs"
  using relevance_ok [OF order_refl distinct_pointList] by (simp add: resultLists_def Let_def)

text \<open>C33: the groups \<open>relevance\<close> makes of the runs of one figure: it always returns (the fuel,
  the number of runs, is enough), the runs it starts from are exactly the maximal straight runs of
  three or more cells of that figure, and the groups are their connected components under "shares a
  cell": pairwise disjoint, without repeated cells, covering exactly the cells of the runs.\<close>

theorem resultLists_components:
  "\<exists>gs. resultLists t num = Some gs \<and> components (pointList t num) gs \<and>
     set (pointList t num) = {ps. \<exists>a. match_run t num a ps}"
  using resultLists_ok set_pointList by simp

text \<open>The maximal straight runs of a figure, and the connected groups they form: everything that is linked to one of them
  by steps between runs that share a cell.\<close>

definition runs_of :: "board \<Rightarrow> int \<Rightarrow> point list set" where
  "runs_of t num = {ps. \<exists>a. match_run t num a ps}"

definition connected_group :: "board \<Rightarrow> int \<Rightarrow> point set \<Rightarrow> bool" where
  "connected_group t num C \<longleftrightarrow>
     (\<exists>d \<in> runs_of t num. C = \<Union> (set ` {r \<in> runs_of t num. (d, r) \<in> (linked (runs_of t num))\<^sup>*}))"

lemma runs_of_pointList: "runs_of t num = set (pointList t num)"
  by (simp add: runs_of_def set_pointList)

lemma components_connected:
  assumes "components (pointList t num) gs" "g \<in> set gs"
  shows "connected_group t num (set g)"
proof -
  have "\<forall>g \<in> set gs. \<exists>d \<in> set (pointList t num). set d \<subseteq> set g \<and>
      set g = \<Union> (set ` {r \<in> set (pointList t num). (d, r) \<in> (linked (set (pointList t num)))\<^sup>*})"
    using assms(1) unfolding components_def by (elim conjE)
  from bspec [OF this assms(2)] show ?thesis unfolding connected_group_def runs_of_pointList by blast
qed

text \<open>What a report of the board promises the caller: every entry is one connected group of its figure, whole and
  alone, and every cell of a run is in an entry.\<close>

definition exact_report :: "board \<Rightarrow> int set \<Rightarrow> result list \<Rightarrow> bool" where
  "exact_report t nums rs \<longleftrightarrow>
     (\<forall>r \<in> set rs. rtype r \<in> nums \<and> rlen r = length (coordinates r) \<and> 3 \<le> length (coordinates r) \<and>
        distinct (coordinates r) \<and> (\<forall>c \<in> set (coordinates r). on_board c \<and> cell t c = rtype r) \<and>
        connected_group t (rtype r) (set (coordinates r))) \<and>
     (\<forall>c. (\<exists>r \<in> set rs. c \<in> set (coordinates r)) \<longleftrightarrow>
        (\<exists>num \<in> nums. \<exists>a ps. match_run t num a ps \<and> c \<in> set ps)) \<and>
     sorted_wrt (\<lambda>r q. set (coordinates r) \<inter> set (coordinates q) = {}) rs"

lemma components_groups:
  assumes "components ds gs" "\<And>d. d \<in> set ds \<Longrightarrow> 3 \<le> length d \<and> distinct d"
  shows "g \<in> set gs \<Longrightarrow> distinct g \<and> 3 \<le> length g \<and> set g \<subseteq> \<Union> (set ` set ds)"
    and "sorted_wrt (\<lambda>g h. set g \<inter> set h = {}) gs"
    and "\<Union> (set ` set gs) = \<Union> (set ` set ds)"
proof -
  have c: "\<forall>g \<in> set gs. distinct g" "\<Union> (set ` set gs) = \<Union> (set ` set ds)"
      "\<forall>i j. i < length gs \<longrightarrow> j < length gs \<longrightarrow> i \<noteq> j \<longrightarrow> set (gs ! i) \<inter> set (gs ! j) = {}"
      "\<forall>g \<in> set gs. \<exists>d \<in> set ds. set d \<subseteq> set g \<and> set g = \<Union> (set ` {r \<in> set ds. (d, r) \<in> (linked (set ds))\<^sup>*})"
    using assms(1) unfolding components_def by - (elim conjE, assumption)+
  show "\<Union> (set ` set gs) = \<Union> (set ` set ds)" by (rule c(2))
  show "sorted_wrt (\<lambda>g h. set g \<inter> set h = {}) gs" using c(3) by (simp add: sorted_wrt_iff_nth_less)
  assume g: "g \<in> set gs"
  from bspec [OF c(4) g] obtain d where d: "d \<in> set ds" "set d \<subseteq> set g" by (elim bexE conjE)
  have "card (set d) \<le> card (set g)" using d(2) by (rule card_mono [OF finite_set])
  then have "length d \<le> length g" using assms(2) [OF d(1)] c(1) g by (simp add: distinct_card)
  then have "3 \<le> length g" using assms(2) [OF d(1)] by linarith
  moreover have "set g \<subseteq> \<Union> (set ` set ds)" using g c(2) by blast
  ultimately show "distinct g \<and> 3 \<le> length g \<and> set g \<subseteq> \<Union> (set ` set ds)" using c(1) g by blast
qed

lemma getResult_exact: "\<exists>rs. getResult t num = Some rs \<and> exact_report t {num} rs"
proof -
  obtain gs where gs: "resultLists t num = Some gs" "components (pointList t num) gs"
    using resultLists_ok by blast
  have run: "3 \<le> length d \<and> distinct d \<and> (\<forall>c \<in> set d. on_board c \<and> cell t c = num)" if "d \<in> set (pointList t num)" for d
    using that match_run_facts by (auto simp: set_pointList)
  note groups = components_groups [OF gs(2), OF conjI]
  have g: "distinct g \<and> 3 \<le> length g \<and> set g \<subseteq> \<Union> (set ` set (pointList t num))" if "g \<in> set gs" for g
    by (rule groups(1) [OF _ _ that]) (use run in auto)
  have s: "sorted_wrt (\<lambda>g h. set g \<inter> set h = {}) gs" by (rule groups(2)) (use run in auto)
  have u: "\<Union> (set ` set gs) = \<Union> (set ` set (pointList t num))" by (rule groups(3)) (use run in auto)
  let ?rs = "map (\<lambda>g. \<lparr>rlen = length g, coordinates = g, rtype = num\<rparr>) gs"
  have "on_board c \<and> cell t c = num" if "g \<in> set gs" "c \<in> set g" for g c
    using g [OF that(1)] that(2) run by blast
  moreover have "(\<exists>r \<in> set ?rs. c \<in> set (coordinates r)) \<longleftrightarrow> (\<exists>a ps. match_run t num a ps \<and> c \<in> set ps)" for c
  proof -
    have "(\<exists>r \<in> set ?rs. c \<in> set (coordinates r)) \<longleftrightarrow> c \<in> \<Union> (set ` set gs)" by auto
    then show ?thesis unfolding u set_pointList by auto
  qed
  moreover have "connected_group t num (set g)" if "g \<in> set gs" for g
    by (rule components_connected [OF gs(2) that])
  ultimately have "exact_report t {num} ?rs"
    using g s by (auto simp: exact_report_def sorted_wrt_map)
  then show ?thesis using gs(1) by (simp add: getResult_def)
qed

lemma exact_report_append:
  assumes "exact_report t M rs" "exact_report t N qs" "M \<inter> N = {}"
  shows "exact_report t (M \<union> N) (rs @ qs)"
proof -
  have "set (coordinates r) \<inter> set (coordinates q) = {}" if "r \<in> set rs" "q \<in> set qs" for r q
  proof -
    have "cell t c = rtype r" if "c \<in> set (coordinates r)" for c
      using assms(1) \<open>r \<in> set rs\<close> that by (auto simp: exact_report_def)
    moreover have "cell t c = rtype q" if "c \<in> set (coordinates q)" for c
      using assms(2) \<open>q \<in> set qs\<close> that by (auto simp: exact_report_def)
    moreover have "rtype r \<noteq> rtype q"
      using assms that by (auto simp: exact_report_def)
    ultimately show ?thesis by (metis disjoint_iff)
  qed
  then have "sorted_wrt (\<lambda>r q. set (coordinates r) \<inter> set (coordinates q) = {}) (rs @ qs)"
    using assms(1,2) by (simp add: exact_report_def sorted_wrt_append)
  then show ?thesis
    using assms(1,2) unfolding exact_report_def set_append ball_Un bex_Un by simp
qed

lemma exact_report_Nil: "exact_report t {} []"
  by (simp add: exact_report_def)

lemma getResults_loop:
  assumes "distinct nums" "exact_report t M rs" "M \<inter> set nums = {}"
  shows "\<exists>qs. foldl (\<lambda>acc num. Option.bind acc (\<lambda>rs. map_option ((@) rs) (getResult t num))) (Some rs) nums = Some qs \<and>
    exact_report t (M \<union> set nums) qs"
  using assms
proof (induction nums arbitrary: M rs)
  case (Cons num nums)
  obtain new where new: "getResult t num = Some new" "exact_report t {num} new"
    using getResult_exact by blast
  have "exact_report t (M \<union> {num}) (rs @ new)"
    using Cons.prems new(2) by (intro exact_report_append) auto
  then show ?case
    using Cons.IH [of "M \<union> {num}" "rs @ new"] Cons.prems new(1) by auto
qed auto

lemma getResults_ok: "\<exists>rs. getResults t = Some rs \<and> exact_report t {1..5} rs"
proof -
  have "distinct (map int [1..<TYPECount + 1])" by (simp add: distinct_map)
  moreover have "set (map int [1..<TYPECount + 1]) = {1..5}"
    by (simp add: image_int_atLeastLessThan atLeastLessThanSuc_atLeastAtMost eval_nat_numeral) auto
  ultimately show ?thesis
    using getResults_loop [of "map int [1..<TYPECount + 1]" t "{}" "[]"] exact_report_Nil
    by (simp only: getResults_def Un_empty_left Int_empty_left)
qed

text \<open>C1: on every board the report returns, and it is exact: every entry consists of three or more distinct cells
  of its figure and is a connected group, which is all the maximal straight runs of three or more cells that
  are linked to one of them by shared cells and nothing else; the entries are pairwise disjoint, and a cell is
  reported if and only if it lies on a maximal straight run of three or more equal figures 1..5.\<close>

theorem getResults_exact: "\<exists>rs. getResults t = Some rs \<and> exact_report t {1..5} rs"
  by (rule getResults_ok)

end
