(* ===== verification/XxlDraw.thy ===== *)
theory XxlDraw
  imports XxlMatch
begin

text \<open>
  How a board of the match-three game is drawn and scored as a whole (model/xiaoxiaoleModel.py,
  \<open>xiaoxiaoleMgr\<close>): the weighted draw of a figure is fair, and every way of drawing returns a full
  board with an exact report.
\<close>

section \<open>The weighted draw\<close>

lemma pick_kind_total: "acc < num \<Longrightarrow> num \<le> acc + weights tbl \<Longrightarrow> \<exists>k. pick_kind tbl num acc = Some k"
  by (induction tbl arbitrary: acc) (auto simp: weights_def algebra_simps not_le)

lemma pick_kind_in: "pick_kind tbl num acc = Some k \<Longrightarrow> k \<in> fst ` set tbl"
  by (induction tbl arbitrary: acc) (fastforce split: if_splits)+

lemma weights_sort [simp]: "weights (sort_key fst tbl) = weights tbl"
proof -
  have "weights (insort_key fst x xs) = snd x + weights xs" for x :: "int \<times> int" and xs
    by (induction xs) (simp_all add: weights_def)
  then show ?thesis by (induction tbl) (simp_all add: weights_def)
qed

text \<open>The numbers a kind is drawn by form an interval as long as its weight.\<close>

lemma pick_kind_interval:
  assumes "distinct (map fst tbl)" "\<forall>w \<in> snd ` set tbl. 0 \<le> w" "(k, w) \<in> set tbl"
  shows "\<exists>b. acc \<le> b \<and> b + w \<le> acc + weights tbl \<and>
    (\<forall>num. acc < num \<longrightarrow> (pick_kind tbl num acc = Some k \<longleftrightarrow> b < num \<and> num \<le> b + w))"
  using assms
proof (induction tbl arbitrary: acc)
  case (Cons x tbl)
  obtain j v where x: "x = (j, v)" by (cases x)
  have nonneg: "0 \<le> v" "0 \<le> weights tbl"
    using Cons.prems(2) x by (auto simp: weights_def intro!: sum_list_nonneg)
  show ?case
  proof (cases "j = k")
    case True
    then have w: "v = w" using Cons.prems(1,3) x by (force simp: image_iff)
    have out: "pick_kind tbl num b \<noteq> Some k" for num b
      using pick_kind_in Cons.prems(1) x True by fastforce
    show ?thesis
      using nonneg w out True x by (intro exI [of _ acc]) (auto simp: weights_def)
  next
    case False
    then have "(k, w) \<in> set tbl" using Cons.prems(3) x by auto
    then obtain b where b: "acc + v \<le> b" "b + w \<le> acc + v + weights tbl"
        "\<forall>num. acc + v < num \<longrightarrow> (pick_kind tbl num (acc + v) = Some k \<longleftrightarrow> b < num \<and> num \<le> b + w)"
      using Cons.IH [of "acc + v"] Cons.prems by auto
    have "pick_kind (x # tbl) num acc = Some k \<longleftrightarrow> b < num \<and> num \<le> b + w" if "acc < num" for num
      using b False x by (cases "num \<le> acc + v") auto
    then show ?thesis using b nonneg x by (intro exI [of _ b]) (auto simp: weights_def)
  qed
qed simp

lemma random_type_eq:
  assumes "1 \<le> weights tbl"
  shows "random_type tbl (r # tape) = (Inr (pick_kind (sort_key fst tbl) (1 + int r mod weights tbl) 0), tape)"
  using assms by (simp add: random_type_def bindM_def next_rand_def retM_def)

text \<open>The weighted draw is fair: over the equally likely numbers \<open>0 .. total - 1\<close>, a kind of
  weight \<open>w\<close> is drawn by exactly \<open>w\<close> of them, whatever the order of the table.\<close>

theorem random_type_fair:
  assumes "distinct (map fst tbl)" "\<forall>w \<in> snd ` set tbl. 0 \<le> w" "(k, w) \<in> set tbl" "1 \<le> weights tbl"
  shows "card {r. r < nat (weights tbl) \<and> random_type tbl (r # tape) = (Inr (Some k), tape)} = nat w"
proof -
  let ?s = "sort_key fst tbl"
  have "distinct (map fst ?s)"
    using assms(1) by (metis distinct_map distinct_sort set_sort)
  then obtain b where b: "0 \<le> b" "b + w \<le> weights tbl"
      "\<forall>num. 0 < num \<longrightarrow> (pick_kind ?s num 0 = Some k \<longleftrightarrow> b < num \<and> num \<le> b + w)"
    using pick_kind_interval [of ?s k w 0] assms by auto
  have w: "0 \<le> w" using assms(2,3) by force
  have "random_type tbl (r # tape) = (Inr (Some k), tape) \<longleftrightarrow> nat b \<le> r \<and> r < nat (b + w)"
    if "r < nat (weights tbl)" for r
  proof -
    have "int r mod weights tbl = int r" using that by simp
    then have "random_type tbl (r # tape) = (Inr (Some k), tape) \<longleftrightarrow> b < 1 + int r \<and> 1 + int r \<le> b + w"
      using b(3) by (simp add: random_type_eq [OF assms(4)])
    then show ?thesis using b(1) w by linarith
  qed
  then have "{r. r < nat (weights tbl) \<and> random_type tbl (r # tape) = (Inr (Some k), tape)} = {nat b..<nat (b + w)}"
    using b by (auto simp: nat_less_iff)
  moreover have "nat (b + w) - nat b = nat w" using b(1) w by (simp add: nat_add_distrib)
  ultimately show ?thesis by simp
qed

theorem random_type_fair_witness:
  "card {r. r < nat (weights [(5, 3), (2, 1)]) \<and> random_type [(5, 3), (2, 1)] (r # [7]) = (Inr (Some 5), [7])} = nat 3"
  by (rule random_type_fair) (simp_all add: weights_def)

section \<open>Every way of drawing gives a full board\<close>

definition full_board :: "board \<Rightarrow> bool" where
  "full_board t \<longleftrightarrow> wf_board t \<and> (\<forall>x < HEIGHT. \<forall>y < WIDTH. cell t (x, y) \<in> {1..5})"

lemma wp_mapM_all:
  assumes "\<And>x s. x \<in> set xs \<Longrightarrow> wp (f x) (\<lambda>y _. P y) (\<lambda>_ _. False) s"
  shows "wp (mapM xs f) (\<lambda>ys _. length ys = length xs \<and> (\<forall>y \<in> set ys. P y)) (\<lambda>_ _. False) s"
  using assms
proof (induction xs arbitrary: s)
  case (Cons x xs)
  show ?case unfolding mapM.simps wp_bindM wp_retM
    by (rule wp_mono [OF Cons.prems]) (auto intro!: wp_mono [OF Cons.IH] Cons.prems)
qed (simp add: wp_eqs)

lemma full_reshape:
  assumes "length ns = HEIGHT * WIDTH" "\<forall>v \<in> set ns. v \<in> {1..5}"
  shows "full_board (reshape ns)"
proof -
  have "ns ! (8 * x + y) \<in> {1..5}" if "x < 8" "y < 8" for x y
  proof -
    have "8 * x + y < length ns" using that assms(1) by simp
    then show ?thesis using assms(2) nth_mem by blast
  qed
  then show ?thesis by (auto simp: full_board_def wf_board_def cell_def reshape_def)
qed

lemma choice_wp: "xs \<noteq> [] \<Longrightarrow> wp (choice xs) (\<lambda>v _. v \<in> set xs) (\<lambda>_ _. False) tape"
  by (simp add: choice_def wp_eqs) (auto simp: wp_def next_rand_def split: list.split)

lemma canvas_by_random_wp: "wp canvas_by_random (\<lambda>t _. full_board t) (\<lambda>_ _. False) tape"
proof -
  have "wp (choice TYPE_BB) (\<lambda>v _. v \<in> {1..5}) (\<lambda>_ _. False) s" for s
    by (rule wp_mono [OF choice_wp]) (auto simp: TYPE_BB_def)
  then have "wp (mapM [0..<HEIGHT * WIDTH] (\<lambda>_. choice TYPE_BB))
      (\<lambda>ns _. length ns = length [0..<HEIGHT * WIDTH] \<and> (\<forall>v \<in> set ns. v \<in> {1..5})) (\<lambda>_ _. False) tape"
    by (rule wp_mapM_all)
  then show ?thesis
    unfolding canvas_by_random_def wp_bindM wp_retM by (rule wp_mono) (simp_all add: full_reshape)
qed

lemma random_type_wp:
  assumes "1 \<le> weights tbl"
  shows "wp (random_type tbl) (\<lambda>v _. \<exists>k. v = Some k \<and> k \<in> fst ` set tbl) (\<lambda>_ _. False) tape"
proof -
  have pick: "\<exists>k. pick_kind (sort_key fst tbl) (1 + int r mod weights tbl) 0 = Some k \<and> k \<in> fst ` set tbl" for r
  proof -
    have m: "0 \<le> int r mod weights tbl" "int r mod weights tbl < weights tbl" using assms by simp_all
    obtain k where k: "pick_kind (sort_key fst tbl) (1 + int r mod weights tbl) 0 = Some k"
      using pick_kind_total [of 0 "1 + int r mod weights tbl" "sort_key fst tbl"] m by auto
    then have "k \<in> fst ` set (sort_key fst tbl)" by (rule pick_kind_in)
    then show ?thesis using k by auto
  qed
  have "\<not> weights tbl < 1" using assms by simp
  then show ?thesis using pick pick [of 0] by (cases tape) (auto simp: random_type_def bindM_def retM_def wp_def next_rand_def)
qed

lemma canvas_by_chance_wp:
  assumes "1 \<le> weights tbl" "fst ` set tbl \<subseteq> {1..5}"
  shows "wp (canvas_by_chance tbl) (\<lambda>t _. full_board t) (\<lambda>_ _. False) tape"
proof -
  have "wp (random_type tbl) (\<lambda>v _. v \<noteq> None \<and> the v \<in> {1..5}) (\<lambda>_ _. False) s" for s
    by (rule wp_mono [OF random_type_wp [OF assms(1)]]) (use assms(2) in auto)
  then have w: "wp (mapM [0..<HEIGHT * WIDTH] (\<lambda>_. random_type tbl))
      (\<lambda>ns _. length ns = length [0..<HEIGHT * WIDTH] \<and> (\<forall>v \<in> set ns. v \<noteq> None \<and> the v \<in> {1..5}))
      (\<lambda>_ _. False) tape"
    by (rule wp_mapM_all)
  have "full_board (reshape (map the ns))" "None \<notin> set ns"
    if "length ns = length [0..<HEIGHT * WIDTH] \<and> (\<forall>v \<in> set ns. v \<noteq> None \<and> the v \<in> {1..5})" for ns
    using that by (auto intro!: full_reshape)
  then show ?thesis
    unfolding canvas_by_chance_def wp_bindM wp_if wp_retM wp_raiseM by (intro wp_mono [OF w]) simp_all
qed

lemma fill_inv_full:
  assumes "fill_inv t {c. on_board c} b"
  shows "full_board b"
proof -
  have "wf_board b" using assms by (simp add: fill_inv_def figures_def)
  moreover have "cell b (x, y) \<in> {1..5}" if "x < HEIGHT" "y < WIDTH" for x y
  proof -
    have "on_board (x, y)" using that by (simp add: on_board_def)
    then have "0 \<le> cell b (x, y)" "cell b (x, y) \<le> 5" "cell b (x, y) \<noteq> 0"
      using assms unfolding fill_inv_def figures_def by auto
    then show ?thesis by simp
  qed
  ultimately show ?thesis unfolding full_board_def by blast
qed

lemma do_job_full:
  assumes "\<forall>(ty, len) \<in> set req. ty \<in> {1..5}"
  shows "wp (do_job req) (\<lambda>b _. full_board b) (\<lambda>_ _. False) (getZeros, tape)"
  by (rule wp_mono [OF do_job_wp]) (use assms fill_inv_full in \<open>auto simp: figures_def\<close>)

lemma setCanvas_wp:
  assumes "k = KIND_CHANCE \<Longrightarrow> \<exists>tbl. chance = Some tbl \<and> 1 \<le> weights tbl \<and> fst ` set tbl \<subseteq> {1..5}"
    and "k = KIND_MATHS \<Longrightarrow> \<exists>req. maths = Some req \<and> (\<forall>(ty, len) \<in> set req. ty \<in> {1..5})"
  shows "wp (setCanvas k chance maths) (\<lambda>t _. full_board t) (\<lambda>_ _. False) tape"
proof (cases k)
  case KIND_RANDOM
  then show ?thesis using canvas_by_random_wp by (simp add: setCanvas_def)
next
  case KIND_CHANCE
  then show ?thesis using assms(1) canvas_by_chance_wp by (auto simp: setCanvas_def)
next
  case KIND_MATHS
  then obtain req where req: "maths = Some req" "\<forall>(ty, len) \<in> set req. ty \<in> {1..5}" using assms(2) by blast
  then have w: "wp (lift_maths req) (\<lambda>t _. full_board t) (\<lambda>_ _. False) tape"
    using do_job_full [OF req(2), of tape]
    by (simp add: lift_maths_def wp_def case_prod_beta split: sum.splits prod.splits)
  show ?thesis using w req(1) KIND_MATHS by (simp add: setCanvas_def)
qed

text \<open>A run of the manager, in each of its three modes, returns (no assertion fails, no
  exception is raised) a full 8 by 8 board of figures 1..5 together with the exact report of that
  board, provided the table of the weighted mode has a positive total and lists figures, and the
  requests of the planted mode name figures.\<close>

theorem mgr_run_ok:
  assumes "k = KIND_CHANCE \<Longrightarrow> \<exists>tbl. chance = Some tbl \<and> 1 \<le> weights tbl \<and> fst ` set tbl \<subseteq> {1..5}"
    and "k = KIND_MATHS \<Longrightarrow> \<exists>req. maths = Some req \<and> (\<forall>(ty, len) \<in> set req. ty \<in> {1..5})"
  shows "\<exists>t rs tape'. mgr_run k chance maths tape = (Inr (t, rs), tape') \<and> full_board t \<and> exact_report t {1..5} rs"
proof -
  have w: "wp (setCanvas k chance maths) (\<lambda>t _. full_board t) (\<lambda>_ _. False) tape"
    using assms by (rule setCanvas_wp)
  obtain r tape' where r: "setCanvas k chance maths tape = (r, tape')" by (cases "setCanvas k chance maths tape")
  then obtain t where t: "r = Inr t" "full_board t" using w by (cases r) (auto simp: wp_def)
  obtain rs where "getResults t = Some rs" "exact_report t {1..5} rs" using getResults_ok by blast
  then show ?thesis using r t by (simp add: mgr_run_def bindM_def retM_def)
qed

theorem mgr_run_ok_witness:
  "\<exists>t rs tape'. mgr_run KIND_CHANCE (Some [(1, 30), (2, 20)]) None [3, 41, 8] = (Inr (t, rs), tape') \<and>
     full_board t \<and> exact_report t {1..5} rs"
  by (rule mgr_run_ok) (simp_all add: weights_def)

end
