(* ===== verification/PyVal.thy ===== *)
theory PyVal
  imports Prelude
begin

text \<open>
  Python 2 values as far as the services use them: decimal text of integers (\<open>str(n)\<close>,
  \<open>int(s)\<close>), \<open>strip\<close>, \<open>split\<close>, \<open>\<dots> % x\<close> with \<open>None\<close>, and the string-to-integer reader of the
  redis server, which accepts a different set of texts than Python's \<open>int\<close>.
\<close>

section \<open>Characters\<close>

definition is_ws :: "char \<Rightarrow> bool" where
  "is_ws c \<longleftrightarrow> of_char c \<in> {9, 10, 11, 12, 13, 32 :: nat}"

definition is_digit :: "char \<Rightarrow> bool" where
  "is_digit c \<longleftrightarrow> 48 \<le> (of_char c :: nat) \<and> (of_char c :: nat) \<le> 57"

definition digit_val :: "char \<Rightarrow> int" where
  "digit_val c = int (of_char c) - 48"

definition digit_char :: "nat \<Rightarrow> char" where
  "digit_char d = char_of (48 + d)"

lemma digit_char_props:
  assumes "d < 10"
  shows "is_digit (digit_char d)" and "digit_val (digit_char d) = int d"
    and "\<not> is_ws (digit_char d)" and "digit_char d \<noteq> CHR ''-''" and "digit_char d \<noteq> CHR ''+''"
    and "digit_char d \<noteq> CHR 0x00" and "digit_char d \<noteq> CHR '':''"
proof -
  have of: "(of_char (digit_char d) :: nat) = 48 + d"
    using assms by (simp add: digit_char_def of_char_of)
  show "is_digit (digit_char d)" "digit_val (digit_char d) = int d" "\<not> is_ws (digit_char d)"
    using assms by (auto simp: is_digit_def digit_val_def is_ws_def of)
  show "digit_char d \<noteq> CHR ''-''" "digit_char d \<noteq> CHR ''+''"
    "digit_char d \<noteq> CHR 0x00" "digit_char d \<noteq> CHR '':''"
    using of assms by (auto dest: arg_cong [where f = "of_char :: char \<Rightarrow> nat"])
qed

section \<open>\<open>str(n)\<close>\<close>

fun show_nat :: "nat \<Rightarrow> string" where
  "show_nat n = (if n < 10 then [digit_char n] else show_nat (n div 10) @ [digit_char (n mod 10)])"

declare show_nat.simps [simp del]

definition show_int :: "int \<Rightarrow> string" where
  "show_int i = (if i < 0 then CHR ''-'' # show_nat (nat (- i)) else show_nat (nat i))"

section \<open>Reading digits\<close>

definition digits_val :: "string \<Rightarrow> int" where
  "digits_val ds = foldl (\<lambda>v c. 10 * v + digit_val c) 0 ds"

lemma digits_val_snoc [simp]: "digits_val (ds @ [c]) = 10 * digits_val ds + digit_val c"
  by (simp add: digits_val_def)

lemma digits_val_nonneg: "list_all is_digit ds \<Longrightarrow> 0 \<le> digits_val ds"
  by (induction ds rule: rev_induct) (auto simp: digits_val_def digit_val_def is_digit_def)

lemma show_nat_digits: "list_all is_digit (show_nat n) \<and> show_nat n \<noteq> [] \<and> digits_val (show_nat n) = int n"
proof (induction n rule: show_nat.induct)
  case (1 n)
  show ?case
  proof (cases "n < 10")
    case True
    then show ?thesis by (simp add: show_nat.simps [of n] digit_char_props digits_val_def)
  next
    case False
    with 1 have ih: "list_all is_digit (show_nat (n div 10))" "digits_val (show_nat (n div 10)) = int (n div 10)"
      by auto
    have "10 * int (n div 10) + int (n mod 10) = int n" by presburger
    with False ih show ?thesis by (simp add: show_nat.simps [of n] digit_char_props)
  qed
qed

lemma digit_not_special:
  "is_digit c \<Longrightarrow> \<not> is_ws c \<and> c \<noteq> CHR ''-'' \<and> c \<noteq> CHR ''+'' \<and> c \<noteq> CHR 0x00 \<and> c \<noteq> CHR '':'' \<and> c \<noteq> CHR ''|''"
  by (auto simp: is_digit_def is_ws_def)

section \<open>\<open>strip\<close> and \<open>split\<close>\<close>

definition lstrip :: "string \<Rightarrow> string" where
  "lstrip s = dropWhile is_ws s"

definition strip :: "string \<Rightarrow> string" where
  "strip s = rev (lstrip (rev (lstrip s)))"

lemma strip_id: "(s = [] \<or> \<not> is_ws (hd s) \<and> \<not> is_ws (last s)) \<Longrightarrow> strip s = s"
proof -
  have drop: "dropWhile is_ws t = t" if "t = [] \<or> \<not> is_ws (hd t)" for t
    using that by (cases t) auto
  assume "s = [] \<or> \<not> is_ws (hd s) \<and> \<not> is_ws (last s)"
  then show ?thesis by (auto simp: strip_def lstrip_def drop hd_rev)
qed

fun split_on :: "char \<Rightarrow> string \<Rightarrow> string list" where
  "split_on c [] = [[]]"
| "split_on c (x # xs) =
     (if x = c then [] # split_on c xs
      else (case split_on c xs of [] \<Rightarrow> [[x]] | w # ws \<Rightarrow> (x # w) # ws))"

lemma split_on_ne: "split_on c s \<noteq> []"
  by (cases s) (auto split: list.split)

lemma split_on_plain: "c \<notin> set s \<Longrightarrow> split_on c s = [s]"
  by (induction s) auto

lemma split_on_append: "c \<notin> set s \<Longrightarrow> split_on c (s @ c # t) = s # split_on c t"
  by (induction s) auto

fun join_with :: "string \<Rightarrow> string list \<Rightarrow> string" where
  "join_with sep [] = []"
| "join_with sep [w] = w"
| "join_with sep (w # ws) = w @ sep @ join_with sep ws"

lemma split_join:
  "ws \<noteq> [] \<Longrightarrow> (\<And>w. w \<in> set ws \<Longrightarrow> c \<notin> set w) \<Longrightarrow> split_on c (join_with [c] ws) = ws"
proof (induction ws rule: induct_list012)
  case (3 w v ws)
  have "split_on c (join_with [c] (v # ws)) = v # ws"
    by (rule "3.IH"(2)) (use "3.prems" in auto)
  with 3 show ?case by (simp add: split_on_append)
qed (auto simp: split_on_plain)

section \<open>Python's \<open>int\<close>\<close>

text \<open>\<open>int(s)\<close> on a byte string: white space around, one optional sign, at least one digit.\<close>

definition py_int_body :: "string \<Rightarrow> int option" where
  "py_int_body ds = (if ds \<noteq> [] \<and> list_all is_digit ds then Some (digits_val ds) else None)"

definition py_int_opt :: "string \<Rightarrow> int option" where
  "py_int_opt s = (case strip s of
       [] \<Rightarrow> None
     | c # cs \<Rightarrow> if c = CHR ''-'' then map_option uminus (py_int_body cs)
                else if c = CHR ''+'' then py_int_body cs else py_int_body (c # cs))"

definition py_int :: "string \<Rightarrow> exn + int" where
  "py_int s = (case py_int_opt s of None \<Rightarrow> Inl ValueError | Some n \<Rightarrow> Inr n)"

text \<open>\<open>int(v)\<close> for a value that may be \<open>None\<close>, and the idiom \<open>int(v or 0)\<close>.\<close>

definition py_int_none :: "string option \<Rightarrow> exn + int" where
  "py_int_none v = (case v of None \<Rightarrow> Inl TypeError | Some s \<Rightarrow> py_int s)"

definition truthy :: "string option \<Rightarrow> bool" where
  "truthy v = (case v of None \<Rightarrow> False | Some s \<Rightarrow> s \<noteq> [])"

definition int_or :: "string option \<Rightarrow> int \<Rightarrow> exn + int" where
  "int_or v d = (if truthy v then py_int (case v of None \<Rightarrow> [] | Some s \<Rightarrow> s) else Inr d)"

text \<open>\<open>'%s' % v\<close> for a value that may be \<open>None\<close>.\<close>

definition fmt :: "string option \<Rightarrow> string" where
  "fmt v = (case v of None \<Rightarrow> ''None'' | Some s \<Rightarrow> s)"

lemma fmt_simps [simp]: "fmt None = ''None''" "fmt (Some s) = s"
  by (simp_all add: fmt_def)

lemma truthy_simps [simp]: "\<not> truthy None" "truthy (Some s) \<longleftrightarrow> s \<noteq> []"
  by (simp_all add: truthy_def)

lemma int_or_simps [simp]:
  "int_or None d = Inr d" "int_or (Some []) d = Inr d" "s \<noteq> [] \<Longrightarrow> int_or (Some s) d = py_int s"
  by (simp_all add: int_or_def)

section \<open>The server's reader: \<open>getLongLongFromObject\<close>\<close>

definition llong_min :: int where "llong_min = - (2 ^ 63)"
definition llong_max :: int where "llong_max = 2 ^ 63 - 1"

definition in_llong :: "int \<Rightarrow> bool" where
  "in_llong v \<longleftrightarrow> llong_min \<le> v \<and> v \<le> llong_max"

definition ll_range :: "int option \<Rightarrow> int option" where
  "ll_range r = (case r of None \<Rightarrow> None | Some v \<Rightarrow> if in_llong v then Some v else None)"

text \<open>
  \<open>strtoll\<close> up to the first NUL, refused when the text starts with white space, has trailing
  bytes or is out of range; the empty text reads as 0.
\<close>

definition strtoll :: "string \<Rightarrow> int option" where
  "strtoll s = (case takeWhile (\<lambda>c. c \<noteq> CHR 0x00) s of
       [] \<Rightarrow> Some 0
     | c # cs \<Rightarrow>
         if is_ws c then None
         else ll_range (if c = CHR ''-'' then map_option uminus (py_int_body cs)
                        else if c = CHR ''+'' then py_int_body cs else py_int_body (c # cs)))"

section \<open>Round trips\<close>

lemma show_nat_shape:
  obtains c cs where "show_nat n = c # cs" "is_digit c" "list_all is_digit cs"
    "is_digit (last (show_nat n))"
proof -
  obtain c cs where eq: "show_nat n = c # cs"
    using show_nat_digits [of n] by (cases "show_nat n") auto
  have "list_all is_digit (show_nat n)" "show_nat n \<noteq> []" using show_nat_digits [of n] by auto
  then have "is_digit (last (show_nat n))" by (simp add: list_all_iff)
  with eq show_nat_digits [of n] show ?thesis using that by auto
qed

lemma py_int_body_show_nat [simp]: "py_int_body (show_nat n) = Some (int n)"
  using show_nat_digits [of n] by (simp add: py_int_body_def)

lemma strip_show_nat: "strip (show_nat n) = show_nat n"
proof -
  obtain c cs where "show_nat n = c # cs" "is_digit c" "is_digit (last (show_nat n))"
    by (rule show_nat_shape)
  then show ?thesis by (intro strip_id) (auto dest: digit_not_special)
qed

lemma strip_show_int: "strip (show_int i) = show_int i"
proof (cases "i < 0")
  case True
  have "show_nat (nat (- i)) \<noteq> []" "is_digit (last (show_nat (nat (- i))))"
    by (metis show_nat_shape list.distinct(1))+
  with True show ?thesis
    by (intro strip_id) (auto simp: show_int_def is_ws_def dest: digit_not_special)
next
  case False
  then show ?thesis by (simp add: show_int_def strip_show_nat)
qed

lemma show_int_ne [simp]: "show_int i \<noteq> []"
  using show_nat_digits by (auto simp: show_int_def)

lemma py_int_opt_show_int [simp]: "py_int_opt (show_int i) = Some i"
proof (cases "i < 0")
  case True
  then show ?thesis
    unfolding py_int_opt_def strip_show_int by (simp add: show_int_def)
next
  case False
  obtain c cs where c: "show_nat (nat i) = c # cs" "is_digit c"
    by (rule show_nat_shape)
  with False show ?thesis
    unfolding py_int_opt_def strip_show_int
    using py_int_body_show_nat [of "nat i"] digit_not_special [of c] by (auto simp: show_int_def)
qed

lemma py_int_show_int [simp]: "py_int (show_int i) = Inr i"
  by (simp add: py_int_def)

lemma takeWhile_nul_digits:
  "list_all is_digit ds \<Longrightarrow> takeWhile (\<lambda>c. c \<noteq> CHR 0x00) ds = ds"
  by (rule takeWhile_eq_all_conv [THEN iffD2]) (auto simp: list_all_iff dest: digit_not_special)

lemma strtoll_show_int_iff: "strtoll (show_int i) = (if in_llong i then Some i else None)"
proof (cases "i < 0")
  case True
  then show ?thesis
    using show_nat_digits [of "nat (- i)"]
    by (simp add: strtoll_def show_int_def takeWhile_nul_digits is_ws_def ll_range_def)
next
  case False
  obtain c cs where c: "show_nat (nat i) = c # cs" "is_digit c" "list_all is_digit cs"
    by (rule show_nat_shape)
  have "takeWhile (\<lambda>x. x \<noteq> CHR 0x00) (show_int i) = c # cs"
    using False c takeWhile_nul_digits [of "c # cs"] by (simp add: show_int_def)
  moreover have "py_int_body (c # cs) = Some i"
    using False py_int_body_show_nat [of "nat i"] c by simp
  ultimately show ?thesis
    using digit_not_special [OF c(2)] by (simp add: strtoll_def ll_range_def)
qed

lemma strtoll_show_int: "in_llong i \<Longrightarrow> strtoll (show_int i) = Some i"
  by (simp add: strtoll_show_int_iff)

lemma strtoll_show_intD: "strtoll (show_int n) = Some i \<Longrightarrow> i = n"
  by (simp add: strtoll_show_int_iff split: if_splits)

lemma show_int_inj [simp]: "show_int i = show_int j \<longleftrightarrow> i = j"
  by (metis py_int_opt_show_int option.inject)

lemma strtoll_in_llong: "strtoll s = Some v \<Longrightarrow> in_llong v"
  by (auto simp: strtoll_def ll_range_def in_llong_def llong_min_def llong_max_def
      split: list.splits if_splits option.splits)

section \<open>Python's reader and the server's agree\<close>

lemma py_int_body_no_nul: "py_int_body ds = Some a \<Longrightarrow> CHR 0x00 \<notin> set ds \<and> ds \<noteq> [] \<and> list_all is_digit ds"
  by (auto simp: py_int_body_def list_all_iff split: if_splits dest: digit_not_special)

lemma strip_mem: "c \<in> set s \<Longrightarrow> \<not> is_ws c \<Longrightarrow> c \<in> set (strip s)"
proof -
  have drop: "c \<in> set (dropWhile is_ws xs)" if "c \<in> set xs" "\<not> is_ws c" for xs
    using that by (induction xs) auto
  assume "c \<in> set s" "\<not> is_ws c"
  then show ?thesis by (simp add: strip_def lstrip_def drop)
qed

lemma py_int_opt_no_nul: "py_int_opt s = Some a \<Longrightarrow> CHR 0x00 \<notin> set s"
proof
  assume a: "py_int_opt s = Some a" and "CHR 0x00 \<in> set s"
  then have "CHR 0x00 \<in> set (strip s)" by (intro strip_mem) (simp_all add: is_ws_def)
  then show False
    using a by (auto simp: py_int_opt_def split: list.splits if_splits dest: py_int_body_no_nul)
qed

lemma strtoll_py_int:
  assumes "py_int s = Inr a" "strtoll s = Some b"
  shows "a = b"
proof -
  have a: "py_int_opt s = Some a" using assms(1) by (simp add: py_int_def split: option.splits)
  have tw: "takeWhile (\<lambda>c. c \<noteq> CHR 0x00) s = s"
    using py_int_opt_no_nul [OF a] by (auto simp: takeWhile_eq_all_conv)
  have "s \<noteq> []" using a by (auto simp: py_int_opt_def strip_def lstrip_def)
  then obtain c cs where s: "s = c # cs" by (cases s) auto
  have b: "\<not> is_ws c" "(if c = CHR ''-'' then map_option uminus (py_int_body cs)
      else if c = CHR ''+'' then py_int_body cs else py_int_body (c # cs)) = Some b"
    using assms(2) tw s by (auto simp: strtoll_def ll_range_def split: if_splits option.splits)
  have "\<not> is_ws (last s)"
  proof (cases "cs = []")
    case False
    have "list_all is_digit cs"
      using b(2) by (auto split: if_splits simp: py_int_body_def)
    then have "is_digit (last s)" using False s by (simp add: list_all_iff)
    then show ?thesis by (auto dest: digit_not_special)
  qed (use b(1) s in simp)
  then have "strip s = s" using b(1) s by (intro strip_id) simp
  then show ?thesis using a b(2) s by (auto simp: py_int_opt_def)
qed

lemma int_or_counter:
  assumes "int_or v 0 = Inr a" "(case v of None \<Rightarrow> Some 0 | Some t \<Rightarrow> strtoll t) = Some b"
  shows "a = b"
  using assms strtoll_py_int by (cases v) (auto simp: int_or_def strtoll_def split: if_splits)

end
