(* ===== verification/Redis.thy ===== *)
theory Redis
  imports PyVal
begin

text \<open>
  The redis server the services talk to (the bundled redis 2.6.16) and the calls of the bundled
  client on it, for the commands the modelled handlers use.  A database is an association list
  from keys to values plus the time-to-live marks; a command is a handler.  Every key is a byte
  string; an empty hash, list or set is never stored, as in the server.

  An order of \<open>HGETALL\<close>, \<open>SMEMBERS\<close> and \<open>KEYS\<close> is not promised by the server: here it is the
  order of the association list, and no property depends on it.  Time does not pass inside a
  handler; a key with a time-to-live mark may be removed between handlers (\<open>expire_now\<close>).
\<close>

section \<open>State\<close>

datatype rval =
    RStr string
  | RHash "(string \<times> string) list"
  | RList "string list"
  | RSet "string list"
  | RZset "(string \<times> int) list"

record redis =
  kv :: "(string \<times> rval) list"
  ttl :: "(string \<times> int) list"

type_synonym 'a rh = "(redis, 'a) handler"

definition empty_db :: redis where
  "empty_db = \<lparr>kv = [], ttl = []\<rparr>"

definition look :: "redis \<Rightarrow> string \<Rightarrow> rval option" where
  "look s k = map_of (kv s) k"

definition put :: "string \<Rightarrow> rval \<Rightarrow> redis \<Rightarrow> redis" where
  "put k v s = s\<lparr>kv := AList.update k v (kv s)\<rparr>"

definition unput :: "string \<Rightarrow> redis \<Rightarrow> redis" where
  "unput k s = s\<lparr>kv := AList.delete k (kv s), ttl := AList.delete k (ttl s)\<rparr>"

interpretation db: kv_store look put unput
  by unfold_locales (simp_all add: fun_eq_iff look_def put_def unput_def update_conv' delete_conv')

lemma look_put [simp]: "look (put k v s) j = (if j = k then Some v else look s j)"
  by (simp add: db.lookup_store)

lemma look_unput [simp]: "look (unput k s) j = (if j = k then None else look s j)"
  by (simp add: db.lookup_remove)

lemma look_ttl [simp]: "look (s\<lparr>ttl := x\<rparr>) k = look s k"
  by (simp add: look_def)

lemma look_empty [simp]: "look empty_db k = None"
  by (simp add: look_def empty_db_def)

section \<open>Strings\<close>

definition get :: "string \<Rightarrow> string option rh" where
  "get k = (\<lambda>s. case look s k of
       None \<Rightarrow> (Inr None, s) | Some (RStr v) \<Rightarrow> (Inr (Some v), s) | Some _ \<Rightarrow> (Inl ResponseError, s))"

text \<open>\<open>SET\<close> replaces a value of any type and drops the time-to-live.\<close>

definition set_key :: "string \<Rightarrow> string \<Rightarrow> redis \<Rightarrow> redis" where
  "set_key k v s = put k (RStr v) (s\<lparr>ttl := AList.delete k (ttl s)\<rparr>)"

definition set_str :: "string \<Rightarrow> string \<Rightarrow> unit rh" where
  "set_str k v = (\<lambda>s. (Inr (), set_key k v s))"

definition setex :: "string \<Rightarrow> string \<Rightarrow> int \<Rightarrow> unit rh" where
  "setex k v t = (\<lambda>s.
     if t \<le> 0 then (Inl ResponseError, s)
     else (Inr (), (set_key k v s)\<lparr>ttl := AList.update k t (ttl (set_key k v s))\<rparr>))"

text \<open>The overflow test of \<open>incrDecrCommand\<close> and \<open>hincrbyCommand\<close>.\<close>

definition incr_overflows :: "int \<Rightarrow> int \<Rightarrow> bool" where
  "incr_overflows old incr \<longleftrightarrow>
     (incr < 0 \<and> old < 0 \<and> incr < llong_min - old) \<or> (incr > 0 \<and> old > 0 \<and> incr > llong_max - old)"

lemma incr_overflows_iff:
  "in_llong old \<Longrightarrow> in_llong incr \<Longrightarrow> incr_overflows old incr \<longleftrightarrow> \<not> in_llong (old + incr)"
  by (auto simp: incr_overflows_def in_llong_def llong_min_def llong_max_def)

definition incrby :: "string \<Rightarrow> string \<Rightarrow> int rh" where
  "incrby k amt = (\<lambda>s.
     case strtoll amt of None \<Rightarrow> (Inl ResponseError, s) | Some incr \<Rightarrow>
     (case (case look s k of None \<Rightarrow> Some 0 | Some (RStr v) \<Rightarrow> strtoll v | Some _ \<Rightarrow> None) of
        None \<Rightarrow> (Inl ResponseError, s)
      | Some old \<Rightarrow>
          if incr_overflows old incr then (Inl ResponseError, s)
          else (Inr (old + incr), put k (RStr (show_int (old + incr))) s)))"

section \<open>Keys\<close>

definition exists_key :: "string \<Rightarrow> bool rh" where
  "exists_key k = (\<lambda>s. (Inr (look s k \<noteq> None), s))"

definition delete_key :: "string \<Rightarrow> unit rh" where
  "delete_key k = (\<lambda>s. (Inr (), unput k s))"

definition expire_key :: "string \<Rightarrow> int \<Rightarrow> unit rh" where
  "expire_key k t = (\<lambda>s. (Inr (),
     if look s k = None then s
     else if t \<le> 0 then unput k s
     else s\<lparr>ttl := AList.update k t (ttl s)\<rparr>))"

definition persist_key :: "string \<Rightarrow> unit rh" where
  "persist_key k = (\<lambda>s. (Inr (), s\<lparr>ttl := AList.delete k (ttl s)\<rparr>))"

text \<open>The server removing a key whose time has run out.\<close>

definition expire_now :: "string \<Rightarrow> redis \<Rightarrow> redis" where
  "expire_now k s = (if map_of (ttl s) k = None then s else unput k s)"

text \<open>\<open>KEYS\<close> for patterns whose only special character is \<open>*\<close> (the others the code never uses).\<close>

fun glob :: "string \<Rightarrow> string \<Rightarrow> bool" where
  "glob [] [] = True"
| "glob [] (y # ys) = False"
| "glob (p # ps) [] = (p = CHR ''*'' \<and> glob ps [])"
| "glob (p # ps) (y # ys) =
     (if p = CHR ''*'' then glob ps (y # ys) \<or> glob (p # ps) ys else p = y \<and> glob ps ys)"

definition keys :: "string \<Rightarrow> string list rh" where
  "keys pat = (\<lambda>s. (Inr (filter (glob pat) (remdups (map fst (kv s)))), s))"

section \<open>Hashes\<close>

text \<open>The hash at a key: a missing key reads as the empty hash, another type is an error.\<close>

definition is_hash :: "redis \<Rightarrow> string \<Rightarrow> bool" where
  "is_hash s k = (case look s k of None \<Rightarrow> True | Some (RHash h) \<Rightarrow> True | Some _ \<Rightarrow> False)"

definition hash_of :: "redis \<Rightarrow> string \<Rightarrow> (string \<times> string) list" where
  "hash_of s k = (case look s k of Some (RHash h) \<Rightarrow> h | _ \<Rightarrow> [])"

definition hf :: "redis \<Rightarrow> string \<Rightarrow> string \<Rightarrow> string option" where
  "hf s k f = map_of (hash_of s k) f"

definition hput :: "string \<Rightarrow> string \<Rightarrow> string \<Rightarrow> redis \<Rightarrow> redis" where
  "hput k f v s = put k (RHash (AList.update f v (hash_of s k))) s"

definition hget :: "string \<Rightarrow> string \<Rightarrow> string option rh" where
  "hget k f = (\<lambda>s. if is_hash s k then (Inr (hf s k f), s) else (Inl ResponseError, s))"

definition hmget :: "string \<Rightarrow> string list \<Rightarrow> string option list rh" where
  "hmget k fs = (\<lambda>s. if is_hash s k then (Inr (map (hf s k) fs), s) else (Inl ResponseError, s))"

definition hgetall :: "string \<Rightarrow> (string \<times> string) list rh" where
  "hgetall k = (\<lambda>s. if is_hash s k then (Inr (hash_of s k), s) else (Inl ResponseError, s))"

definition hlen :: "string \<Rightarrow> int rh" where
  "hlen k = (\<lambda>s. if is_hash s k then (Inr (int (length (hash_of s k))), s) else (Inl ResponseError, s))"

definition hset :: "string \<Rightarrow> string \<Rightarrow> string \<Rightarrow> unit rh" where
  "hset k f v = (\<lambda>s. if is_hash s k then (Inr (), hput k f v s) else (Inl ResponseError, s))"

fun hputs :: "string \<Rightarrow> (string \<times> string) list \<Rightarrow> redis \<Rightarrow> redis" where
  "hputs k [] s = s"
| "hputs k ((f, v) # r) s = hputs k r (hput k f v s)"

text \<open>The client refuses an empty mapping (\<open>DataError\<close>, a \<open>ResponseError\<close> here).\<close>

definition hmset :: "string \<Rightarrow> (string \<times> string) list \<Rightarrow> unit rh" where
  "hmset k m = (\<lambda>s. if m \<noteq> [] \<and> is_hash s k then (Inr (), hputs k m s) else (Inl ResponseError, s))"

definition hincrby :: "string \<Rightarrow> string \<Rightarrow> string \<Rightarrow> int rh" where
  "hincrby k f amt = (\<lambda>s.
     case strtoll amt of None \<Rightarrow> (Inl ResponseError, s) | Some incr \<Rightarrow>
     if \<not> is_hash s k then (Inl ResponseError, s) else
     (case (case hf s k f of None \<Rightarrow> Some 0 | Some v \<Rightarrow> strtoll v) of
        None \<Rightarrow> (Inl ResponseError, s)
      | Some old \<Rightarrow>
          if incr_overflows old incr then (Inl ResponseError, s)
          else (Inr (old + incr), hput k f (show_int (old + incr)) s)))"

definition hdel :: "string \<Rightarrow> string \<Rightarrow> unit rh" where
  "hdel k f = (\<lambda>s.
     if \<not> is_hash s k then (Inl ResponseError, s)
     else if look s k = None then (Inr (), s)
     else let h = AList.delete f (hash_of s k)
          in (Inr (), if h = [] then unput k s else put k (RHash h) s))"

section \<open>Lists\<close>

definition is_list :: "redis \<Rightarrow> string \<Rightarrow> bool" where
  "is_list s k = (case look s k of None \<Rightarrow> True | Some (RList l) \<Rightarrow> True | Some _ \<Rightarrow> False)"

definition list_of :: "redis \<Rightarrow> string \<Rightarrow> string list" where
  "list_of s k = (case look s k of Some (RList l) \<Rightarrow> l | _ \<Rightarrow> [])"

definition set_list :: "string \<Rightarrow> string list \<Rightarrow> redis \<Rightarrow> redis" where
  "set_list k l s = (if l = [] then unput k s else put k (RList l) s)"

definition lpush :: "string \<Rightarrow> string \<Rightarrow> unit rh" where
  "lpush k v = (\<lambda>s. if is_list s k then (Inr (), set_list k (v # list_of s k) s) else (Inl ResponseError, s))"

definition rpush :: "string \<Rightarrow> string \<Rightarrow> unit rh" where
  "rpush k v = (\<lambda>s. if is_list s k then (Inr (), set_list k (list_of s k @ [v]) s) else (Inl ResponseError, s))"

definition lpop :: "string \<Rightarrow> string option rh" where
  "lpop k = (\<lambda>s. if \<not> is_list s k then (Inl ResponseError, s) else
     case list_of s k of [] \<Rightarrow> (Inr None, s) | v # vs \<Rightarrow> (Inr (Some v), set_list k vs s))"

text \<open>\<open>lrange(k, 0, -1)\<close>, the only range the modelled code asks for.\<close>

definition lrange_all :: "string \<Rightarrow> string list rh" where
  "lrange_all k = (\<lambda>s. if is_list s k then (Inr (list_of s k), s) else (Inl ResponseError, s))"

text \<open>\<open>lrem(k, v)\<close> of the client: count 0, every equal element goes.\<close>

definition lrem :: "string \<Rightarrow> string \<Rightarrow> unit rh" where
  "lrem k v = (\<lambda>s. if \<not> is_list s k then (Inl ResponseError, s)
     else if look s k = None then (Inr (), s)
     else (Inr (), set_list k (removeAll v (list_of s k)) s))"

definition rpop :: "string \<Rightarrow> string option rh" where
  "rpop k = (\<lambda>s. if \<not> is_list s k then (Inl ResponseError, s) else
     case rev (list_of s k) of [] \<Rightarrow> (Inr None, s) | v # vs \<Rightarrow> (Inr (Some v), set_list k (rev vs) s))"

definition llen :: "string \<Rightarrow> int rh" where
  "llen k = (\<lambda>s. if is_list s k then (Inr (int (length (list_of s k))), s) else (Inl ResponseError, s))"

section \<open>Sets\<close>

definition is_set :: "redis \<Rightarrow> string \<Rightarrow> bool" where
  "is_set s k = (case look s k of None \<Rightarrow> True | Some (RSet l) \<Rightarrow> True | Some _ \<Rightarrow> False)"

definition members :: "redis \<Rightarrow> string \<Rightarrow> string list" where
  "members s k = (case look s k of Some (RSet l) \<Rightarrow> l | _ \<Rightarrow> [])"

definition sadd :: "string \<Rightarrow> string \<Rightarrow> unit rh" where
  "sadd k v = (\<lambda>s. if is_set s k then (Inr (), put k (RSet (List.insert v (members s k))) s)
     else (Inl ResponseError, s))"

definition srem :: "string \<Rightarrow> string \<Rightarrow> unit rh" where
  "srem k v = (\<lambda>s. if \<not> is_set s k then (Inl ResponseError, s)
     else let l = removeAll v (members s k)
          in (Inr (), if l = [] then unput k s else put k (RSet l) s))"

definition sismember :: "string \<Rightarrow> string \<Rightarrow> bool rh" where
  "sismember k v = (\<lambda>s. if is_set s k then (Inr (v \<in> set (members s k)), s) else (Inl ResponseError, s))"

definition smembers :: "string \<Rightarrow> string list rh" where
  "smembers k = (\<lambda>s. if is_set s k then (Inr (members s k), s) else (Inl ResponseError, s))"

definition scard :: "string \<Rightarrow> int rh" where
  "scard k = (\<lambda>s. if is_set s k then (Inr (int (length (members s k))), s) else (Inl ResponseError, s))"

section \<open>Pipelines\<close>

text \<open>
  A pipeline queues commands; \<open>execute()\<close> runs all of them as one transaction (a failing command
  does not stop the later ones) and then raises the first error, if any.
\<close>

fun run_all :: "unit rh list \<Rightarrow> redis \<Rightarrow> exn option \<times> redis" where
  "run_all [] s = (None, s)"
| "run_all (c # cs) s =
     (case c s of
        (Inr _, s') \<Rightarrow> run_all cs s'
      | (Inl e, s') \<Rightarrow> (Some e, snd (run_all cs s')))"

definition execute :: "unit rh list \<Rightarrow> unit rh" where
  "execute cs = (\<lambda>s. case run_all cs s of (None, s') \<Rightarrow> (Inr (), s') | (Some e, s') \<Rightarrow> (Inl e, s'))"

text \<open>A queued command whose reply is not looked at.\<close>

definition drop_reply :: "'a rh \<Rightarrow> unit rh" where
  "drop_reply c = thenM c (retM ())"

end
