(* ===== verification/RedisLaws.thy ===== *)
theory RedisLaws
  imports Redis
begin

text \<open>
  Laws of the redis commands: what a read returns after a write, the symbolic-execution rule
  (\<open>wp_eqs\<close>) of every command, and the frame rules: which keys a command can change.
\<close>

section \<open>Reads after writes\<close>

lemma is_hash_hput [simp]: "is_hash (hput k f v s) j = (if j = k then True else is_hash s j)"
  by (simp add: is_hash_def hput_def)

lemma hf_hput [simp]: "hf (hput k f v s) j g = (if j = k \<and> g = f then Some v else hf s j g)"
  by (simp add: hf_def hash_of_def hput_def update_conv')

lemma look_hput_other: "j \<noteq> k \<Longrightarrow> look (hput k f v s) j = look s j"
  by (simp add: hput_def)

lemma hf_cong_look: "look s j = look t j \<Longrightarrow> hf s j g = hf t j g"
  by (simp add: hf_def hash_of_def)

lemma is_hash_cong_look: "look s j = look t j \<Longrightarrow> is_hash s j = is_hash t j"
  by (simp add: is_hash_def)

lemma hf_put_other [simp]: "hf (put k v s) j g = (if j = k then hf (put k v s) k g else hf s j g)"
  by (simp add: hf_def hash_of_def)

lemma hf_put_str [simp]: "hf (put k (RStr v) s) k g = None"
  by (simp add: hf_def hash_of_def)

lemma is_hash_put_str: "is_hash (put k (RStr v) s) j = (j \<noteq> k \<and> is_hash s j)"
  by (simp add: is_hash_def)

lemma hf_set_key [simp]: "hf (set_key k v s) j g = (if j = k then None else hf s j g)"
  by (simp add: set_key_def hf_def hash_of_def)

lemma is_hash_set_key [simp]: "is_hash (set_key k v s) j = (j \<noteq> k \<and> is_hash s j)"
  by (simp add: set_key_def is_hash_def)

lemma look_set_key [simp]: "look (set_key k v s) j = (if j = k then Some (RStr v) else look s j)"
  by (simp add: set_key_def)

lemma hf_unput [simp]: "hf (unput k s) j g = (if j = k then None else hf s j g)"
  by (simp add: hf_def hash_of_def)

lemma is_hash_unput [simp]: "is_hash (unput k s) j = (j = k \<or> is_hash s j)"
  by (simp add: is_hash_def)

lemma hf_ttl [simp]: "hf (s\<lparr>ttl := x\<rparr>) j g = hf s j g"
  by (simp add: hf_def hash_of_def)

lemma is_hash_ttl [simp]: "is_hash (s\<lparr>ttl := x\<rparr>) j = is_hash s j"
  by (simp add: is_hash_def)

lemma look_set_list: "look (set_list k l s) j = (if j = k then (if l = [] then None else Some (RList l)) else look s j)"
  by (simp add: set_list_def)

lemma list_of_set_list [simp]: "list_of (set_list k l s) j = (if j = k then l else list_of s j)"
  by (simp add: list_of_def set_list_def)

lemma is_list_set_list [simp]: "is_list (set_list k l s) j = (j = k \<or> is_list s j)"
  by (simp add: is_list_def set_list_def)

lemma list_of_cong_look: "look s j = look t j \<Longrightarrow> list_of s j = list_of t j"
  by (simp add: list_of_def)

lemma is_list_cong_look: "look s j = look t j \<Longrightarrow> is_list s j = is_list t j"
  by (simp add: is_list_def)

lemma list_of_set_key [simp]: "list_of (set_key k v s) j = (if j = k then [] else list_of s j)"
  by (simp add: list_of_def)

lemma is_list_set_key [simp]: "is_list (set_key k v s) j = (j \<noteq> k \<and> is_list s j)"
  by (simp add: is_list_def)

lemma list_of_unput [simp]: "list_of (unput k s) j = (if j = k then [] else list_of s j)"
  by (simp add: list_of_def)

lemma is_list_unput [simp]: "is_list (unput k s) j = (j = k \<or> is_list s j)"
  by (simp add: is_list_def)

lemma hputs_is_hash [simp]: "is_hash (hputs k m s) j = (if j = k \<and> m \<noteq> [] then True else is_hash s j)"
  by (induction k m s rule: hputs.induct) auto

lemma hf_hputs_other: "j \<noteq> k \<Longrightarrow> hf (hputs k m s) j g = hf s j g"
  by (induction k m s rule: hputs.induct) auto

lemma hf_hputs_same: "hf (hputs k m s) k g =
    (case map_of (rev m) g of Some v \<Rightarrow> Some v | None \<Rightarrow> hf s k g)"
  by (induction k m s rule: hputs.induct) (auto split: option.splits simp: map_add_Some_iff map_add_def)

lemma look_hputs_other: "j \<noteq> k \<Longrightarrow> look (hputs k m s) j = look s j"
  by (induction k m s rule: hputs.induct) (auto simp: look_hput_other)

section \<open>Symbolic execution of the commands\<close>

lemma wp_get [wp_eqs]:
  "wp (get k) Q E s = (case look s k of None \<Rightarrow> Q None s | Some (RStr v) \<Rightarrow> Q (Some v) s
     | Some _ \<Rightarrow> E ResponseError s)"
  by (simp add: wp_def get_def split: option.split rval.split)

lemma wp_set_str [wp_eqs]: "wp (set_str k v) Q E s = Q () (set_key k v s)"
  by (simp add: wp_def set_str_def)

lemma wp_exists_key [wp_eqs]: "wp (exists_key k) Q E s = Q (look s k \<noteq> None) s"
  by (simp add: wp_def exists_key_def)

lemma wp_delete_key [wp_eqs]: "wp (delete_key k) Q E s = Q () (unput k s)"
  by (simp add: wp_def delete_key_def)

lemma wp_hget [wp_eqs]:
  "wp (hget k f) Q E s = (if is_hash s k then Q (hf s k f) s else E ResponseError s)"
  by (simp add: wp_def hget_def)

lemma wp_hmget [wp_eqs]:
  "wp (hmget k fs) Q E s = (if is_hash s k then Q (map (hf s k) fs) s else E ResponseError s)"
  by (simp add: wp_def hmget_def)

lemma wp_hgetall [wp_eqs]:
  "wp (hgetall k) Q E s = (if is_hash s k then Q (hash_of s k) s else E ResponseError s)"
  by (simp add: wp_def hgetall_def)

lemma wp_hset [wp_eqs]:
  "wp (hset k f v) Q E s = (if is_hash s k then Q () (hput k f v s) else E ResponseError s)"
  by (simp add: wp_def hset_def)

lemma wp_hmset [wp_eqs]:
  "wp (hmset k m) Q E s = (if m \<noteq> [] \<and> is_hash s k then Q () (hputs k m s) else E ResponseError s)"
  by (simp add: wp_def hmset_def)

text \<open>The number a counter field stands for, when the server can read it.\<close>

definition counter :: "string option \<Rightarrow> int option" where
  "counter v = (case v of None \<Rightarrow> Some 0 | Some t \<Rightarrow> strtoll t)"

lemma counter_simps [simp]: "counter None = Some 0" "counter (Some t) = strtoll t"
  by (simp_all add: counter_def)

lemma counter_in_llong: "counter v = Some n \<Longrightarrow> in_llong n"
  by (auto simp: counter_def in_llong_def llong_min_def llong_max_def split: option.splits
      dest: strtoll_in_llong [unfolded in_llong_def llong_min_def llong_max_def])

lemma wp_hincrby [wp_eqs]:
  "wp (hincrby k f amt) Q E s =
     (case strtoll amt of None \<Rightarrow> E ResponseError s | Some incr \<Rightarrow>
      if \<not> is_hash s k then E ResponseError s else
      (case counter (hf s k f) of None \<Rightarrow> E ResponseError s | Some old \<Rightarrow>
        if in_llong (old + incr) then Q (old + incr) (hput k f (show_int (old + incr)) s)
        else E ResponseError s))"
proof (cases "strtoll amt")
  case (Some incr)
  then have incr: "in_llong incr" by (rule strtoll_in_llong)
  show ?thesis
  proof (cases "counter (hf s k f)")
    case None
    with Some show ?thesis by (simp add: wp_def hincrby_def counter_def [symmetric])
  next
    case (Some old)
    then have "incr_overflows old incr \<longleftrightarrow> \<not> in_llong (old + incr)"
      using incr counter_in_llong by (intro incr_overflows_iff) auto
    with Some \<open>strtoll amt = Some incr\<close> show ?thesis
      by (simp add: wp_def hincrby_def counter_def [symmetric])
  qed
qed (simp add: wp_def hincrby_def)

lemma wp_incrby [wp_eqs]:
  "wp (incrby k amt) Q E s =
     (case strtoll amt of None \<Rightarrow> E ResponseError s | Some incr \<Rightarrow>
      (case (case look s k of None \<Rightarrow> Some 0 | Some (RStr v) \<Rightarrow> strtoll v | Some _ \<Rightarrow> None) of
         None \<Rightarrow> E ResponseError s
       | Some old \<Rightarrow> if incr_overflows old incr then E ResponseError s
                     else Q (old + incr) (put k (RStr (show_int (old + incr))) s)))"
  by (simp add: wp_def incrby_def split: option.split)

lemma wp_lpush [wp_eqs]:
  "wp (lpush k v) Q E s = (if is_list s k then Q () (set_list k (v # list_of s k) s) else E ResponseError s)"
  by (simp add: wp_def lpush_def)

lemma wp_rpush [wp_eqs]:
  "wp (rpush k v) Q E s = (if is_list s k then Q () (set_list k (list_of s k @ [v]) s) else E ResponseError s)"
  by (simp add: wp_def rpush_def)

lemma wp_lpop [wp_eqs]:
  "wp (lpop k) Q E s = (if \<not> is_list s k then E ResponseError s else
     (case list_of s k of [] \<Rightarrow> Q None s | v # vs \<Rightarrow> Q (Some v) (set_list k vs s)))"
  by (simp add: wp_def lpop_def split: list.split)

lemma wp_lrange_all [wp_eqs]:
  "wp (lrange_all k) Q E s = (if is_list s k then Q (list_of s k) s else E ResponseError s)"
  by (simp add: wp_def lrange_all_def)

lemma wp_lrem [wp_eqs]:
  "wp (lrem k v) Q E s = (if \<not> is_list s k then E ResponseError s
     else if look s k = None then Q () s else Q () (set_list k (removeAll v (list_of s k)) s))"
  by (simp add: wp_def lrem_def)

lemma wp_smembers [wp_eqs]:
  "wp (smembers k) Q E s = (if is_set s k then Q (members s k) s else E ResponseError s)"
  by (simp add: wp_def smembers_def)

lemma wp_scard [wp_eqs]:
  "wp (scard k) Q E s = (if is_set s k then Q (int (length (members s k))) s else E ResponseError s)"
  by (simp add: wp_def scard_def)

lemma wp_llen [wp_eqs]:
  "wp (llen k) Q E s = (if is_list s k then Q (int (length (list_of s k))) s else E ResponseError s)"
  by (simp add: wp_def llen_def)

definition put_set :: "string \<Rightarrow> string list \<Rightarrow> redis \<Rightarrow> redis" where
  "put_set k l s = (if l = [] then unput k s else put k (RSet l) s)"

lemma look_put_set: "look (put_set k l s) j = (if j = k then (if l = [] then None else Some (RSet l)) else look s j)"
  by (simp add: put_set_def)

lemma members_put_set [simp]: "members (put_set k l s) j = (if j = k then l else members s j)"
  by (simp add: members_def look_put_set)

lemma is_set_put_set [simp]: "is_set (put_set k l s) j = (j = k \<or> is_set s j)"
  by (simp add: is_set_def look_put_set)

lemma hf_put_set [simp]: "hf (put_set k l s) j g = (if j = k then None else hf s j g)"
  by (simp add: hf_def hash_of_def look_put_set)

lemma is_hash_put_set: "is_hash (put_set k l s) j = (if j = k then l = [] else is_hash s j)"
  by (simp add: is_hash_def look_put_set)

lemma members_unput [simp]: "members (unput k s) j = (if j = k then [] else members s j)"
  by (simp add: members_def)

lemma members_hput: "j \<noteq> k \<Longrightarrow> members (hput k f v s) j = members s j"
  by (simp add: members_def look_hput_other)

lemma members_hputs: "j \<noteq> k \<Longrightarrow> members (hputs k m s) j = members s j"
  by (simp add: members_def look_hputs_other)

lemma members_cong_look: "look s j = look t j \<Longrightarrow> members s j = members t j"
  by (simp add: members_def)

lemma is_set_cong_look: "look s j = look t j \<Longrightarrow> is_set s j = is_set t j"
  by (simp add: is_set_def)

lemma wp_sadd [wp_eqs]:
  "wp (sadd k v) Q E s = (if is_set s k then Q () (put_set k (List.insert v (members s k)) s) else E ResponseError s)"
  by (simp add: wp_def sadd_def put_set_def List.insert_def) auto

lemma wp_srem [wp_eqs]:
  "wp (srem k v) Q E s = (if is_set s k then Q () (put_set k (removeAll v (members s k)) s) else E ResponseError s)"
  by (simp add: wp_def srem_def put_set_def Let_def)

lemma wp_sismember [wp_eqs]:
  "wp (sismember k v) Q E s = (if is_set s k then Q (v \<in> set (members s k)) s else E ResponseError s)"
  by (simp add: wp_def sismember_def)

section \<open>Frames\<close>

text \<open>\<open>only ks m\<close>: whatever happens, \<open>m\<close> changes no key outside \<open>ks\<close>.\<close>

definition only :: "string set \<Rightarrow> 'a rh \<Rightarrow> bool" where
  "only ks m \<longleftrightarrow> (\<forall>s k. k \<notin> ks \<longrightarrow> look (snd (m s)) k = look s k)"

named_theorems only_intros "which keys a handler can change"

lemma onlyD: "only ks m \<Longrightarrow> k \<notin> ks \<Longrightarrow> look (snd (m s)) k = look s k"
  by (simp add: only_def)

lemma only_mono: "only ks m \<Longrightarrow> ks \<subseteq> ks' \<Longrightarrow> only ks' m"
  by (auto simp: only_def)

lemma only_retM [only_intros]: "only ks (retM x)"
  by (simp add: only_def retM_def)

lemma only_raiseM [only_intros]: "only ks (raiseM e)"
  by (simp add: only_def raiseM_def)

lemma only_liftE [only_intros]: "only ks (liftE r)"
  by (simp add: only_def liftE_def)

lemma only_bindM [only_intros]: "only ks m \<Longrightarrow> (\<And>x. only ks (f x)) \<Longrightarrow> only ks (bindM m f)"
proof (unfold only_def, intro allI impI)
  fix s k assume m: "\<forall>s k. k \<notin> ks \<longrightarrow> look (snd (m s)) k = look s k"
    and f: "\<And>x. \<forall>s k. k \<notin> ks \<longrightarrow> look (snd (f x s)) k = look s k" and k: "k \<notin> ks"
  obtain r t where r: "m s = (r, t)" by (cases "m s")
  with m k have "look t k = look s k" by (metis snd_conv)
  with r f k show "look (snd (bindM m f s)) k = look s k"
    by (cases r) (auto simp: bindM_def)
qed

lemma only_thenM [only_intros]: "only ks m \<Longrightarrow> only ks k \<Longrightarrow> only ks (thenM m k)"
  by (simp add: thenM_def only_bindM)

lemma only_tryM [only_intros]: "only ks m \<Longrightarrow> only ks h \<Longrightarrow> only ks (tryM m h)"
proof (unfold only_def, intro allI impI)
  fix s k assume m: "\<forall>s k. k \<notin> ks \<longrightarrow> look (snd (m s)) k = look s k"
    and h: "\<forall>s k. k \<notin> ks \<longrightarrow> look (snd (h s)) k = look s k" and k: "k \<notin> ks"
  obtain r t where r: "m s = (r, t)" by (cases "m s")
  with m k have "look t k = look s k" by (metis snd_conv)
  with r h k show "look (snd (tryM m h s)) k = look s k"
    by (cases r) (auto simp: tryM_def)
qed

lemma only_if [only_intros]: "(b \<Longrightarrow> only ks m) \<Longrightarrow> (\<not> b \<Longrightarrow> only ks n) \<Longrightarrow> only ks (if b then m else n)"
  by simp

lemma only_option [only_intros]:
  "only ks m \<Longrightarrow> (\<And>x. only ks (f x)) \<Longrightarrow> only ks (case v of None \<Rightarrow> m | Some x \<Rightarrow> f x)"
  by (cases v) auto

lemma only_list [only_intros]:
  "only ks m \<Longrightarrow> (\<And>x xs. only ks (f x xs)) \<Longrightarrow> only ks (case v of [] \<Rightarrow> m | x # xs \<Rightarrow> f x xs)"
  by (cases v) auto

lemma only_let [only_intros]: "only ks (f x) \<Longrightarrow> only ks (let y = x in f y)"
  by simp

lemma only_forM [only_intros]: "(\<And>x. x \<in> set xs \<Longrightarrow> only ks (f x)) \<Longrightarrow> only ks (forM xs f)"
  by (induction xs) (auto intro: only_intros)

lemma only_mapM [only_intros]: "(\<And>x. x \<in> set xs \<Longrightarrow> only ks (f x)) \<Longrightarrow> only ks (mapM xs f)"
  by (induction xs) (auto intro!: only_intros)

lemma only_reads [only_intros]:
  "only ks (get k)" "only ks (exists_key k)" "only ks (hget k f)" "only ks (hmget k fs)"
  "only ks (hgetall k)" "only ks (hlen k)" "only ks (lrange_all k)" "only ks (smembers k)"
  "only ks (sismember k v)" "only ks (keys p)" "only ks (scard k)" "only ks (llen k)"
  by (auto simp: only_def scard_def llen_def get_def exists_key_def hget_def hmget_def hgetall_def hlen_def
      lrange_all_def smembers_def sismember_def keys_def split: option.split rval.split)

lemma only_writes [only_intros]:
  "k \<in> ks \<Longrightarrow> only ks (set_str k v)" "k \<in> ks \<Longrightarrow> only ks (setex k v t)"
  "k \<in> ks \<Longrightarrow> only ks (incrby k a)" "k \<in> ks \<Longrightarrow> only ks (delete_key k)"
  "k \<in> ks \<Longrightarrow> only ks (expire_key k t)" "only ks (persist_key k')"
  "k \<in> ks \<Longrightarrow> only ks (lpush k v)" "k \<in> ks \<Longrightarrow> only ks (rpush k v)"
  "k \<in> ks \<Longrightarrow> only ks (lpop k)" "k \<in> ks \<Longrightarrow> only ks (rpop k)" "k \<in> ks \<Longrightarrow> only ks (lrem k v)"
  "k \<in> ks \<Longrightarrow> only ks (sadd k v)" "k \<in> ks \<Longrightarrow> only ks (srem k v)"
  by (auto simp: only_def set_str_def setex_def incrby_def delete_key_def expire_key_def persist_key_def
      lpush_def rpush_def lpop_def rpop_def lrem_def sadd_def srem_def look_set_list Let_def
      split: option.split list.split)

lemma only_hash_writes [only_intros]:
  "k \<in> ks \<Longrightarrow> only ks (hset k f v)" "k \<in> ks \<Longrightarrow> only ks (hmset k m)"
  "k \<in> ks \<Longrightarrow> only ks (hincrby k f a)" "k \<in> ks \<Longrightarrow> only ks (hdel k f)"
  by (auto simp: only_def hset_def hmset_def hincrby_def hdel_def Let_def
      intro!: look_hput_other look_hputs_other split: option.split)

lemma only_run_all:
  "(\<And>c. c \<in> set cs \<Longrightarrow> only ks c) \<Longrightarrow> k \<notin> ks \<Longrightarrow> look (snd (run_all cs s)) k = look s k"
proof (induction cs arbitrary: s)
  case (Cons c cs)
  have "look (snd (c s)) k = look s k" using Cons.prems by (auto simp: only_def)
  with Cons show ?case by (auto split: prod.split sum.split)
qed simp

lemma only_execute [only_intros]: "(\<And>c. c \<in> set cs \<Longrightarrow> only ks c) \<Longrightarrow> only ks (execute cs)"
proof (unfold only_def, intro allI impI)
  fix s k assume c: "\<And>c. c \<in> set cs \<Longrightarrow> \<forall>s k. k \<notin> ks \<longrightarrow> look (snd (c s)) k = look s k" and k: "k \<notin> ks"
  have "look (snd (run_all cs s)) k = look s k"
    by (rule only_run_all [where ks = ks]) (use c k in \<open>auto simp: only_def\<close>)
  then show "look (snd (execute cs s)) k = look s k"
    by (cases "run_all cs s"; cases "fst (run_all cs s)") (auto simp: execute_def)
qed

lemma only_drop_reply [only_intros]: "only ks c \<Longrightarrow> only ks (drop_reply c)"
  by (simp add: drop_reply_def only_intros)

section \<open>Pipelines\<close>

text \<open>A pipeline of commands none of which fails runs them one after the other.\<close>

lemma wp_execute_Nil [wp_eqs]: "wp (execute []) Q E s = Q () s"
  by (simp add: wp_def execute_def)

lemma wp_execute_Cons [wp_eqs]:
  "wp (execute (c # cs)) Q E s =
     wp c (\<lambda>_. wp (execute cs) Q E) (\<lambda>e t. E e (snd (run_all cs t))) s"
  by (auto simp: wp_def execute_def split: prod.split sum.split option.split)

lemma wp_drop_reply [wp_eqs]: "wp (drop_reply c) Q E s = wp c (\<lambda>_. Q ()) E s"
  by (simp add: drop_reply_def wp_thenM wp_retM)

section \<open>Black boxes\<close>

text \<open>What is known after a call of which only the keys it writes are known.\<close>

lemma only_wp:
  assumes "only ks m"
    and "\<And>x t. (\<And>k. k \<notin> ks \<Longrightarrow> look t k = look s k) \<Longrightarrow> Q x t"
    and "\<And>e t. (\<And>k. k \<notin> ks \<Longrightarrow> look t k = look s k) \<Longrightarrow> E e t"
  shows "wp m Q E s"
  using assms by (auto simp: wp_def only_def split: prod.split sum.split) (metis snd_conv)+

lemma only_case_sum [only_intros]:
  "(\<And>x. only ks (f x)) \<Longrightarrow> (\<And>x. only ks (g x)) \<Longrightarrow> only ks (case v of Inl x \<Rightarrow> f x | Inr x \<Rightarrow> g x)"
  by (cases v) auto

lemma only_prod [only_intros]: "(\<And>x y. only ks (f x y)) \<Longrightarrow> only ks (case v of (x, y) \<Rightarrow> f x y)"
  by (cases v) auto

section \<open>Runs that succeed\<close>

text \<open>Symbolic execution that only follows the runs that return: an exception ends the obligation.\<close>

named_theorems ok_wp "one step of a run that succeeds"

lemma ok_thenM [ok_wp]: "wp m (\<lambda>_. wp k Q (\<lambda>_ _. True)) (\<lambda>_ _. True) s \<Longrightarrow> wp (thenM m k) Q (\<lambda>_ _. True) s"
  by (simp add: wp_thenM)

lemma ok_bindM [ok_wp]: "wp m (\<lambda>x. wp (f x) Q (\<lambda>_ _. True)) (\<lambda>_ _. True) s \<Longrightarrow> wp (bindM m f) Q (\<lambda>_ _. True) s"
  by (simp add: wp_bindM)

lemma ok_retM [ok_wp]: "Q x s \<Longrightarrow> wp (retM x) Q (\<lambda>_ _. True) s"
  by (simp add: wp_retM)

lemma ok_raiseM [ok_wp]: "wp (raiseM e) Q (\<lambda>_ _. True) s"
  by (simp add: wp_raiseM)

lemma ok_liftE [ok_wp]: "(\<And>x. r = Inr x \<Longrightarrow> Q x s) \<Longrightarrow> wp (liftE r) Q (\<lambda>_ _. True) s"
  by (simp add: wp_liftE split: sum.split)

lemma ok_if [ok_wp]:
  "(b \<Longrightarrow> wp m Q (\<lambda>_ _. True) s) \<Longrightarrow> (\<not> b \<Longrightarrow> wp k Q (\<lambda>_ _. True) s) \<Longrightarrow>
   wp (if b then m else k) Q (\<lambda>_ _. True) s"
  by simp

lemma ok_option [ok_wp]:
  "(v = None \<Longrightarrow> wp m Q (\<lambda>_ _. True) s) \<Longrightarrow> (\<And>x. v = Some x \<Longrightarrow> wp (f x) Q (\<lambda>_ _. True) s) \<Longrightarrow>
   wp (case v of None \<Rightarrow> m | Some x \<Rightarrow> f x) Q (\<lambda>_ _. True) s"
  by (cases v) auto

lemma ok_drop_reply [ok_wp]: "wp c (\<lambda>_. Q ()) (\<lambda>_ _. True) s \<Longrightarrow> wp (drop_reply c) Q (\<lambda>_ _. True) s"
  by (simp add: wp_drop_reply)

lemma ok_hget [ok_wp]: "Q (hf s k f) s \<Longrightarrow> wp (hget k f) Q (\<lambda>_ _. True) s"
  by (simp add: wp_hget)

lemma ok_hmget [ok_wp]: "Q (map (hf s k) fs) s \<Longrightarrow> wp (hmget k fs) Q (\<lambda>_ _. True) s"
  by (simp add: wp_hmget)

lemma ok_hgetall [ok_wp]: "(is_hash s k \<Longrightarrow> Q (hash_of s k) s) \<Longrightarrow> wp (hgetall k) Q (\<lambda>_ _. True) s"
  by (simp add: wp_hgetall)

lemma ok_hset [ok_wp]: "Q () (hput k f v s) \<Longrightarrow> wp (hset k f v) Q (\<lambda>_ _. True) s"
  by (simp add: wp_hset)

lemma ok_hmset [ok_wp]: "Q () (hputs k m s) \<Longrightarrow> wp (hmset k m) Q (\<lambda>_ _. True) s"
  by (simp add: wp_hmset)

lemma ok_hincrby [ok_wp]:
  "(\<And>old incr. strtoll amt = Some incr \<Longrightarrow> counter (hf s k f) = Some old \<Longrightarrow> in_llong (old + incr) \<Longrightarrow>
      Q (old + incr) (hput k f (show_int (old + incr)) s)) \<Longrightarrow>
   wp (hincrby k f amt) Q (\<lambda>_ _. True) s"
  by (simp add: wp_hincrby split: option.split)

lemma ok_get [ok_wp]:
  "(\<And>v. look s k = map_option RStr v \<Longrightarrow> Q v s) \<Longrightarrow> wp (get k) Q (\<lambda>_ _. True) s"
  by (auto simp: wp_get split: option.split rval.split)

lemma ok_exists_key [ok_wp]: "Q (look s k \<noteq> None) s \<Longrightarrow> wp (exists_key k) Q (\<lambda>_ _. True) s"
  by (simp add: wp_exists_key)

lemma ok_delete_key [ok_wp]: "Q () (unput k s) \<Longrightarrow> wp (delete_key k) Q (\<lambda>_ _. True) s"
  by (simp add: wp_delete_key)

lemma ok_set_str [ok_wp]: "Q () (set_key k v s) \<Longrightarrow> wp (set_str k v) Q (\<lambda>_ _. True) s"
  by (simp add: wp_set_str)

lemma ok_lrange_all [ok_wp]: "(is_list s k \<Longrightarrow> Q (list_of s k) s) \<Longrightarrow> wp (lrange_all k) Q (\<lambda>_ _. True) s"
  by (simp add: wp_lrange_all)

lemma ok_scard [ok_wp]: "(is_set s k \<Longrightarrow> Q (int (length (members s k))) s) \<Longrightarrow> wp (scard k) Q (\<lambda>_ _. True) s"
  by (simp add: wp_scard)

lemma ok_smembers [ok_wp]: "(is_set s k \<Longrightarrow> Q (members s k) s) \<Longrightarrow> wp (smembers k) Q (\<lambda>_ _. True) s"
  by (simp add: wp_smembers)

lemma ok_sadd [ok_wp]: "Q () (put_set k (List.insert v (members s k)) s) \<Longrightarrow> wp (sadd k v) Q (\<lambda>_ _. True) s"
  by (simp add: wp_sadd)

lemma ok_srem [ok_wp]: "Q () (put_set k (removeAll v (members s k)) s) \<Longrightarrow> wp (srem k v) Q (\<lambda>_ _. True) s"
  by (simp add: wp_srem)

text \<open>A loop, with an invariant on its start state and the state it is in.\<close>

lemma ok_forM:
  assumes "\<And>x t. x \<in> set xs \<Longrightarrow> I t \<Longrightarrow> wp (f x) (\<lambda>_. I) (\<lambda>_ _. True) t" "I s" "\<And>t. I t \<Longrightarrow> Q () t"
  shows "wp (forM xs f) Q (\<lambda>_ _. True) s"
  using assms
proof (induction xs arbitrary: s)
  case (Cons x xs)
  have "wp (f x) (\<lambda>_. wp (forM xs f) Q (\<lambda>_ _. True)) (\<lambda>_ _. True) s"
    by (rule wp_mono [OF Cons.prems(1) [of x s]]) (use Cons in auto)
  then show ?case by (simp add: wp_thenM)
qed (simp add: wp_retM)

text \<open>A loop that only looks: each round's value is known from the state.\<close>

lemma ok_mapM_read:
  assumes "\<And>x. x \<in> set xs \<Longrightarrow> wp (f x) (\<lambda>y t. t = s \<and> P x y) (\<lambda>_ _. True) s" "\<And>ys. list_all2 P xs ys \<Longrightarrow> Q ys s"
  shows "wp (mapM xs f) Q (\<lambda>_ _. True) s"
  using assms
proof (induction xs arbitrary: Q)
  case (Cons x xs)
  have "wp (f x) (\<lambda>y. wp (mapM xs f) (\<lambda>ys. Q (y # ys)) (\<lambda>_ _. True)) (\<lambda>_ _. True) s"
  proof (rule wp_mono [OF Cons.prems(1) [of x]])
    fix y t assume y: "t = s \<and> P x y"
    then show "wp (mapM xs f) (\<lambda>ys. Q (y # ys)) (\<lambda>_ _. True) t" using Cons.prems by (auto intro!: Cons.IH)
  qed auto
  then show ?case by (simp add: wp_bindM [abs_def] wp_retM)
qed (simp add: wp_retM)

section \<open>Fields a handler leaves alone\<close>

definition leaves :: "string \<Rightarrow> string \<Rightarrow> 'a rh \<Rightarrow> bool" where
  "leaves k f m \<longleftrightarrow> (\<forall>s. hf (snd (m s)) k f = hf s k f)"

named_theorems leaves_intros "a handler leaves a field of a hash alone"

lemma leavesD: "leaves k f m \<Longrightarrow> hf (snd (m s)) k f = hf s k f"
  by (simp add: leaves_def)

lemma leaves_only: "only ks m \<Longrightarrow> k \<notin> ks \<Longrightarrow> leaves k f m"
  unfolding leaves_def by (auto intro: hf_cong_look onlyD)

lemma leaves_pure [leaves_intros]: "leaves k f (retM x)" "leaves k f (raiseM e)" "leaves k f (liftE r)"
  by (simp_all add: leaves_def retM_def raiseM_def liftE_def)

lemma leaves_bindM [leaves_intros]: "leaves k f m \<Longrightarrow> (\<And>x. leaves k f (g x)) \<Longrightarrow> leaves k f (bindM m g)"
  unfolding leaves_def bindM_def by (auto split: prod.split sum.split) (metis snd_conv)+

lemma leaves_thenM [leaves_intros]: "leaves k f m \<Longrightarrow> leaves k f n \<Longrightarrow> leaves k f (thenM m n)"
  by (simp add: thenM_def leaves_bindM)

lemma leaves_if [leaves_intros]: "(b \<Longrightarrow> leaves k f m) \<Longrightarrow> (\<not> b \<Longrightarrow> leaves k f n) \<Longrightarrow> leaves k f (if b then m else n)"
  by simp

lemma leaves_option [leaves_intros]:
  "leaves k f m \<Longrightarrow> (\<And>x. leaves k f (g x)) \<Longrightarrow> leaves k f (case v of None \<Rightarrow> m | Some x \<Rightarrow> g x)"
  by (cases v) auto

lemma leaves_mapM [leaves_intros]: "(\<And>x. leaves k f (g x)) \<Longrightarrow> leaves k f (mapM xs g)"
  by (induction xs) (auto intro!: leaves_intros)

lemma leaves_drop_reply [leaves_intros]: "leaves k f m \<Longrightarrow> leaves k f (drop_reply m)"
  by (simp add: drop_reply_def leaves_intros)

lemma leaves_reads [leaves_intros]:
  "leaves k f (get j)" "leaves k f (exists_key j)" "leaves k f (hget j g)" "leaves k f (hmget j gs)"
  "leaves k f (hgetall j)" "leaves k f (hlen j)" "leaves k f (lrange_all j)" "leaves k f (smembers j)" "leaves k f (keys p)"
  by (rule leaves_only [of "{}"]; simp add: only_intros)+

lemma leaves_writes [leaves_intros]:
  "(j, g) \<noteq> (k, f) \<Longrightarrow> leaves k f (hincrby j g a)" "(j, g) \<noteq> (k, f) \<Longrightarrow> leaves k f (hset j g v)"
  by (auto simp: leaves_def hincrby_def hset_def split: option.split)

end
