(* ===== verification/Stores.thy ===== *)
theory Stores
  imports RedisLaws
begin

text \<open>
  The stores a handler of the hall reaches: the main database it is given (\<open>redis\<close>), the second
  database (\<open>bag_redis\<close>, bag/bag_config.py) and the source of randomness, with the lifts of a command
  to each; the balance journal kept in the second database (common/record_player_info.py).
\<close>

section \<open>State and lifts\<close>

record stores =
  main :: redis
  bag :: redis
  tape :: "nat list"

type_synonym 'a sh = "(stores, 'a) handler"

definition on_main :: "'a rh \<Rightarrow> 'a sh" where
  "on_main m = (\<lambda>s. case m (main s) of (r, t) \<Rightarrow> (r, s\<lparr>main := t\<rparr>))"

definition on_bag :: "'a rh \<Rightarrow> 'a sh" where
  "on_bag m = (\<lambda>s. case m (bag s) of (r, t) \<Rightarrow> (r, s\<lparr>bag := t\<rparr>))"

definition on_tape :: "(nat list, 'a) handler \<Rightarrow> 'a sh" where
  "on_tape m = (\<lambda>s. case m (tape s) of (r, t) \<Rightarrow> (r, s\<lparr>tape := t\<rparr>))"

lemma wp_on_main [wp_eqs]:
  "wp (on_main m) Q E s = wp m (\<lambda>x t. Q x (s\<lparr>main := t\<rparr>)) (\<lambda>e t. E e (s\<lparr>main := t\<rparr>)) (main s)"
  by (simp add: wp_def on_main_def split: prod.split sum.split)

lemma wp_on_bag [wp_eqs]:
  "wp (on_bag m) Q E s = wp m (\<lambda>x t. Q x (s\<lparr>bag := t\<rparr>)) (\<lambda>e t. E e (s\<lparr>bag := t\<rparr>)) (bag s)"
  by (simp add: wp_def on_bag_def split: prod.split sum.split)

lemma wp_on_tape:
  "wp (on_tape m) Q E s = wp m (\<lambda>x t. Q x (s\<lparr>tape := t\<rparr>)) (\<lambda>e t. E e (s\<lparr>tape := t\<rparr>)) (tape s)"
  by (simp add: wp_def on_tape_def split: prod.split sum.split)

section \<open>The balance journal\<close>

text \<open>Each change of a balance is queued as one SQL statement; \<open>now\<close> is the formatted local time.\<close>

definition balance_sql :: "string \<Rightarrow> string \<Rightarrow> int \<Rightarrow> int \<Rightarrow> string \<Rightarrow> int \<Rightarrow> string \<Rightarrow> string" where
  "balance_sql now user_table currency_id quantity_change quantity_final type_id game_id =
     ''insert into income_and_fee_detail'' @
     '' (user_id,quantity_change,quantity_final,currency,type_id,game_id,create_time,extra1,extra2,extra3,extra4)'' @
     '' values ('' @ [CHR 0x27] @ user_table @ [CHR 0x27] @ '','' @ show_int quantity_change @ '','' @ quantity_final @
     '','' @ show_int currency_id @ '','' @ show_int type_id @ '','' @ [CHR 0x27] @ game_id @ [CHR 0x27] @ '','' @
     [CHR 0x27] @ now @ [CHR 0x27] @ '','' @ concat (replicate 3 ([CHR 0x27, CHR 0x27] @ '','')) @ [CHR 0x27, CHR 0x27] @ '');''"

definition BALANCE_CHANGE :: string where
  "BALANCE_CHANGE = ''player:balance_change''"

definition record_player_balance_change :: "string \<Rightarrow> string \<Rightarrow> int \<Rightarrow> int \<Rightarrow> string \<Rightarrow> int \<Rightarrow> string \<Rightarrow> unit rh" where
  "record_player_balance_change now user_table currency_id quantity_change quantity_final type_id game_id =
     lpush BALANCE_CHANGE (balance_sql now user_table currency_id quantity_change quantity_final type_id game_id)"

lemma wp_record_balance [wp_eqs]:
  "wp (record_player_balance_change now u c q f ty g) Q E s =
     (if is_list s BALANCE_CHANGE
      then Q () (set_list BALANCE_CHANGE (balance_sql now u c q f ty g # list_of s BALANCE_CHANGE) s)
      else E ResponseError s)"
  by (simp add: record_player_balance_change_def wp_lpush)

end
