(* ===== verification/Sessions.thy ===== *)
theory Sessions
  imports RedisLaws
begin

text \<open>
  Sessions: from a session id or an account to the user it belongs to (common/utilt.py and
  hall/hall_func.py).
\<close>

definition FORMAT_USER_HALL_SESSION :: "string \<Rightarrow> string" where "FORMAT_USER_HALL_SESSION sid = ''hall:session:'' @ sid"
definition FORMAT_USER_PLATFORM_SESSION :: "string \<Rightarrow> string" where "FORMAT_USER_PLATFORM_SESSION uid = ''session:'' @ uid"
definition FORMAT_ACCOUNT2USER_TABLE :: "string \<Rightarrow> string" where "FORMAT_ACCOUNT2USER_TABLE a = ''users:account:'' @ a"

definition getInfoBySid :: "string \<Rightarrow> (string \<times> string option \<times> string option \<times> string option) rh" where
  "getInfoBySid sid =
     bindM (hmget (FORMAT_USER_HALL_SESSION sid) [''account'', ''uid'']) (\<lambda>v.
     bindM (get (FORMAT_USER_PLATFORM_SESSION (fmt (v ! 1)))) (\<lambda>verfiySid.
     retM (FORMAT_USER_HALL_SESSION sid, v ! 0, v ! 1, verfiySid)))"

definition getUserByAccount :: "string \<Rightarrow> string option rh" where
  "getUserByAccount account = get (FORMAT_ACCOUNT2USER_TABLE account)"

lemma only_getInfoBySid [only_intros]: "only ks (getInfoBySid sid)"
  unfolding getInfoBySid_def by (intro only_intros)

text \<open>A session that can be read tells the account and the user, and nothing changes.\<close>

lemma ok_getInfoBySid [ok_wp]:
  assumes "\<And>v. Q (FORMAT_USER_HALL_SESSION sid, hf s (FORMAT_USER_HALL_SESSION sid) ''account'', hf s (FORMAT_USER_HALL_SESSION sid) ''uid'', v) s"
  shows "wp (getInfoBySid sid) Q (\<lambda>_ _. True) s"
  unfolding getInfoBySid_def by (intro ok_wp) (simp add: assms)

definition sid_uid :: "redis \<Rightarrow> string \<Rightarrow> string option" where
  "sid_uid s sid = hf s (FORMAT_USER_HALL_SESSION (strip sid)) ''uid''"

text \<open>The idiom \<open>SessionTable, account, uid, verfiySid = getInfoBySid(redis, sid)\<close> of the handlers
  that only use \<open>uid\<close>.\<close>

definition uidBySid :: "string \<Rightarrow> string option rh" where
  "uidBySid sid = bindM (getInfoBySid (strip sid)) (\<lambda>(_, _, uid, _). retM uid)"

lemma only_uidBySid [only_intros]: "only ks (uidBySid sid)"
  unfolding uidBySid_def by (intro only_intros)

lemma uidBySid_wp:
  assumes "Q (sid_uid s sid) s" "E ResponseError s"
  shows "wp (uidBySid sid) Q E s"
  using assms by (auto simp: uidBySid_def getInfoBySid_def sid_uid_def wp_eqs split: option.split rval.split)

lemma ok_uidBySid [ok_wp]: "Q (sid_uid s sid) s \<Longrightarrow> wp (uidBySid sid) Q (\<lambda>_ _. True) s"
  by (rule uidBySid_wp) auto

end
