(* ===== verification/XxlHall.thy ===== *)
theory XxlHall
  imports XxlDraw Stores Sessions
begin

text \<open>
  The match-three game as the hall serves it (hall/hall_xiaoxiaole.py) with the bookkeeping it
  calls (model/xiaoxiaoleModel.py, model/xiaoxiaole_db_define.py): odds and draw tables read from the
  main database, the kind of money a win is paid in, the settlement of a round and its records.

  What Python's \<open>eval\<close>, \<open>float\<close> and the clock return is an argument (the record \<open>host\<close>); a float is
  a value of a type parameter.
\<close>

section \<open>What the host gives\<close>

text \<open>\<open>ev t\<close> is the value of \<open>eval(t)\<close>: \<open>Some\<close> of its items when it is a dict.  \<open>fpay n f\<close> is
  \<open>int(n * f)\<close>; \<open>fratio p g\<close> is \<open>p * 1.0 / g\<close>.\<close>

record ('v, 'f) host =
  ev :: "string \<Rightarrow> exn + ('v \<times> 'v) list option"
  as_int :: "'v \<Rightarrow> exn + int"
  as_float :: "'v \<Rightarrow> exn + 'f"
  fparse :: "string \<Rightarrow> exn + 'f"
  fnonzero :: "'f \<Rightarrow> bool"
  fratio :: "int \<Rightarrow> int \<Rightarrow> 'f"
  fpay :: "int \<Rightarrow> 'f \<Rightarrow> exn + int"
  le_release_default :: "'f \<Rightarrow> bool"
  ge_recovery_default :: "'f \<Rightarrow> bool"
  today :: int
  wday :: int
  week_s :: string
  now_s :: string
  show_day :: "int \<Rightarrow> string"

text \<open>\<open>getNowTimeInfo\<close>: the date, the number of the week and the day the week started.\<close>

definition week_startDay :: "('v, 'f) host \<Rightarrow> string" where
  "week_startDay h = (if wday h - 1 \<noteq> 0 then show_day h (today h - (wday h - 1)) else now_s h)"

definition getNowTimeInfo :: "('v, 'f) host \<Rightarrow> string \<times> string \<times> string" where
  "getNowTimeInfo h = (show_day h (today h), week_s h, week_startDay h)"

section \<open>Keys\<close>

definition XXL_CHANCE_TALBE_DEFAULT :: string where "XXL_CHANCE_TALBE_DEFAULT = ''xxl:chance:default:hesh''"
definition XXL_CHANCE_TALBE_RELEASE :: string where "XXL_CHANCE_TALBE_RELEASE = ''xxl:chance:release:hesh''"
definition XXL_CHANCE_TALBE_RECOVERY :: string where "XXL_CHANCE_TALBE_RECOVERY = ''xxl:chance:recovery:hesh''"
definition XXL_CHANCE_TALBE_PCT :: string where "XXL_CHANCE_TALBE_PCT = ''xxl:chance:percent:hesh''"
definition XXL_OODS_DEFAULT :: string where "XXL_OODS_DEFAULT = ''xxl:oods:default:hesh''"
definition XXL_MONEY_RECORD_DAY :: "string \<Rightarrow> string" where "XXL_MONEY_RECORD_DAY d = ''xxl:record:money:day:'' @ d"
definition XXL_MONEY_RECORD_WEEK :: "string \<Rightarrow> string" where "XXL_MONEY_RECORD_WEEK w = ''xxl:record:money:week:'' @ w"
definition XXL_MONEY_RECORD_PLAYER :: "string \<Rightarrow> string" where "XXL_MONEY_RECORD_PLAYER u = ''xxl:record:money:player:'' @ u"
definition XXL_SHONOR_PLAYER_INFO :: "string \<Rightarrow> string" where "XXL_SHONOR_PLAYER_INFO u = ''xxl:sHonor:users:'' @ u"
definition XXL_SHONOR_TOTAL_INFO :: string where "XXL_SHONOR_TOTAL_INFO = ''xxl:sHonor:total''"
definition XXL_SHONOR_TOTAL_DATE :: "string \<Rightarrow> string" where "XXL_SHONOR_TOTAL_DATE d = ''xxl:sHonor:total:'' @ d"
definition XXL_PLAYNUM_RECORD_DATE :: "string \<Rightarrow> string" where "XXL_PLAYNUM_RECORD_DATE d = ''xxl:record:playNum:'' @ d"
definition XXL_PLAYERNUM_RECORD_DATE :: "string \<Rightarrow> string \<Rightarrow> string" where
  "XXL_PLAYERNUM_RECORD_DATE d ty = ''xxl:record:playerNum:'' @ d @ '':'' @ ty"

lemmas xxl_keys = XXL_CHANCE_TALBE_DEFAULT_def XXL_CHANCE_TALBE_RELEASE_def XXL_CHANCE_TALBE_RECOVERY_def
  XXL_CHANCE_TALBE_PCT_def XXL_OODS_DEFAULT_def XXL_MONEY_RECORD_DAY_def XXL_MONEY_RECORD_WEEK_def
  XXL_MONEY_RECORD_PLAYER_def XXL_SHONOR_PLAYER_INFO_def XXL_SHONOR_TOTAL_INFO_def XXL_SHONOR_TOTAL_DATE_def
  XXL_PLAYNUM_RECORD_DATE_def XXL_PLAYERNUM_RECORD_DATE_def

definition GOLD :: string where "GOLD = ''gold''"
definition HONOR :: string where "HONOR = ''honor''"
definition DEFAULT :: int where "DEFAULT = 1"
definition RELEASE :: int where "RELEASE = 2"
definition RECOVERY :: int where "RECOVERY = 3"

definition users :: "string \<Rightarrow> string" where "users uid = ''users:'' @ uid"

section \<open>Tables\<close>

text \<open>\<open>dict_to_int_int\<close> and \<open>dict_to_int_float\<close>: convert every key and value; the first one that cannot
  be converted gives up (\<open>None\<close>, the code's \<open>False\<close>).\<close>

fun dict_conv :: "('a \<Rightarrow> exn + 'k) \<Rightarrow> ('b \<Rightarrow> exn + 'v) \<Rightarrow> ('a \<times> 'b) list \<Rightarrow> ('k \<times> 'v) list \<Rightarrow> ('k \<times> 'v) list option" where
  "dict_conv kf vf [] acc = Some acc"
| "dict_conv kf vf ((k, v) # kvs) acc =
     (case (vf v, kf k) of (Inr v', Inr k') \<Rightarrow> dict_conv kf vf kvs (AList.update k' v' acc) | _ \<Rightarrow> None)"

definition dict_to_int_int :: "(string \<times> string) list \<Rightarrow> (int \<times> int) list option" where
  "dict_to_int_int d = dict_conv py_int py_int d []"

definition dict_to_int_float :: "('v, 'f) host \<Rightarrow> ('v \<times> 'v) list option \<Rightarrow> (int \<times> 'f) list option" where
  "dict_to_int_float h d = (case d of None \<Rightarrow> None | Some kvs \<Rightarrow> dict_conv (as_int h) (as_float h) kvs [])"

type_synonym 'f odds = "(int \<times> (int \<times> 'f) list) list"

fun odds_rows :: "('v, 'f) host \<Rightarrow> (string \<times> string) list \<Rightarrow> 'f odds \<Rightarrow> exn + 'f odds" where
  "odds_rows h [] acc = Inr acc"
| "odds_rows h ((ty, od) # rest) acc =
     (case ev h od of Inl e \<Rightarrow> Inl e
      | Inr d \<Rightarrow> (case dict_to_int_float h d of None \<Rightarrow> Inr []
        | Some row \<Rightarrow> (case py_int ty of Inl _ \<Rightarrow> Inr [] | Inr n \<Rightarrow> odds_rows h rest (AList.update n row acc))))"

definition getXxlOdds :: "('v, 'f) host \<Rightarrow> 'f odds rh" where
  "getXxlOdds h = bindM (hgetall XXL_OODS_DEFAULT) (\<lambda>d. liftE (odds_rows h d []))"

text \<open>\<open>getOdds\<close>: the odds of the length, else those listed for length 0, else the number 0 (\<open>None\<close>); a
  figure without odds is a \<open>KeyError\<close>.\<close>

definition getOdds :: "'f odds \<Rightarrow> int \<Rightarrow> int \<Rightarrow> exn + 'f option" where
  "getOdds tbl ty count = (case map_of tbl ty of None \<Rightarrow> Inl KeyError
     | Some row \<Rightarrow> Inr (case map_of row count of None \<Rightarrow> map_of row 0 | Some f \<Rightarrow> Some f))"

text \<open>\<open>getMoneyType\<close>.\<close>

definition getMoneyType :: "string \<Rightarrow> int \<Rightarrow> string rh" where
  "getMoneyType uid totalPayGold = bindM (hget (XXL_SHONOR_PLAYER_INFO uid) ''sHonor_Surplus'') (\<lambda>v.
     let surplus = (case py_int_none v of Inl _ \<Rightarrow> 0 | Inr n \<Rightarrow> n)
     in retM (if surplus \<noteq> 0 \<and> totalPayGold div 100 \<le> surplus then HONOR else GOLD))"

text \<open>
  \<open>getXxlChangeTableType\<close>: the table in force today, chosen once a day from the payout of the week.
  The thresholds are compared as they come out of the hash, as strings: in Python 2 every number is
  smaller than every string, so \<open>num_le_str\<close> is \<open>True\<close> and \<open>num_ge_str\<close> \<open>False\<close>.
\<close>

definition num_le_str :: "'f \<Rightarrow> string \<Rightarrow> bool" where "num_le_str x t = True"
definition num_ge_str :: "'f \<Rightarrow> string \<Rightarrow> bool" where "num_ge_str x t = False"

definition dget :: "(string \<times> string) list \<Rightarrow> string \<Rightarrow> string \<Rightarrow> string" where
  "dget d k dflt = (case map_of d k of None \<Rightarrow> dflt | Some v \<Rightarrow> v)"

definition choose_table :: "('v, 'f) host \<Rightarrow> (string \<times> string) list \<Rightarrow> int \<Rightarrow> int \<Rightarrow> int" where
  "choose_table h pct get_gold put_gold =
     (if get_gold = 0 \<or> put_gold = 0 then DEFAULT
      else let ratio = fratio h put_gold get_gold
        in case (fparse h (dget pct ''release'' ''0''), fparse h (dget pct ''recovery'' ''1'')) of
             (Inr release, Inr recovery) \<Rightarrow>
               if fnonzero h release \<and> fnonzero h recovery then
                 if (case map_of pct ''release'' of None \<Rightarrow> le_release_default h ratio | Some t \<Rightarrow> num_le_str ratio t) then RELEASE
                 else if (case map_of pct ''recovery'' of None \<Rightarrow> ge_recovery_default h ratio | Some t \<Rightarrow> num_ge_str ratio t) then RECOVERY
                 else DEFAULT
               else DEFAULT
           | _ \<Rightarrow> DEFAULT)"

definition getXxlChangeTableType :: "('v, 'f) host \<Rightarrow> int rh" where
  "getXxlChangeTableType h =
     (let (date, week, week_start) = getNowTimeInfo h in
      bindM (hgetall (XXL_MONEY_RECORD_DAY date)) (\<lambda>day.
      bindM (hgetall (XXL_MONEY_RECORD_WEEK week)) (\<lambda>wk.
      bindM (liftE (py_int (dget day ''now_type'' ''0''))) (\<lambda>now_type.
      if now_type \<noteq> 0 then retM now_type else
      bindM (liftE (py_int (dget wk ''get_gold'' ''0''))) (\<lambda>get_gold.
      bindM (liftE (py_int (dget wk ''put_gold'' ''0''))) (\<lambda>put_gold.
      bindM (hgetall XXL_CHANCE_TALBE_PCT) (\<lambda>pct.
      tryM (thenM (hset (XXL_MONEY_RECORD_DAY date) ''now_type'' (show_int (choose_table h pct get_gold put_gold)))
                  (retM (choose_table h pct get_gold put_gold)))
           (retM DEFAULT))))))))"

definition getXxlChanceTable :: "int \<Rightarrow> (string \<times> string) list rh" where
  "getXxlChanceTable ty =
     (let dflt = hgetall XXL_CHANCE_TALBE_DEFAULT;
          special = (\<lambda>k. bindM (hgetall k) (\<lambda>t. if t = [] then dflt else retM t))
      in if ty = RELEASE then special XXL_CHANCE_TALBE_RELEASE
         else if ty = RECOVERY then special XXL_CHANCE_TALBE_RECOVERY
         else dflt)"

section \<open>Records of a round\<close>

definition hinc :: "string \<Rightarrow> string \<Rightarrow> int \<Rightarrow> unit rh" where
  "hinc k f n = drop_reply (hincrby k f (show_int n))"

definition saveXxlRecord :: "('v, 'f) host \<Rightarrow> int \<Rightarrow> int \<Rightarrow> string \<Rightarrow> string \<Rightarrow> unit rh" where
  "saveXxlRecord h get_gold put_gold money uid =
     (let (date, week, week_start) = getNowTimeInfo h;
          keys3 = [XXL_MONEY_RECORD_DAY date, XXL_MONEY_RECORD_WEEK week, XXL_MONEY_RECORD_PLAYER uid];
          all3 = (\<lambda>f n. map (\<lambda>k. hinc k f n) keys3)
      in bindM (hgetall (XXL_MONEY_RECORD_WEEK week)) (\<lambda>wk.
         thenM (if wk = [] then hset (XXL_MONEY_RECORD_WEEK week) ''start_day'' week_start else retM ())
         (execute
           ((if get_gold = 0 then []
             else if money = GOLD then all3 ''get_gold'' get_gold
             else if money = HONOR then all3 ''get_gold_byHonor'' get_gold
             else []) @
            (if put_gold = 0 then [] else all3 (''put_'' @ money) put_gold)))))"

text \<open>\<open>saveXxlHonorTrade\<close>: move a win out of the honor quota, and the row of \<open>xxlHonorBill\<close> it writes
  (the SQL insert itself runs in a \<open>try\<close>).\<close>

record bill =
  bill_date :: string
  bill_uid :: string
  bill_nickname :: string
  bill_gold :: string
  bill_honor :: int
  bill_bhonor :: int
  bill_winHonor :: int
  bill_total :: string
  bill_surplus :: string
  bill_converted :: string

definition or0 :: "string option \<Rightarrow> string" where
  "or0 v = (if truthy v then fmt v else ''0'')"

definition saveXxlHonorTrade :: "('v, 'f) host \<Rightarrow> string \<Rightarrow> int \<Rightarrow> bill rh" where
  "saveXxlHonorTrade h uid winHonor =
     (let k = XXL_SHONOR_PLAYER_INFO uid; d = XXL_SHONOR_TOTAL_DATE (show_day h (today h)) in
      thenM (execute
        [hinc k ''sHonor_Surplus'' (- winHonor), hinc k ''sHonor_Converted'' winHonor,
         hinc XXL_SHONOR_TOTAL_INFO ''sHonor_Surplus'' (- winHonor), hinc XXL_SHONOR_TOTAL_INFO ''sHonor_Converted'' winHonor,
         hinc d ''sHonor_Surplus'' (- winHonor), hinc d ''sHonor_Converted'' winHonor])
      (bindM (hmget (users uid) [''nickname'', ''gold'', ''honor'']) (\<lambda>u.
       bindM (hmget k [''sHonor_Total'', ''sHonor_Surplus'', ''sHonor_Converted'']) (\<lambda>q.
       bindM (liftE (int_or (u ! 2) 0)) (\<lambda>honor.
       retM \<lparr>bill_date = now_s h, bill_uid = uid, bill_nickname = fmt (u ! 0), bill_gold = or0 (u ! 1),
         bill_honor = honor, bill_bhonor = honor - winHonor, bill_winHonor = winHonor,
         bill_total = or0 (q ! 0), bill_surplus = or0 (q ! 1), bill_converted = or0 (q ! 2)\<rparr>)))))"

definition saveXxlPlayRecord :: "('v, 'f) host \<Rightarrow> string \<Rightarrow> string \<Rightarrow> unit rh" where
  "saveXxlPlayRecord h uid moneyType =
     (let date = show_day h (today h) in execute
        [hinc (XXL_PLAYNUM_RECORD_DATE date) ''PlayNumTotal'' 1,
         hinc (XXL_PLAYNUM_RECORD_DATE date) (if moneyType = HONOR then ''PlayNum_Honor'' else ''PlayNum_Gold'') 1,
         hinc (XXL_PLAYERNUM_RECORD_DATE date ''total'') uid 1,
         hinc (XXL_PLAYERNUM_RECORD_DATE date moneyType) uid 1])"

section \<open>A round\<close>

text \<open>Keys of the bets: JavaScript callers send numbers or strings.\<close>

datatype bkey = KI int | KS string

text \<open>The value of \<open>ast.literal_eval\<close> on the request: a dict, another value, or an exception.\<close>

datatype literal = Dict "(bkey \<times> int) list" | Other | Malformed

definition bet_of :: "(bkey \<times> int) list \<Rightarrow> int \<Rightarrow> int" where
  "bet_of bets n =
     (case map_of bets (KI n) of
        Some v \<Rightarrow> if v \<noteq> 0 then v else (case map_of bets (KS (show_int n)) of None \<Rightarrow> 0 | Some w \<Rightarrow> w)
      | None \<Rightarrow> (case map_of bets (KS (show_int n)) of None \<Rightarrow> 0 | Some w \<Rightarrow> w))"

text \<open>What the planned board is asked for: a run of the length of its class for a figure with a bet of
  100 or more, up to two random runs for a figure without a bet.\<close>

definition mathsDict_type_len :: "int \<Rightarrow> nat" where
  "mathsDict_type_len n = (if n = 5 then 3 else if n = 4 then 4 else if n = 3 then 4 else 5)"

definition request_of :: "(bkey \<times> int) list \<Rightarrow> int \<Rightarrow> (int \<times> nat) list rnd" where
  "request_of bets num =
     (if KI num \<in> fst ` set bets \<or> KS (show_int num) \<in> fst ` set bets then
        (case map_of bets (KI num) of
           None \<Rightarrow> raiseM KeyError
         | Some b \<Rightarrow> retM (if 1 \<le> b div 100 then [(num, mathsDict_type_len num)] else []))
      else bindM next_rand (\<lambda>r.
        bindM (mapM [0..<r mod 3] (\<lambda>_. choice [0, 3, 4, 5])) (\<lambda>lens.
        retM (map (\<lambda>l. (num, l)) (filter (\<lambda>l. 3 \<le> l) lens)))))"

definition requests :: "(bkey \<times> int) list \<Rightarrow> (int \<times> nat) list rnd" where
  "requests bets = bindM (mapM (map int [1..<TYPECount + 1]) (request_of bets)) (\<lambda>rss. retM (concat rss))"

text \<open>The board of a round: the weighted draw for gold, the planned one for honor.\<close>

definition draw_board :: "('v, 'f) host \<Rightarrow> string \<Rightarrow> (bkey \<times> int) list \<Rightarrow> (board \<times> result list) sh" where
  "draw_board h moneyType bets =
     (if moneyType = GOLD then
        bindM (on_main (getXxlChangeTableType h)) (\<lambda>ty.
        bindM (on_main (getXxlChanceTable ty)) (\<lambda>tbl.
        on_tape (mgr_run KIND_CHANCE (dict_to_int_int tbl) None)))
      else
        bindM (on_tape (requests bets)) (\<lambda>req. on_tape (mgr_run KIND_MATHS None (Some req))))"

definition score :: "('v, 'f) host \<Rightarrow> string \<Rightarrow> 'f odds \<Rightarrow> (bkey \<times> int) list \<Rightarrow> result \<Rightarrow> exn + int" where
  "score h moneyType tbl bets r =
     (let bet = (if moneyType = GOLD then bet_of bets (rtype r) else bet_of bets (rtype r) div 100)
      in case getOdds tbl (rtype r) (int (rlen r)) of
           Inl e \<Rightarrow> Inl e | Inr None \<Rightarrow> Inr 0 | Inr (Some f) \<Rightarrow> fpay h bet f)"

definition score_all :: "('v, 'f) host \<Rightarrow> string \<Rightarrow> 'f odds \<Rightarrow> (bkey \<times> int) list \<Rightarrow> result list \<Rightarrow> (result \<times> int) list sh" where
  "score_all h moneyType tbl bets rs = mapM rs (\<lambda>r. bindM (liftE (score h moneyType tbl bets r)) (\<lambda>n. retM (r, n)))"

definition winScore :: "(result \<times> int) list \<Rightarrow> int" where
  "winScore datas = sum_list (map snd datas)"

section \<open>Handlers\<close>

text \<open>The user a request is about: by its \<open>uid\<close> when given, else through the session; \<open>None\<close> is the
  reply "no such user".\<close>

definition resolve_user :: "string \<Rightarrow> string \<Rightarrow> bool \<Rightarrow> (string \<times> string) option rh" where
  "resolve_user uid sid read_account =
     (let found = (\<lambda>ut u. bindM (exists_key ut) (\<lambda>ex. retM (if ex then Some (ut, u) else None)))
      in if uid = [] then
           if sid = [] then retM None
           else bindM (getInfoBySid sid) (\<lambda>(st, account, u, verfiySid).
                bindM (getUserByAccount (fmt account)) (\<lambda>ut. case ut of
                  None \<Rightarrow> raiseM AttributeError
                | Some ut \<Rightarrow> found ut (last (split_on (CHR '':'') ut))))
         else thenM (if read_account then drop_reply (hget (users uid) ''account'') else retM ())
                    (found (users uid) uid))"

datatype 'f setting_reply = SettingErr int | Setting "'f odds" int

definition xiaoxiaole_setting :: "('v, 'f) host \<Rightarrow> string \<Rightarrow> string \<Rightarrow> 'f setting_reply rh" where
  "xiaoxiaole_setting h uid sid =
     bindM (resolve_user (strip uid) (strip sid) False) (\<lambda>u. case u of
       None \<Rightarrow> retM (SettingErr (- 5))
     | Some (ut, uid) \<Rightarrow>
         bindM (hget (users uid) ''gold'') (\<lambda>g.
         bindM (liftE (int_or g 0)) (\<lambda>gold.
         bindM (getXxlOdds h) (\<lambda>tbl. retM (Setting tbl gold)))))"

record round =
  win :: int
  money :: string
  matrix :: board
  datas :: "(result \<times> int) list"
  gold_coin :: int
  honor_coin :: string

datatype run_reply = XxlErr int | XxlOk round

text \<open>The writes of a round, from the charge of the bets on.\<close>

definition settle :: "('v, 'f) host \<Rightarrow> string \<Rightarrow> string \<Rightarrow> string \<Rightarrow> int \<Rightarrow> board \<Rightarrow> (result \<times> int) list \<Rightarrow> run_reply sh" where
  "settle h userTable uid moneyType paid board ds =
     (let w = winScore ds in
      thenM (on_main (hinc userTable ''coin'' (- paid)))
     (bindM (on_main (hget userTable ''coin'')) (\<lambda>left.
      thenM (on_bag (record_player_balance_change (now_s h) userTable 2 (- paid) (fmt left) 9 ''xxl''))
     (thenM (on_main (hinc userTable moneyType w))
     (bindM (on_main (hmget userTable [''coin'', ''honor''])) (\<lambda>v.
      thenM (if moneyType = HONOR
             then on_bag (record_player_balance_change (now_s h) userTable 16 w (or0 (v ! 1)) 9 ''xxl'')
             else on_bag (record_player_balance_change (now_s h) userTable 2 w (or0 (v ! 0)) 9 ''xxl''))
     (thenM (on_main (tryM (saveXxlRecord h paid w moneyType uid) (retM ())))
     (thenM (if moneyType = HONOR then on_main (drop_reply (saveXxlHonorTrade h uid w)) else retM ())
     (thenM (on_main (saveXxlPlayRecord h uid moneyType))
     (bindM (on_main (hincrby (users uid) ''coin'' (show_int w))) (\<lambda>gold.
      retM (XxlOk \<lparr>win = w, money = moneyType, matrix = board, datas = ds, gold_coin = gold,
        honor_coin = or0 (v ! 1)\<rparr>))))))))))))"

definition total_bet :: "(bkey \<times> int) list \<Rightarrow> int" where
  "total_bet bets = sum_list (map snd bets)"

text \<open>Bets may be paid in honor only when one of them reaches 100.\<close>

definition money_of :: "string \<Rightarrow> (bkey \<times> int) list \<Rightarrow> string rh" where
  "money_of uid bets =
     (if \<exists>b \<in> set bets. 1 \<le> snd b div 100 then getMoneyType uid (total_bet bets) else retM GOLD)"

definition play :: "('v, 'f) host \<Rightarrow> string \<Rightarrow> string \<Rightarrow> (bkey \<times> int) list \<Rightarrow> run_reply sh" where
  "play h userTable uid bets =
     bindM (on_main (money_of uid bets)) (\<lambda>moneyType.
     bindM (draw_board h moneyType bets) (\<lambda>(board, results).
     bindM (on_main (getXxlOdds h)) (\<lambda>tbl.
     bindM (score_all h moneyType tbl bets results) (\<lambda>ds.
     settle h userTable uid moneyType (total_bet bets) board ds))))"

definition xiaoxiaole_run :: "('v, 'f) host \<Rightarrow> string \<Rightarrow> string \<Rightarrow> literal \<Rightarrow> run_reply sh" where
  "xiaoxiaole_run h uid sid bets =
     bindM (on_main (resolve_user (strip uid) (strip sid) True)) (\<lambda>u. case u of
       None \<Rightarrow> retM (XxlErr (- 5))
     | Some (userTable, uid) \<Rightarrow>
         (case bets of
            Malformed \<Rightarrow> raiseM SyntaxError
          | Other \<Rightarrow> retM (XxlErr (- 1))
          | Dict bets \<Rightarrow>
              bindM (on_main (hmget userTable [''nickname'', ''coin''])) (\<lambda>v.
              if \<not> truthy (v ! 1) then retM (XxlErr (- 1)) else
              bindM (liftE (py_int_none (v ! 1))) (\<lambda>gold.
              if gold < total_bet bets then retM (XxlErr (- 1)) else
              bindM (on_main (exists_key XXL_OODS_DEFAULT)) (\<lambda>ex.
              if \<not> ex then retM (XxlErr (- 1)) else
              play h userTable uid bets)))))"

text \<open>\<open>xiaoxiaole_testrun\<close>: the lengths (10 and more together) of \<open>count\<close> boards of the default table;
  a table that cannot be read fails the assertion of the manager on the first board.\<close>

definition tally :: "(int \<times> int) \<Rightarrow> ((int \<times> int) \<times> int) list \<Rightarrow> ((int \<times> int) \<times> int) list" where
  "tally k t = AList.update k (case map_of t k of None \<Rightarrow> 1 | Some n \<Rightarrow> n + 1) t"

definition xiaoxiaole_testrun :: "string \<Rightarrow> (((int \<times> int) \<times> int) list) option sh" where
  "xiaoxiaole_testrun count =
     (case py_int (strip count) of
        Inl _ \<Rightarrow> retM None
      | Inr n \<Rightarrow> if 1000 < n then retM None else
          bindM (on_main (getXxlChanceTable DEFAULT)) (\<lambda>tbl.
          bindM (mapM [0..<nat n] (\<lambda>_. on_tape (mgr_run KIND_CHANCE (dict_to_int_int tbl) None))) (\<lambda>runs.
          retM (Some (foldl (\<lambda>t r. tally (rtype r, min 10 (int (rlen r))) t) [] (concat (map snd runs)))))))"

end
