(* ===== verification/XxlPay.thy ===== *)
theory XxlPay
  imports XxlHall
begin

text \<open>
  What a round of the match-three game does to the user: the charge, the win and where it is
  credited, the records it cannot touch the user through, and the reports it answers with.
\<close>

section \<open>Frames of the records\<close>

lemma only_hinc [only_intros]: "k \<in> ks \<Longrightarrow> only ks (hinc k f n)"
  by (auto simp: hinc_def intro!: only_intros)

lemma users_neq [simp]:
  "users uid \<noteq> XXL_MONEY_RECORD_DAY d" "users uid \<noteq> XXL_MONEY_RECORD_WEEK d" "users uid \<noteq> XXL_MONEY_RECORD_PLAYER d"
  "users uid \<noteq> XXL_SHONOR_PLAYER_INFO d" "users uid \<noteq> XXL_SHONOR_TOTAL_INFO" "users uid \<noteq> XXL_SHONOR_TOTAL_DATE d"
  "users uid \<noteq> XXL_PLAYNUM_RECORD_DATE d" "users uid \<noteq> XXL_PLAYERNUM_RECORD_DATE d m"
  by (simp_all add: users_def xxl_keys)

lemmas neq_users [simp] = users_neq [symmetric]

lemma only_saveXxlRecord [only_intros]: "only (- range users) (saveXxlRecord h g p m uid)"
  unfolding saveXxlRecord_def Let_def getNowTimeInfo_def
  by (auto intro!: only_intros split: if_splits)

lemma only_saveXxlHonorTrade [only_intros]: "only (- range users) (saveXxlHonorTrade h uid w)"
  unfolding saveXxlHonorTrade_def Let_def
  by (auto intro!: only_intros)

lemma only_saveXxlPlayRecord [only_intros]: "only (- range users) (saveXxlPlayRecord h uid m)"
  unfolding saveXxlPlayRecord_def Let_def
  by (auto intro!: only_intros)

lemma wp_hinc [wp_eqs]:
  "wp (hinc k f n) Q E s =
     (if in_llong n \<and> is_hash s k then
        (case counter (hf s k f) of None \<Rightarrow> E ResponseError s | Some old \<Rightarrow>
          if in_llong (old + n) then Q () (hput k f (show_int (old + n)) s) else E ResponseError s)
      else E ResponseError s)"
  by (simp add: hinc_def wp_drop_reply wp_hincrby strtoll_show_int_iff)

section \<open>Settlement\<close>

lemma money_neq [simp]: "GOLD \<noteq> ''coin''" "HONOR \<noteq> ''coin''" "''coin'' \<noteq> GOLD" "''coin'' \<noteq> HONOR" "GOLD \<noteq> HONOR" "HONOR \<noteq> GOLD"
  by (simp_all add: GOLD_def HONOR_def)

lemma main_ok_hinc [ok_wp]:
  "(\<And>old. counter (hf (main s) k f) = Some old \<Longrightarrow>
      Q () (s\<lparr>main := hput k f (show_int (old + n)) (main s)\<rparr>)) \<Longrightarrow>
   wp (on_main (hinc k f n)) Q (\<lambda>_ _. True) s"
  by (simp add: wp_on_main wp_hinc split: option.split)

lemma main_ok_hincrby [ok_wp]:
  "(\<And>old. counter (hf (main s) k f) = Some old \<Longrightarrow>
      Q (old + n) (s\<lparr>main := hput k f (show_int (old + n)) (main s)\<rparr>)) \<Longrightarrow>
   wp (on_main (hincrby k f (show_int n))) Q (\<lambda>_ _. True) s"
  by (simp add: wp_on_main wp_hincrby strtoll_show_int_iff split: option.split)

lemma main_ok_hget [ok_wp]: "Q (hf (main s) k f) s \<Longrightarrow> wp (on_main (hget k f)) Q (\<lambda>_ _. True) s"
  by (simp add: wp_on_main wp_hget)

lemma main_ok_hmget [ok_wp]: "Q (map (hf (main s) k) fs) s \<Longrightarrow> wp (on_main (hmget k fs)) Q (\<lambda>_ _. True) s"
  by (simp add: wp_on_main wp_hmget)

lemma ok_record [ok_wp]:
  "(\<And>sql. Q () (s\<lparr>bag := set_list BALANCE_CHANGE (sql # list_of (bag s) BALANCE_CHANGE) (bag s)\<rparr>)) \<Longrightarrow>
   wp (on_bag (record_player_balance_change now u c q f ty g)) Q (\<lambda>_ _. True) s"
  by (simp add: wp_on_bag wp_record_balance)

text \<open>A call that writes none of the users.\<close>

lemma ok_records:
  assumes "only (- range users) m" "\<And>x t. look t (users uid) = look (main s) (users uid) \<Longrightarrow> Q x (s\<lparr>main := t\<rparr>)"
  shows "wp (on_main m) Q (\<lambda>_ _. True) s"
  unfolding wp_on_main by (rule only_wp [OF assms(1)]) (use assms(2) in auto)

definition settled :: "string \<Rightarrow> string \<Rightarrow> int \<Rightarrow> int \<Rightarrow> stores \<Rightarrow> stores \<Rightarrow> bool" where
  "settled ut moneyType paid w s t \<longleftrightarrow>
     (\<exists>c x. counter (hf (main s) ut ''coin'') = Some c \<and> counter (hf (main s) ut moneyType) = Some x \<and>
        hf (main t) ut ''coin'' = Some (show_int (c - paid + w)) \<and>
        hf (main t) ut moneyType = Some (show_int (x + w))) \<and>
     (\<forall>f. f \<noteq> ''coin'' \<longrightarrow> f \<noteq> moneyType \<longrightarrow> hf (main t) ut f = hf (main s) ut f) \<and>
     length (list_of (bag t) BALANCE_CHANGE) = length (list_of (bag s) BALANCE_CHANGE) + 2"

lemma settled_last:
  assumes "counter (hf (main s) ut ''coin'') = Some c" "counter (hf (main s) ut m) = Some x" "m \<noteq> ''coin''"
    and "look u ut = look (hput ut m (show_int (x + w)) (hput ut ''coin'' (show_int (c - paid)) (main s))) ut"
    and "counter (hf u ut ''coin'') = Some d"
    and "length (list_of b BALANCE_CHANGE) = length (list_of (bag s) BALANCE_CHANGE) + 2"
  shows "settled ut m paid w s (s\<lparr>bag := b, main := hput ut ''coin'' (show_int (d + w)) u\<rparr>)"
proof -
  have h: "hf u ut f = hf (hput ut m (show_int (x + w)) (hput ut ''coin'' (show_int (c - paid)) (main s))) ut f" for f
    by (rule hf_cong_look) (rule assms(4))
  have "d = c - paid" using assms(3,5) by (simp add: h strtoll_show_int_iff split: if_splits)
  then show ?thesis using assms by (simp add: settled_def h)
qed

lemma settle_wp:
  assumes "moneyType = GOLD \<or> moneyType = HONOR"
  shows "wp (settle h (users uid) uid moneyType paid b ds)
     (\<lambda>r t. settled (users uid) moneyType paid (winScore ds) s t \<and>
        (\<exists>g hon. r = XxlOk \<lparr>win = winScore ds, money = moneyType, matrix = b, datas = ds, gold_coin = g, honor_coin = hon\<rparr> \<and>
           hf (main t) (users uid) ''coin'' = Some (show_int g)))
     (\<lambda>_ _. True) s"
  unfolding settle_def Let_def
  apply (intro ok_wp ok_records [where uid = uid] only_tryM only_saveXxlRecord only_saveXxlPlayRecord
      only_drop_reply only_saveXxlHonorTrade only_retM)
  using assms by (auto intro!: settled_last)

section \<open>A round, from the bets to the reply\<close>

text \<open>What the preparation of a round may have changed: the draw table chosen for the day, and the tape.\<close>

definition prepared :: "stores \<Rightarrow> stores \<Rightarrow> bool" where
  "prepared s t \<longleftrightarrow> bag t = bag s \<and>
     (\<forall>k. k \<notin> range XXL_MONEY_RECORD_DAY \<longrightarrow> look (main t) k = look (main s) k)"

lemma prepared_refl: "prepared s s"
  by (simp add: prepared_def)

lemma prepared_trans: "prepared s t \<Longrightarrow> prepared t u \<Longrightarrow> prepared s u"
  by (simp add: prepared_def)

lemma prepared_settled: "prepared s t \<Longrightarrow> settled (users uid) m p w t u \<Longrightarrow> settled (users uid) m p w s u"
proof -
  assume p: "prepared s t" and u: "settled (users uid) m p w t u"
  have "users uid \<notin> range XXL_MONEY_RECORD_DAY" by auto
  then have h: "hf (main t) (users uid) f = hf (main s) (users uid) f" for f
    using p by (intro hf_cong_look) (simp add: prepared_def)
  have "bag t = bag s" using p by (simp add: prepared_def)
  then show ?thesis using u by (simp add: settled_def h)
qed

lemma ok_prepare:
  assumes "only (range XXL_MONEY_RECORD_DAY) m" "\<And>x t. prepared s t \<Longrightarrow> Q x t"
  shows "wp (on_main m) Q (\<lambda>_ _. True) s"
  unfolding wp_on_main by (rule only_wp [OF assms(1)]) (auto intro!: assms(2) simp: prepared_def)

lemma only_getMoneyType [only_intros]: "only ks (getMoneyType uid n)"
  unfolding getMoneyType_def Let_def by (intro only_intros)

lemma only_money_of [only_intros]: "only ks (money_of uid bets)"
  unfolding money_of_def by (intro only_intros)

lemma only_getXxlChangeTableType [only_intros]: "only (range XXL_MONEY_RECORD_DAY) (getXxlChangeTableType h)"
  unfolding getXxlChangeTableType_def Let_def getNowTimeInfo_def case_prod_conv by (intro only_intros rangeI)

lemma only_getXxlChanceTable [only_intros]: "only ks (getXxlChanceTable ty)"
  unfolding getXxlChanceTable_def Let_def by (intro only_intros)

lemma only_getXxlOdds [only_intros]: "only ks (getXxlOdds h)"
  unfolding getXxlOdds_def by (intro only_intros)

lemma ok_tape:
  assumes "\<And>x u. m (tape s) = (Inr x, u) \<Longrightarrow> Q x (s\<lparr>tape := u\<rparr>)"
  shows "wp (on_tape m) Q (\<lambda>_ _. True) s"
  unfolding wp_on_tape using assms by (auto simp: wp_def split: sum.split prod.split)

lemma mgr_run_report: "mgr_run k c m tp = (Inr (b, rs), u) \<Longrightarrow> exact_report b {1..5} rs"
proof -
  assume r: "mgr_run k c m tp = (Inr (b, rs), u)"
  obtain qs where "getResults b = Some qs" "exact_report b {1..5} qs" using getResults_ok by blast
  then show ?thesis
    using r by (auto simp: mgr_run_def bindM_def retM_def raiseM_def split: prod.splits sum.splits option.splits)
qed

lemma prepared_tape: "prepared s t \<Longrightarrow> prepared s (t\<lparr>tape := u\<rparr>)"
  by (simp add: prepared_def)

lemma draw_board_ok:
  "wp (draw_board h m bets) (\<lambda>(b, rs) t. exact_report b {1..5} rs \<and> prepared s t) (\<lambda>_ _. True) s"
  unfolding draw_board_def
  by (intro ok_wp ok_prepare ok_tape only_getXxlChangeTableType only_getXxlChanceTable)
    (auto intro: mgr_run_report prepared_tape prepared_trans prepared_refl)

lemma score_all_ok:
  "wp (score_all h m tbl bets rs)
     (\<lambda>ds t. t = s \<and> map fst ds = rs \<and> (\<forall>d \<in> set ds. score h m tbl bets (fst d) = Inr (snd d))) (\<lambda>_ _. True) s"
proof (induction rs)
  case (Cons r rs)
  show ?case
    unfolding score_all_def mapM.simps
    by (intro ok_wp, rule wp_mono [OF Cons.IH [unfolded score_all_def]]) (auto simp: wp_retM)
qed (simp add: score_all_def wp_retM)

lemma getXxlOdds_eq:
  "getXxlOdds h s = (if is_hash s XXL_OODS_DEFAULT then odds_rows h (hash_of s XXL_OODS_DEFAULT) [] else Inl ResponseError, s)"
  by (simp add: getXxlOdds_def bindM_def hgetall_def liftE_def)

text \<open>The reply of a settled round.\<close>

definition good_round :: "('v, 'f) host \<Rightarrow> (bkey \<times> int) list \<Rightarrow> redis \<Rightarrow> round \<Rightarrow> bool" where
  "good_round h bets db R \<longleftrightarrow>
     (money R = GOLD \<or> money R = HONOR) \<and> exact_report (matrix R) {1..5} (map fst (datas R)) \<and>
     win R = sum_list (map snd (datas R)) \<and>
     (\<exists>tbl. fst (getXxlOdds h db) = Inr tbl \<and>
        (\<forall>d \<in> set (datas R). score h (money R) tbl bets (fst d) = Inr (snd d)))"

lemma prepared_odds: "prepared s t \<Longrightarrow> fst (getXxlOdds h (main t)) = fst (getXxlOdds h (main s))"
proof -
  assume "prepared s t"
  moreover have "XXL_OODS_DEFAULT \<notin> range XXL_MONEY_RECORD_DAY" by (auto simp: xxl_keys)
  ultimately have "look (main t) XXL_OODS_DEFAULT = look (main s) XXL_OODS_DEFAULT" by (simp add: prepared_def)
  then show ?thesis by (simp add: getXxlOdds_eq hash_of_def is_hash_def)
qed

lemma ok_odds:
  assumes "\<And>tbl. fst (getXxlOdds h (main s)) = Inr tbl \<Longrightarrow> Q tbl s"
  shows "wp (on_main (getXxlOdds h)) Q (\<lambda>_ _. True) s"
  unfolding wp_on_main using assms by (auto simp: wp_def getXxlOdds_eq split: sum.split)

lemma ok_money:
  assumes "\<And>m t. m = GOLD \<or> m = HONOR \<Longrightarrow> prepared s t \<Longrightarrow> Q m t"
  shows "wp (on_main (money_of uid bets)) Q (\<lambda>_ _. True) s"
proof -
  have "wp (on_main (money_of uid bets)) (\<lambda>m t. (m = GOLD \<or> m = HONOR) \<and> t = s) (\<lambda>_ _. True) s"
    by (simp add: wp_on_main money_of_def getMoneyType_def Let_def wp_eqs)
  then show ?thesis by (rule wp_mono) (auto intro: assms prepared_refl)
qed

lemma ok_draw:
  assumes "\<And>b rs t. exact_report b {1..5} rs \<Longrightarrow> prepared s t \<Longrightarrow> Q (b, rs) t"
  shows "wp (draw_board h m bets) Q (\<lambda>_ _. True) s"
  by (rule wp_mono [OF draw_board_ok]) (auto intro: assms)

lemma ok_score:
  assumes "\<And>ds. map fst ds = rs \<Longrightarrow> \<forall>d \<in> set ds. score h m tbl bets (fst d) = Inr (snd d) \<Longrightarrow> Q ds s"
  shows "wp (score_all h m tbl bets rs) Q (\<lambda>_ _. True) s"
  by (rule wp_mono [OF score_all_ok]) (auto intro: assms)

lemma ok_prod: "wp (f (fst p) (snd p)) Q (\<lambda>_ _. True) s \<Longrightarrow> wp (case p of (x, y) \<Rightarrow> f x y) Q (\<lambda>_ _. True) s"
  by (simp add: case_prod_beta)

lemma play_ok:
  "wp (play h (users uid) uid bets)
     (\<lambda>r t. \<exists>R. r = XxlOk R \<and> good_round h bets (main s) R \<and>
        settled (users uid) (money R) (total_bet bets) (win R) s t \<and>
        hf (main t) (users uid) ''coin'' = Some (show_int (gold_coin R)))
     (\<lambda>_ _. True) s"
  unfolding play_def
proof (intro ok_bindM ok_money)
  fix m t assume m: "m = GOLD \<or> m = HONOR" and t: "prepared s t"
  let ?Q = "\<lambda>r t. \<exists>R. r = XxlOk R \<and> good_round h bets (main s) R \<and>
        settled (users uid) (money R) (total_bet bets) (win R) s t \<and>
        hf (main t) (users uid) ''coin'' = Some (show_int (gold_coin R))"
  have "wp (settle h (users uid) uid m (total_bet bets) b ds) ?Q (\<lambda>_ _. True) v"
    if "exact_report b {1..5} rs" "prepared t v" "fst (getXxlOdds h (main v)) = Inr tbl" "map fst ds = rs"
      "\<forall>d \<in> set ds. score h m tbl bets (fst d) = Inr (snd d)" for b rs v tbl ds
  proof (rule wp_mono [OF settle_wp [OF m]])
    have v: "prepared s v" by (rule prepared_trans [OF t that(2)])
    have "fst (getXxlOdds h (main s)) = Inr tbl" using prepared_odds [OF v] that(3) by metis
    then have good: "good_round h bets (main s) \<lparr>win = winScore ds, money = m, matrix = b, datas = ds, gold_coin = g, honor_coin = hon\<rparr>" for g hon
      using m that by (simp add: good_round_def winScore_def)
    fix r u assume h: "settled (users uid) m (total_bet bets) (winScore ds) v u \<and>
        (\<exists>g hon. r = XxlOk \<lparr>win = winScore ds, money = m, matrix = b, datas = ds, gold_coin = g, honor_coin = hon\<rparr> \<and>
           hf (main u) (users uid) ''coin'' = Some (show_int g))"
    then show "?Q r u" using good prepared_settled [OF v] by auto
  qed simp
  then show "wp (draw_board h m bets)
      (\<lambda>x. wp (case x of (board, results) \<Rightarrow> bindM (on_main (getXxlOdds h)) (\<lambda>tbl.
          bindM (score_all h m tbl bets results) (\<lambda>ds. settle h (users uid) uid m (total_bet bets) board ds)))
        ?Q (\<lambda>_ _. True)) (\<lambda>_ _. True) t"
    by (intro ok_draw ok_prod ok_bindM ok_odds ok_score) auto
qed

text \<open>The user a request is about: the one it names, or else the one the account of its session points at.  Accounts
  point at users whose id has no colon.\<close>

definition request_table :: "string \<Rightarrow> string \<Rightarrow> redis \<Rightarrow> string" where
  "request_table uid sid s = (if strip uid \<noteq> [] then users (strip uid) else
     (case look s (FORMAT_ACCOUNT2USER_TABLE (fmt (hf s (FORMAT_USER_HALL_SESSION (strip sid)) ''account''))) of
        Some (RStr ut) \<Rightarrow> ut | _ \<Rightarrow> []))"

definition accounts_point :: "redis \<Rightarrow> bool" where
  "accounts_point s \<longleftrightarrow> (\<forall>a ut. look s (FORMAT_ACCOUNT2USER_TABLE a) = Some (RStr ut) \<longrightarrow> (\<exists>u. ut = users u \<and> CHR '':'' \<notin> set u))"

lemma users_last: "CHR '':'' \<notin> set u \<Longrightarrow> last (split_on (CHR '':'') (users u)) = u"
  using split_on_append [of "CHR '':''" "''users''" u] split_on_plain [of "CHR '':''" u]
  by (simp add: users_def)

lemma resolve_ok:
  assumes "strip uid \<noteq> [] \<or> accounts_point s"
    and "\<And>u. (\<And>ut v. u = Some (ut, v) \<Longrightarrow> ut = request_table uid sid s \<and> ut = users v) \<Longrightarrow> Q u s"
  shows "wp (resolve_user (strip uid) (strip sid) b) Q (\<lambda>_ _. True) s"
proof (cases "strip uid = []")
  case True
  then have acc: "\<exists>v. ut = users v \<and> CHR '':'' \<notin> set v" if "look s (FORMAT_ACCOUNT2USER_TABLE a) = Some (RStr ut)" for a ut
    using assms(1) that by (simp add: accounts_point_def)
  show ?thesis
    unfolding resolve_user_def Let_def getUserByAccount_def
    by (intro ok_wp) (auto intro!: assms(2) ok_wp simp: True request_table_def dest!: acc simp: users_last split: option.split if_splits)
next
  case False
  then show ?thesis
    unfolding resolve_user_def Let_def
    by (intro ok_wp) (auto intro!: assms(2) ok_wp simp: request_table_def)
qed

definition run_post where
  "run_post h ut lit s r t \<longleftrightarrow> (case r of
     XxlErr n \<Rightarrow> main t = main s \<and> bag t = bag s
   | XxlOk R \<Rightarrow> \<exists>bets g. lit = Dict bets \<and>
       py_int_none (hf (main s) ut ''coin'') = Inr g \<and> total_bet bets \<le> g \<and>
       good_round h bets (main s) R \<and> settled ut (money R) (total_bet bets) (win R) s t \<and>
       hf (main t) ut ''coin'' = Some (show_int (gold_coin R)))"

lemma run_ok:
  assumes "strip uid \<noteq> [] \<or> accounts_point (main s)"
  shows "wp (xiaoxiaole_run h uid sid lit) (run_post h (request_table uid sid (main s)) lit s) (\<lambda>_ _. True) s"
proof -
  let ?ut = "request_table uid sid (main s)"
  have play: "wp (play h ?ut v bets) (run_post h ?ut lit s) (\<lambda>_ _. True) s"
    if "?ut = users v" "lit = Dict bets" "py_int_none (hf (main s) ?ut ''coin'') = Inr g" "total_bet bets \<le> g" for v bets g
    unfolding that(1) by (rule wp_mono [OF play_ok]) (use that in \<open>auto simp: run_post_def\<close>)
  show ?thesis
    unfolding xiaoxiaole_run_def wp_bindM wp_on_main
  proof (rule resolve_ok [OF assms])
    fix u assume u: "\<And>ut v. u = Some (ut, v) \<Longrightarrow> ut = ?ut \<and> ut = users v"
    have own: "ut = ?ut" "?ut = users v" if "u = Some (ut, v)" for ut v using u [OF that] by metis+
    show "wp (case u of None \<Rightarrow> retM (XxlErr (- 5))
     | Some (userTable, uid) \<Rightarrow>
         (case lit of
            Malformed \<Rightarrow> raiseM SyntaxError
          | Other \<Rightarrow> retM (XxlErr (- 1))
          | Dict bets \<Rightarrow>
              bindM (on_main (hmget userTable [''nickname'', ''coin''])) (\<lambda>v.
              if \<not> truthy (v ! 1) then retM (XxlErr (- 1)) else
              bindM (liftE (py_int_none (v ! 1))) (\<lambda>gold.
              if gold < total_bet bets then retM (XxlErr (- 1)) else
              bindM (on_main (exists_key XXL_OODS_DEFAULT)) (\<lambda>ex.
              if \<not> ex then retM (XxlErr (- 1)) else
              play h userTable uid bets)))))
       (run_post h ?ut lit s) (\<lambda>_ _. True) (s\<lparr>main := main s\<rparr>)"
    proof (cases u)
      case (Some p)
      obtain ut v where p: "p = (ut, v)" by (cases p)
      note own = own [OF Some [unfolded p]]
      show ?thesis using play [OF own(2)] unfolding Some p own(1)
        by (auto simp: wp_eqs run_post_def split: literal.split sum.split)
    qed (simp add: wp_retM run_post_def)
  qed
qed

text \<open>C2: a round that answers with success was affordable, its report is exact for its board, its
  win is the sum of the scores of the reported groups under the stored odds, and the hash of the user the request
  is about, by its \<open>uid\<close> or else through its session, ends up with the coins it had, less the bets, plus the win;
  the win is also added to the \<open>gold\<close> or \<open>honor\<close> field, no other field changes, two lines join the balance journal,
  and the coins in the reply are the stored ones.  A refused request changes nothing in either database.  A request
  without a \<open>uid\<close> needs that accounts point at users whose id has no colon.\<close>

theorem xiaoxiaole_run_settles:
  assumes "strip uid \<noteq> [] \<or> accounts_point (main s)" "xiaoxiaole_run h uid sid lit s = (Inr r, t)"
    and "ut = request_table uid sid (main s)"
  shows "case r of
     XxlErr n \<Rightarrow> main t = main s \<and> bag t = bag s
   | XxlOk R \<Rightarrow> \<exists>bets g. lit = Dict bets \<and>
       py_int_none (hf (main s) ut ''coin'') = Inr g \<and> total_bet bets \<le> g \<and>
       good_round h bets (main s) R \<and>
       settled ut (money R) (total_bet bets) (win R) s t \<and>
       hf (main t) ut ''coin'' = Some (show_int (gold_coin R))"
  using wp_InrD [OF run_ok [OF assms(1)] assms(2)] unfolding run_post_def assms(3) .

definition demo_host :: "(string, int) host" where
  "demo_host = \<lparr>ev = (\<lambda>t. Inr (Some [(''0'', t)])), as_int = py_int, as_float = py_int, fparse = py_int,
     fnonzero = (\<lambda>f. f \<noteq> 0), fratio = (\<lambda>p g. p div g), fpay = (\<lambda>n f. Inr (n * f)),
     le_release_default = (\<lambda>f. f \<le> 0), ge_recovery_default = (\<lambda>f. 2 \<le> f), today = 5, wday = 2,
     week_s = ''1'', now_s = ''now'', show_day = show_int\<rparr>"

definition demo_stores :: stores where
  "demo_stores =
     \<lparr>main = empty_db\<lparr>kv := [(FORMAT_USER_HALL_SESSION ''s'', RHash [(''account'', ''ann''), (''uid'', ''7'')]),
        (FORMAT_ACCOUNT2USER_TABLE ''ann'', RStr (users ''7'')), (users ''7'', RHash [(''coin'', ''50'')]),
        (XXL_OODS_DEFAULT, RHash [(''1'', ''2''), (''2'', ''2''), (''3'', ''2''), (''4'', ''2''), (''5'', ''2'')]),
        (XXL_CHANCE_TALBE_DEFAULT, RHash [(''1'', ''1''), (''2'', ''1''), (''3'', ''1''), (''4'', ''1''), (''5'', ''1'')])]\<rparr>,
      bag = empty_db, tape = [0, 0, 0] @ concat (replicate 20 [1, 2, 3, 4])\<rparr>"

lemma demo_points: "accounts_point (main demo_stores)"
  by (auto simp: accounts_point_def demo_stores_def look_def xxl_keys users_def FORMAT_ACCOUNT2USER_TABLE_def FORMAT_USER_HALL_SESSION_def split: if_splits)

theorem xiaoxiaole_run_settles_witness:
  "\<exists>R t bets g. xiaoxiaole_run demo_host [] ''s'' (Dict [(KI 1, 10)]) demo_stores = (Inr (XxlOk R), t) \<and>
     win R = 20 \<and> Dict [(KI 1, 10)] = Dict bets \<and>
     py_int_none (hf (main demo_stores) (users ''7'') ''coin'') = Inr g \<and> total_bet bets \<le> g \<and>
     good_round demo_host bets (main demo_stores) R \<and>
     settled (users ''7'') (money R) (total_bet bets) (win R) demo_stores t \<and>
     hf (main t) (users ''7'') ''coin'' = Some (show_int (gold_coin R))"
proof -
  let ?run = "xiaoxiaole_run demo_host [] ''s'' (Dict [(KI 1, 10)]) demo_stores"
  have ok: "case fst ?run of Inr (XxlOk R) \<Rightarrow> win R = 20 | _ \<Rightarrow> False" by code_simp
  obtain r t where rt: "?run = (r, t)" by (cases ?run)
  with ok obtain R where R: "r = Inr (XxlOk R)" "win R = 20"
    by (auto split: sum.splits run_reply.splits)
  have "users ''7'' = request_table [] ''s'' (main demo_stores)" by code_simp
  from xiaoxiaole_run_settles [OF disjI2 [OF demo_points] rt [unfolded R(1)] this] show ?thesis
    using rt R unfolding run_reply.case by blast
qed

text \<open>The table chosen for a day from the payout of the week is the release table as soon as
  both thresholds are set, whatever the payout ratio is, and the default table otherwise: the
  thresholds are compared as strings, so the recovery table is never chosen.  The hypothesis is what
  \<open>float('0')\<close> is.\<close>

theorem choose_table_release:
  assumes "fparse h ''0'' = Inr z" "\<not> fnonzero h z"
  shows "choose_table h pct get_gold put_gold =
    (if get_gold \<noteq> 0 \<and> put_gold \<noteq> 0 \<and>
        (\<exists>a b. fparse h (dget pct ''release'' ''0'') = Inr a \<and> fnonzero h a \<and>
           fparse h (dget pct ''recovery'' ''1'') = Inr b \<and> fnonzero h b)
     then RELEASE else DEFAULT)"
  using assms by (auto simp: choose_table_def num_le_str_def dget_def Let_def split: sum.splits option.splits)

theorem choose_table_release_witness:
  "choose_table demo_host [(''release'', ''1''), (''recovery'', ''2'')] 10 90 =
    (if (10::int) \<noteq> 0 \<and> (90::int) \<noteq> 0 \<and>
        (\<exists>a b. fparse demo_host (dget [(''release'', ''1''), (''recovery'', ''2'')] ''release'' ''0'') = Inr a \<and> fnonzero demo_host a \<and>
           fparse demo_host (dget [(''release'', ''1''), (''recovery'', ''2'')] ''recovery'' ''1'') = Inr b \<and> fnonzero demo_host b)
     then RELEASE else DEFAULT)"
  by (rule choose_table_release [of demo_host 0]) (code_simp, simp add: demo_host_def)

end
