(* ===== verification/FishBag.thy ===== *)
theory FishBag
  imports Stores
begin

text \<open>
  The bag and the safe box of the fishing game (fish/fish_bag.py): what a player carries, what is in
  the box, the lock and its password.  Digests (\<open>md5\<close>) are an argument; a reply is its code and a tag
  for its message.
\<close>

datatype reply = Reply int string

section \<open>Keys\<close>

definition session_key :: "string \<Rightarrow> string" where "session_key sid = ''hall:session:'' @ sid"
definition user_key :: "string option \<Rightarrow> string" where "user_key uid = ''users:'' @ fmt uid"
definition box_key :: "string option \<Rightarrow> string" where "box_key uid = ''box:user:'' @ fmt uid @ '':hesh''"
definition item_key :: "string option \<Rightarrow> string" where "item_key uid = ''player:item:uid:'' @ fmt uid @ '':hesh''"
definition attrs_key :: "string \<Rightarrow> string" where "attrs_key item = ''attrs:itemid:'' @ item @ '':hesh''"

lemmas fish_keys = session_key_def user_key_def box_key_def item_key_def attrs_key_def

lemma fish_keys_neq [simp]:
  "user_key u \<noteq> box_key v" "user_key u \<noteq> item_key v" "box_key u \<noteq> user_key v" "box_key u \<noteq> item_key v"
  "item_key u \<noteq> user_key v" "item_key u \<noteq> box_key v" "session_key s \<noteq> user_key u" "session_key s \<noteq> box_key u"
  "session_key s \<noteq> item_key u" "attrs_key i \<noteq> user_key u" "attrs_key i \<noteq> box_key u" "attrs_key i \<noteq> item_key u"
  by (simp_all add: fish_keys)

text \<open>The user of a session.\<close>

definition session_uid :: "string \<Rightarrow> string option rh" where
  "session_uid sid = hget (session_key (strip sid)) ''uid''"

section \<open>Looking\<close>

definition vip_door :: "int \<Rightarrow> int option" where
  "vip_door level = map_of [(0, 1000), (1, 3000), (2, 6000), (3, 10000), (4, 20000), (5, 0)] level"

definition vip_info :: "string \<Rightarrow> (int \<times> int \<times> int) rh" where
  "vip_info sid =
     bindM (session_uid sid) (\<lambda>uid.
     bindM (hmget (user_key uid) [''vip_level'', ''vip_charge'']) (\<lambda>v.
     bindM (liftE (int_or (v ! 0) 0)) (\<lambda>vip_level.
     bindM (liftE (int_or (v ! 1) 0)) (\<lambda>vip_charge.
     retM (vip_level, vip_charge,
       case vip_door vip_level of None \<Rightarrow> 0 | Some door \<Rightarrow> if door = 0 then 0 else door - vip_charge)))))"

text \<open>\<open>/house/list\<close>: the rooms 1 .. 11 + sessions and those of the set, with the players in them.\<close>

definition house_nos :: "nat \<Rightarrow> string list \<Rightarrow> string list" where
  "house_nos online extra = remdups (map (\<lambda>i. show_int (int i)) [1..<12 + online] @ extra)"

definition house_key :: "string \<Rightarrow> string \<Rightarrow> string" where
  "house_key gameid house_no = ''fish:'' @ gameid @ '':house:'' @ house_no @ '':info''"

definition house_row :: "int \<Rightarrow> string \<Rightarrow> string \<Rightarrow> (int \<times> int) list rh" where
  "house_row free gameid house_no =
     bindM (hget (house_key gameid house_no) ''player_num'') (\<lambda>p.
     bindM (liftE (int_or p 0)) (\<lambda>player_num.
     if free \<noteq> 0 then
       bindM (hget (''fish:channel:'' @ gameid @ '':info'') ''max_player_count'') (\<lambda>m.
       bindM (liftE (int_or m 4)) (\<lambda>max_player_count.
       if player_num < max_player_count
       then bindM (liftE (py_int house_no)) (\<lambda>n. retM [(n, player_num)]) else retM []))
     else bindM (liftE (py_int house_no)) (\<lambda>n. retM [(n, player_num)])))"

definition house_list :: "string \<Rightarrow> string \<Rightarrow> (int \<times> int) list rh" where
  "house_list free gameid =
     bindM (keys ''hall:session:*'') (\<lambda>online.
     bindM (smembers (''fish:'' @ strip gameid @ '':house:set'')) (\<lambda>extra.
     bindM (liftE (int_or (Some (strip free)) 0)) (\<lambda>fr.
     bindM (mapM (house_nos (length online) extra) (house_row fr (strip gameid))) (\<lambda>rows.
     retM (sort_key fst (concat rows))))))"

record user_info =
  headImgUrl :: "string option"
  diamond :: int
  coin :: int
  box_diamond :: string
  box_coin :: string

text \<open>An entry of the bag: its number, its id and the attributes of the item.\<close>

type_synonym bag_entry = "int \<times> int \<times> (string \<times> string) list"

definition bag_entry_of :: "string \<times> string \<Rightarrow> bag_entry list rh" where
  "bag_entry_of e =
     (if fst e = ''1'' \<or> fst e = ''2'' then retM [] else
      bindM (hgetall (attrs_key (fst e))) (\<lambda>d.
      bindM (liftE (py_int (snd e))) (\<lambda>n.
      bindM (liftE (py_int (fst e))) (\<lambda>i. retM [(i, n, d)]))))"

definition bag_list :: "string \<Rightarrow> (user_info \<times> bag_entry list) rh" where
  "bag_list sid =
     bindM (session_uid sid) (\<lambda>uid.
     bindM (hmget (user_key uid) [''headImgUrl'', ''diamond'', ''coin'']) (\<lambda>v.
     bindM (liftE (int_or (v ! 1) 0)) (\<lambda>d.
     bindM (liftE (int_or (v ! 2) 0)) (\<lambda>c.
     bindM (hmget (box_key uid) [''1'', ''2'']) (\<lambda>b.
     bindM (liftE (int_or (b ! 0) 0)) (\<lambda>bd.
     bindM (liftE (int_or (b ! 1) 0)) (\<lambda>bc.
     bindM (hgetall (item_key uid)) (\<lambda>dic.
     bindM (mapM dic bag_entry_of) (\<lambda>data.
     retM (\<lparr>headImgUrl = v ! 0, diamond = d, coin = c, box_diamond = show_int bd, box_coin = show_int bc\<rparr>,
       sort_key fst (concat data)))))))))))"

section \<open>The lock\<close>

definition box_status :: "string \<Rightarrow> int rh" where
  "box_status sid = bindM (session_uid sid) (\<lambda>uid.
     bindM (hget (user_key uid) ''box_pwd'') (\<lambda>p. retM (if truthy p then 1 else 0)))"

definition set_box_pwd :: "(string \<Rightarrow> string) \<Rightarrow> string \<Rightarrow> string \<Rightarrow> reply rh" where
  "set_box_pwd md5 sid box_pwd = bindM (session_uid sid) (\<lambda>uid.
     thenM (hmset (user_key uid) [(''box_pwd'', md5 (strip box_pwd)), (''box_lock'', ''1'')])
           (retM (Reply 0 ''set'')))"

definition box_lock :: "string \<Rightarrow> reply rh" where
  "box_lock sid = bindM (session_uid sid) (\<lambda>uid.
     if \<not> truthy uid then retM (Reply 1 ''session expired'') else
     bindM (hget (user_key uid) ''box_lock'') (\<lambda>l.
     if \<not> truthy l then retM (Reply 1 ''no password'') else
     thenM (hset (user_key uid) ''box_lock'' ''1'') (retM (Reply 0 ''locked''))))"

definition box_unlock :: "(string \<Rightarrow> string) \<Rightarrow> string \<Rightarrow> string \<Rightarrow> (reply \<times> string option) rh" where
  "box_unlock md5 sid box_pwd = bindM (session_uid sid) (\<lambda>uid.
     bindM (hget (user_key uid) ''box_lock'') (\<lambda>l.
     if \<not> truthy uid then retM (Reply 1 ''session expired'', None) else
     bindM (hget (user_key uid) ''box_pwd'') (\<lambda>real_bpwd.
     if real_bpwd \<noteq> Some (md5 (strip box_pwd)) then retM (Reply 1 ''wrong password'', l) else
     thenM (hset (user_key uid) ''box_lock'' ''2'')
     (bindM (hget (user_key uid) ''box_lock'') (\<lambda>l. retM (Reply 0 ''unlocked'', l))))))"

section \<open>The box\<close>

definition add_box_entry :: "string \<times> string \<Rightarrow> user_info \<times> bag_entry list \<Rightarrow> (user_info \<times> bag_entry list) rh" where
  "add_box_entry e acc =
     bindM (hgetall (attrs_key (fst e))) (\<lambda>d.
     bindM (liftE (py_int (fst e))) (\<lambda>i.
     if i = 1 then retM ((fst acc)\<lparr>box_diamond := snd e\<rparr>, snd acc)
     else if i = 2 then retM ((fst acc)\<lparr>box_coin := snd e\<rparr>, snd acc)
     else bindM (liftE (py_int (snd e))) (\<lambda>n. retM (fst acc, snd acc @ [(i, n, d)]))))"

fun foldM :: "('a \<Rightarrow> 'b \<Rightarrow> 'b rh) \<Rightarrow> 'a list \<Rightarrow> 'b \<Rightarrow> 'b rh" where
  "foldM f [] acc = retM acc"
| "foldM f (x # xs) acc = bindM (f x acc) (foldM f xs)"

definition box_show :: "string \<Rightarrow> (user_info \<times> bag_entry list) option rh" where
  "box_show sid =
     bindM (session_uid sid) (\<lambda>uid.
     bindM (hmget (user_key uid) [''box_lock'', ''headImgUrl'', ''diamond'', ''coin'']) (\<lambda>v.
     bindM (liftE (int_or (v ! 2) 0)) (\<lambda>d.
     bindM (liftE (int_or (v ! 3) 0)) (\<lambda>c.
     if v ! 0 = Some ''1'' then retM None else
     bindM (hgetall (box_key uid)) (\<lambda>dic.
     bindM (foldM add_box_entry dic
        (\<lparr>headImgUrl = v ! 1, diamond = d, coin = c, box_diamond = ''0'', box_coin = ''0''\<rparr>, [])) (\<lambda>res.
     retM (Some res)))))))"

text \<open>\<open>/box/save\<close>.  The raw text of the number goes to the box, its negated value to the purse.\<close>

definition move_in :: "string \<Rightarrow> string \<Rightarrow> string \<Rightarrow> string \<Rightarrow> int \<Rightarrow> string \<Rightarrow> reply rh" where
  "move_in purse field box item n num =
     thenM (hincrby box item num)
     (thenM (hincrby purse field (show_int (- n))) (retM (Reply 0 ''saved'')))"

definition box_save :: "string \<Rightarrow> string \<Rightarrow> string \<Rightarrow> reply rh" where
  "box_save sid item_id num =
     (let item = strip item_id; num = strip num in
      bindM (liftE (py_int num)) (\<lambda>n.
      if n \<le> 0 then retM (Reply 1 ''invalid number'') else
      bindM (session_uid sid) (\<lambda>uid.
      if \<not> truthy uid then retM (Reply 1 ''session expired'') else
      if item = ''1'' then
        bindM (hget (user_key uid) ''diamond'') (\<lambda>v. bindM (liftE (int_or v 0)) (\<lambda>cur.
        if cur < n then retM (Reply 1 ''not enough diamonds'')
        else move_in (user_key uid) ''diamond'' (box_key uid) ''1'' n num))
      else if item = ''2'' then
        bindM (hget (user_key uid) ''coin'') (\<lambda>v. bindM (liftE (int_or v 0)) (\<lambda>cur.
        if cur < n then retM (Reply 1 ''not enough coins'')
        else move_in (user_key uid) ''coin'' (box_key uid) ''2'' n num))
      else
        bindM (hget (item_key uid) item) (\<lambda>v. bindM (liftE (int_or v 0)) (\<lambda>cur.
        bindM (hget (attrs_key item) ''title'') (\<lambda>title.
        if cur < n then (case title of None \<Rightarrow> raiseM TypeError | Some t \<Rightarrow> retM (Reply 1 (t @ '' not enough'')))
        else move_in (item_key uid) item (box_key uid) item n num))))))"

text \<open>\<open>/box/take\<close>: the second \<open>if\<close> is not an \<open>elif\<close>, so item 1 also takes its \<open>else\<close> branch.\<close>

definition box_take :: "string \<Rightarrow> string \<Rightarrow> string \<Rightarrow> reply rh" where
  "box_take sid item_id num =
     (let item = strip item_id; num = strip num in
      bindM (liftE (py_int num)) (\<lambda>n.
      if n < 0 then retM (Reply (- 1) ''illegal number'') else
      bindM (session_uid sid) (\<lambda>uid.
      bindM (hget (user_key uid) ''box_lock'') (\<lambda>l.
      if l \<noteq> Some ''2'' then retM (Reply 1 ''unlock first'') else
      thenM (hgetall (box_key uid))
      (bindM (hget (box_key uid) item) (\<lambda>v.
      bindM (liftE (int_or v 0)) (\<lambda>cur.
      if cur < n then retM (Reply 2 ''not enough'') else
      thenM (if item = ''1'' then drop_reply (hincrby (user_key uid) ''diamond'' num) else retM ())
      (thenM (if item = ''2'' then hincrby (user_key uid) ''coin'' num else hincrby (item_key uid) item num)
      (thenM (hincrby (box_key uid) item (show_int (- n)))
      (retM (Reply 0 ''taken'')))))))))))"

end
