(* ===== verification/FishBox.thy ===== *)
theory FishBox
  imports FishBag
begin

text \<open>
  What the safe box guarantees: saving moves goods, taking, and what taking diamonds
  does beyond that.
\<close>

section \<open>Purse and box\<close>

text \<open>Where a player carries an item: diamonds and coins with the user, the rest in the bag.\<close>

definition purse :: "string option \<Rightarrow> string \<Rightarrow> string \<times> string" where
  "purse uid item = (if item = ''1'' then (user_key uid, ''diamond'')
     else if item = ''2'' then (user_key uid, ''coin'') else (item_key uid, item))"

definition held :: "redis \<Rightarrow> string \<times> string \<Rightarrow> int option" where
  "held s p = counter (hf s (fst p) (snd p))"

text \<open>The step that moves \<open>n\<close> from one place to another and changes nothing else.\<close>

definition moved :: "int \<Rightarrow> string \<times> string \<Rightarrow> string \<times> string \<Rightarrow> redis \<Rightarrow> redis \<Rightarrow> bool" where
  "moved n p q s t \<longleftrightarrow>
     (\<exists>a b. held s p = Some a \<and> held s q = Some b \<and> n \<le> a \<and> held t p = Some (a - n) \<and> held t q = Some (b + n)) \<and>
     (\<forall>k f. (k, f) \<noteq> p \<longrightarrow> (k, f) \<noteq> q \<longrightarrow> hf t k f = hf s k f)"

lemma counter_show_int [simp]: "in_llong n \<Longrightarrow> counter (Some (show_int n)) = Some n"
  by (simp add: strtoll_show_int)

lemma int_or_held: "int_or (hf s k f) 0 = Inr a \<Longrightarrow> counter (hf s k f) = Some b \<Longrightarrow> a = b"
  using int_or_counter by (simp add: counter_def)

lemma move_in_ok:
  assumes "(purse_k, field) \<noteq> (box, item)" "purse_k \<noteq> box"
    and "py_int num = Inr n" "int_or (hf s purse_k field) 0 = Inr cur" "n \<le> cur"
  shows "wp (move_in purse_k field box item n num)
     (\<lambda>r t. r = Reply 0 ''saved'' \<and> moved n (purse_k, field) (box, item) s t) (\<lambda>_ _. True) s"
  unfolding move_in_def
proof (intro ok_wp, goal_cases)
  case (1 b i a j)
  have "i = n" using strtoll_py_int [OF assms(3) 1(1)] by simp
  moreover have "j = - n" using 1(4) by (simp add: strtoll_show_int_iff split: if_splits)
  moreover have a: "counter (hf s purse_k field) = Some a" using 1(5) assms(2) by simp
  then have "cur = a" by (rule int_or_held [OF assms(4)])
  ultimately show ?case using 1 assms(1,2,5) a
    by (auto simp: moved_def held_def strtoll_show_int)
qed

definition save_post :: "string \<Rightarrow> string \<Rightarrow> string \<Rightarrow> redis \<Rightarrow> reply \<Rightarrow> redis \<Rightarrow> bool" where
  "save_post sid item num s r t \<longleftrightarrow> (case r of Reply c m \<Rightarrow> if c = 0
     then \<exists>uid n. hf s (session_key (strip sid)) ''uid'' = Some uid \<and> uid \<noteq> [] \<and>
       py_int num = Inr n \<and> 0 < n \<and> moved n (purse (Some uid) item) (box_key (Some uid), item) s t
     else t = s)"

lemma save_post_refused: "c \<noteq> 0 \<Longrightarrow> save_post sid item num s (Reply c m) s"
  by (simp add: save_post_def)

lemma move_in_save:
  assumes "purse (hf s (session_key (strip sid)) ''uid'') item = (pk, field)"
    and "truthy (hf s (session_key (strip sid)) ''uid'')" "py_int num = Inr n" "0 < n"
    and "int_or (hf s pk field) 0 = Inr cur" "n \<le> cur"
  shows "wp (move_in pk field (box_key (hf s (session_key (strip sid)) ''uid'')) item n num)
     (save_post sid item num s) (\<lambda>_ _. True) s"
proof -
  obtain uid where uid: "hf s (session_key (strip sid)) ''uid'' = Some uid" "uid \<noteq> []"
    using assms(2) by (cases "hf s (session_key (strip sid)) ''uid''") auto
  have "pk \<noteq> box_key (Some uid)" using assms(1) uid(1) by (auto simp: purse_def split: if_splits)
  then show ?thesis
    unfolding uid(1) using assms(1) uid
    by (intro wp_mono [OF move_in_ok [OF _ _ assms(3,5,6)]]) (auto simp: save_post_def assms(3,4))
qed

lemma box_save_ok: "wp (box_save sid item_id num) (save_post sid (strip item_id) (strip num) s) (\<lambda>_ _. True) s"
  unfolding box_save_def Let_def session_uid_def
proof (intro ok_wp save_post_refused, goal_cases)
  case (4 n cur)
  then show ?case using move_in_save [of s sid "''1''" _ _ "strip num" n cur] by (simp add: purse_def)
next
  case (6 n cur)
  then show ?case using move_in_save [of s sid "''2''" _ _ "strip num" n cur] by (simp add: purse_def)
next
  case (8 n cur)
  then show ?case using move_in_save [of s sid "strip item_id" _ _ "strip num" n cur] by (simp add: purse_def)
qed simp_all

definition demo_bag :: redis where
  "demo_bag = empty_db\<lparr>kv := [(session_key ''s'', RHash [(''uid'', ''7'')]),
     (user_key (Some ''7''), RHash [(''coin'', ''50''), (''diamond'', ''5''), (''box_lock'', ''2'')]),
     (box_key (Some ''7''), RHash [(''1'', ''9''), (''3'', ''4'')])]\<rparr>"

text \<open>C4: saving to the box either refuses and changes nothing, or it moves a positive number of the
  item, no more than the player carries, from the player to the box, and no other field of any hash
  changes: nothing is created or lost.\<close>

theorem box_save_moves:
  assumes "box_save sid item_id num s = (Inr (Reply c m), t)"
  shows "if c = 0
    then \<exists>uid n. hf s (session_key (strip sid)) ''uid'' = Some uid \<and> uid \<noteq> [] \<and>
      py_int (strip num) = Inr n \<and> 0 < n \<and>
      moved n (purse (Some uid) (strip item_id)) (box_key (Some uid), strip item_id) s t
    else t = s"
  using wp_InrD [OF box_save_ok assms] by (simp add: save_post_def)

theorem box_save_moves_witness:
  "if (0::int) = 0
   then \<exists>uid n. hf demo_bag (session_key (strip ''s'')) ''uid'' = Some uid \<and> uid \<noteq> [] \<and>
     py_int (strip ''30'') = Inr n \<and> 0 < n \<and>
     moved n (purse (Some uid) (strip ''2'')) (box_key (Some uid), strip ''2'') demo_bag (snd (box_save ''s'' ''2'' ''30'' demo_bag))
   else snd (box_save ''s'' ''2'' ''30'' demo_bag) = demo_bag"
proof (rule box_save_moves)
  have "fst (box_save ''s'' ''2'' ''30'' demo_bag) = Inr (Reply 0 ''saved'')" by code_simp
  then show "box_save ''s'' ''2'' ''30'' demo_bag = (Inr (Reply 0 ''saved''), snd (box_save ''s'' ''2'' ''30'' demo_bag))"
    by (simp add: prod_eq_iff)
qed

section \<open>Taking\<close>

text \<open>What a taking that succeeds does: out of the box, into the purse; item 1 is also put in the bag.\<close>

definition taken :: "int \<Rightarrow> string option \<Rightarrow> string \<Rightarrow> redis \<Rightarrow> redis \<Rightarrow> bool" where
  "taken n uid item s t \<longleftrightarrow>
     (if item = ''1'' then
        (\<exists>b d i. held s (box_key uid, item) = Some b \<and> held s (user_key uid, ''diamond'') = Some d \<and>
           held s (item_key uid, item) = Some i \<and> n \<le> b \<and> held t (box_key uid, item) = Some (b - n) \<and>
           held t (user_key uid, ''diamond'') = Some (d + n) \<and> held t (item_key uid, item) = Some (i + n))
      else moved n (box_key uid, item) (purse uid item) s t)"

definition take_post :: "string \<Rightarrow> string \<Rightarrow> string \<Rightarrow> redis \<Rightarrow> reply \<Rightarrow> redis \<Rightarrow> bool" where
  "take_post sid item num s r t \<longleftrightarrow> (case r of Reply c m \<Rightarrow> if c = 0
     then \<exists>n. py_int num = Inr n \<and> 0 \<le> n \<and>
       hf s (user_key (hf s (session_key (strip sid)) ''uid'')) ''box_lock'' = Some ''2'' \<and>
       taken n (hf s (session_key (strip sid)) ''uid'') item s t
     else t = s)"

lemma box_take_ok: "wp (box_take sid item_id num) (take_post sid (strip item_id) (strip num) s) (\<lambda>_ _. True) s"
  unfolding box_take_def Let_def session_uid_def
proof (intro ok_wp, goal_cases)
  show "\<And>x. take_post sid (strip item_id) (strip num) s (Reply (- 1) ''illegal number'') s"
    "take_post sid (strip item_id) (strip num) s (Reply 1 ''unlock first'') s"
    "take_post sid (strip item_id) (strip num) s (Reply 2 ''not enough'') s"
    by (simp_all add: take_post_def)
qed (auto simp: take_post_def taken_def moved_def held_def purse_def strtoll_show_int
    strtoll_show_int_iff dest: strtoll_py_int int_or_held split: if_splits)

text \<open>Taking from the box either refuses and changes nothing, or the lock was open, the number
  is not negative, the box held at least that many, and the goods left the box for the player; for
  every item but diamonds that is all that changes.\<close>

theorem box_take_effect:
  assumes "box_take sid item_id num s = (Inr (Reply c m), t)"
  shows "if c = 0
    then \<exists>n. py_int (strip num) = Inr n \<and> 0 \<le> n \<and>
      hf s (user_key (hf s (session_key (strip sid)) ''uid'')) ''box_lock'' = Some ''2'' \<and>
      taken n (hf s (session_key (strip sid)) ''uid'') (strip item_id) s t
    else t = s"
  using wp_InrD [OF box_take_ok assms] by (simp add: take_post_def)

theorem box_take_effect_witness:
  "if (0::int) = 0
   then \<exists>n. py_int (strip ''3'') = Inr n \<and> 0 \<le> n \<and>
      hf demo_bag (user_key (hf demo_bag (session_key (strip ''s'')) ''uid'')) ''box_lock'' = Some ''2'' \<and>
      taken n (hf demo_bag (session_key (strip ''s'')) ''uid'') (strip ''3'') demo_bag (snd (box_take ''s'' ''3'' ''3'' demo_bag))
   else snd (box_take ''s'' ''3'' ''3'' demo_bag) = demo_bag"
proof (rule box_take_effect)
  have "fst (box_take ''s'' ''3'' ''3'' demo_bag) = Inr (Reply 0 ''taken'')" by code_simp
  then show "box_take ''s'' ''3'' ''3'' demo_bag = (Inr (Reply 0 ''taken''), snd (box_take ''s'' ''3'' ''3'' demo_bag))"
    by (simp add: prod_eq_iff)
qed

text \<open>All the diamonds of a player: carried, in the box, and in the bag under item 1.\<close>

definition diamonds :: "redis \<Rightarrow> string option \<Rightarrow> int" where
  "diamonds s uid = the (held s (user_key uid, ''diamond'')) + the (held s (box_key uid, ''1'')) + the (held s (item_key uid, ''1''))"

text \<open>Taking \<open>n\<close> diamonds out of the box credits them twice, once to the diamonds carried and
  once to item 1 of the bag: the player's total grows by \<open>n\<close>.\<close>

theorem box_take_diamonds:
  assumes "box_take sid ''1'' num s = (Inr (Reply 0 m), t)"
  shows "\<exists>n. py_int (strip num) = Inr n \<and>
    diamonds t (hf s (session_key (strip sid)) ''uid'') = diamonds s (hf s (session_key (strip sid)) ''uid'') + n"
proof -
  have item: "strip ''1'' = ''1''" by code_simp
  show ?thesis
    using wp_InrD [OF box_take_ok assms] unfolding item
    by (auto simp: take_post_def taken_def diamonds_def)
qed

theorem box_take_diamonds_witness:
  "\<exists>n. py_int (strip ''4'') = Inr n \<and>
    diamonds (snd (box_take ''s'' ''1'' ''4'' demo_bag)) (hf demo_bag (session_key (strip ''s'')) ''uid'') =
      diamonds demo_bag (hf demo_bag (session_key (strip ''s'')) ''uid'') + n"
proof (rule box_take_diamonds)
  have "fst (box_take ''s'' ''1'' ''4'' demo_bag) = Inr (Reply 0 ''taken'')" by code_simp
  then show "box_take ''s'' ''1'' ''4'' demo_bag = (Inr (Reply 0 ''taken''), snd (box_take ''s'' ''1'' ''4'' demo_bag))"
    by (simp add: prod_eq_iff)
qed

section \<open>Rules shared by the histories of the box\<close>

lemma user_key_neq [simp]: "user_key (Some u) = user_key v \<longleftrightarrow> fmt v = u"
  by (auto simp: user_key_def)

lemma leaves_foldM: "(\<And>x acc. leaves k f (g x acc)) \<Longrightarrow> leaves k f (foldM g xs acc)"
  by (induction xs arbitrary: acc) (auto intro!: leaves_intros)

end
