(* ===== verification/FishAccount.thy ===== *)
theory FishAccount
  imports FishBag
begin

text \<open>
  Verification codes and the password resets they guard (fish/fish_bag.py, second half, and
  \<open>execute_send_sms\<close> of aliyun_sms/buyu_send_sms.py).  The SMS service is an argument: \<open>sent\<close> says
  whether it accepts the message.  The random code, the generated password and the date are arguments.
\<close>

definition SEND_CODE_LIMIT :: int where "SEND_CODE_LIMIT = 30"

definition nick_key :: "string \<Rightarrow> string" where "nick_key n = ''nickname2uid:'' @ n"
definition code_key :: "string \<Rightarrow> string option \<Rightarrow> string" where
  "code_key what phone = ''user:'' @ fmt phone @ '':code:'' @ what"
definition times_key :: "string option \<Rightarrow> string \<Rightarrow> string" where
  "times_key phone today = ''user:'' @ fmt phone @ '':date:'' @ today @ '':code:times''"
definition nicknames :: string where "nicknames = ''fish:nickname:set''"

lemmas account_keys = nick_key_def code_key_def times_key_def nicknames_def

text \<open>\<open>execute_send_sms\<close>: the line that would arm the one-minute control key comes after the \<open>return\<close>.\<close>

definition execute_send_sms :: "bool \<Rightarrow> string option \<Rightarrow> bool rh" where
  "execute_send_sms sent uid = bindM (get (''send:control:'' @ fmt uid)) (\<lambda>c. retM (if truthy c then False else sent))"

text \<open>\<open>phone[:3] + '****' + phone[-4:]\<close>.\<close>

definition mask :: "string option \<Rightarrow> exn + string" where
  "mask phone = (case phone of None \<Rightarrow> Inl TypeError
     | Some p \<Rightarrow> Inr (take 3 p @ ''****'' @ drop (length p - 4) p))"

definition over_limit :: "string option \<Rightarrow> string \<Rightarrow> bool rh" where
  "over_limit phone today = bindM (get (times_key phone today)) (\<lambda>v.
     bindM (liftE (int_or v 0)) (\<lambda>n. retM (SEND_CODE_LIMIT < n)))"

text \<open>\<open>incrby(times, 1)\<close> and a day of life.\<close>

definition count_send :: "string option \<Rightarrow> string \<Rightarrow> unit rh" where
  "count_send phone today =
     thenM (incrby (times_key phone today) ''1'') (expire_key (times_key phone today) (24 * 3600))"

definition forget_pwd_modify :: "(string \<Rightarrow> string) \<Rightarrow> string \<Rightarrow> bool \<Rightarrow> string \<Rightarrow> string \<Rightarrow> reply rh" where
  "forget_pwd_modify md5 pwd sent nickname check_code =
     bindM (get (nick_key (strip nickname))) (\<lambda>uid.
     bindM (hget (user_key uid) ''phone'') (\<lambda>phone.
     if \<not> truthy uid then retM (Reply 1 ''wrong nickname'') else
     bindM (get (code_key ''pwd'' phone)) (\<lambda>real_code.
     if \<not> truthy real_code then retM (Reply 1 ''code expired'') else
     if Some (strip check_code) \<noteq> real_code then retM (Reply 1 ''wrong code'') else
     if 30 < length pwd then retM (Reply 1 ''bad password'') else
     thenM (hset (user_key uid) ''password'' (md5 pwd))
     (thenM (delete_key (code_key ''pwd'' phone))
     (bindM (execute_send_sms sent uid) (\<lambda>res.
      if \<not> res then retM (Reply 1 ''request failed'') else
      bindM (liftE (mask phone)) (\<lambda>p. retM (Reply 0 p))))))))"

definition forget_pwd_code :: "string \<Rightarrow> int \<Rightarrow> bool \<Rightarrow> string \<Rightarrow> reply rh" where
  "forget_pwd_code today code sent nickname =
     bindM (get (nick_key (strip nickname))) (\<lambda>uid.
     if \<not> truthy uid then retM (Reply 1 ''no such user'') else
     bindM (hget (user_key uid) ''phone'') (\<lambda>phone.
     if \<not> truthy phone then retM (Reply 1 ''no phone'') else
     bindM (over_limit phone today) (\<lambda>over.
     if over then retM (Reply 1 ''limit reached'') else
     thenM (setex (code_key ''pwd'' phone) (show_int code) (60 * 5))
     (bindM (execute_send_sms sent uid) (\<lambda>res.
      if \<not> res then retM (Reply 1 ''not sent'') else
      thenM (count_send phone today)
      (if length (fmt phone) = 11 then bindM (liftE (mask phone)) (\<lambda>p. retM (Reply 0 p))
       else retM (Reply 0 ''sent'')))))))"

definition info_check_code :: "string \<Rightarrow> int \<Rightarrow> bool \<Rightarrow> string \<Rightarrow> string \<Rightarrow> reply rh" where
  "info_check_code today code sent sid phone =
     bindM (session_uid sid) (\<lambda>uid.
     if \<not> truthy uid then retM (Reply 0 ''session expired'') else
     bindM (over_limit (Some (strip phone)) today) (\<lambda>over.
     if over then retM (Reply 1 ''limit reached'') else
     thenM (setex (code_key ''info'' (Some (strip phone))) (show_int code) (60 * 5))
     (bindM (execute_send_sms sent uid) (\<lambda>res.
      if \<not> res then retM (Reply 1 ''not sent'') else
      thenM (count_send (Some (strip phone)) today) (retM (Reply 0 ''sent''))))))"

definition second_code :: "int \<Rightarrow> bool \<Rightarrow> string \<Rightarrow> reply rh" where
  "second_code code sent sid =
     bindM (session_uid sid) (\<lambda>uid.
     bindM (hget (user_key uid) ''phone'') (\<lambda>phone.
     if \<not> truthy uid then retM (Reply 0 ''session expired'') else
     thenM (setex (code_key ''info'' phone) (show_int code) (60 * 5))
     (bindM (execute_send_sms sent uid) (\<lambda>res.
      if \<not> res then retM (Reply 1 ''not sent'') else
      bindM (liftE (mask phone)) (\<lambda>p. retM (Reply 0 p))))))"

definition second_pass :: "string \<Rightarrow> string \<Rightarrow> reply rh" where
  "second_pass sid check_code =
     bindM (session_uid sid) (\<lambda>uid.
     bindM (hget (user_key uid) ''phone'') (\<lambda>phone.
     bindM (get (code_key ''info'' phone)) (\<lambda>real_code.
     retM (if Some (strip check_code) = real_code then Reply 0 ''passed'' else Reply 1 ''wrong code''))))"

record info_form =
  f_phone :: string
  f_check_code :: string
  f_real_name :: string
  f_id_card_no :: string
  f_nickname :: string

definition info_dic :: "string \<Rightarrow> info_form \<Rightarrow> string option \<Rightarrow> (string \<times> string) list" where
  "info_dic new_pwd f openid =
     (if truthy openid then [] else [(''password'', new_pwd)]) @
     [(''phone'', strip (f_phone f)), (''nickname'', strip (f_nickname f)), (''info_comp'', ''1''),
      (''id_card_no'', strip (f_id_card_no f)), (''real_name'', strip (f_real_name f))]"

text \<open>\<open>/info/complete\<close>.  The pipeline deletes the code of the \<open>uid\<close>, not of the phone it was sent to.\<close>

definition info_complete :: "(string \<Rightarrow> string) \<Rightarrow> string \<Rightarrow> bool \<Rightarrow> string \<Rightarrow> info_form \<Rightarrow> reply rh" where
  "info_complete md5 pwd sent sid f =
     (let phone = strip (f_phone f); nickname = strip (f_nickname f) in
     bindM (session_uid sid) (\<lambda>uid.
     if \<not> truthy uid then retM (Reply 0 ''session expired'') else
     bindM (hmget (user_key uid) [''nickname'', ''openid'', ''info_comp'']) (\<lambda>v.
     if length phone \<noteq> 11 then retM (Reply 1 ''bad phone'') else
     bindM (smembers nicknames) (\<lambda>taken.
     if nickname \<in> set taken then retM (Reply 1 ''nickname taken'') else
     bindM (get (code_key ''info'' (Some phone))) (\<lambda>real_cc.
     if \<not> truthy real_cc then retM (Reply 1 ''no code'') else
     if Some (strip (f_check_code f)) \<noteq> real_cc then retM (Reply 1 ''wrong code'') else
     bindM (execute_send_sms sent uid) (\<lambda>res.
     if \<not> res then retM (Reply 1 ''not sent'') else
     thenM (execute
       [hmset (user_key uid) (info_dic (md5 pwd) f (v ! 1)),
        delete_key (code_key ''info'' uid),
        set_str (nick_key nickname) (fmt uid),
        delete_key (nick_key (fmt (v ! 0))),
        srem nicknames (fmt (v ! 0)),
        sadd nicknames nickname])
     (bindM (liftE (mask (Some phone))) (\<lambda>p. retM (Reply 0 p)))))))))"

definition box_check_code :: "string \<Rightarrow> int \<Rightarrow> bool \<Rightarrow> string \<Rightarrow> reply rh" where
  "box_check_code today code sent sid =
     bindM (session_uid sid) (\<lambda>uid.
     bindM (hget (user_key uid) ''phone'') (\<lambda>phone.
     bindM (over_limit phone today) (\<lambda>over.
     if over then retM (Reply 1 ''limit reached'') else
     if \<not> truthy phone then retM (Reply 1 ''no phone'') else
     bindM (execute_send_sms sent uid) (\<lambda>res.
     if \<not> res then retM (Reply 1 ''not sent'') else
     thenM (setex (code_key ''box'' phone) (show_int code) (60 * 5))
     (thenM (count_send phone today) (retM (Reply 0 ''sent'')))))))"

definition box_find_pwd :: "(string \<Rightarrow> string) \<Rightarrow> int \<Rightarrow> bool \<Rightarrow> string \<Rightarrow> string \<Rightarrow> reply rh" where
  "box_find_pwd md5 n sent sid check_code =
     bindM (session_uid sid) (\<lambda>uid.
     bindM (hmget (user_key uid) [''phone'', ''nickname'']) (\<lambda>v.
     bindM (get (code_key ''box'' (v ! 0))) (\<lambda>real_cc.
     if \<not> truthy real_cc then retM (Reply 1 ''code expired'') else
     if real_cc \<noteq> Some (strip check_code) then retM (Reply 1 ''wrong code'') else
     bindM (liftE (mask (v ! 0))) (\<lambda>p.
     bindM (execute_send_sms sent uid) (\<lambda>res.
     if \<not> res then retM (Reply 1 ''not changed'') else
     thenM (hset (user_key uid) ''box_pwd'' (md5 (take 6 (show_int n))))
     (thenM (delete_key (code_key ''box'' (v ! 0))) (retM (Reply 0 p))))))))"

end
