(* ===== verification/FishCodes.thy ===== *)
theory FishCodes
  imports FishAccount
begin

text \<open>
  What the verification codes guarantee: the daily limit, what a reset needs, and what a completed
  registration leaves behind.
\<close>

section \<open>Keys\<close>

lemma last_code_key: "what \<noteq> [] \<Longrightarrow> last (code_key what p) = last what"
  by (simp add: code_key_def)

lemma last_times_key: "last (times_key p d) = CHR ''s''"
  by (simp add: times_key_def)

lemma code_times [simp]:
  "code_key ''pwd'' p \<noteq> times_key q d" "code_key ''info'' p \<noteq> times_key q d" "code_key ''box'' p \<noteq> times_key q d"
  "times_key q d \<noteq> code_key ''pwd'' p" "times_key q d \<noteq> code_key ''info'' p" "times_key q d \<noteq> code_key ''box'' p"
  using last_code_key [of "''pwd''" p] last_code_key [of "''info''" p] last_code_key [of "''box''" p] last_times_key [of q d]
  by auto

lemma account_neq [simp]:
  "user_key u \<noteq> code_key w p" "code_key w p \<noteq> user_key u" "nick_key n \<noteq> code_key w p" "code_key w p \<noteq> nick_key n"
  "nicknames \<noteq> code_key w p" "code_key w p \<noteq> nicknames" "user_key u \<noteq> times_key p d" "times_key p d \<noteq> user_key u"
  "session_key x \<noteq> code_key w p" "nicknames \<noteq> nick_key n" "nick_key n \<noteq> nicknames" "nick_key n \<noteq> user_key u" "user_key u \<noteq> nick_key n"
  "user_key u \<noteq> nicknames" "nicknames \<noteq> user_key u"
  by (simp_all add: account_keys fish_keys)

lemma code_key_inj [simp]: "code_key w p = code_key w q \<longleftrightarrow> fmt p = fmt q"
  by (simp add: code_key_def)

section \<open>The daily limit\<close>

definition sends :: "redis \<Rightarrow> string \<Rightarrow> int \<Rightarrow> bool" where
  "sends s k n \<longleftrightarrow> (\<forall>v m. look s k = Some (RStr v) \<longrightarrow> strtoll v = Some m \<longrightarrow> m \<le> n)"

lemma sends_cong: "look t k = look s k \<Longrightarrow> sends t k n = sends s k n"
  by (simp add: sends_def)

lemma setex_wp [wp_eqs]:
  "0 < t \<Longrightarrow> wp (setex k v t) Q E s = Q () ((set_key k v s)\<lparr>ttl := AList.update k t (ttl (set_key k v s))\<rparr>)"
  by (simp add: wp_def setex_def)

lemma expire_wp [wp_eqs]:
  "0 < t \<Longrightarrow> wp (expire_key k t) Q E s = Q () (if look s k = None then s else s\<lparr>ttl := AList.update k t (ttl s)\<rparr>)"
  by (simp add: wp_def expire_key_def)

text \<open>A sending handler is a check of the count of one key, then writes elsewhere, then one increment
  of that key.\<close>

lemma over_limit_wp:
  "wp (over_limit phone today) (\<lambda>over t. t = s \<and> (\<not> over \<longrightarrow> sends s (times_key phone today) SEND_CODE_LIMIT)) (\<lambda>_ t. t = s) s"
proof -
  have str: "m = n" if "strtoll v = Some m" "int_or (Some v) 0 = Inr n" for v m n
    using that int_or_counter [of "Some v" n m] by simp
  show ?thesis
    by (auto simp: over_limit_def wp_eqs sends_def dest: str split: option.split rval.split sum.split)
qed

lemma count_send_wp:
  assumes "sends s (times_key phone today) SEND_CODE_LIMIT" "sends s k (SEND_CODE_LIMIT + 1)"
  shows "wp (count_send phone today) (\<lambda>_ t. sends t k (SEND_CODE_LIMIT + 1)) (\<lambda>_ t. sends t k (SEND_CODE_LIMIT + 1)) s"
proof -
  have one: "strtoll ''1'' = Some 1" by code_simp
  have "sends (put (times_key phone today) (RStr (show_int (old + 1))) s) k (SEND_CODE_LIMIT + 1)"
    if "(case look s (times_key phone today) of None \<Rightarrow> Some 0 | Some (RStr v) \<Rightarrow> strtoll v | Some _ \<Rightarrow> None) = Some old" for old
  proof (cases "k = times_key phone today")
    case True
    have "old \<le> SEND_CODE_LIMIT"
      using that assms(1) by (auto simp: sends_def SEND_CODE_LIMIT_def split: option.splits rval.splits)
    then show ?thesis using True by (auto simp: sends_def strtoll_show_int_iff split: if_splits)
  next
    case False
    then show ?thesis using assms(2) by (simp add: sends_def)
  qed
  then show ?thesis
    using assms(2) by (auto simp: count_send_def wp_eqs one sends_def split: option.split)
qed

lemma sms_wp: "wp (execute_send_sms sent uid) (\<lambda>_ t. t = s) (\<lambda>_ t. t = s) s"
  by (auto simp: execute_send_sms_def wp_eqs split: option.split rval.split)

text \<open>The three handlers that count what they send, and the one that does not.\<close>

datatype send_op =
    SendPwd int bool string | SendInfo int bool string string | SendBox int bool string | SendSecond int bool string

fun send_step :: "string \<Rightarrow> send_op \<Rightarrow> redis \<Rightarrow> (exn + reply) \<times> redis" where
  "send_step today (SendPwd code sent nickname) s = forget_pwd_code today code sent nickname s"
| "send_step today (SendInfo code sent sid phone) s = info_check_code today code sent sid phone s"
| "send_step today (SendBox code sent sid) s = box_check_code today code sent sid s"
| "send_step today (SendSecond code sent sid) s = second_code code sent sid s"

definition send_run :: "string \<Rightarrow> send_op list \<Rightarrow> redis \<Rightarrow> redis" where
  "send_run today ops s = foldl (\<lambda>s op. snd (send_step today op s)) s ops"

abbreviation limited :: "string option \<Rightarrow> string \<Rightarrow> redis \<Rightarrow> bool" where
  "limited phone today s \<equiv> sends s (times_key phone today) (SEND_CODE_LIMIT + 1)"

lemma keeps_reads [pres_intros]:
  "keeps P (get k)" "keeps P (hget k f)" "keeps P (hmget k fs)"
  by (auto simp: keeps_def get_def hget_def hmget_def split: option.split rval.split)

lemma keeps_sms [pres_intros]: "keeps P (execute_send_sms sent uid)"
  unfolding execute_send_sms_def by (intro pres_intros)

lemma keeps_session [pres_intros]: "keeps P (session_uid sid)"
  unfolding session_uid_def by (intro pres_intros)

lemma keeps_setex:
  assumes "code_key w p \<noteq> k" shows "keeps (\<lambda>s. sends s k n) (setex (code_key w p) c t)"
  using assms by (auto simp: keeps_def setex_def sends_def)

text \<open>From a passed check to the end: set the code, send, count.\<close>

lemma keeps_conj: "keeps P m \<Longrightarrow> keeps Q m \<Longrightarrow> keeps (\<lambda>s. P s \<and> Q s) m"
  by (simp add: keeps_def)

definition quiet :: "'a rh \<Rightarrow> bool" where
  "quiet m \<longleftrightarrow> (\<forall>q e n. keeps (\<lambda>s. sends s (times_key q e) n) m)"

lemma quiet_setex:
  "quiet (setex (code_key ''pwd'' p) c t)" "quiet (setex (code_key ''info'' p) c t)" "quiet (setex (code_key ''box'' p) c t)"
  by (simp_all add: quiet_def keeps_setex)

lemma quiet_bind: "quiet m \<Longrightarrow> (\<And>x. quiet (f x)) \<Longrightarrow> quiet (bindM m f)"
  by (auto simp: quiet_def intro: keeps_bindM)

lemma quiet_then: "quiet m \<Longrightarrow> quiet n \<Longrightarrow> quiet (thenM m n)"
  by (simp add: thenM_def quiet_bind)

lemma quiet_if: "quiet m \<Longrightarrow> quiet n \<Longrightarrow> quiet (if b then m else n)"
  by simp

lemma quiet_reads:
  "quiet (execute_send_sms sent uid)" "quiet (session_uid sid)" "quiet (retM x)" "quiet (liftE r)" "quiet (hget k f)" "quiet (get k)"
  by (simp_all add: quiet_def pres_intros)

lemmas quiet_intros = quiet_setex quiet_bind quiet_then quiet_if quiet_reads

lemma quiet_limited: "quiet m \<Longrightarrow> limited p d s \<Longrightarrow> wp m (\<lambda>_. limited p d) (\<lambda>_. limited p d) s"
  by (rule wp_keeps) (auto simp: quiet_def)

text \<open>\<open>below ph today p d\<close>: the check of this phone has passed and the invariant holds.\<close>

definition below :: "string option \<Rightarrow> string \<Rightarrow> string option \<Rightarrow> string \<Rightarrow> redis \<Rightarrow> bool" where
  "below ph today p d s \<longleftrightarrow> sends s (times_key ph today) SEND_CODE_LIMIT \<and> limited p d s"

lemma below_bind:
  assumes "below ph today p d s" "quiet m"
    and "\<And>x t. below ph today p d t \<Longrightarrow> wp (f x) (\<lambda>_. limited p d) (\<lambda>_. limited p d) t"
  shows "wp (bindM m f) (\<lambda>_. limited p d) (\<lambda>_. limited p d) s"
proof -
  have "keeps (below ph today p d) m"
    using assms(2) unfolding below_def quiet_def by (intro keeps_conj) blast+
  then have "wp m (\<lambda>_. below ph today p d) (\<lambda>_. below ph today p d) s"
    using assms(1) by (rule wp_keeps)
  then show ?thesis
    unfolding wp_bindM by (rule wp_mono) (use assms(3) in \<open>auto simp: below_def\<close>)
qed

lemma below_count:
  assumes "below ph today p d s" "quiet m"
  shows "wp (thenM (count_send ph today) m) (\<lambda>_. limited p d) (\<lambda>_. limited p d) s"
  unfolding wp_thenM
  by (rule wp_mono [OF count_send_wp [of s ph today "times_key p d"]])
    (use assms quiet_limited in \<open>auto simp: below_def\<close>)

lemma limited_bind:
  assumes "quiet m" "limited p d s"
    and "\<And>x t. limited p d t \<Longrightarrow> wp (f x) (\<lambda>_. limited p d) (\<lambda>_. limited p d) t"
  shows "wp (bindM m f) (\<lambda>_. limited p d) (\<lambda>_. limited p d) s"
  unfolding wp_bindM by (rule wp_mono [OF quiet_limited [OF assms(1,2)]]) (use assms(3) in auto)

lemma limited_check:
  assumes "limited p d s"
    and "\<And>t. below ph today p d t \<Longrightarrow> wp k (\<lambda>_. limited p d) (\<lambda>_. limited p d) t"
  shows "wp (bindM (over_limit ph today) (\<lambda>over. if over then retM r else k)) (\<lambda>_. limited p d) (\<lambda>_. limited p d) s"
  unfolding wp_bindM
  by (rule wp_mono [OF over_limit_wp]) (use assms in \<open>auto simp: wp_retM below_def\<close>)

lemma limited_ret: "limited p d s \<Longrightarrow> wp (retM x) (\<lambda>_. limited p d) (\<lambda>_. limited p d) s"
  by (simp add: wp_retM)

lemma limited_if:
  "(b \<Longrightarrow> wp m Q E s) \<Longrightarrow> (\<not> b \<Longrightarrow> wp n Q E s) \<Longrightarrow> wp (if b then m else n) Q E s"
  by simp

lemma below_limited: "below ph today p d s \<Longrightarrow> limited p d s"
  by (simp add: below_def)

lemma send_step_limited:
  assumes "limited p d s"
  shows "limited p d (snd (send_step today op s))"
proof (cases op)
  case (SendPwd code sent nickname)
  have "wp (forget_pwd_code today code sent nickname) (\<lambda>_. limited p d) (\<lambda>_. limited p d) s"
    unfolding forget_pwd_code_def thenM_def [of "setex _ _ _"]
    using assms
    by - ((rule limited_if) | (rule limited_ret, (assumption | erule below_limited)) | (rule limited_check, assumption)
      | (erule below_bind, (intro quiet_intros)[1]) | (erule below_count, (intro quiet_intros)[1])
      | (rule limited_bind, (intro quiet_intros)[1], assumption))+
  then show ?thesis using SendPwd by (simp add: wp_state)
next
  case (SendInfo code sent sid phone)
  have "wp (info_check_code today code sent sid phone) (\<lambda>_. limited p d) (\<lambda>_. limited p d) s"
    unfolding info_check_code_def thenM_def [of "setex _ _ _"]
    using assms
    by - ((rule limited_if) | (rule limited_ret, (assumption | erule below_limited)) | (rule limited_check, assumption)
      | (erule below_bind, (intro quiet_intros)[1]) | (erule below_count, (intro quiet_intros)[1])
      | (rule limited_bind, (intro quiet_intros)[1], assumption))+
  then show ?thesis using SendInfo by (simp add: wp_state)
next
  case (SendBox code sent sid)
  have "wp (box_check_code today code sent sid) (\<lambda>_. limited p d) (\<lambda>_. limited p d) s"
    unfolding box_check_code_def thenM_def [of "setex _ _ _"]
    using assms
    by - ((rule limited_if) | (rule limited_ret, (assumption | erule below_limited)) | (rule limited_check, assumption)
      | (erule below_bind, (intro quiet_intros)[1]) | (erule below_count, (intro quiet_intros)[1])
      | (rule limited_bind, (intro quiet_intros)[1], assumption))+
  then show ?thesis using SendBox by (simp add: wp_state)
next
  case (SendSecond code sent sid)
  have "quiet (second_code code sent sid)"
    unfolding second_code_def by (intro quiet_intros)
  then show ?thesis using SendSecond assms quiet_limited by (metis wp_state send_step.simps(4))
qed

text \<open>C36: whatever requests for codes arrive on a day, from any clients, in any order and whether or
  not the messages get through, the number of messages counted for a phone that day never exceeds 31,
  one more than \<open>SEND_CODE_LIMIT\<close> because the check comes before the increment and is strict.\<close>

theorem code_sends_bounded:
  assumes "sends s (times_key phone today) (SEND_CODE_LIMIT + 1)"
  shows "sends (send_run today ops s) (times_key phone today) (SEND_CODE_LIMIT + 1)"
  using assms
proof (induction ops arbitrary: s)
  case (Cons op ops)
  then show ?case using send_step_limited [OF Cons.prems] by (simp add: send_run_def)
qed (simp add: send_run_def)

theorem code_sends_bounded_witness:
  "sends (send_run ''d'' [SendInfo 1234 True ''s'' ''13800000000'', SendSecond 4321 True ''s''] empty_db)
     (times_key (Some ''13800000000'') ''d'') (SEND_CODE_LIMIT + 1)"
  by (rule code_sends_bounded) (simp add: sends_def)

section \<open>Resets\<close>

definition find_post :: "(string \<Rightarrow> string) \<Rightarrow> int \<Rightarrow> string \<Rightarrow> string \<Rightarrow> redis \<Rightarrow> reply \<Rightarrow> redis \<Rightarrow> bool" where
  "find_post md5 n sid check_code s r t \<longleftrightarrow>
     (let uid = hf s (session_key (strip sid)) ''uid''; phone = hf s (user_key uid) ''phone'' in
      case r of Reply c m \<Rightarrow> if c = 0
        then look s (code_key ''box'' phone) = Some (RStr (strip check_code)) \<and> strip check_code \<noteq> [] \<and>
          hf t (user_key uid) ''box_pwd'' = Some (md5 (take 6 (show_int n))) \<and>
          look t (code_key ''box'' phone) = None
        else t = s)"

lemma box_find_pwd_ok: "wp (box_find_pwd md5 n sent sid check_code) (find_post md5 n sid check_code s) (\<lambda>_ _. True) s"
proof -
  have sms: "wp (execute_send_sms sent uid) Q (\<lambda>_ _. True) u" if "\<And>b. Q b u" for Q uid u
    by (rule wp_mono [OF sms_wp]) (use that in auto)
  show ?thesis
    unfolding box_find_pwd_def session_uid_def
    by (intro ok_wp sms) (auto simp: find_post_def Let_def)
qed

text \<open>A reset of the box password succeeds only with the code stored for the user's phone; it
  then stores the digest of the new password and the code is gone, so it cannot be used again.  A
  refused reset changes nothing.\<close>

theorem box_find_pwd_guarded:
  assumes "box_find_pwd md5 n sent sid check_code s = (Inr (Reply c m), t)"
  shows "let uid = hf s (session_key (strip sid)) ''uid''; phone = hf s (user_key uid) ''phone'' in
    if c = 0
    then look s (code_key ''box'' phone) = Some (RStr (strip check_code)) \<and> strip check_code \<noteq> [] \<and>
      hf t (user_key uid) ''box_pwd'' = Some (md5 (take 6 (show_int n))) \<and>
      look t (code_key ''box'' phone) = None
    else t = s"
  using wp_InrD [OF box_find_pwd_ok assms] by (simp add: find_post_def Let_def)

definition demo_codes :: redis where
  "demo_codes = empty_db\<lparr>kv := [(session_key ''s'', RHash [(''uid'', ''7'')]),
     (user_key (Some ''7''), RHash [(''phone'', ''13800000000''), (''nickname'', ''ann'')]),
     (code_key ''box'' (Some ''13800000000''), RStr ''1234''), (code_key ''info'' (Some ''13800000000''), RStr ''5678''),
     (code_key ''pwd'' (Some ''13800000000''), RStr ''9999''), (nick_key ''ann'', RStr ''7'')]\<rparr>"

theorem box_find_pwd_guarded_witness:
  "let uid = hf demo_codes (session_key (strip ''s'')) ''uid''; phone = hf demo_codes (user_key uid) ''phone'' in
    if (0::int) = 0
    then look demo_codes (code_key ''box'' phone) = Some (RStr (strip ''1234'')) \<and> strip ''1234'' \<noteq> [] \<and>
      hf (snd (box_find_pwd id 77 True ''s'' ''1234'' demo_codes)) (user_key uid) ''box_pwd'' = Some (id (take 6 (show_int 77))) \<and>
      look (snd (box_find_pwd id 77 True ''s'' ''1234'' demo_codes)) (code_key ''box'' phone) = None
    else snd (box_find_pwd id 77 True ''s'' ''1234'' demo_codes) = demo_codes"
proof (rule box_find_pwd_guarded)
  have "fst (box_find_pwd id 77 True ''s'' ''1234'' demo_codes) = Inr (Reply 0 ''138****0000'')" by code_simp
  then show "box_find_pwd id 77 True ''s'' ''1234'' demo_codes =
      (Inr (Reply 0 ''138****0000''), snd (box_find_pwd id 77 True ''s'' ''1234'' demo_codes))"
    by (simp add: prod_eq_iff)
qed

lemma list_memE: "x \<in> set (y # ys) \<Longrightarrow> (x = y \<Longrightarrow> P) \<Longrightarrow> (x \<in> set ys \<Longrightarrow> P) \<Longrightarrow> P"
  by auto

text \<open>Completing the registration leaves the code it was authorised with in place (the code
  deleted is that of the user id), so that the same code authorises further requests until it
  expires.\<close>

theorem info_complete_keeps_code:
  assumes "info_complete md5 pwd sent sid f s = (Inr (Reply 0 m), t)" "m \<noteq> ''session expired''"
    and "hf s (session_key (strip sid)) ''uid'' = Some uid" "uid \<noteq> strip (f_phone f)"
  shows "look t (code_key ''info'' (Some (strip (f_phone f)))) = Some (RStr (strip (f_check_code f)))"
proof -
  let ?k = "code_key ''info'' (Some (strip (f_phone f)))"
  have sms: "wp (execute_send_sms sent v) Q (\<lambda>_ _. True) u" if "\<And>b. Q b u" for Q v u
    by (rule wp_mono [OF sms_wp]) (use that in auto)
  have pipe: "wp (execute cs) Q (\<lambda>_ _. True) u"
    if "\<And>c. c \<in> set cs \<Longrightarrow> only (- {?k}) c" "\<And>t. look t ?k = look u ?k \<Longrightarrow> Q () t" for cs Q u
    by (rule only_wp [OF only_execute]) (use that in auto)
  have parts: "only (- {?k}) c" if "c \<in> set [hmset (user_key u) d, delete_key (code_key ''info'' u),
      set_str (nick_key x) y, delete_key (nick_key z), srem nicknames z, sadd nicknames x]" "fmt u \<noteq> strip (f_phone f)" for c d u x y z
    using that by (elim list_memE) (simp_all add: only_intros)
  have names: "wp (smembers nicknames) Q (\<lambda>_ _. True) u" if "\<And>x. Q x u" for Q u
    using that by (simp add: wp_smembers)
  have "wp (info_complete md5 pwd sent sid f)
      (\<lambda>r t. \<forall>m. r = Reply 0 m \<longrightarrow> m \<noteq> ''session expired'' \<longrightarrow> look t ?k = Some (RStr (strip (f_check_code f)))) (\<lambda>_ _. True) s"
    unfolding info_complete_def Let_def session_uid_def
    by (intro ok_wp sms names pipe) ((rule parts, assumption) | simp add: assms(3,4))+
  from wp_InrD [OF this assms(1)] assms(2) show ?thesis by blast
qed

theorem info_complete_keeps_code_witness:
  "look (snd (info_complete id ''pw'' True ''s'' \<lparr>f_phone = ''13800000000'', f_check_code = ''5678'',
     f_real_name = ''A'', f_id_card_no = ''1'', f_nickname = ''bob''\<rparr> demo_codes)) (code_key ''info'' (Some (strip ''13800000000''))) =
   Some (RStr (strip ''5678''))"
proof -
  let ?f = "\<lparr>f_phone = ''13800000000'', f_check_code = ''5678'', f_real_name = ''A'', f_id_card_no = ''1'', f_nickname = ''bob''\<rparr>"
  have "fst (info_complete id ''pw'' True ''s'' ?f demo_codes) = Inr (Reply 0 ''138****0000'')" by code_simp
  then have r: "info_complete id ''pw'' True ''s'' ?f demo_codes =
      (Inr (Reply 0 ''138****0000''), snd (info_complete id ''pw'' True ''s'' ?f demo_codes))" by (simp add: prod_eq_iff)
  have u: "hf demo_codes (session_key (strip ''s'')) ''uid'' = Some ''7''" "''7'' \<noteq> strip (f_phone ?f)" by code_simp+
  show ?thesis using info_complete_keeps_code [OF r _ u] by simp
qed

text \<open>Resetting a forgotten password needs the code stored for the user's phone; from then on the
  password is replaced and the code removed even when the message with the new password could not be
  sent and the reply says the request failed.\<close>

theorem forget_pwd_modify_effect:
  assumes "forget_pwd_modify md5 pwd sent nickname check_code s = (Inr (Reply c m), t)"
  shows "t = s \<or>
    (\<exists>uid. look s (nick_key (strip nickname)) = Some (RStr uid) \<and>
       look s (code_key ''pwd'' (hf s (user_key (Some uid)) ''phone'')) = Some (RStr (strip check_code)) \<and>
       hf t (user_key (Some uid)) ''password'' = Some (md5 pwd) \<and>
       look t (code_key ''pwd'' (hf s (user_key (Some uid)) ''phone'')) = None \<and>
       (\<not> sent \<longrightarrow> c = 1 \<and> m = ''request failed''))"
proof -
  have sms: "wp (execute_send_sms sent v) Q (\<lambda>_ _. True) u" if "\<And>b. (b \<Longrightarrow> sent) \<Longrightarrow> Q b u" for Q v u
  proof -
    have "wp (execute_send_sms sent v) (\<lambda>b t. t = u \<and> (b \<longrightarrow> sent)) (\<lambda>_ _. True) u"
      by (auto simp: execute_send_sms_def wp_eqs split: option.split rval.split)
    then show ?thesis by (rule wp_mono) (use that in auto)
  qed
  let ?post = "\<lambda>r t. \<forall>c m. r = Reply c m \<longrightarrow> t = s \<or>
    (\<exists>uid. look s (nick_key (strip nickname)) = Some (RStr uid) \<and>
       look s (code_key ''pwd'' (hf s (user_key (Some uid)) ''phone'')) = Some (RStr (strip check_code)) \<and>
       hf t (user_key (Some uid)) ''password'' = Some (md5 pwd) \<and>
       look t (code_key ''pwd'' (hf s (user_key (Some uid)) ''phone'')) = None \<and>
       (\<not> sent \<longrightarrow> c = 1 \<and> m = ''request failed''))"
  have some: "truthy v \<Longrightarrow> \<exists>u. v = Some u" for v by (cases v) auto
  have "wp (forget_pwd_modify md5 pwd sent nickname check_code) ?post (\<lambda>_ _. True) s"
    unfolding forget_pwd_modify_def by (intro ok_wp sms) (auto dest!: some)
  from wp_InrD [OF this assms] show ?thesis by blast
qed

theorem forget_pwd_modify_effect_witness:
  "snd (forget_pwd_modify id ''pw'' False ''ann'' ''9999'' demo_codes) = demo_codes \<or>
    (\<exists>uid. look demo_codes (nick_key (strip ''ann'')) = Some (RStr uid) \<and>
       look demo_codes (code_key ''pwd'' (hf demo_codes (user_key (Some uid)) ''phone'')) = Some (RStr (strip ''9999'')) \<and>
       hf (snd (forget_pwd_modify id ''pw'' False ''ann'' ''9999'' demo_codes)) (user_key (Some uid)) ''password'' = Some (id ''pw'') \<and>
       look (snd (forget_pwd_modify id ''pw'' False ''ann'' ''9999'' demo_codes))
         (code_key ''pwd'' (hf demo_codes (user_key (Some uid)) ''phone'')) = None \<and>
       (\<not> False \<longrightarrow> (1::int) = 1 \<and> ''request failed'' = ''request failed''))"
proof (rule forget_pwd_modify_effect [of id "''pw''" False "''ann''" "''9999''" demo_codes 1 "''request failed''"])
  have "fst (forget_pwd_modify id ''pw'' False ''ann'' ''9999'' demo_codes) = Inr (Reply 1 ''request failed'')" by code_simp
  then show "forget_pwd_modify id ''pw'' False ''ann'' ''9999'' demo_codes =
     (Inr (Reply 1 ''request failed''), snd (forget_pwd_modify id ''pw'' False ''ann'' ''9999'' demo_codes))"
    by (simp add: prod_eq_iff)
qed

end
