(* ===== verification/BoxLock.thy ===== *)
theory BoxLock
  imports FishBox FishCodes
begin

text \<open>
  The lock of the safe box over every history of the requests about it, those that reset its password
  included (fish/fish_bag.py).
\<close>

section \<open>The lock over a whole history\<close>

text \<open>The requests a client can send about its box, the code that resets its password included.\<close>

datatype box_op =
    OpStatus string | OpSetPwd string string | OpLock string | OpUnlock string string
  | OpShow string | OpList string | OpSave string string string | OpTake string string string
  | OpCheckCode string int bool string | OpFindPwd int bool string string

fun box_step :: "(string \<Rightarrow> string) \<Rightarrow> box_op \<Rightarrow> redis \<Rightarrow> redis" where
  "box_step md5 (OpStatus sid) s = snd (box_status sid s)"
| "box_step md5 (OpSetPwd sid p) s = snd (set_box_pwd md5 sid p s)"
| "box_step md5 (OpLock sid) s = snd (box_lock sid s)"
| "box_step md5 (OpUnlock sid p) s = snd (box_unlock md5 sid p s)"
| "box_step md5 (OpShow sid) s = snd (box_show sid s)"
| "box_step md5 (OpList sid) s = snd (bag_list sid s)"
| "box_step md5 (OpSave sid item num) s = snd (box_save sid item num s)"
| "box_step md5 (OpTake sid item num) s = snd (box_take sid item num s)"
| "box_step md5 (OpCheckCode today code sent sid) s = snd (box_check_code today code sent sid s)"
| "box_step md5 (OpFindPwd n sent sid check_code) s = snd (box_find_pwd md5 n sent sid check_code s)"

definition box_run :: "(string \<Rightarrow> string) \<Rightarrow> box_op list \<Rightarrow> redis \<Rightarrow> redis" where
  "box_run md5 ops s = foldl (\<lambda>s op. box_step md5 op s) s ops"

text \<open>An unlock request that would open the box of \<open>u\<close> in this state.\<close>

fun opens :: "(string \<Rightarrow> string) \<Rightarrow> string \<Rightarrow> redis \<Rightarrow> box_op \<Rightarrow> bool" where
  "opens md5 u s (OpUnlock sid p) \<longleftrightarrow> hf s (session_key (strip sid)) ''uid'' = Some u \<and>
     hf s (user_key (Some u)) ''box_pwd'' = Some (md5 (strip p))"
| "opens md5 u s _ \<longleftrightarrow> False"

fun some_opens :: "(string \<Rightarrow> string) \<Rightarrow> string \<Rightarrow> box_op list \<Rightarrow> redis \<Rightarrow> bool" where
  "some_opens md5 u [] s \<longleftrightarrow> False"
| "some_opens md5 u (op # ops) s \<longleftrightarrow> opens md5 u s op \<or> some_opens md5 u ops (box_step md5 op s)"

definition is_open :: "redis \<Rightarrow> string \<Rightarrow> bool" where
  "is_open s u \<longleftrightarrow> hf s (user_key (Some u)) ''box_lock'' = Some ''2''"

lemma leaves_lock:
  "leaves (user_key u) ''box_lock'' (box_status sid)" "leaves (user_key u) ''box_lock'' (box_show sid)"
  "leaves (user_key u) ''box_lock'' (bag_list sid)" "leaves (user_key u) ''box_lock'' (box_save sid item num)"
  "leaves (user_key u) ''box_lock'' (box_take sid item num)"
  unfolding box_status_def box_show_def bag_list_def box_save_def box_take_def move_in_def session_uid_def
    add_box_entry_def bag_entry_of_def Let_def
  by (intro leaves_intros leaves_foldM; simp)+

lemma leaves_keys:
  "j \<noteq> k \<Longrightarrow> leaves k f (setex j v n)" "j \<noteq> k \<Longrightarrow> leaves k f (delete_key j)"
  "j \<noteq> k \<Longrightarrow> leaves k f (incrby j v)" "j \<noteq> k \<Longrightarrow> leaves k f (expire_key j n)"
  by (rule leaves_only [of "{j}"]; simp add: only_intros)+

lemma leaves_lock_codes:
  "leaves (user_key u) ''box_lock'' (box_check_code today code sent sid)"
  "leaves (user_key u) ''box_lock'' (box_find_pwd md5 n sent sid check_code)"
  unfolding box_check_code_def box_find_pwd_def session_uid_def over_limit_def count_send_def execute_send_sms_def
  by (intro leaves_intros leaves_keys; simp)+

lemma closed_step:
  assumes "\<not> is_open s u" "\<not> opens md5 u s op"
  shows "\<not> is_open (box_step md5 op s) u"
proof (cases op)
  case (OpSetPwd sid p)
  have "wp (set_box_pwd md5 sid p) (\<lambda>_ t. \<not> is_open t u) (\<lambda>_ t. \<not> is_open t u) s"
    using assms(1) by (simp add: set_box_pwd_def session_uid_def wp_eqs is_open_def)
  then show ?thesis using OpSetPwd by (simp add: wp_state)
next
  case (OpLock sid)
  have "wp (box_lock sid) (\<lambda>_ t. \<not> is_open t u) (\<lambda>_ t. \<not> is_open t u) s"
    using assms(1) by (simp add: box_lock_def session_uid_def wp_eqs is_open_def)
  then show ?thesis using OpLock by (simp add: wp_state)
next
  case (OpUnlock sid p)
  have "wp (box_unlock md5 sid p) (\<lambda>_ t. \<not> is_open t u) (\<lambda>_ t. \<not> is_open t u) s"
    using assms OpUnlock
    by (cases "hf s (session_key (strip sid)) ''uid''")
      (auto simp: box_unlock_def session_uid_def wp_eqs is_open_def)
  then show ?thesis using OpUnlock by (simp add: wp_state)
qed (use assms(1) leaves_lock [THEN leavesD] leaves_lock_codes [THEN leavesD] in \<open>simp_all add: is_open_def\<close>)

lemma locked_take: "\<not> is_open s u \<Longrightarrow> hf s (session_key (strip sid)) ''uid'' = Some u \<Longrightarrow>
  snd (box_take sid item num s) = s \<and> fst (box_take sid item num s) \<noteq> Inr (Reply 0 m)"
  by (auto simp: is_open_def box_take_def session_uid_def Let_def bindM_def liftE_def retM_def hget_def
      split: sum.split)

lemma closed_run: "\<not> is_open s u \<Longrightarrow> \<not> some_opens md5 u ops s \<Longrightarrow> \<not> is_open (box_run md5 ops s) u"
proof (induction ops arbitrary: s)
  case (Cons op ops)
  then show ?case using closed_step [of s u md5 op] by (simp add: box_run_def)
qed (simp add: box_run_def)

text \<open>C30: over every history of requests about boxes by any clients, the codes that reset a box's password and
  the resets included, a box that is locked stays locked, and whoever is logged in as its owner is then refused
  what he asks to take, which changes nothing, unless one of the requests unlocks it with a password whose digest
  is the stored one at that moment.\<close>

theorem locked_until_unlocked:
  assumes "\<not> is_open s u" "\<not> some_opens md5 u ops s"
  shows "\<not> is_open (box_run md5 ops s) u \<and>
    (\<forall>sid item num m. hf (box_run md5 ops s) (session_key (strip sid)) ''uid'' = Some u \<longrightarrow>
      snd (box_take sid item num (box_run md5 ops s)) = box_run md5 ops s \<and>
      fst (box_take sid item num (box_run md5 ops s)) \<noteq> Inr (Reply 0 m))"
  using closed_run [OF assms] locked_take by simp

text \<open>The password is reset by the code of the phone; the old one no longer opens the box.\<close>

theorem locked_until_unlocked_witness:
  "let t = box_run id [OpFindPwd 77 True ''s'' ''1234'', OpUnlock ''s'' ''secret'', OpTake ''s'' ''3'' ''1'']
       (snd (set_box_pwd id ''s'' ''secret'' demo_codes)) in
   \<not> is_open t ''7'' \<and>
    (\<forall>sid item num m. hf t (session_key (strip sid)) ''uid'' = Some ''7'' \<longrightarrow>
      snd (box_take sid item num t) = t \<and> fst (box_take sid item num t) \<noteq> Inr (Reply 0 m))"
  unfolding Let_def
proof (rule locked_until_unlocked)
  show "\<not> is_open (snd (set_box_pwd id ''s'' ''secret'' demo_codes)) ''7''" by code_simp
  show "\<not> some_opens id ''7'' [OpFindPwd 77 True ''s'' ''1234'', OpUnlock ''s'' ''secret'', OpTake ''s'' ''3'' ''1'']
      (snd (set_box_pwd id ''s'' ''secret'' demo_codes))"
    by code_simp
qed

end
