(* ===== verification/MatchQueue.thy ===== *)
theory MatchQueue
  imports RedisLaws
begin

text \<open>
  The matchmaking workers (tasks/gold_worker.py and tasks/party_worker.py), which share their code up
  to the names of their keys: waiting lists per room, the room a player waits for or plays in, the
  forming of rooms, and the queue of protocol lines the web servers write to.

  The keys are an argument (\<open>room_keys\<close>); so are \<open>eval\<close> of a list literal and \<open>json.dumps\<close>.
\<close>

record room_keys =
  prefix_wait :: "string \<Rightarrow> string \<Rightarrow> string \<Rightarrow> string"
  account2wait :: "string \<Rightarrow> string"
  prefix_ingame :: "string \<Rightarrow> string \<Rightarrow> string \<Rightarrow> string \<Rightarrow> string \<Rightarrow> string"
  account2ingame :: "string \<Rightarrow> string"
  match_finish :: "string \<Rightarrow> string"
  protocol_key :: string
  service_status :: string
  protocol_result :: "string \<Rightarrow> string"
  join_head :: string

definition GAME_TABLE :: "string \<Rightarrow> string" where "GAME_TABLE g = ''games:id:'' @ g"
definition EXIT_PLAYER :: "string \<Rightarrow> string" where "EXIT_PLAYER a = ''player:'' @ a @ '':exitPlayer:hash''"
definition FORMAT_GAME_SERVICE_SET :: "string \<Rightarrow> string" where "FORMAT_GAME_SERVICE_SET g = ''services:game:'' @ g"
definition FORMAT_SERVICE_PROTOCOL_TABLE :: "string \<Rightarrow> string \<Rightarrow> string" where
  "FORMAT_SERVICE_PROTOCOL_TABLE g addr = ''service:protocols:game:'' @ g @ '':'' @ addr"

definition DEFAULT_RULE :: string where "DEFAULT_RULE = ''[0,0,[0],1]''"

datatype wreply =
    Code int
  | InRoom string string string
  | Waiting int int

text \<open>\<open>'%s' % players\<close> for a list of plain names.\<close>

definition py_list :: "string list \<Rightarrow> string" where
  "py_list xs = ''['' @ join_with '', '' (map (\<lambda>x. [CHR 0x27] @ x @ [CHR 0x27]) xs) @ '']''"

section \<open>Joining and leaving the queue\<close>

definition on_join :: "room_keys \<Rightarrow> string \<Rightarrow> string \<Rightarrow> string \<Rightarrow> wreply rh" where
  "on_join K account room gameid =
     bindM (hget (GAME_TABLE gameid) ''party_player_count'') (\<lambda>pc.
     bindM (liftE (py_int_none pc)) (\<lambda>maxplayers.
     bindM (exists_key (EXIT_PLAYER account)) (\<lambda>left.
     if left then retM (Code 0) else
     let wait_join_list = prefix_wait K room gameid DEFAULT_RULE in
     bindM (exists_key wait_join_list) (\<lambda>ex.
     bindM (if ex then lrange_all wait_join_list else retM []) (\<lambda>waiting.
     if ex \<and> account \<in> set waiting then retM (Code 0) else
     thenM (execute [rpush wait_join_list account, set_str (account2wait K account) wait_join_list])
           (retM (Code 0)))))))"

definition on_cancel :: "room_keys \<Rightarrow> string \<Rightarrow> wreply rh" where
  "on_cancel K account =
     bindM (exists_key (account2wait K account)) (\<lambda>ex.
     if \<not> ex then retM (Code (- 1)) else
     bindM (get (account2wait K account)) (\<lambda>w.
     bindM (exists_key (fmt w)) (\<lambda>ex2.
     bindM (if ex2 then lrange_all (fmt w) else retM []) (\<lambda>waiting.
     thenM (execute (delete_key (account2wait K account) #
         (if ex2 \<and> account \<in> set waiting then [lrem (fmt w) account] else [])))
       (retM (Code 0))))))"

text \<open>\<open>list[i]\<close>.\<close>

definition item :: "string list \<Rightarrow> nat \<Rightarrow> exn + string" where
  "item xs i = py_nth xs (int i)"

definition on_check :: "room_keys \<Rightarrow> string \<Rightarrow> wreply rh" where
  "on_check K account =
     bindM (exists_key (account2ingame K account)) (\<lambda>ingame.
     if ingame then
       bindM (get (account2ingame K account)) (\<lambda>a.
       let parts = split_on (CHR '':'') (fmt a) in
       bindM (liftE (item parts 2)) (\<lambda>gameid.
       bindM (liftE (item parts 4)) (\<lambda>ip.
       bindM (liftE (item parts 5)) (\<lambda>port. retM (InRoom ip port gameid)))))
     else
       bindM (exists_key (match_finish K account)) (\<lambda>matched.
       if matched then
         bindM (get (match_finish K account)) (\<lambda>m.
         bindM (liftE (py_int_none m)) (\<lambda>n. retM (Waiting n n)))
       else
         bindM (get (account2wait K account)) (\<lambda>w.
         if \<not> truthy w then retM (Code (- 1)) else
         bindM (liftE (item (split_on (CHR '':'') (fmt w)) 2)) (\<lambda>gameid.
         bindM (hget (GAME_TABLE gameid) ''party_player_count'') (\<lambda>pc.
         if \<not> truthy pc then retM (Code (- 1)) else
         bindM (liftE (py_int_none pc)) (\<lambda>maxplayers.
         bindM (lrange_all (fmt w)) (\<lambda>waiting.
         retM (if account \<in> set waiting then Waiting maxplayers (int (length waiting)) else Code (- 1)))))))))"

section \<open>Rooms\<close>

definition player_count_of :: "string \<Rightarrow> int rh" where
  "player_count_of gameid =
     bindM (hget (GAME_TABLE gameid) ''party_player_count'') (\<lambda>pc.
     if \<not> truthy pc then retM 4 else
     bindM (liftE (py_int_none pc)) (\<lambda>n. retM (if n \<le> 0 then 4 else n)))"

definition send_game :: "string \<Rightarrow> string \<Rightarrow> unit rh" where
  "send_game gameid line =
     bindM (lrange_all (FORMAT_GAME_SERVICE_SET gameid)) (\<lambda>servers. case servers of
       [] \<Rightarrow> retM ()
     | server # _ \<Rightarrow>
         (case split_on (CHR '':'') server of
            [_, _, _, currency, ip, port] \<Rightarrow>
              rpush (FORMAT_SERVICE_PROTOCOL_TABLE gameid (currency @ '':'' @ ip @ '':'' @ port)) line
          | _ \<Rightarrow> raiseM ValueError))"

text \<open>One room: a \<open>pop\<close> per player, then the line to the game server.\<close>

definition seat :: "room_keys \<Rightarrow> string \<Rightarrow> int \<Rightarrow> string \<Rightarrow> unit rh" where
  "seat K key player_count account =
     thenM (lpop key)
     (thenM (delete_key (account2wait K account))
     (set_str (match_finish K account) (show_int player_count)))"

definition join_line :: "room_keys \<Rightarrow> string list \<Rightarrow> string \<Rightarrow> string \<Rightarrow> string" where
  "join_line K players room rule = join_head K @ ''|'' @ py_list players @ ''|'' @ room @ ''|'' @ rule"

definition form_room :: "room_keys \<Rightarrow> string \<Rightarrow> int \<Rightarrow> string list \<Rightarrow> string \<Rightarrow> string \<Rightarrow> string \<Rightarrow> unit rh" where
  "form_room K key player_count players room gameid rule =
     thenM (forM players (seat K key player_count))
           (send_game gameid (join_line K players room rule))"

text \<open>\<open>while _len >= player_count\<close>; the count is positive.\<close>

function rooms_loop :: "int \<Rightarrow> int \<Rightarrow> unit rh \<Rightarrow> unit rh" where
  "rooms_loop len player_count body =
     (if 0 < player_count \<and> player_count \<le> len
      then thenM body (rooms_loop (len - player_count) player_count body) else retM ())"
  by pat_completeness auto
termination by (relation "measure (\<lambda>(len, _, _). nat len)") auto

declare rooms_loop.simps [simp del]

definition check_key :: "room_keys \<Rightarrow> string \<Rightarrow> unit rh" where
  "check_key K key =
     bindM (lrange_all key) (\<lambda>waitplayers.
     let parts = split_on (CHR '':'') key in
     bindM (liftE (item parts 1)) (\<lambda>room.
     bindM (liftE (item parts 2)) (\<lambda>gameid.
     bindM (liftE (item parts 3)) (\<lambda>rule.
     bindM (player_count_of gameid) (\<lambda>n.
     rooms_loop (int (length waitplayers)) n
       (form_room K key n (take (nat n) waitplayers) room gameid rule))))))"

definition self_check :: "room_keys \<Rightarrow> unit rh" where
  "self_check K = bindM (keys (prefix_wait K ''*'' ''*'' ''*'')) (\<lambda>ks. forM ks (check_key K))"

section \<open>Messages of the game servers\<close>

definition on_success :: "room_keys \<Rightarrow> (string \<Rightarrow> exn + string list) \<Rightarrow> string \<Rightarrow> string \<Rightarrow> string \<Rightarrow> string \<Rightarrow> wreply rh" where
  "on_success K evl server_table accountlist room rule =
     bindM (liftE (evl accountlist)) (\<lambda>accounts.
     let parts = split_on (CHR '':'') server_table in
     bindM (liftE (item parts 3)) (\<lambda>gameid.
     bindM (liftE (item parts 5)) (\<lambda>ip.
     bindM (liftE (item parts 6)) (\<lambda>port.
     let already_in_list = prefix_ingame K room gameid rule ip port in
     thenM (execute (concat (map (\<lambda>a. [rpush already_in_list a, set_str (account2ingame K a) already_in_list,
         delete_key (match_finish K a)]) accounts)))
       (retM (Code 0))))))"

text \<open>Reads go to the server at once, the deletions are queued and run at the end.\<close>

definition leave_cmds :: "room_keys \<Rightarrow> string \<Rightarrow> unit rh list rh" where
  "leave_cmds K account =
     bindM (exists_key (account2ingame K account)) (\<lambda>ex.
     if \<not> ex then retM [] else
     bindM (get (account2ingame K account)) (\<lambda>a.
     bindM (exists_key (fmt a)) (\<lambda>ex2.
     bindM (if ex2 then lrange_all (fmt a) else retM []) (\<lambda>inroom.
     retM (delete_key (account2ingame K account) #
       (if ex2 \<and> account \<in> set inroom then [lrem (fmt a) account] else []))))))"

definition on_leave :: "room_keys \<Rightarrow> (string \<Rightarrow> exn + string list) \<Rightarrow> string \<Rightarrow> wreply rh" where
  "on_leave K evl accountlist =
     bindM (liftE (evl accountlist)) (\<lambda>accounts.
     bindM (mapM accounts (leave_cmds K)) (\<lambda>cmds.
     thenM (execute (concat cmds)) (retM (Code 0))))"

section \<open>The service\<close>

definition on_feed :: "room_keys \<Rightarrow> int \<Rightarrow> wreply rh" where
  "on_feed K timeout = thenM (set_str (service_status K) []) (thenM (expire_key (service_status K) timeout) (retM (Code 0)))"

definition on_close :: "room_keys \<Rightarrow> wreply rh" where
  "on_close K = thenM (delete_key (protocol_key K)) (thenM (delete_key (service_status K)) (retM (Code 0)))"

text \<open>\<open>isGoldServiceOpening\<close> / \<open>isPartyServiceOpening\<close>, and the web server's side of the queue.\<close>

definition is_opening :: "room_keys \<Rightarrow> bool rh" where
  "is_opening K = exists_key (service_status K)"

definition send_protocol :: "room_keys \<Rightarrow> string \<Rightarrow> bool rh" where
  "send_protocol K line = bindM (is_opening K) (\<lambda>up.
     if up then thenM (rpush (protocol_key K) line) (retM True) else retM False)"

text \<open>A call by name with the arguments of the line: a wrong number of arguments raises.\<close>

type_synonym calls = "(string \<times> (string list \<Rightarrow> wreply rh)) list"

definition clear_patterns :: "room_keys \<Rightarrow> string list \<Rightarrow> string list" where
  "clear_patterns K pats = [account2wait K ''*'', pats ! 0, account2ingame K ''*'', match_finish K ''*'', pats ! 1,
     protocol_key K, service_status K]"

definition clear_players :: "room_keys \<Rightarrow> string list \<Rightarrow> unit rh" where
  "clear_players K pats = bindM (mapM (clear_patterns K pats) keys) (\<lambda>kss. execute (map delete_key (concat kss)))"

text \<open>One line of the queue: the last 32 characters are the id of the reply.\<close>

definition serve_line :: "room_keys \<Rightarrow> calls \<Rightarrow> (wreply \<Rightarrow> string) \<Rightarrow> string \<Rightarrow> unit rh" where
  "serve_line K calls dumps line =
     (let n = length line - 32; uuid = drop n line; args = split_on (CHR ''|'') (take n line) in
      case map_of calls (hd args) of
        None \<Rightarrow> retM ()
      | Some f \<Rightarrow>
          tryM (bindM (f (tl args)) (\<lambda>r.
                thenM (set_str (protocol_result K uuid) (dumps r)) (expire_key (protocol_result K uuid) 5)))
               (retM ()))"

text \<open>\<open>readPartyServiceProtocol\<close>: pop and serve until the queue is empty (or an empty line is popped);
  the result says whether the loop ended before the fuel did.\<close>

fun read_protocols :: "nat \<Rightarrow> room_keys \<Rightarrow> calls \<Rightarrow> (wreply \<Rightarrow> string) \<Rightarrow> bool rh" where
  "read_protocols 0 K calls dumps = retM False"
| "read_protocols (Suc n) K calls dumps =
     bindM (lpop (protocol_key K)) (\<lambda>line. case line of
       None \<Rightarrow> retM True
     | Some l \<Rightarrow> if l = [] then retM True else
         thenM (serve_line K calls dumps l) (read_protocols n K calls dumps))"

end
