(* ===== verification/MatchLaws.thy ===== *)
theory MatchLaws
  imports MatchQueue
begin

text \<open>
  The contract of the matchmaking queue, for any worker whose keys do not clash: joining and cancelling,
  what forming rooms does to the queue and to the players, and the end of the protocol loop.
\<close>

section \<open>What the operations promise\<close>

definition joined :: "room_keys \<Rightarrow> string \<Rightarrow> string \<Rightarrow> redis \<Rightarrow> redis \<Rightarrow> bool" where
  "joined K account w s t \<longleftrightarrow>
     (t = s \<or> account \<notin> set (list_of s w) \<and> list_of t w = list_of s w @ [account] \<and> is_list t w \<and>
        look t (account2wait K account) = Some (RStr w) \<and>
        (\<forall>k. k \<noteq> w \<longrightarrow> k \<noteq> account2wait K account \<longrightarrow> look t k = look s k))"

text \<open>The players are told they are matched and taken off the queue they wait in; \<open>m\<close> entries of the
  waiting list are gone.\<close>

definition seated :: "room_keys \<Rightarrow> string \<Rightarrow> int \<Rightarrow> string list \<Rightarrow> nat \<Rightarrow> redis \<Rightarrow> redis \<Rightarrow> bool" where
  "seated K key n players m s t \<longleftrightarrow>
     is_list t key \<and> list_of t key = drop m (list_of s key) \<and>
     (\<forall>a \<in> set players. look t (account2wait K a) = None \<and> look t (match_finish K a) = Some (RStr (show_int n))) \<and>
     (\<forall>k. k \<noteq> key \<longrightarrow> k \<notin> account2wait K ` set players \<longrightarrow> k \<notin> match_finish K ` set players \<longrightarrow> look t k = look s k)"

lemma seated_frame:
  "seated K key n ps m s t \<Longrightarrow> k \<noteq> key \<Longrightarrow> k \<notin> account2wait K ` set ps \<Longrightarrow> k \<notin> match_finish K ` set ps \<Longrightarrow> look t k = look s k"
  by (simp add: seated_def)

text \<open>The same together with the lines sent to the game server.\<close>

definition formed :: "room_keys \<Rightarrow> string \<Rightarrow> int \<Rightarrow> string list \<Rightarrow> nat \<Rightarrow> string \<Rightarrow> string list \<Rightarrow> redis \<Rightarrow> redis \<Rightarrow> bool" where
  "formed K key n players m lk lines s t \<longleftrightarrow>
     is_list t key \<and> list_of t key = drop m (list_of s key) \<and> is_list t lk \<and> list_of t lk = list_of s lk @ lines \<and>
     (\<forall>a \<in> set players. look t (account2wait K a) = None \<and> look t (match_finish K a) = Some (RStr (show_int n))) \<and>
     (\<forall>k. k \<noteq> key \<longrightarrow> k \<noteq> lk \<longrightarrow> k \<notin> account2wait K ` set players \<longrightarrow> k \<notin> match_finish K ` set players \<longrightarrow> look t k = look s k)"

lemma formed_frame:
  "formed K key n ps m lk xs s t \<Longrightarrow> k \<noteq> key \<Longrightarrow> k \<noteq> lk \<Longrightarrow> k \<notin> account2wait K ` set ps \<Longrightarrow> k \<notin> match_finish K ` set ps \<Longrightarrow>
   look t k = look s k"
  by (simp add: formed_def)

text \<open>The queue of the first server of a game, when there is one.\<close>

definition server_queue :: "redis \<Rightarrow> string \<Rightarrow> string \<Rightarrow> bool" where
  "server_queue s gameid lk \<longleftrightarrow> is_list s (FORMAT_GAME_SERVICE_SET gameid) \<and> is_list s lk \<and>
     (\<exists>server rest a b c currency ip port. list_of s (FORMAT_GAME_SERVICE_SET gameid) = server # rest \<and>
        split_on (CHR '':'') server = [a, b, c, currency, ip, port] \<and>
        lk = FORMAT_SERVICE_PROTOCOL_TABLE gameid (currency @ '':'' @ ip @ '':'' @ port))"

lemma service_line_neq [simp]: "FORMAT_GAME_SERVICE_SET g \<noteq> FORMAT_SERVICE_PROTOCOL_TABLE h d"
  "FORMAT_SERVICE_PROTOCOL_TABLE h d \<noteq> FORMAT_GAME_SERVICE_SET g"
  by (simp_all add: FORMAT_GAME_SERVICE_SET_def FORMAT_SERVICE_PROTOCOL_TABLE_def)

lemma send_game_wp:
  assumes "server_queue s gameid lk"
  shows "wp (send_game gameid line) (\<lambda>_ t. t = set_list lk (list_of s lk @ [line]) s) (\<lambda>_ _. False) s"
  using assms by (auto simp: server_queue_def send_game_def wp_eqs)

lemma server_queue_cong:
  assumes "server_queue s gameid lk" "look t (FORMAT_GAME_SERVICE_SET gameid) = look s (FORMAT_GAME_SERVICE_SET gameid)" "is_list t lk"
  shows "server_queue t gameid lk"
  using assms list_of_cong_look [OF assms(2)] is_list_cong_look [OF assms(2)] by (simp add: server_queue_def)

section \<open>Keys that do not clash\<close>

locale room_queue =
  fixes K :: room_keys
  assumes wait_account: "prefix_wait K a b c \<noteq> account2wait K x"
    and wait_finish: "prefix_wait K a b c \<noteq> match_finish K x"
    and account_finish: "account2wait K x \<noteq> match_finish K y"
    and wait_service: "prefix_wait K a b c \<noteq> FORMAT_GAME_SERVICE_SET g"
    and account_service: "account2wait K x \<noteq> FORMAT_GAME_SERVICE_SET g"
    and finish_service: "match_finish K x \<noteq> FORMAT_GAME_SERVICE_SET g"
    and wait_line: "prefix_wait K a b c \<noteq> FORMAT_SERVICE_PROTOCOL_TABLE g d"
    and account_line: "account2wait K x \<noteq> FORMAT_SERVICE_PROTOCOL_TABLE g d"
    and finish_line: "match_finish K x \<noteq> FORMAT_SERVICE_PROTOCOL_TABLE g d"
    and account_inj: "account2wait K x = account2wait K y \<Longrightarrow> x = y"
    and finish_inj: "match_finish K x = match_finish K y \<Longrightarrow> x = y"
begin

lemmas key_laws [simp] = wait_account wait_account [symmetric] wait_finish wait_finish [symmetric]
  account_finish account_finish [symmetric] wait_service wait_service [symmetric] account_service
  account_service [symmetric] finish_service finish_service [symmetric] wait_line wait_line [symmetric]
  account_line account_line [symmetric] finish_line finish_line [symmetric]

lemma key_inj [simp]: "account2wait K x = account2wait K y \<longleftrightarrow> x = y" "match_finish K x = match_finish K y \<longleftrightarrow> x = y"
  using account_inj finish_inj by blast+

text \<open>Joining appends to the waiting list, or changes nothing; a player who waits is not added again.\<close>

lemma on_join_wp:
  "wp (on_join K account room gameid)
     (\<lambda>r t. r = Code 0 \<and> joined K account (prefix_wait K room gameid DEFAULT_RULE) s t \<and>
        (look s (EXIT_PLAYER account) = None \<longrightarrow> account \<in> set (list_of t (prefix_wait K room gameid DEFAULT_RULE))))
     (\<lambda>_ _. True) s"
proof -
  let ?w = "prefix_wait K room gameid DEFAULT_RULE"
  have none: "look s ?w = None \<Longrightarrow> list_of s ?w = [] \<and> is_list s ?w" by (simp add: list_of_def is_list_def)
  show ?thesis
    unfolding on_join_def
    using none by (auto simp: wp_eqs joined_def look_set_list Let_def split: sum.split option.split)
qed

text \<open>Cancelling takes the player off the list named by the player's entry.\<close>

lemma on_cancel_wp:
  assumes "look s (account2wait K account) = Some (RStr w)" "w \<noteq> account2wait K account"
  shows "wp (on_cancel K account)
     (\<lambda>r t. r = Code 0 \<and> look t (account2wait K account) = None \<and>
        list_of t w = removeAll account (list_of s w) \<and>
        (\<forall>k. k \<noteq> w \<longrightarrow> k \<noteq> account2wait K account \<longrightarrow> look t k = look s k))
     (\<lambda>_ _. True) s"
proof -
  have lrem: "wp (lrem k a) Q E u = (if \<not> is_list u k then E ResponseError u
      else if look u k = None then Q () u else Q () (set_list k (removeAll a (list_of u k)) u))" for k a Q E u
    by (simp add: wp_def lrem_def)
  have none: "look s w = None \<Longrightarrow> list_of s w = []" by (simp add: list_of_def)
  show ?thesis
    unfolding on_cancel_def
    using assms none by (auto simp: wp_eqs lrem look_set_list removeAll_id)
qed

section \<open>Forming rooms\<close>

lemma seat_wp:
  assumes "is_list s key" "key \<noteq> account2wait K a" "key \<noteq> match_finish K a"
  shows "wp (seat K key n a) (\<lambda>_ t. seated K key n [a] 1 s t) (\<lambda>_ _. False) s"
  unfolding seat_def
  using assms by (auto simp: wp_eqs seated_def look_set_list split: list.split)

lemma seated_trans:
  assumes "seated K key n ps m s t" "seated K key n qs l t u"
    and "\<And>x. key \<noteq> account2wait K x" "\<And>x. key \<noteq> match_finish K x"
  shows "seated K key n (ps @ qs) (m + l) s u"
proof -
  have "look u (account2wait K a) = None \<and> look u (match_finish K a) = Some (RStr (show_int n))"
    if "a \<in> set ps \<union> set qs" for a
  proof (cases "a \<in> set qs")
    case False
    then have "look u (account2wait K a) = look t (account2wait K a)" "look u (match_finish K a) = look t (match_finish K a)"
      using not_sym [OF assms(3)] not_sym [OF assms(4)] False by (auto intro!: seated_frame [OF assms(2)])
    then show ?thesis using False that assms(1) by (auto simp: seated_def)
  qed (use assms(2) in \<open>simp add: seated_def\<close>)
  then show ?thesis
    using assms(1,2) by (auto simp: seated_def drop_drop add.commute image_Un)
qed

lemma seats_wp:
  assumes "is_list s key" "\<And>x. key \<noteq> account2wait K x" "\<And>x. key \<noteq> match_finish K x"
  shows "wp (forM players (seat K key n)) (\<lambda>_ t. seated K key n players (length players) s t) (\<lambda>_ _. False) s"
  using assms(1)
proof (induction players arbitrary: s)
  case Nil
  then show ?case by (simp add: wp_eqs seated_def)
next
  case (Cons a players)
  show ?case
    unfolding forM.simps wp_thenM
  proof (rule wp_mono [OF seat_wp [OF Cons.prems assms(2,3)]])
    fix x t assume t: "seated K key n [a] 1 s t"
    then have "is_list t key" by (simp add: seated_def)
    from Cons.IH [OF this] show "wp (forM players (seat K key n)) (\<lambda>_ t. seated K key n (a # players) (length (a # players)) s t) (\<lambda>_ _. False) t"
      by (rule wp_mono) (use seated_trans [OF t _ assms(2,3)] in auto)
  qed simp
qed

lemma form_room_wp:
  assumes "server_queue s gameid lk" "is_list s (prefix_wait K a b c)"
  shows "wp (form_room K (prefix_wait K a b c) n players room gameid rule)
     (\<lambda>_ t. formed K (prefix_wait K a b c) n players (length players) lk [join_line K players room rule] s t) (\<lambda>_ _. False) s"
  unfolding form_room_def wp_thenM
proof (rule wp_mono [OF seats_wp [OF assms(2)]])
  fix x t assume t: "seated K (prefix_wait K a b c) n players (length players) s t"
  obtain d where lk: "lk = FORMAT_SERVICE_PROTOCOL_TABLE gameid d" using assms(1) by (auto simp: server_queue_def)
  have same: "look t k = look s k" if "k = FORMAT_GAME_SERVICE_SET gameid \<or> k = lk" for k
    using that lk by (auto intro!: seated_frame [OF t])
  have l: "list_of t lk = list_of s lk" "is_list t lk"
    using same [of lk] assms(1) list_of_cong_look [of t lk s] is_list_cong_look [of t lk s] by (auto simp: server_queue_def)
  have q: "server_queue t gameid lk"
    by (rule server_queue_cong [OF assms(1)]) (use same l in auto)
  show "wp (send_game gameid (join_line K players room rule))
      (\<lambda>_ u. formed K (prefix_wait K a b c) n players (length players) lk [join_line K players room rule] s u) (\<lambda>_ _. False) t"
    by (rule wp_mono [OF send_game_wp [OF q]])
      (use t l lk in \<open>auto simp: formed_def seated_def look_set_list\<close>)
qed simp_all

lemma formed_trans:
  assumes "formed K key n ps m lk xs s t" "formed K key n ps l lk ys t u"
  shows "formed K key n ps (m + l) lk (xs @ ys) s u"
  using assms by (auto simp: formed_def drop_drop add.commute)

lemma formed_queue:
  assumes "formed K (prefix_wait K a b c) n ps m lk xs s t" "server_queue s gameid lk"
  shows "server_queue t gameid lk" "is_list t (prefix_wait K a b c)"
proof -
  obtain d where lk: "lk = FORMAT_SERVICE_PROTOCOL_TABLE gameid d" using assms(2) by (auto simp: server_queue_def)
  have "look t (FORMAT_GAME_SERVICE_SET gameid) = look s (FORMAT_GAME_SERVICE_SET gameid)"
    using lk by (auto intro!: formed_frame [OF assms(1)])
  then show "server_queue t gameid lk" by (rule server_queue_cong [OF assms(2)]) (use assms(1) in \<open>simp add: formed_def\<close>)
  show "is_list t (prefix_wait K a b c)" using assms(1) by (simp add: formed_def)
qed

text \<open>The loop forms as many rooms as the list has full groups, and every room gets the same line.\<close>

lemma rooms_loop_wp:
  assumes "0 < n" "server_queue s gameid lk" "is_list s (prefix_wait K a b c)"
  shows "wp (rooms_loop len n (form_room K (prefix_wait K a b c) n ps room gameid rule))
     (\<lambda>_ t. if len < n then t = s else
        formed K (prefix_wait K a b c) n ps (nat (len div n) * length ps) lk (replicate (nat (len div n)) (join_line K ps room rule)) s t)
     (\<lambda>_ _. False) s"
  using assms
proof (induction "nat len" arbitrary: len s rule: less_induct)
  case less
  let ?body = "form_room K (prefix_wait K a b c) n ps room gameid rule"
  show ?case
  proof (cases "n \<le> len")
    case True
    have d: "nat (len div n) = Suc (nat ((len - n) div n))"
      using True less.prems(1) div_pos_geq [of n len] by (simp add: pos_imp_zdiv_nonneg_iff nat_add_distrib)
    have unfold: "rooms_loop len n ?body = thenM ?body (rooms_loop (len - n) n ?body)"
      using True less.prems(1) by (subst rooms_loop.simps) simp
    show ?thesis
      unfolding unfold wp_thenM
    proof (rule wp_mono [OF form_room_wp [OF less.prems(2,3)]])
      fix x t assume t: "formed K (prefix_wait K a b c) n ps (length ps) lk [join_line K ps room rule] s t"
      have "nat (len - n) < nat len" using True less.prems(1) by simp
      note IH = less.hyps [OF this less.prems(1) formed_queue [OF t less.prems(2)]]
      have small: "nat ((len - n) div n) = 0" if "len - n < n" using that True by (simp add: div_pos_pos_trivial)
      show "wp (rooms_loop (len - n) n ?body)
        (\<lambda>_ u. if len < n then u = s else formed K (prefix_wait K a b c) n ps (nat (len div n) * length ps) lk
            (replicate (nat (len div n)) (join_line K ps room rule)) s u) (\<lambda>_ _. False) t"
        by (rule wp_mono [OF IH]) (use True t small formed_trans [OF t] in \<open>auto simp: d split: if_splits\<close>)
    qed simp
  next
    case False
    then show ?thesis by (subst rooms_loop.simps) (simp add: wp_retM)
  qed
qed

end

section \<open>The protocol loop ends\<close>

text \<open>A call that never makes the queue \<open>pk\<close> longer.\<close>

definition calm :: "string \<Rightarrow> 'a rh \<Rightarrow> bool" where
  "calm pk m \<longleftrightarrow> (\<forall>n. keeps (\<lambda>s. is_list s pk \<and> length (list_of s pk) \<le> n) m)"

named_theorems calm_intros "a call never makes the queue longer"

lemma calmD:
  "calm pk m \<Longrightarrow> is_list s pk \<Longrightarrow> is_list (snd (m s)) pk \<and> length (list_of (snd (m s)) pk) \<le> length (list_of s pk)"
  unfolding calm_def keeps_def by blast

lemma calm_only: "only (- {pk}) m \<Longrightarrow> calm pk m"
  unfolding calm_def keeps_def by (auto dest!: onlyD [of _ _ pk] dest: is_list_cong_look list_of_cong_look)

lemma calm_reads [calm_intros]:
  "calm pk (get k)" "calm pk (exists_key k)" "calm pk (hget k f)" "calm pk (lrange_all k)"
  by (rule calm_only, rule only_intros)+

lemma calm_writes [calm_intros]: "k \<noteq> pk \<Longrightarrow> calm pk (rpush k v)" "k \<noteq> pk \<Longrightarrow> calm pk (set_str k v)"
  by (rule calm_only, rule only_intros, simp)+

lemma calm_pure [calm_intros]: "calm pk (retM x)" "calm pk (raiseM e)" "calm pk (liftE r)"
  by (auto simp: calm_def intro: pres_intros)

lemma calm_bindM [calm_intros]: "calm pk m \<Longrightarrow> (\<And>x. calm pk (f x)) \<Longrightarrow> calm pk (bindM m f)"
  by (auto simp: calm_def intro: keeps_bindM)

lemma calm_thenM [calm_intros]: "calm pk m \<Longrightarrow> calm pk k \<Longrightarrow> calm pk (thenM m k)"
  by (auto simp: calm_def intro: keeps_thenM)

lemma calm_tryM [calm_intros]: "calm pk m \<Longrightarrow> calm pk k \<Longrightarrow> calm pk (tryM m k)"
  by (auto simp: calm_def intro: keeps_tryM)

lemma calm_if [calm_intros]: "(b \<Longrightarrow> calm pk m) \<Longrightarrow> (\<not> b \<Longrightarrow> calm pk k) \<Longrightarrow> calm pk (if b then m else k)"
  by simp

lemma calm_mapM [calm_intros]: "(\<And>x. calm pk (f x)) \<Longrightarrow> calm pk (mapM xs f)"
  by (simp add: calm_def keeps_mapM)

lemma calm_delete [calm_intros]: "calm pk (delete_key k)"
  by (auto simp: calm_def keeps_def delete_key_def)

lemma calm_expire [calm_intros]: "calm pk (expire_key k t)"
  by (auto simp: calm_def keeps_def expire_key_def is_list_def list_of_def split: option.splits rval.splits)

lemma calm_lrem [calm_intros]: "calm pk (lrem k a)"
proof -
  have "length (removeAll a xs) \<le> length xs" for xs by (induction xs) (auto intro: le_SucI)
  from order_trans [OF this] show ?thesis
    by (auto simp: calm_def keeps_def lrem_def)
qed

lemma calm_execute [calm_intros]: "(\<And>c. c \<in> set cs \<Longrightarrow> calm pk c) \<Longrightarrow> calm pk (execute cs)"
proof -
  assume calm: "\<And>c. c \<in> set cs \<Longrightarrow> calm pk c"
  have "is_list (snd (run_all cs s)) pk \<and> length (list_of (snd (run_all cs s)) pk) \<le> n"
    if "is_list s pk \<and> length (list_of s pk) \<le> n" for s n
    using calm that
  proof (induction cs arbitrary: s)
    case (Cons c cs)
    have "is_list (snd (c s)) pk \<and> length (list_of (snd (c s)) pk) \<le> n"
      using Cons.prems by (auto simp: calm_def keeps_def)
    then show ?case using Cons by (auto split: prod.split sum.split)
  qed simp
  then show ?thesis
    by (fastforce simp: calm_def keeps_def execute_def split: prod.splits option.splits)
qed

text \<open>Commands collected by reads and run at the end.\<close>

lemma leave_cmds_wp: "wp (leave_cmds K a) (\<lambda>cs t. t = s \<and> (\<forall>c \<in> set cs. calm pk c)) (\<lambda>_ t. t = s) s"
  unfolding leave_cmds_def by (auto simp: wp_eqs intro: calm_intros split: option.split rval.split)

lemma leave_all_wp:
  "wp (mapM accounts (leave_cmds K)) (\<lambda>css t. t = s \<and> (\<forall>cs \<in> set css. \<forall>c \<in> set cs. calm pk c)) (\<lambda>_ t. t = s) s"
proof (induction accounts)
  case (Cons a accounts)
  show ?case unfolding mapM.simps wp_bindM wp_retM
    by (rule wp_mono [OF leave_cmds_wp]) (auto intro!: wp_mono [OF Cons.IH])
qed (simp add: wp_eqs)

lemma calm_on_leave [calm_intros]: "calm pk (on_leave K evl al)"
proof (unfold calm_def keeps_def, intro allI impI)
  fix n s assume s: "is_list s pk \<and> length (list_of s pk) \<le> n"
  let ?P = "\<lambda>t. is_list t pk \<and> length (list_of t pk) \<le> n"
  have run: "wp (execute cs) (\<lambda>_. ?P) (\<lambda>_. ?P) s" if "\<forall>c \<in> set cs. calm pk c" for cs
    unfolding wp_state using calmD [OF calm_execute, of cs pk s] that s by force
  have "wp (on_leave K evl al) (\<lambda>_. ?P) (\<lambda>_. ?P) s"
    unfolding on_leave_def wp_bindM wp_liftE
    using s by (auto split: sum.split intro!: wp_mono [OF leave_all_wp [where pk = pk]] run simp: wp_thenM wp_retM)
  then show "?P (snd (on_leave K evl al s))" unfolding wp_state .
qed

lemma read_protocols_ends:
  assumes "\<And>l. calm (protocol_key K) (serve_line K calls dumps l)"
    and "\<And>l s. \<exists>x t. serve_line K calls dumps l s = (Inr x, t)"
    and "is_list s (protocol_key K)" "length (list_of s (protocol_key K)) < n"
  shows "\<exists>t. read_protocols n K calls dumps s = (Inr True, t)"
  using assms(3,4)
proof (induction n arbitrary: s)
  case (Suc n)
  show ?case
  proof (cases "list_of s (protocol_key K)")
    case Nil
    then show ?thesis using Suc.prems by (simp add: bindM_def lpop_def retM_def)
  next
    case (Cons l ls)
    let ?s = "set_list (protocol_key K) ls s"
    obtain x t where t: "serve_line K calls dumps l ?s = (Inr x, t)" using assms(2) by blast
    have "is_list (snd (serve_line K calls dumps l ?s)) (protocol_key K) \<and>
        length (list_of (snd (serve_line K calls dumps l ?s)) (protocol_key K)) \<le> length ls"
      using calmD [OF assms(1), of ?s l] by simp
    then have "is_list t (protocol_key K)" "length (list_of t (protocol_key K)) < n"
      using t Suc.prems(2) Cons by auto
    from Suc.IH [OF this] show ?thesis
      using Cons Suc.prems t by (auto simp: bindM_def lpop_def retM_def thenM_def)
  qed
qed simp

text \<open>Serving a line never raises: the call is in a \<open>try\<close>.\<close>

lemma serve_line_returns: "\<exists>x t. serve_line K calls dumps l s = (Inr x, t)"
proof -
  have "\<exists>x t. tryM m (retM ()) s = (Inr x, t)" for m :: "unit rh"
    by (cases "m s"; cases "fst (m s)") (auto simp: tryM_def retM_def)
  then show ?thesis
    by (cases "map_of calls (hd (split_on (CHR ''|'') (take (length l - 32) l)))")
      (auto simp: serve_line_def Let_def retM_def)
qed

locale room_service = room_queue +
  fixes dumps :: "wreply \<Rightarrow> string"
  assumes protocol_wait: "protocol_key K \<noteq> prefix_wait K a b c"
    and protocol_account: "protocol_key K \<noteq> account2wait K x"
    and protocol_ingame: "protocol_key K \<noteq> prefix_ingame K a b c d e"
    and protocol_account2: "protocol_key K \<noteq> account2ingame K x"
    and protocol_result: "protocol_key K \<noteq> protocol_result K u"
begin

lemmas protocol_laws [simp] = protocol_wait protocol_wait [symmetric] protocol_account protocol_account [symmetric]
  protocol_ingame protocol_ingame [symmetric] protocol_account2 protocol_account2 [symmetric]
  protocol_result protocol_result [symmetric]

lemma calm_handlers [calm_intros]:
  "calm (protocol_key K) (on_join K account room gameid)" "calm (protocol_key K) (on_cancel K account)"
  "calm (protocol_key K) (on_check K account)" "calm (protocol_key K) (on_close K)"
  "calm (protocol_key K) (on_success K evl st al room rule)"
  unfolding on_join_def on_cancel_def on_check_def on_close_def on_success_def Let_def
  by (intro calm_intros; auto intro!: calm_intros)+

end

end
