(* ===== verification/RoomWorkers.thy ===== *)
theory RoomWorkers
  imports MatchLaws
begin

text \<open>
  The two workers: the gold worker (tasks/gold_worker.py, keys of model/gold_db_define.py) and the
  party worker (tasks/party_worker.py).  The party worker's names of the keys of players in a room are
  defined nowhere in the repository; they are arguments here.
\<close>

section \<open>The gold worker\<close>

definition gold_keys :: room_keys where
  "gold_keys = \<lparr>
     prefix_wait = (\<lambda>room g rule. ''WaitJoinGoldRoomPlayers:'' @ room @ '':'' @ g @ '':'' @ rule @ '':list''),
     account2wait = (\<lambda>a. ''Account2waitJoinGoldRoomTable:'' @ a @ '':str''),
     prefix_ingame = (\<lambda>room g rule ip port. ''GameInGoldRoomPlayers:'' @ room @ '':'' @ g @ '':'' @ rule @ '':'' @ ip @ '':'' @ port @ '':list''),
     account2ingame = (\<lambda>a. ''Account2GameInGoldRoomTable:'' @ a @ '':str''),
     match_finish = (\<lambda>a. ''IsGoldRoomMatchFinished:'' @ a @ '':str''),
     protocol_key = ''goldservice:protocols'',
     service_status = ''goldservice:status'',
     protocol_result = (\<lambda>u. ''goldservice:result:'' @ u),
     join_head = ''joinGoldRoom''\<rparr>"

lemmas service_keys = FORMAT_GAME_SERVICE_SET_def FORMAT_SERVICE_PROTOCOL_TABLE_def

interpretation gold: room_queue gold_keys
  by unfold_locales (simp_all add: gold_keys_def service_keys)

interpretation gold: room_service gold_keys dumps for dumps
  by unfold_locales (simp_all add: gold_keys_def)

text \<open>\<open>message['gameid']\<close> of the evaluated message is an argument.\<close>

definition onJoinGoldRoom :: "(string \<Rightarrow> exn + string) \<Rightarrow> string \<Rightarrow> string \<Rightarrow> string \<Rightarrow> wreply rh" where
  "onJoinGoldRoom ev_gameid account playid message =
     bindM (liftE (ev_gameid message)) (\<lambda>gameid. on_join gold_keys account playid gameid)"

definition onCancelJoinGoldRoom :: "string \<Rightarrow> wreply rh" where
  "onCancelJoinGoldRoom account = on_cancel gold_keys account"

definition onCheckJoinGoldRoom :: "string \<Rightarrow> wreply rh" where
  "onCheckJoinGoldRoom account = on_check gold_keys account"

definition onJoinGoldRoomSuccess :: "(string \<Rightarrow> exn + string list) \<Rightarrow> string \<Rightarrow> string \<Rightarrow> string \<Rightarrow> string \<Rightarrow> wreply rh" where
  "onJoinGoldRoomSuccess evl server_table accountlist playid rule = on_success gold_keys evl server_table accountlist playid rule"

definition onGoldRoomLeaveSuccess :: "(string \<Rightarrow> exn + string list) \<Rightarrow> string \<Rightarrow> string \<Rightarrow> wreply rh" where
  "onGoldRoomLeaveSuccess evl server_table accountlist = on_leave gold_keys evl accountlist"

definition onGoldServiceClose :: "wreply rh" where "onGoldServiceClose = on_close gold_keys"

definition gold_self_check :: "unit rh" where "gold_self_check = self_check gold_keys"

definition gold_feed :: "int \<Rightarrow> wreply rh" where "gold_feed timeout = on_feed gold_keys timeout"

definition clear_on_gold_room_players :: "unit rh" where
  "clear_on_gold_room_players = clear_players gold_keys [''GameInGoldRoomPlayers:*:list'', ''WaitJoinGoldRoomPlayers:*:list'']"

text \<open>\<open>registerServiceProtocols\<close>: a call with another number of arguments is a \<open>TypeError\<close>.\<close>

definition gold_calls :: "(string \<Rightarrow> exn + string) \<Rightarrow> (string \<Rightarrow> exn + string list) \<Rightarrow> calls" where
  "gold_calls ev_gameid evl =
     [(''close'', \<lambda>args. case args of [] \<Rightarrow> onGoldServiceClose | _ \<Rightarrow> raiseM TypeError),
      (''joinGoldRoom'', \<lambda>args. case args of [a, p, m] \<Rightarrow> onJoinGoldRoom ev_gameid a p m | _ \<Rightarrow> raiseM TypeError),
      (''cancelJoinGoldRoom'', \<lambda>args. case args of [a] \<Rightarrow> onCancelJoinGoldRoom a | _ \<Rightarrow> raiseM TypeError),
      (''checkJoinGoldRoom'', \<lambda>args. case args of [a] \<Rightarrow> onCheckJoinGoldRoom a | _ \<Rightarrow> raiseM TypeError),
      (''joinGoldRoomSuccess'', \<lambda>args. case args of [t, l, p, r] \<Rightarrow> onJoinGoldRoomSuccess evl t l p r | _ \<Rightarrow> raiseM TypeError),
      (''GoldRoomLeaveSuccess'', \<lambda>args. case args of [t, l] \<Rightarrow> onGoldRoomLeaveSuccess evl t l | _ \<Rightarrow> raiseM TypeError)]"

definition gold_read_protocols :: "nat \<Rightarrow> (string \<Rightarrow> exn + string) \<Rightarrow> (string \<Rightarrow> exn + string list) \<Rightarrow> (wreply \<Rightarrow> string) \<Rightarrow> bool rh" where
  "gold_read_protocols n ev_gameid evl dumps = read_protocols n gold_keys (gold_calls ev_gameid evl) dumps"

section \<open>The party worker\<close>

definition party_keys :: "(string \<Rightarrow> string \<Rightarrow> string \<Rightarrow> string \<Rightarrow> string \<Rightarrow> string) \<Rightarrow> (string \<Rightarrow> string) \<Rightarrow> room_keys" where
  "party_keys already_in account2already = \<lparr>
     prefix_wait = (\<lambda>ag g rule. ''testWaitJoinPartyRoomPlayers:'' @ ag @ '':'' @ g @ '':'' @ rule @ '':list''),
     account2wait = (\<lambda>a. ''testAccount2waitJoinPartyTable:'' @ a @ '':str''),
     prefix_ingame = already_in,
     account2ingame = account2already,
     match_finish = (\<lambda>a. ''testIsMatchFinished:'' @ a @ '':str''),
     protocol_key = ''partyservice:protocols'',
     service_status = ''partyservice:status'',
     protocol_result = (\<lambda>u. ''partyservice:result:'' @ u),
     join_head = ''joinPartyRoom''\<rparr>"

interpretation party: room_queue "party_keys ai aa" for ai aa
  by unfold_locales (simp_all add: party_keys_def service_keys)

definition onJoinPartyRoom where
  "onJoinPartyRoom ai aa account ag gameid = on_join (party_keys ai aa) account ag gameid"

definition onCancelJoinPartyRoom where
  "onCancelJoinPartyRoom ai aa account = on_cancel (party_keys ai aa) account"

definition onCheckJoinPartyRoom where
  "onCheckJoinPartyRoom ai aa account = on_check (party_keys ai aa) account"

definition onPartyRoomLeaveSuccess where
  "onPartyRoomLeaveSuccess ai aa evl (server_table :: string) accountlist = on_leave (party_keys ai aa) evl accountlist"

definition onPartyServiceClose where
  "onPartyServiceClose ai aa = on_close (party_keys ai aa)"

definition party_self_check where
  "party_self_check ai aa = self_check (party_keys ai aa)"

definition party_feed where
  "party_feed ai aa timeout = on_feed (party_keys ai aa) timeout"

text \<open>The web server's side (model/partyModel.py).\<close>

definition isGoldServiceOpening :: "bool rh" where "isGoldServiceOpening = is_opening gold_keys"
definition sendProtocol2GoldService :: "string \<Rightarrow> bool rh" where "sendProtocol2GoldService line = send_protocol gold_keys line"
definition isPartyServiceOpening where "isPartyServiceOpening ai aa = is_opening (party_keys ai aa)"
definition sendProtocol2OnePartyService where "sendProtocol2OnePartyService ai aa line = send_protocol (party_keys ai aa) line"

section \<open>Joining and cancelling\<close>

text \<open>A request to join either changes nothing or appends the player, who was not there, at the end
  of the waiting list of the room and notes the list for the player; no other key changes, and unless
  the player is marked as leaving, the player waits in that list afterwards.\<close>

theorem gold_join:
  assumes "onJoinGoldRoom ev_gameid account playid message s = (Inr r, t)"
  shows "\<exists>gameid. ev_gameid message = Inr gameid \<and> r = Code 0 \<and>
    joined gold_keys account (prefix_wait gold_keys playid gameid DEFAULT_RULE) s t \<and>
    (look s (EXIT_PLAYER account) = None \<longrightarrow>
       account \<in> set (list_of t (prefix_wait gold_keys playid gameid DEFAULT_RULE)))"
proof -
  obtain gameid where g: "ev_gameid message = Inr gameid"
    using assms by (cases "ev_gameid message") (auto simp: onJoinGoldRoom_def bindM_def liftE_def)
  then have "on_join gold_keys account playid gameid s = (Inr r, t)"
    using assms by (simp add: onJoinGoldRoom_def bindM_def liftE_def)
  then show ?thesis using g wp_InrD [OF gold.on_join_wp] by blast
qed

definition demo_room :: redis where
  "demo_room = empty_db\<lparr>kv := [(GAME_TABLE ''1'', RHash [(''party_player_count'', ''2'')]),
     (FORMAT_GAME_SERVICE_SET ''1'', RList [''a:b:c:CNY:1.2.3.4:80'']),
     (prefix_wait gold_keys ''p'' ''1'' ''r'', RList [''ann'', ''bob'', ''cat'', ''dan'', ''eve''])]\<rparr>"

theorem gold_join_witness:
  "\<exists>gameid. Inr ''1'' = (Inr gameid :: exn + string) \<and> Code 0 = Code 0 \<and>
    joined gold_keys ''zoe'' (prefix_wait gold_keys ''p'' gameid DEFAULT_RULE) demo_room
      (snd (onJoinGoldRoom (\<lambda>_. Inr ''1'') ''zoe'' ''p'' ''m'' demo_room)) \<and>
    (look demo_room (EXIT_PLAYER ''zoe'') = None \<longrightarrow>
       ''zoe'' \<in> set (list_of (snd (onJoinGoldRoom (\<lambda>_. Inr ''1'') ''zoe'' ''p'' ''m'' demo_room)) (prefix_wait gold_keys ''p'' gameid DEFAULT_RULE)))"
proof -
  have "fst (onJoinGoldRoom (\<lambda>_. Inr ''1'') ''zoe'' ''p'' ''m'' demo_room) = Inr (Code 0)" by code_simp
  then have "onJoinGoldRoom (\<lambda>_. Inr ''1'') ''zoe'' ''p'' ''m'' demo_room =
      (Inr (Code 0), snd (onJoinGoldRoom (\<lambda>_. Inr ''1'') ''zoe'' ''p'' ''m'' demo_room))" by (simp add: prod_eq_iff)
  from gold_join [OF this] show ?thesis .
qed

text \<open>Cancelling undoes a join: a player who was waiting nowhere, joined, and cancelled leaves the
  waiting list and every other key as they were.\<close>

theorem gold_join_cancel:
  assumes "on_join gold_keys account playid gameid s = (Inr r, t)" "t \<noteq> s"
    and "look s (account2wait gold_keys account) = None"
    and "onCancelJoinGoldRoom account t = (Inr q, u)"
  shows "q = Code 0 \<and>
    list_of u (prefix_wait gold_keys playid gameid DEFAULT_RULE) = list_of s (prefix_wait gold_keys playid gameid DEFAULT_RULE) \<and>
    (\<forall>k. k \<noteq> prefix_wait gold_keys playid gameid DEFAULT_RULE \<longrightarrow> look u k = look s k)"
proof -
  let ?w = "prefix_wait gold_keys playid gameid DEFAULT_RULE"
  have t: "account \<notin> set (list_of s ?w)" "list_of t ?w = list_of s ?w @ [account]"
      "look t (account2wait gold_keys account) = Some (RStr ?w)"
      "\<And>k. k \<noteq> ?w \<Longrightarrow> k \<noteq> account2wait gold_keys account \<Longrightarrow> look t k = look s k"
    using wp_InrD [OF gold.on_join_wp assms(1)] assms(2) by (auto simp: joined_def)
  have "q = Code 0 \<and> look u (account2wait gold_keys account) = None \<and> list_of u ?w = removeAll account (list_of t ?w) \<and>
      (\<forall>k. k \<noteq> ?w \<longrightarrow> k \<noteq> account2wait gold_keys account \<longrightarrow> look u k = look t k)"
    using wp_InrD [OF gold.on_cancel_wp [OF t(3) gold.wait_account]] assms(4) by (simp add: onCancelJoinGoldRoom_def)
  then show ?thesis using t assms(3) by (auto simp: removeAll_id)
qed

theorem gold_join_cancel_witness:
  "Code 0 = Code 0 \<and>
    list_of (snd (onCancelJoinGoldRoom ''zoe'' (snd (on_join gold_keys ''zoe'' ''p'' ''1'' demo_room)))) (prefix_wait gold_keys ''p'' ''1'' DEFAULT_RULE) =
      list_of demo_room (prefix_wait gold_keys ''p'' ''1'' DEFAULT_RULE) \<and>
    look (snd (onCancelJoinGoldRoom ''zoe'' (snd (on_join gold_keys ''zoe'' ''p'' ''1'' demo_room)))) (account2wait gold_keys ''zoe'') =
      look demo_room (account2wait gold_keys ''zoe'')"
proof -
  let ?t = "snd (on_join gold_keys ''zoe'' ''p'' ''1'' demo_room)"
  have "fst (on_join gold_keys ''zoe'' ''p'' ''1'' demo_room) = Inr (Code 0)" by code_simp
  then have j: "on_join gold_keys ''zoe'' ''p'' ''1'' demo_room = (Inr (Code 0), ?t)" by (simp add: prod_eq_iff)
  have "fst (onCancelJoinGoldRoom ''zoe'' ?t) = Inr (Code 0)" by code_simp
  then have c: "onCancelJoinGoldRoom ''zoe'' ?t = (Inr (Code 0), snd (onCancelJoinGoldRoom ''zoe'' ?t))" by (simp add: prod_eq_iff)
  have l: "look ?t (account2wait gold_keys ''zoe'') \<noteq> None" "look demo_room (account2wait gold_keys ''zoe'') = None" by code_simp+
  then have ne: "?t \<noteq> demo_room" by metis
  have "account2wait gold_keys ''zoe'' \<noteq> prefix_wait gold_keys ''p'' ''1'' DEFAULT_RULE" by code_simp
  with gold_join_cancel [OF j ne l(2) c] show ?thesis by blast
qed

section \<open>Forming rooms\<close>

definition plain :: "string \<Rightarrow> bool" where
  "plain x \<longleftrightarrow> CHR '':'' \<notin> set x"

lemma split_gold_key:
  assumes "plain room" "plain g" "plain rule"
  shows "split_on (CHR '':'') (prefix_wait gold_keys room g rule) = [''WaitJoinGoldRoomPlayers'', room, g, rule, ''list'']"
proof -
  have key: "prefix_wait gold_keys room g rule =
      ''WaitJoinGoldRoomPlayers'' @ CHR '':'' # (room @ CHR '':'' # (g @ CHR '':'' # (rule @ CHR '':'' # ''list'')))"
    by (simp add: gold_keys_def)
  show ?thesis
    unfolding key using assms by (simp add: plain_def split_on_append split_on_plain del: append.append_Cons)
qed

lemma gold_check_wp:
  assumes "plain room" "plain g" "plain rule" "is_hash s (GAME_TABLE g)"
    and "hf s (GAME_TABLE g) ''party_player_count'' = Some v" "py_int v = Inr n" "0 < n"
    and "server_queue s g lk" "is_list s (prefix_wait gold_keys room g rule)"
    and "ws = list_of s (prefix_wait gold_keys room g rule)" "n \<le> int (length ws)"
  shows "wp (check_key gold_keys (prefix_wait gold_keys room g rule))
     (\<lambda>_ t. formed gold_keys (prefix_wait gold_keys room g rule) n (take (nat n) ws)
        (length ws div nat n * nat n) lk (replicate (length ws div nat n) (join_line gold_keys (take (nat n) ws) room rule)) s t)
     (\<lambda>_ _. False) s"
proof -
  have v: "v \<noteq> []" using assms(6) by (auto simp: py_int_def py_int_opt_def strip_def lstrip_def)
  have div: "nat (int (length ws) div n) = length ws div nat n"
    using assms(7) by (metis nat_0_le nat_int of_nat_div less_imp_le zdiv_int)
  have len: "length (take (nat n) ws) = nat n" using assms(11) by simp
  have parts: "item (split_on (CHR '':'') (prefix_wait gold_keys room g rule)) 1 = Inr room"
      "item (split_on (CHR '':'') (prefix_wait gold_keys room g rule)) 2 = Inr g"
      "item (split_on (CHR '':'') (prefix_wait gold_keys room g rule)) 3 = Inr rule"
    unfolding split_gold_key [OF assms(1-3)] item_def py_nth_def by simp_all
  have "wp (rooms_loop (int (length ws)) n (form_room gold_keys (prefix_wait gold_keys room g rule) n (take (nat n) ws) room g rule))
     (\<lambda>_ t. formed gold_keys (prefix_wait gold_keys room g rule) n (take (nat n) ws)
        (length ws div nat n * nat n) lk (replicate (length ws div nat n) (join_line gold_keys (take (nat n) ws) room rule)) s t)
     (\<lambda>_ _. False) s"
    by (rule wp_mono [OF gold.rooms_loop_wp [OF assms(7-9)]]) (use assms(11) len div in auto)
  then show ?thesis
    using assms(4-7,9,10) parts v
    by (simp add: check_key_def wp_eqs player_count_of_def py_int_none_def Let_def)
qed

text \<open>C9: a round of matchmaking over a waiting list of a game that has a server forms as many rooms
  as the list has full groups of \<open>n\<close> players and takes that many groups off the front of the list;
  but every room is announced to the server with the same players, the first \<open>n\<close>, and only they are
  marked as matched and taken off the queue they wait in: nothing else changes.\<close>

theorem gold_rooms:
  assumes "plain room" "plain g" "plain rule" "is_hash s (GAME_TABLE g)"
    and "hf s (GAME_TABLE g) ''party_player_count'' = Some v" "py_int v = Inr n" "0 < n"
    and "server_queue s g lk" "is_list s (prefix_wait gold_keys room g rule)"
    and "ws = list_of s (prefix_wait gold_keys room g rule)" "n \<le> int (length ws)"
  shows "\<exists>t. check_key gold_keys (prefix_wait gold_keys room g rule) s = (Inr (), t) \<and>
    formed gold_keys (prefix_wait gold_keys room g rule) n (take (nat n) ws) (length ws div nat n * nat n) lk
      (replicate (length ws div nat n) (join_line gold_keys (take (nat n) ws) room rule)) s t"
proof -
  obtain r t where rt: "check_key gold_keys (prefix_wait gold_keys room g rule) s = (r, t)"
    by (cases "check_key gold_keys (prefix_wait gold_keys room g rule) s")
  then show ?thesis using gold_check_wp [OF assms] by (cases r) (auto simp: wp_def)
qed

lemma demo_server: "server_queue demo_room ''1'' (FORMAT_SERVICE_PROTOCOL_TABLE ''1'' ''CNY:1.2.3.4:80'')"
proof -
  have s: "list_of demo_room (FORMAT_GAME_SERVICE_SET ''1'') = [''a:b:c:CNY:1.2.3.4:80'']"
    "is_list demo_room (FORMAT_GAME_SERVICE_SET ''1'')" "is_list demo_room (FORMAT_SERVICE_PROTOCOL_TABLE ''1'' ''CNY:1.2.3.4:80'')"
    "split_on (CHR '':'') ''a:b:c:CNY:1.2.3.4:80'' = [''a'', ''b'', ''c'', ''CNY'', ''1.2.3.4'', ''80'']"
    by code_simp+
  then show ?thesis
    by (simp add: server_queue_def)
qed

theorem gold_rooms_witness:
  "\<exists>t. check_key gold_keys (prefix_wait gold_keys ''p'' ''1'' ''r'') demo_room = (Inr (), t) \<and>
    formed gold_keys (prefix_wait gold_keys ''p'' ''1'' ''r'') 2 (take (nat 2) [''ann'', ''bob'', ''cat'', ''dan'', ''eve''])
      (length [''ann'', ''bob'', ''cat'', ''dan'', ''eve''] div nat 2 * nat 2) (FORMAT_SERVICE_PROTOCOL_TABLE ''1'' ''CNY:1.2.3.4:80'')
      (replicate (length [''ann'', ''bob'', ''cat'', ''dan'', ''eve''] div nat 2)
        (join_line gold_keys (take (nat 2) [''ann'', ''bob'', ''cat'', ''dan'', ''eve'']) ''p'' ''r'')) demo_room t"
proof (rule gold_rooms)
  show "plain ''p''" "plain ''1''" "plain ''r''" by (simp_all add: plain_def)
  show "is_hash demo_room (GAME_TABLE ''1'')" "hf demo_room (GAME_TABLE ''1'') ''party_player_count'' = Some ''2''"
    "py_int ''2'' = Inr 2" "is_list demo_room (prefix_wait gold_keys ''p'' ''1'' ''r'')"
    "[''ann'', ''bob'', ''cat'', ''dan'', ''eve''] = list_of demo_room (prefix_wait gold_keys ''p'' ''1'' ''r'')"
    by code_simp+
  show "server_queue demo_room ''1'' (FORMAT_SERVICE_PROTOCOL_TABLE ''1'' ''CNY:1.2.3.4:80'')"
    by (rule demo_server)
qed simp_all

text \<open>The players of the second and later groups of a long waiting list are lost: they are no longer
  in the list and were not marked as matched, while their entry still points at the list, so that
  neither the game server nor a later round will ever seat them.\<close>

theorem gold_rooms_lost:
  assumes "plain room" "plain g" "plain rule" "is_hash s (GAME_TABLE g)"
    and "hf s (GAME_TABLE g) ''party_player_count'' = Some v" "py_int v = Inr n" "0 < n"
    and "server_queue s g lk" "is_list s (prefix_wait gold_keys room g rule)"
    and "ws = list_of s (prefix_wait gold_keys room g rule)" "distinct ws"
    and "nat n \<le> i" "i < length ws div nat n * nat n"
  shows "\<exists>t. check_key gold_keys (prefix_wait gold_keys room g rule) s = (Inr (), t) \<and>
    ws ! i \<notin> set (list_of t (prefix_wait gold_keys room g rule)) \<and>
    look t (match_finish gold_keys (ws ! i)) = look s (match_finish gold_keys (ws ! i)) \<and>
    look t (account2wait gold_keys (ws ! i)) = look s (account2wait gold_keys (ws ! i))"
proof -
  let ?key = "prefix_wait gold_keys room g rule"
  let ?m = "length ws div nat n * nat n"
  have m: "?m \<le> length ws" by (simp add: mult.commute)
  then have "n \<le> int (length ws)" using assms(7,12,13) by linarith
  from gold_check_wp [OF assms(1-10) this] obtain t where t: "check_key gold_keys ?key s = (Inr (), t)"
      "formed gold_keys ?key n (take (nat n) ws) ?m lk (replicate (length ws div nat n) (join_line gold_keys (take (nat n) ws) room rule)) s t"
    by (cases "check_key gold_keys ?key s"; cases "fst (check_key gold_keys ?key s)") (auto simp: wp_def)
  have i: "i < length ws" using assms(13) m by linarith
  have out: "ws ! i \<notin> set (take (nat n) ws)" "ws ! i \<notin> set (drop ?m ws)"
    using assms(11-13) m i by (auto simp: in_set_conv_nth nth_eq_iff_index_eq)
  obtain d where lk: "lk = FORMAT_SERVICE_PROTOCOL_TABLE g d" using assms(8) by (auto simp: server_queue_def)
  have "list_of t ?key = drop ?m ws" using t(2) assms(10) by (simp add: formed_def)
  moreover have "look t (match_finish gold_keys (ws ! i)) = look s (match_finish gold_keys (ws ! i))"
    using out(1) lk by (auto intro!: formed_frame [OF t(2)])
  moreover have "look t (account2wait gold_keys (ws ! i)) = look s (account2wait gold_keys (ws ! i))"
    using out(1) lk by (auto intro!: formed_frame [OF t(2)])
  ultimately show ?thesis using t(1) out(2) by auto
qed

theorem gold_rooms_lost_witness:
  "\<exists>t. check_key gold_keys (prefix_wait gold_keys ''p'' ''1'' ''r'') demo_room = (Inr (), t) \<and>
    [''ann'', ''bob'', ''cat'', ''dan'', ''eve''] ! 2 \<notin> set (list_of t (prefix_wait gold_keys ''p'' ''1'' ''r'')) \<and>
    look t (match_finish gold_keys ([''ann'', ''bob'', ''cat'', ''dan'', ''eve''] ! 2)) =
      look demo_room (match_finish gold_keys ([''ann'', ''bob'', ''cat'', ''dan'', ''eve''] ! 2)) \<and>
    look t (account2wait gold_keys ([''ann'', ''bob'', ''cat'', ''dan'', ''eve''] ! 2)) =
      look demo_room (account2wait gold_keys ([''ann'', ''bob'', ''cat'', ''dan'', ''eve''] ! 2))"
proof (rule gold_rooms_lost [where n = 2 and v = "''2''" and lk = "FORMAT_SERVICE_PROTOCOL_TABLE ''1'' ''CNY:1.2.3.4:80''"])
  show "plain ''p''" "plain ''1''" "plain ''r''" by (simp_all add: plain_def)
  show "is_hash demo_room (GAME_TABLE ''1'')" "hf demo_room (GAME_TABLE ''1'') ''party_player_count'' = Some ''2''"
    "py_int ''2'' = Inr 2" "is_list demo_room (prefix_wait gold_keys ''p'' ''1'' ''r'')"
    "[''ann'', ''bob'', ''cat'', ''dan'', ''eve''] = list_of demo_room (prefix_wait gold_keys ''p'' ''1'' ''r'')"
    by code_simp+
  show "server_queue demo_room ''1'' (FORMAT_SERVICE_PROTOCOL_TABLE ''1'' ''CNY:1.2.3.4:80'')"
    by (rule demo_server)
qed simp_all

section \<open>The protocol loop\<close>

lemma calm_gold_line: "calm (protocol_key gold_keys) (serve_line gold_keys (gold_calls ev_gameid evl) dumps l)"
proof -
  note h = onGoldServiceClose_def onJoinGoldRoom_def onCancelJoinGoldRoom_def onCheckJoinGoldRoom_def
    onJoinGoldRoomSuccess_def onGoldRoomLeaveSuccess_def
  have list: "calm pk m \<Longrightarrow> (\<And>x xs. calm pk (f x xs)) \<Longrightarrow> calm pk (case v of [] \<Rightarrow> m | x # xs \<Rightarrow> f x xs)" for pk v and m :: "wreply rh" and f
    by (cases v) auto
  have "calm (protocol_key gold_keys) (f args)" if "map_of (gold_calls ev_gameid evl) name = Some f" for name f args
    using that unfolding gold_calls_def
    by (auto simp: h split: if_splits intro!: list calm_intros gold.calm_handlers)
  then show ?thesis
    by (auto simp: serve_line_def Let_def split: option.split
        intro!: calm_intros gold.protocol_result [symmetric])
qed

text \<open>C37: serving the protocol queue ends: whatever the lines ask for, one round per waiting line and
  one more empties the queue or stops at an empty line, and no call makes the worker fail.\<close>

theorem gold_read_protocols_ends:
  assumes "is_list s (protocol_key gold_keys)"
  shows "\<exists>t. gold_read_protocols (Suc (length (list_of s (protocol_key gold_keys)))) ev_gameid evl dumps s = (Inr True, t)"
  unfolding gold_read_protocols_def
  by (rule read_protocols_ends [OF calm_gold_line serve_line_returns assms]) simp

theorem gold_read_protocols_ends_witness:
  "\<exists>t. gold_read_protocols (Suc (length (list_of demo_room (protocol_key gold_keys)))) (\<lambda>_. Inr ''1'') (\<lambda>_. Inl SyntaxError) (\<lambda>_. []) demo_room = (Inr True, t)"
  by (rule gold_read_protocols_ends) code_simp

end
