(* ===== verification/FishFriend.thy ===== *)
theory FishFriend
  imports FishBag Sessions
begin

text \<open>
  Mails and friends of the fishing game (fish/fish_friend.py), every handler of the module.  The
  clock is an argument (\<open>now\<close> seconds, \<open>stamp\<close> the formatted local time, \<open>date_of\<close> the text of a day
  counted in days); the text of an attachment list and Python's \<open>eval\<close> of it are arguments too
  (\<open>str_list\<close>, \<open>ev\<close>).  A message is its tag.
\<close>

section \<open>Keys\<close>

definition mail_key :: "string \<Rightarrow> string" where "mail_key eid = ''fish:mail:'' @ eid"
definition system_mails :: "string option \<Rightarrow> string" where "system_mails uid = ''user:'' @ fmt uid @ '':system:mails''"
definition player_mails :: "string option \<Rightarrow> string" where "player_mails uid = ''user:'' @ fmt uid @ '':player:mails''"
definition player_mail :: "string option \<Rightarrow> string" where "player_mail uid = ''user:'' @ fmt uid @ '':player:mail''"
definition friend_key :: "string option \<Rightarrow> string" where "friend_key uid = ''user:'' @ fmt uid @ '':friend:set''"
definition req_key :: "string option \<Rightarrow> string" where "req_key uid = ''user:'' @ fmt uid @ '':friend:req:list''"
definition invite_key :: "string \<Rightarrow> string" where "invite_key iid = ''friend:invite:'' @ iid"
definition invited_req :: "string \<Rightarrow> string" where "invited_req uid = ''user:'' @ uid @ '':invited:req''"
definition invited_room :: "string \<Rightarrow> string" where "invited_room no = ''user:'' @ no @ '':invited:room:no''"
definition active_users :: "string \<Rightarrow> string" where "active_users date = ''active:users:date:'' @ date"
definition gain_key :: "string \<Rightarrow> string option \<Rightarrow> string \<Rightarrow> string" where
  "gain_key what uid today = ''user:'' @ fmt uid @ '':gain:'' @ what @ '':date:'' @ today"

section \<open>Attachments\<close>

datatype pyv = PInt int | PStr string

type_synonym pydict = "(string \<times> pyv) list"

fun pyv_int :: "pyv \<Rightarrow> exn + int" where
  "pyv_int (PInt n) = Inr n"
| "pyv_int (PStr t) = py_int t"

definition dict_int :: "pydict \<Rightarrow> string \<Rightarrow> exn + int" where
  "dict_int d k = (case map_of d k of None \<Rightarrow> Inl KeyError | Some v \<Rightarrow> pyv_int v)"

definition choose_attach :: "string \<Rightarrow> int rh" where
  "choose_attach sid =
     bindM (uidBySid sid) (\<lambda>uid.
     bindM (hmget (user_key uid) [''coin'', ''warhead'']) (\<lambda>v. liftE (int_or (v ! 1) 0)))"

text \<open>One entry of an attachment list, credited to the user.\<close>

definition credit_attach :: "string option \<Rightarrow> pydict \<Rightarrow> unit rh" where
  "credit_attach uid c =
     bindM (liftE (dict_int c ''id'')) (\<lambda>i.
     if i = 1 then bindM (liftE (dict_int c ''num'')) (\<lambda>n. drop_reply (hincrby (user_key uid) ''coin'' (show_int n)))
     else if i = 2 then bindM (liftE (dict_int c ''num'')) (\<lambda>n. drop_reply (hincrby (user_key uid) ''warhead'' (show_int n)))
     else retM ())"

definition mail_set :: "string option \<Rightarrow> string option \<Rightarrow> string" where
  "mail_set ty uid = (if ty = Some ''0'' then system_mails uid else player_mails uid)"

definition get_attach :: "(string \<Rightarrow> exn + pydict list) \<Rightarrow> string \<Rightarrow> string \<Rightarrow> reply rh" where
  "get_attach ev eid_form sid =
     (let eid = strip eid_form in
      bindM (uidBySid sid) (\<lambda>uid.
      bindM (hget (mail_key eid) ''attach'') (\<lambda>attach.
      if truthy attach then
        bindM (liftE (ev (the attach))) (\<lambda>cs.
        thenM (forM cs (credit_attach uid))
        (bindM (hget (mail_key eid) ''type'') (\<lambda>ty.
        thenM (srem (mail_set ty uid) eid)
        (thenM (delete_key (mail_key eid))
        (retM (Reply 0 ''ok''))))))
      else retM (Reply 1 ''nothing to fetch''))))"

section \<open>Mails\<close>

definition mail_attach :: "int \<Rightarrow> int \<Rightarrow> pydict list" where
  "mail_attach c w =
     (if c \<noteq> 0 then [[(''id'', PInt 1), (''num'', PInt c)]] else []) @
     (if w \<noteq> 0 then [[(''id'', PInt 2), (''num'', PInt w)]] else [])"

text \<open>\<open>/send/mail\<close>: the coins of the form (field 1) are read and then overwritten by the balance.\<close>

definition send_mail :: "(pydict list \<Rightarrow> string) \<Rightarrow> int \<Rightarrow> string \<Rightarrow> string \<Rightarrow> string \<Rightarrow> string \<Rightarrow> string \<Rightarrow> reply rh" where
  "send_mail str_list now stamp sid recv_form coin_form warhead_form =
     bindM (uidBySid sid) (\<lambda>uid.
     (let recv_uid = strip recv_form in
      thenM (liftE (py_int (strip coin_form)))
      (bindM (liftE (py_int (strip warhead_form))) (\<lambda>warhead.
      bindM (hget (user_key uid) ''coin'') (\<lambda>c.
      bindM (liftE (int_or c 0)) (\<lambda>coin.
      if coin - 1000 < 0 then retM (Reply 1 ''postage is 1000 coins'') else
      bindM (scard (player_mail (Some recv_uid))) (\<lambda>n.
      if n \<ge> 20 then retM (Reply 1 ''mailbox full'') else
      thenM (hincrby (user_key uid) ''coin'' (show_int (- 1000)))
      (case uid of None \<Rightarrow> raiseM TypeError | Some u \<Rightarrow>
      (let eid = u @ ''|'' @ show_int now in
      thenM (sadd (player_mails (Some recv_uid)) eid)
      (bindM (hget (user_key uid) ''nickname'') (\<lambda>nickname.
      thenM (hmset (mail_key eid)
        [(''eid'', eid), (''from'', fmt nickname), (''from_uid'', u), (''attach'', str_list (mail_attach coin warhead)),
         (''timestamp'', show_int now), (''send_time'', stamp), (''type'', ''1''), (''isRead'', ''0'')])
      (retM (Reply 0 ''sent'')))))))))))))"

text \<open>\<open>/show/mails\<close>: mails older than thirty days go first; then the unread and the read ones, each
  part latest first.\<close>

definition drop_expired :: "int \<Rightarrow> string option \<Rightarrow> string \<Rightarrow> unit rh" where
  "drop_expired now uid eid =
     bindM (liftE (case split_on (CHR ''|'') eid of _ # t # _ \<Rightarrow> py_int t | _ \<Rightarrow> Inl IndexError)) (\<lambda>send_ts.
     if now - send_ts > 3600 * 24 * 30 then
       bindM (hget (mail_key eid) ''type'') (\<lambda>ty.
       thenM (delete_key (mail_key eid)) (srem (mail_set ty uid) eid))
     else retM ())"

record mail =
  mail_dic :: "(string \<times> string) list"
  mail_attachments :: "pydict list"
  unread :: bool

definition load_mail :: "(string \<Rightarrow> exn + pydict list) \<Rightarrow> string \<Rightarrow> mail rh" where
  "load_mail ev eid =
     bindM (hgetall (mail_key eid)) (\<lambda>dic.
     bindM (liftE (case map_of dic ''attach'' of None \<Rightarrow> Inl KeyError | Some t \<Rightarrow> ev t)) (\<lambda>a.
     bindM (hget (mail_key eid) ''isRead'') (\<lambda>r.
     retM \<lparr>mail_dic = dic, mail_attachments = a, unread = (r = Some ''0'')\<rparr>)))"

definition mail_ts :: "mail \<Rightarrow> exn + int" where
  "mail_ts m = (case map_of (mail_dic m) ''timestamp'' of None \<Rightarrow> Inl KeyError | Some t \<Rightarrow> py_int t)"

text \<open>\<open>sorted(l, key=\<dots>, reverse=True)\<close>: the keys are computed first; equal keys keep their order.\<close>

definition sorted_by_ts :: "mail list \<Rightarrow> (int \<times> mail) list rh" where
  "sorted_by_ts l =
     bindM (mapM l (\<lambda>m. bindM (liftE (mail_ts m)) (\<lambda>t. retM (t, m)))) (\<lambda>kl.
     retM (sort_key (\<lambda>p. - fst p) kl))"

definition all_mails :: "string option \<Rightarrow> string list rh" where
  "all_mails uid = bindM (smembers (system_mails uid)) (\<lambda>a. bindM (smembers (player_mails uid)) (\<lambda>b. retM (a @ b)))"

definition show_mails :: "(string \<Rightarrow> exn + pydict list) \<Rightarrow> int \<Rightarrow> string \<Rightarrow> mail list rh" where
  "show_mails ev now sid =
     bindM (uidBySid sid) (\<lambda>uid.
     bindM (all_mails uid) (\<lambda>eids.
     thenM (forM eids (drop_expired now uid))
     (bindM (all_mails uid) (\<lambda>eids.
     bindM (mapM eids (load_mail ev)) (\<lambda>ms.
     bindM (sorted_by_ts (filter unread ms)) (\<lambda>us.
     bindM (sorted_by_ts (filter (\<lambda>m. \<not> unread m) ms)) (\<lambda>rs.
     retM (map snd us @ map snd rs))))))))"

definition read_mail :: "string \<Rightarrow> reply rh" where
  "read_mail eid = thenM (hset (mail_key (strip eid)) ''isRead'' ''1'') (retM (Reply 0 ''ok''))"

definition del_mail :: "string \<Rightarrow> string \<Rightarrow> reply rh" where
  "del_mail eid_form sid =
     (let eid = strip eid_form in
      bindM (uidBySid sid) (\<lambda>uid.
      bindM (hget (mail_key eid) ''type'') (\<lambda>ty.
      thenM (srem (mail_set ty uid) eid)
      (thenM (delete_key (mail_key eid)) (retM (Reply 0 ''deleted''))))))"

section \<open>Friends\<close>

definition friend_del :: "string \<Rightarrow> string \<Rightarrow> reply rh" where
  "friend_del sid del_form =
     (let del_uid = strip del_form in
      bindM (uidBySid sid) (\<lambda>uid.
      thenM (srem (friend_key (Some del_uid)) (fmt uid))
      (thenM (srem (friend_key uid) del_uid) (retM (Reply 0 ''deleted'')))))"

definition friend_comment :: "string \<Rightarrow> string \<Rightarrow> reply rh" where
  "friend_comment sid comment = bindM (uidBySid sid) (\<lambda>uid.
     thenM (hset (user_key uid) ''comment'' (strip comment)) (retM (Reply 0 ''ok'')))"

text \<open>\<open>/friend/room/invite\<close>: \<open>hget\<close> takes two arguments and is called with three.\<close>

definition room_invite :: "string \<Rightarrow> string \<Rightarrow> string \<Rightarrow> reply rh" where
  "room_invite sid invite_form room_form =
     (let invite_uid = strip invite_form; room_no = strip room_form in
      thenM (uidBySid sid)
      (thenM (setex (invited_room room_no) room_no 30)
      (bindM (llen (invited_req invite_uid)) (\<lambda>n.
      thenM (if n > 3 then drop_reply (rpop (invited_req invite_uid)) else retM ())
      (raiseM TypeError)))))"

text \<open>\<open>random.sample\<close>: \<open>k\<close> draws without putting back; the argument \<open>rs\<close> is the randomness.\<close>

fun py_sample :: "nat \<Rightarrow> nat list \<Rightarrow> 'a list \<Rightarrow> 'a list" where
  "py_sample 0 rs xs = []"
| "py_sample (Suc k) rs [] = []"
| "py_sample (Suc k) rs (x # xs) =
     (let i = (case rs of [] \<Rightarrow> 0 | r # _ \<Rightarrow> r) mod length (x # xs)
      in (x # xs) ! i # py_sample k (tl rs) (take i (x # xs) @ drop (Suc i) (x # xs)))"

text \<open>\<open>l.remove(x)\<close>.\<close>

definition py_remove :: "'a \<Rightarrow> 'a list \<Rightarrow> exn + 'a list" where
  "py_remove x l = (if x \<in> set l then Inr (remove1 x l) else Inl ValueError)"

fun remove_all :: "'a list \<Rightarrow> 'a list \<Rightarrow> exn + 'a list" where
  "remove_all [] l = Inr l"
| "remove_all (f # fs) l = (case py_remove f l of Inl e \<Rightarrow> Inl e | Inr l' \<Rightarrow> remove_all fs l')"

definition get_find_uids :: "nat list \<Rightarrow> string list \<Rightarrow> string option \<Rightarrow> string list rh" where
  "get_find_uids rs find_uids self_uid =
     (let find_uids = (case self_uid of Some u \<Rightarrow> remove1 u find_uids | None \<Rightarrow> find_uids) in
      bindM (smembers (friend_key self_uid)) (\<lambda>friends.
      bindM (liftE (remove_all friends find_uids)) (\<lambda>l.
      retM (if length l < 10 then l else py_sample 10 rs l))))"

text \<open>The card of a player in the lists.\<close>

record card =
  uid_c :: string
  headImgUrl_c :: "string option"
  nickname_c :: "string option"
  last_login_date_c :: "string option"
  comment_c :: string
  today_fish_c :: string
  today_coins_c :: string
  today_warheads_c :: string

definition str_or :: "string option \<Rightarrow> string \<Rightarrow> string" where
  "str_or v d = (if truthy v then the v else d)"

text \<open>The remark shown for a player without one (its UTF-8 bytes).\<close>

definition LAZY_COMMENT :: string where
  "LAZY_COMMENT = map char_of [0xE8, 0xBF, 0x99, 0xE4, 0xB8, 0xAA, 0xE4, 0xBA, 0xBA, 0xE5, 0xBE, 0x88, 0xE6, 0x87, 0x92,
     0xEF, 0xBC, 0x8C, 0xE8, 0xBF, 0x98, 0xE6, 0xB2, 0xA1, 0xE6, 0x9C, 0x89, 0xE5, 0xA4, 0x87, 0xE6, 0xB3, 0xA8,
     0xE3, 0x80, 0x82 :: nat]"

definition gains :: "string option \<Rightarrow> string \<Rightarrow> (string \<times> string \<times> string) rh" where
  "gains uid today =
     bindM (get (gain_key ''fish'' uid today)) (\<lambda>f.
     bindM (get (gain_key ''coins'' uid today)) (\<lambda>c.
     bindM (get (gain_key ''warheads'' uid today)) (\<lambda>w.
     retM (str_or f ''0'', str_or c ''0'', str_or w ''0''))))"

definition card_of :: "string \<Rightarrow> string \<Rightarrow> string \<Rightarrow> card rh" where
  "card_of lazy today friend =
     bindM (gains (Some friend) today) (\<lambda>(f, c, w).
     bindM (hmget (user_key (Some friend)) [''headImgUrl'', ''nickname'', ''last_login_date'', ''comment'']) (\<lambda>v.
     retM \<lparr>uid_c = friend, headImgUrl_c = v ! 0, nickname_c = v ! 1, last_login_date_c = v ! 2,
       comment_c = str_or (v ! 3) lazy, today_fish_c = f, today_coins_c = c, today_warheads_c = w\<rparr>))"

text \<open>\<open>/friend/find/list\<close>: the players active today or on one of the seven days before, without
  the player and the friends; at most ten of them.\<close>

definition friend_find_list :: "(int \<Rightarrow> string) \<Rightarrow> int \<Rightarrow> nat list \<Rightarrow> string \<Rightarrow> card list rh" where
  "friend_find_list date_of day rs sid =
     bindM (uidBySid sid) (\<lambda>uid.
     bindM (mapM [0..<8] (\<lambda>i. smembers (active_users (date_of (day - int i))))) (\<lambda>uids.
     bindM (get_find_uids rs (remdups (concat uids)) uid) (\<lambda>find_uids.
     mapM find_uids (card_of LAZY_COMMENT (date_of day)))))"

definition friend_search :: "string \<Rightarrow> string \<Rightarrow> card option rh" where
  "friend_search today search_form =
     (let search_id = strip search_form in
      bindM (exists_key (user_key (Some search_id))) (\<lambda>b.
      if \<not> b then retM None else
      bindM (hmget (user_key (Some search_id)) [''headImgUrl'', ''nickname'', ''last_login_date'', ''comment'']) (\<lambda>v.
      bindM (gains (Some search_id) today) (\<lambda>(f, c, w).
      retM (Some \<lparr>uid_c = search_id, headImgUrl_c = v ! 0, nickname_c = v ! 1, last_login_date_c = v ! 2,
        comment_c = str_or (v ! 3) [], today_fish_c = f, today_coins_c = c, today_warheads_c = w\<rparr>)))))"

definition friend_list :: "string \<Rightarrow> string \<Rightarrow> card list rh" where
  "friend_list today sid =
     bindM (uidBySid sid) (\<lambda>uid.
     bindM (smembers (friend_key uid)) (\<lambda>friends.
     mapM friends (card_of LAZY_COMMENT today)))"

section \<open>Invitations\<close>

definition from_of :: "string \<Rightarrow> string" where
  "from_of iid = hd (split_on (CHR ''|'') iid)"

text \<open>\<open>/friend/invite\<close>: dropping the oldest request of a full list calls the unbound name \<open>reids\<close>.\<close>

definition friend_invite :: "int \<Rightarrow> string \<Rightarrow> string \<Rightarrow> string \<Rightarrow> string \<Rightarrow> reply rh" where
  "friend_invite now stamp msg sid to_form =
     bindM (uidBySid sid) (\<lambda>uid.
     bindM (hget (user_key uid) ''nickname'') (\<lambda>nickname.
     (let to_uid = strip to_form in
      if uid = Some to_uid then retM (Reply 1 ''yourself'') else
      bindM (smembers (friend_key (Some to_uid))) (\<lambda>theirs.
      if uid \<in> Some ` set theirs then retM (Reply 1 ''already a friend of theirs'') else
      bindM (smembers (friend_key uid)) (\<lambda>mine.
      if to_uid \<in> set mine then retM (Reply 1 ''already a friend'') else
      bindM (scard (friend_key uid)) (\<lambda>n.
      if n > 30 then retM (Reply 1 ''you have too many friends'') else
      bindM (scard (friend_key (Some to_uid))) (\<lambda>n.
      if n > 30 then retM (Reply 1 ''they have too many friends'') else
      thenM (hget (user_key (Some to_uid)) ''account'')
      (bindM (lrange_all (req_key (Some to_uid))) (\<lambda>iids.
      if uid \<in> Some ` set (map from_of iids) then retM (Reply 1 ''already asked'') else
      (case uid of None \<Rightarrow> raiseM TypeError | Some u \<Rightarrow>
      (let invite_id = u @ ''|'' @ show_int now in
      bindM (llen (req_key (Some to_uid))) (\<lambda>n.
      if n > 30 then raiseM NameError else
      thenM (lpush (req_key (Some to_uid)) invite_id)
      (thenM (hmset (invite_key invite_id)
         [(''uid'', u), (''msg'', strip msg), (''send_time'', stamp), (''nickname'', fmt nickname)])
      (retM (Reply 0 ''sent'')))))))))))))))"

definition friend_accept_invite :: "string \<Rightarrow> string \<Rightarrow> string \<Rightarrow> reply rh" where
  "friend_accept_invite sid from_form invite_form =
     bindM (uidBySid sid) (\<lambda>uid.
     (let from_uid = strip from_form; invite_id = strip invite_form in
      bindM (scard (friend_key uid)) (\<lambda>n.
      if n > 30 then retM (Reply 1 ''you have too many friends'') else
      bindM (scard (friend_key (Some from_uid))) (\<lambda>n.
      if n > 30 then retM (Reply 1 ''they have too many friends'') else
      thenM (sadd (friend_key uid) from_uid)
      (thenM (sadd (friend_key (Some from_uid)) (fmt uid))
      (thenM (delete_key (invite_key invite_id))
      (thenM (lrem (req_key uid) invite_id)
      (retM (Reply 0 ''added'')))))))))"

definition friend_refuse_invite :: "string \<Rightarrow> string \<Rightarrow> reply rh" where
  "friend_refuse_invite sid invite_form =
     (let invite_id = strip invite_form in
      bindM (uidBySid sid) (\<lambda>uid.
      thenM (lrem (req_key uid) invite_id)
      (thenM (delete_key (invite_key invite_id)) (retM (Reply 0 ''ok'')))))"

text \<open>\<open>/friend/req/list\<close>: the stored request with the sender's remark and gains of the day.\<close>

definition req_entry :: "string \<Rightarrow> string \<Rightarrow> (string \<times> string) list rh" where
  "req_entry today req =
     bindM (gains (Some (from_of req)) today) (\<lambda>(f, c, w).
     bindM (hgetall (invite_key req)) (\<lambda>dic.
     bindM (hget (user_key (Some (from_of req))) ''comment'') (\<lambda>cm.
     retM (fold (\<lambda>(k, v) d. AList.update k v d)
       [(''invite_id'', req), (''comment'', str_or cm LAZY_COMMENT), (''today_fish'', f), (''today_coins'', c), (''today_warheads'', w)]
       dic))))"

definition friend_req_list :: "string \<Rightarrow> string \<Rightarrow> (string \<times> string) list list rh" where
  "friend_req_list today sid =
     bindM (uidBySid sid) (\<lambda>uid.
     bindM (lrange_all (req_key uid)) (\<lambda>reqs. mapM reqs (req_entry today)))"

end
