(* ===== verification/FriendLaws.thy ===== *)
theory FriendLaws
  imports FishFriend
begin

text \<open>
  What holds of friendships and of friend requests over every history of requests to the module
  fish/fish_friend.py, whatever the clients send and whichever of them fail half-way.
\<close>

section \<open>The requests\<close>

datatype friend_op =
    ChooseAttach string | GetAttach string string
  | SendMail int string string string string string
  | ShowMails int string | ReadMail string | DelMail string string
  | FriendDel string string | FriendComment string string | RoomInvite string string string
  | FindList int "nat list" string | Search string string | FriendList string string
  | Invite int string string string string | Accept string string string | Refuse string string
  | ReqList string string

fun friend_step :: "(pydict list \<Rightarrow> string) \<Rightarrow> (string \<Rightarrow> exn + pydict list) \<Rightarrow> (int \<Rightarrow> string) \<Rightarrow> friend_op \<Rightarrow> redis \<Rightarrow> redis" where
  "friend_step sl ev d (ChooseAttach sid) s = snd (choose_attach sid s)"
| "friend_step sl ev d (GetAttach eid sid) s = snd (get_attach ev eid sid s)"
| "friend_step sl ev d (SendMail now stamp sid r c w) s = snd (send_mail sl now stamp sid r c w s)"
| "friend_step sl ev d (ShowMails now sid) s = snd (show_mails ev now sid s)"
| "friend_step sl ev d (ReadMail eid) s = snd (read_mail eid s)"
| "friend_step sl ev d (DelMail eid sid) s = snd (del_mail eid sid s)"
| "friend_step sl ev d (FriendDel sid u) s = snd (friend_del sid u s)"
| "friend_step sl ev d (FriendComment sid c) s = snd (friend_comment sid c s)"
| "friend_step sl ev d (RoomInvite sid u r) s = snd (room_invite sid u r s)"
| "friend_step sl ev d (FindList day rs sid) s = snd (friend_find_list d day rs sid s)"
| "friend_step sl ev d (Search today u) s = snd (friend_search today u s)"
| "friend_step sl ev d (FriendList today sid) s = snd (friend_list today sid s)"
| "friend_step sl ev d (Invite now stamp msg sid u) s = snd (friend_invite now stamp msg sid u s)"
| "friend_step sl ev d (Accept sid f i) s = snd (friend_accept_invite sid f i s)"
| "friend_step sl ev d (Refuse sid i) s = snd (friend_refuse_invite sid i s)"
| "friend_step sl ev d (ReqList today sid) s = snd (friend_req_list today sid s)"

definition friend_run :: "(pydict list \<Rightarrow> string) \<Rightarrow> (string \<Rightarrow> exn + pydict list) \<Rightarrow> (int \<Rightarrow> string) \<Rightarrow> friend_op list \<Rightarrow> redis \<Rightarrow> redis" where
  "friend_run sl ev d ops s = fold (friend_step sl ev d) ops s"

lemma friend_run_keeps:
  assumes "\<And>op. op \<in> set ops \<Longrightarrow> keeps P (\<lambda>s. (Inr (), friend_step sl ev d op s))" "P s"
  shows "P (friend_run sl ev d ops s)"
  using assms by (induction ops arbitrary: s) (auto simp: friend_run_def keeps_def)

section \<open>Keys\<close>

lemmas mail_friend_keys = mail_key_def system_mails_def player_mails_def player_mail_def friend_key_def req_key_def
  invite_key_def invited_req_def invited_room_def active_users_def gain_key_def user_key_def FORMAT_USER_HALL_SESSION_def

lemma rev_neq: "rev a \<noteq> rev b \<Longrightarrow> a \<noteq> b"
  by auto

lemma friend_key_neq [simp]:
  "mail_key e \<noteq> friend_key v" "system_mails u \<noteq> friend_key v" "player_mails u \<noteq> friend_key v"
  "req_key u \<noteq> friend_key v" "invite_key i \<noteq> friend_key v" "invited_req r \<noteq> friend_key v"
  "invited_room r \<noteq> friend_key v" "user_key u \<noteq> friend_key v" "FORMAT_USER_HALL_SESSION r \<noteq> friend_key v"
  by (rule rev_neq; simp add: mail_friend_keys; fail | simp add: mail_friend_keys)+

lemma req_key_neq [simp]:
  "mail_key e \<noteq> req_key v" "system_mails u \<noteq> req_key v" "player_mails u \<noteq> req_key v"
  "friend_key u \<noteq> req_key v" "invite_key i \<noteq> req_key v" "invited_req r \<noteq> req_key v"
  "invited_room r \<noteq> req_key v" "user_key u \<noteq> req_key v" "FORMAT_USER_HALL_SESSION r \<noteq> req_key v"
  by (rule rev_neq; simp add: mail_friend_keys; fail | simp add: mail_friend_keys)+

lemma session_key_neq [simp]:
  "mail_key e \<noteq> FORMAT_USER_HALL_SESSION v" "system_mails u \<noteq> FORMAT_USER_HALL_SESSION v"
  "player_mails u \<noteq> FORMAT_USER_HALL_SESSION v" "friend_key u \<noteq> FORMAT_USER_HALL_SESSION v"
  "req_key u \<noteq> FORMAT_USER_HALL_SESSION v" "invite_key i \<noteq> FORMAT_USER_HALL_SESSION v"
  "invited_req r \<noteq> FORMAT_USER_HALL_SESSION v" "invited_room r \<noteq> FORMAT_USER_HALL_SESSION v"
  "user_key u \<noteq> FORMAT_USER_HALL_SESSION v"
  by (simp_all add: mail_friend_keys)

lemmas social_neq_sym [simp] = friend_key_neq [symmetric] req_key_neq [symmetric] session_key_neq [symmetric]

lemma mail_set_cases: "mail_set ty uid = system_mails uid \<or> mail_set ty uid = player_mails uid"
  by (simp add: mail_set_def)

lemma mail_set_neq [simp]:
  "mail_set ty uid \<noteq> friend_key v" "mail_set ty uid \<noteq> req_key v" "mail_set ty uid \<noteq> FORMAT_USER_HALL_SESSION w"
  using mail_set_cases [of ty uid] by auto

lemma friend_key_inj [simp]: "friend_key u = friend_key v \<longleftrightarrow> fmt u = fmt v"
  by (simp add: friend_key_def)

lemma req_key_inj [simp]: "req_key u = req_key v \<longleftrightarrow> fmt u = fmt v"
  by (simp add: req_key_def)

section \<open>Which handlers write which keys\<close>

definition social_keys :: "string set" where
  "social_keys = - (range friend_key \<union> range req_key \<union> range FORMAT_USER_HALL_SESSION)"

lemma social_keys_mem [simp]:
  "mail_key e \<in> social_keys" "system_mails u \<in> social_keys" "player_mails u \<in> social_keys"
  "invite_key i \<in> social_keys" "invited_req r \<in> social_keys" "invited_room r \<in> social_keys"
  "user_key u \<in> social_keys" "mail_set ty uid \<in> social_keys"
  by (auto simp: social_keys_def)

lemma only_cases_list [only_intros]:
  "only ks (sorted_by_ts l)" "only ks (all_mails u)" "only ks (load_mail ev e)" "only ks (gains u today)"
  unfolding sorted_by_ts_def all_mails_def load_mail_def gains_def by (intro only_intros)+

lemma only_cards [only_intros]:
  "only ks (card_of lazy today f)" "only ks (req_entry today r)" "only ks (get_find_uids rs l u)"
  unfolding card_of_def req_entry_def get_find_uids_def Let_def by (intro only_intros)+

lemma only_social:
  "only social_keys (choose_attach sid)" "only social_keys (get_attach ev eid sid)"
  "only social_keys (send_mail sl now stamp sid r c w)" "only social_keys (show_mails ev now sid)"
  "only social_keys (read_mail eid)" "only social_keys (del_mail eid sid)"
  "only social_keys (friend_comment sid c)" "only social_keys (room_invite sid u r)"
  "only social_keys (friend_find_list d day rs sid)" "only social_keys (friend_search today u)"
  "only social_keys (friend_list today sid)" "only social_keys (friend_req_list today sid)"
  unfolding choose_attach_def get_attach_def credit_attach_def send_mail_def show_mails_def drop_expired_def
    read_mail_def del_mail_def friend_comment_def room_invite_def friend_find_list_def friend_search_def
    friend_list_def friend_req_list_def Let_def
  by (intro only_intros; simp; fail)+

text \<open>A predicate that only looks at the keys outside \<open>social_keys\<close> is kept by all of them.\<close>

definition outside :: "(redis \<Rightarrow> bool) \<Rightarrow> bool" where
  "outside P \<longleftrightarrow> (\<forall>s t. (\<forall>k. k \<notin> social_keys \<longrightarrow> look t k = look s k) \<longrightarrow> P s \<longrightarrow> P t)"

lemma outside_keeps: "outside P \<Longrightarrow> only social_keys m \<Longrightarrow> keeps P m"
  unfolding outside_def keeps_def only_def by blast

lemma friend_step_keeps:
  assumes "outside P"
    and "\<And>sid u. keeps P (friend_del sid u)" "\<And>sid f i. keeps P (friend_accept_invite sid f i)"
    and "\<And>sid i. keeps P (friend_refuse_invite sid i)" "\<And>now stamp msg sid u. keeps P (friend_invite now stamp msg sid u)"
  shows "keeps P (\<lambda>s. (Inr (), friend_step sl ev d op s))"
  using assms(2-) only_social [THEN outside_keeps [OF assms(1)]]
  by (cases op) (auto simp: keeps_def)


section \<open>Friendship is symmetric and bounded\<close>

definition friends :: "redis \<Rightarrow> string \<Rightarrow> string list" where
  "friends s u = members s (friend_key (Some u))"

definition friend_inv :: "redis \<Rightarrow> bool" where
  "friend_inv s \<longleftrightarrow>
     (\<forall>u. is_set s (friend_key (Some u)) \<and> distinct (friends s u) \<and> length (friends s u) \<le> 31) \<and>
     (\<forall>u v. v \<in> set (friends s u) \<longleftrightarrow> u \<in> set (friends s v))"

lemma friend_key_fmt: "friend_key uid = friend_key (Some (fmt uid))"
  by simp

lemma friends_put_set [simp]:
  "friends (put_set (friend_key (Some v)) l s) u = (if u = v then l else friends s u)"
  by (simp add: friends_def)

lemma friend_inv_cong:
  "(\<And>u. look t (friend_key (Some u)) = look s (friend_key (Some u))) \<Longrightarrow> friend_inv s \<Longrightarrow> friend_inv t"
  by (simp add: friend_inv_def friends_def members_def is_set_def)

lemma outside_friend_inv: "outside friend_inv"
  unfolding outside_def
  by (intro allI impI, erule friend_inv_cong [rotated], erule allE, erule mp) (simp add: social_keys_def, blast)

lemma friend_inv_add:
  assumes "friend_inv s" "length (friends s u) \<le> 30" "length (friends s v) \<le> 30"
    and "t = put_set (friend_key (Some u)) (List.insert v (friends s u)) s"
  shows "friend_inv (put_set (friend_key (Some v)) (List.insert u (friends t v)) t)"
  using assms unfolding friend_inv_def assms(4) by (auto simp: List.insert_def)

lemma friend_inv_remove:
  assumes "friend_inv s" "t = put_set (friend_key (Some v)) (removeAll u (friends s v)) s"
  shows "friend_inv (put_set (friend_key (Some u)) (removeAll v (friends t u)) t)"
  using assms(1) unfolding friend_inv_def assms(2)
  by (auto simp: distinct_removeAll removeAll_filter_not_eq intro: le_trans [OF length_filter_le])


text \<open>The bookkeeping of the invitations does not touch the friend sets.\<close>

lemma friend_inv_book [simp]:
  "friend_inv (unput (invite_key j) t) = friend_inv t" "friend_inv (set_list (req_key w) l t) = friend_inv t"
  by (rule iffI; erule friend_inv_cong [rotated]; simp add: look_set_list)+

lemma friend_inv_set: "friend_inv s \<Longrightarrow> is_set s (friend_key u)"
  unfolding friend_key_fmt [of u] by (simp add: friend_inv_def)

lemma members_friends: "members s (friend_key u) = friends s (fmt u)"
  unfolding friend_key_fmt [of u] by (simp add: friends_def)

lemma keeps_friend_accept: "keeps friend_inv (friend_accept_invite sid f i)"
proof (rule keepsI)
  fix s assume inv: "friend_inv s"
  show "wp (friend_accept_invite sid f i) (\<lambda>_. friend_inv) (\<lambda>_. friend_inv) s"
    unfolding friend_accept_invite_def Let_def wp_bindM
  proof (rule uidBySid_wp, goal_cases)
    case 1
    show ?case
      using inv friend_inv_add [OF inv _ _ refl, where v = "strip f" and u = "fmt (sid_uid s sid)"]
      by (auto simp: wp_eqs friend_inv_set [OF inv] members_friends friend_key_fmt [of "sid_uid s sid"])
  qed (rule inv)
qed

lemma keeps_friend_del: "keeps friend_inv (friend_del sid f)"
proof (rule keepsI)
  fix s assume inv: "friend_inv s"
  show "wp (friend_del sid f) (\<lambda>_. friend_inv) (\<lambda>_. friend_inv) s"
    unfolding friend_del_def Let_def wp_bindM
  proof (rule uidBySid_wp, goal_cases)
    case 1
    show ?case
      using inv friend_inv_remove [OF inv refl, where v = "strip f" and u = "fmt (sid_uid s sid)"]
      by (auto simp: wp_eqs friend_inv_set [OF inv] members_friends friend_key_fmt [of "sid_uid s sid"])
  qed (rule inv)
qed

lemma only_requests:
  "only (- range friend_key) (friend_invite now stamp msg sid u)" "only (- range friend_key) (friend_refuse_invite sid i)"
  unfolding friend_invite_def friend_refuse_invite_def Let_def by (intro only_intros; force)+

lemma keeps_friend_requests:
  "keeps friend_inv (friend_invite now stamp msg sid u)" "keeps friend_inv (friend_refuse_invite sid i)"
  using only_requests unfolding keeps_def only_def by (blast intro: friend_inv_cong)+

text \<open>C7: whatever requests clients send, and also when requests fail half-way, being friends stays
  symmetric: whenever one player is in the friend set of another, the other is in theirs; and no
  player ever has more than 31 friends.\<close>

theorem friendship_symmetric:
  assumes "friend_inv s"
  shows "friend_inv (friend_run sl ev d ops s)"
  by (rule friend_run_keeps [OF friend_step_keeps])
    (rule outside_friend_inv keeps_friend_del keeps_friend_accept keeps_friend_requests assms)+

lemma friend_inv_empty: "friend_inv empty_db"
  by (simp add: friend_inv_def friends_def members_def is_set_def)

definition demo_friends :: redis where
  "demo_friends = put (FORMAT_USER_HALL_SESSION ''s'') (RHash [(''uid'', ''7'')]) empty_db"

lemma friend_inv_demo: "friend_inv demo_friends"
  by (rule friend_inv_cong [OF _ friend_inv_empty]) (simp add: demo_friends_def)

theorem friendship_symmetric_witness:
  "friend_inv (friend_run (\<lambda>_. []) (\<lambda>_. Inl SyntaxError) (\<lambda>_. []) [Accept ''s'' ''8'' ''8|1'', FriendDel ''s'' ''9''] demo_friends)"
  by (rule friendship_symmetric) (rule friend_inv_demo)

section \<open>Friend requests\<close>

definition reqs :: "redis \<Rightarrow> string \<Rightarrow> string list" where
  "reqs s u = list_of s (req_key (Some u))"

definition req_inv :: "redis \<Rightarrow> bool" where
  "req_inv s \<longleftrightarrow>
     (\<forall>u. is_list s (req_key (Some u)) \<and> distinct (map from_of (reqs s u)) \<and> length (reqs s u) \<le> 31) \<and>
     (\<forall>sid u. hf s (FORMAT_USER_HALL_SESSION sid) ''uid'' = Some u \<longrightarrow> CHR ''|'' \<notin> set u)"

lemma req_key_fmt: "req_key uid = req_key (Some (fmt uid))"
  by simp

lemma req_inv_cong:
  "(\<And>u. look t (req_key (Some u)) = look s (req_key (Some u))) \<Longrightarrow>
   (\<And>sid. look t (FORMAT_USER_HALL_SESSION sid) = look s (FORMAT_USER_HALL_SESSION sid)) \<Longrightarrow> req_inv s \<Longrightarrow> req_inv t"
  by (simp add: req_inv_def reqs_def list_of_def is_list_def hf_def hash_of_def)

lemma outside_req_inv: "outside req_inv"
  unfolding outside_def
proof (intro allI impI)
  fix s t assume eq: "\<forall>k. k \<notin> social_keys \<longrightarrow> look t k = look s k" and "req_inv s"
  show "req_inv t"
    by (rule req_inv_cong [OF _ _ \<open>req_inv s\<close>]; rule eq [rule_format]; simp add: social_keys_def; blast)
qed

lemma req_inv_list: "req_inv s \<Longrightarrow> is_list s (req_key u)"
  unfolding req_key_fmt [of u] by (simp add: req_inv_def)

lemma list_reqs: "list_of s (req_key u) = reqs s (fmt u)"
  unfolding req_key_fmt [of u] by (simp add: reqs_def)

lemma req_inv_set_list:
  assumes "req_inv s" "distinct (map from_of l)" "length l \<le> 31"
  shows "req_inv (set_list (req_key u) l s)"
proof -
  have "hf (set_list (req_key u) l s) (FORMAT_USER_HALL_SESSION sid) g = hf s (FORMAT_USER_HALL_SESSION sid) g" for sid g
    by (rule hf_cong_look) (simp add: look_set_list)
  then show ?thesis using assms by (auto simp: req_inv_def reqs_def)
qed

lemma req_inv_remove: "req_inv s \<Longrightarrow> req_inv (set_list (req_key u) (removeAll i (list_of s (req_key u))) s)"
  by (rule req_inv_set_list)
    (auto simp: list_reqs req_inv_def removeAll_filter_not_eq distinct_map_filter intro: le_trans [OF length_filter_le])

lemma req_inv_push:
  assumes "req_inv s" "sid_uid s sid = Some u" "u \<notin> from_of ` set (reqs s v)" "length (reqs s v) \<le> 30"
  shows "req_inv (set_list (req_key (Some v)) ((u @ ''|'' @ t) # reqs s v) s)"
proof (rule req_inv_set_list [OF assms(1)])
  have "CHR ''|'' \<notin> set u" using assms(1,2) by (auto simp: req_inv_def sid_uid_def)
  then have "from_of (u @ ''|'' @ t) = u" by (simp add: from_of_def split_on_append)
  then show "distinct (map from_of ((u @ ''|'' @ t) # reqs s v))"
    using assms by (simp add: req_inv_def)
qed (use assms in simp)

lemma req_inv_book [simp]:
  "req_inv (unput (invite_key j) t) = req_inv t" "req_inv (hput (invite_key j) g v t) = req_inv t"
  "req_inv (put_set (friend_key u) l t) = req_inv t"
  by (rule iffI; erule req_inv_cong [rotated 2]; simp add: look_hput_other look_put_set)+

lemma keeps_req_only: "only {} m \<Longrightarrow> keeps req_inv m"
  unfolding keeps_def using req_inv_cong by (metis empty_iff onlyD)

lemma keeps_req_cmds:
  "keeps req_inv (sadd (friend_key u) v)" "keeps req_inv (srem (friend_key u) v)" "keeps req_inv (delete_key (invite_key i))"
  "keeps req_inv (scard k)" "keeps req_inv (uidBySid sid)" "keeps req_inv (lrem (req_key u) i)"
  by (rule keepsI, simp add: wp_eqs req_inv_remove; fail | rule keeps_req_only, intro only_intros)+

lemma keeps_req_ops:
  "keeps req_inv (friend_refuse_invite sid i)" "keeps req_inv (friend_accept_invite sid f i)" "keeps req_inv (friend_del sid f)"
  unfolding friend_refuse_invite_def friend_accept_invite_def friend_del_def Let_def
  by (intro pres_intros keeps_req_cmds)+

lemma keeps_req_invite: "keeps req_inv (friend_invite now stamp msg sid u)"
proof (rule keepsI)
  fix s assume inv: "req_inv s"
  show "wp (friend_invite now stamp msg sid u) (\<lambda>_. req_inv) (\<lambda>_. req_inv) s"
    unfolding friend_invite_def Let_def wp_bindM
  proof (rule uidBySid_wp, goal_cases)
    case 1
    show ?case using inv req_inv_push [OF inv, of sid _ "strip u" "show_int now"]
      by (cases "sid_uid s sid") (auto simp: wp_eqs req_inv_list list_reqs inj_image_mem_iff)
  qed (rule inv)
qed

text \<open>C38: over every history of requests, when no user id has a bar in it, nobody has two pending
  friend requests from the same player, and no list of requests has more than 31 entries.\<close>

theorem requests_distinct:
  assumes "req_inv s"
  shows "req_inv (friend_run sl ev d ops s)"
  by (rule friend_run_keeps [OF friend_step_keeps])
    (rule outside_req_inv keeps_req_ops keeps_req_invite assms)+

lemma req_inv_demo: "req_inv demo_friends"
  by (auto simp: req_inv_def demo_friends_def reqs_def list_of_def is_list_def hf_def hash_of_def split: if_splits)

theorem requests_distinct_witness:
  "req_inv (friend_run (\<lambda>_. []) (\<lambda>_. Inl SyntaxError) (\<lambda>_. []) [Invite 5 [] [] ''s'' ''8'', Invite 6 [] [] ''s'' ''8''] demo_friends)"
  by (rule requests_distinct) (rule req_inv_demo)

end
