(* ===== verification/FriendGraph.thy ===== *)
theory FriendGraph
  imports FriendLaws
begin

text \<open>
  What the friend module promises, as a system of its own: a graph of players in which edges are added
  and removed in both directions at once, and nobody passes the limit.  Every request to the module is
  a step of it.
\<close>

section \<open>The abstract system\<close>

type_synonym graph = "(string \<times> string) set"

definition degree :: "graph \<Rightarrow> string \<Rightarrow> nat" where
  "degree G u = card (G `` {u})"

inductive graph_step :: "graph \<Rightarrow> graph \<Rightarrow> bool" where
  stay: "graph_step G G"
| link: "degree G u \<le> 30 \<Longrightarrow> degree G v \<le> 30 \<Longrightarrow> graph_step G (G \<union> {(u, v), (v, u)})"
| unlink: "graph_step G (G - {(u, v), (v, u)})"

section \<open>The simulation\<close>

definition graph :: "redis \<Rightarrow> graph" where
  "graph s = {(u, v). v \<in> set (friends s u)}"

lemma graph_cong: "(\<And>u. look t (friend_key (Some u)) = look s (friend_key (Some u))) \<Longrightarrow> graph t = graph s"
  by (simp add: graph_def friends_def members_def)

lemma degree_graph: "friend_inv s \<Longrightarrow> degree (graph s) u = length (friends s u)"
  by (simp add: degree_def graph_def Image_def friend_inv_def distinct_card)

lemma graph_book [simp]:
  "graph (unput (invite_key j) t) = graph t" "graph (set_list (req_key w) l t) = graph t"
  by (rule graph_cong; simp add: look_set_list)+

lemma graph_add: "graph (put_set (friend_key (Some v)) (List.insert u (friends t v)) t) = insert (v, u) (graph t)"
  by (auto simp: graph_def split: if_splits)

lemma graph_remove: "graph (put_set (friend_key (Some v)) (removeAll u (friends t v)) t) = graph t - {(v, u)}"
  by (auto simp: graph_def split: if_splits)

lemma accept_graph:
  assumes inv: "friend_inv s"
  shows "wp (friend_accept_invite sid f i) (\<lambda>_ t. graph_step (graph s) (graph t)) (\<lambda>_ t. graph_step (graph s) (graph t)) s"
proof -
  let ?u = "fmt (sid_uid s sid)"
  let ?t = "put_set (friend_key (Some ?u)) (List.insert (strip f) (friends s ?u)) s"
  have "graph_step (graph s) (graph (put_set (friend_key (Some (strip f))) (List.insert ?u (friends ?t (strip f))) ?t))"
    if "length (friends s ?u) \<le> 30" "length (friends s (strip f)) \<le> 30"
    using link [of "graph s" "strip f" ?u] that by (simp only: graph_add degree_graph [OF inv] Un_insert_right Un_empty_right)
  note g = this
  show ?thesis
    unfolding friend_accept_invite_def Let_def wp_bindM
  proof (rule uidBySid_wp, goal_cases)
    case 1
    show ?case using g
      by (auto simp: wp_eqs stay friend_inv_set [OF inv] members_friends friend_key_fmt [of "sid_uid s sid"])
  qed (rule stay)
qed

lemma del_graph:
  assumes inv: "friend_inv s"
  shows "wp (friend_del sid f) (\<lambda>_ t. graph_step (graph s) (graph t)) (\<lambda>_ t. graph_step (graph s) (graph t)) s"
proof -
  let ?u = "fmt (sid_uid s sid)"
  let ?t = "put_set (friend_key (Some (strip f))) (removeAll ?u (friends s (strip f))) s"
  have "graph_step (graph s) (graph (put_set (friend_key (Some ?u)) (removeAll (strip f) (friends ?t ?u)) ?t))"
  proof -
    have "graph s - {(strip f, ?u)} - {(?u, strip f)} = graph s - {(?u, strip f), (strip f, ?u)}" by auto
    then show ?thesis using unlink [of "graph s" ?u "strip f"] by (simp only: graph_remove)
  qed
  note g = this
  show ?thesis
    unfolding friend_del_def Let_def wp_bindM
  proof (rule uidBySid_wp, goal_cases)
    case 1
    show ?case using g
      by (auto simp: wp_eqs stay friend_inv_set [OF inv] members_friends friend_key_fmt [of "sid_uid s sid"])
  qed (rule stay)
qed

lemma other_graph:
  "graph (snd (friend_invite now stamp msg sid u s)) = graph s" "graph (snd (friend_refuse_invite sid i s)) = graph s"
  by (rule graph_cong, rule onlyD [OF only_requests(1)], blast) (rule graph_cong, rule onlyD [OF only_requests(2)], blast)

lemma social_graph: "only social_keys m \<Longrightarrow> graph (snd (m s)) = graph s"
  by (rule graph_cong, erule onlyD) (auto simp: social_keys_def)

lemma graph_sim: "friend_inv s \<Longrightarrow> graph_step (graph s) (graph (friend_step sl ev d op s))"
proof (cases op)
  case (Accept sid f i)
  then show "friend_inv s \<Longrightarrow> ?thesis" using accept_graph [of s sid f i] by (simp add: wp_state [where P = "\<lambda>t. graph_step (graph s) (graph t)"])
next
  case (FriendDel sid f)
  then show "friend_inv s \<Longrightarrow> ?thesis" using del_graph [of s sid f] by (simp add: wp_state [where P = "\<lambda>t. graph_step (graph s) (graph t)"])
qed (simp_all add: stay other_graph social_graph only_social)

interpretation friends: simulation "friend_step sl ev d" friend_inv graph graph_step for sl ev d
proof unfold_locales
  show "friend_inv (friend_step sl ev d op s)" if "friend_inv s" for s op
    using keepsD [OF friend_step_keeps [OF outside_friend_inv keeps_friend_del keeps_friend_accept keeps_friend_requests(2,1)] that]
    by simp
qed (rule graph_sim)

text \<open>C5: every history of requests to the friend module is a history of the graph: edges come and go in
  both directions at once, and only between players below the limit.\<close>

theorem friend_run_refines:
  assumes "friend_inv s"
  shows "graph_step\<^sup>*\<^sup>* (graph s) (graph (friend_run sl ev d ops s))"
  unfolding friend_run_def by (rule friends.sim_run [OF assms])

theorem friend_run_refines_witness:
  "graph_step\<^sup>*\<^sup>* (graph demo_friends) (graph (friend_run (\<lambda>_. []) (\<lambda>_. Inl SyntaxError) (\<lambda>_. []) [Accept ''s'' ''8'' ''8|1'', FriendDel ''s'' ''8''] demo_friends))"
  by (rule friend_run_refines) (rule friend_inv_demo)

end
