(* ===== verification/MailLaws.thy ===== *)
theory MailLaws
  imports FriendLaws FishBox "HOL-Library.Multiset"
begin

text \<open>
  What sending, fetching and listing mails do to purses and mailboxes (fish/fish_friend.py).
\<close>

section \<open>Keys\<close>

lemma mail_key_inj [simp]: "mail_key e = mail_key f \<longleftrightarrow> e = f"
  by (simp add: mail_key_def)

lemma mail_key_neq [simp]:
  "mail_key e \<noteq> user_key u" "user_key u \<noteq> mail_key e" "mail_key e \<noteq> system_mails u" "system_mails u \<noteq> mail_key e"
  "mail_key e \<noteq> player_mails u" "player_mails u \<noteq> mail_key e"
  "system_mails u \<noteq> user_key v" "user_key v \<noteq> system_mails u" "player_mails u \<noteq> user_key v" "user_key v \<noteq> player_mails u"
  by (simp_all add: mail_friend_keys)

lemma mailbox_neq [simp]: "system_mails u \<noteq> player_mails v" "player_mails v \<noteq> system_mails u"
  by (rule rev_neq; simp add: mail_friend_keys)+

lemma mailbox_inj [simp]: "player_mails u = player_mails v \<longleftrightarrow> fmt u = fmt v" "system_mails u = system_mails v \<longleftrightarrow> fmt u = fmt v"
  by (simp_all add: mail_friend_keys)

lemma mail_set_neqs [simp]: "mail_set ty u \<noteq> mail_key e" "mail_key e \<noteq> mail_set ty u" "mail_set ty u \<noteq> user_key v" "user_key v \<noteq> mail_set ty u"
  by (simp_all add: mail_set_def)

lemma user_key_fmt_eq: "user_key u = user_key v \<longleftrightarrow> fmt u = fmt v"
  by (simp add: user_key_def)

section \<open>Sending\<close>

definition send_post :: "(pydict list \<Rightarrow> string) \<Rightarrow> int \<Rightarrow> string \<Rightarrow> string \<Rightarrow> string \<Rightarrow> redis \<Rightarrow> reply \<Rightarrow> redis \<Rightarrow> bool" where
  "send_post sl now sid recv whf s r t \<longleftrightarrow> (case r of Reply c m \<Rightarrow> if c = 0
     then \<exists>u bal w. sid_uid s sid = Some u \<and> py_int whf = Inr w \<and>
       held s (user_key (Some u), ''coin'') = Some bal \<and> 1000 \<le> bal \<and>
       held t (user_key (Some u), ''coin'') = Some (bal - 1000) \<and>
       hf t (mail_key (u @ ''|'' @ show_int now)) ''attach'' = Some (sl (mail_attach bal w)) \<and>
       hf t (mail_key (u @ ''|'' @ show_int now)) ''type'' = Some ''1'' \<and>
       u @ ''|'' @ show_int now \<in> set (members t (player_mails (Some recv))) \<and>
       (\<forall>v f. (user_key v, f) \<noteq> (user_key (Some u), ''coin'') \<longrightarrow> hf t (user_key v) f = hf s (user_key v) f)
     else t = s)"

lemma sid_uid_frame: "(\<And>k. look t (FORMAT_USER_HALL_SESSION k) = look s (FORMAT_USER_HALL_SESSION k)) \<Longrightarrow> sid_uid t sid = sid_uid s sid"
  by (simp add: sid_uid_def hf_def hash_of_def)

lemma send_mail_ok: "wp (send_mail sl now stamp sid recv cof whf) (send_post sl now sid (strip recv) (strip whf) s) (\<lambda>_ _. True) s"
  unfolding send_mail_def Let_def
proof (intro ok_wp, goal_cases)
  case (3 _ w cur old incr u)
  have "incr = - 1000" using 3(7) by (simp add: strtoll_show_int_iff split: if_splits)
  moreover have "cur = old" using 3(3,8) int_or_held by simp
  ultimately show ?case using 3
    by (auto simp: send_post_def held_def hf_hputs_same hf_hputs_other members_hputs members_hput strtoll_show_int)
qed (simp_all add: send_post_def)

text \<open>Sending a mail either refuses and changes nothing, or the sender had at least 1000 coins and
  pays exactly 1000; the stored attachment lists the sender's whole balance before the postage and the
  warheads of the form, whatever number of coins the form asked for; no other field of any user
  changes, so neither the coins nor the warheads sent are taken from the sender.\<close>

theorem send_mail_effect:
  assumes "send_mail sl now stamp sid recv cof whf s = (Inr (Reply c m), t)"
  shows "if c = 0
    then \<exists>u bal w. sid_uid s sid = Some u \<and> py_int (strip whf) = Inr w \<and>
      held s (user_key (Some u), ''coin'') = Some bal \<and> 1000 \<le> bal \<and>
      held t (user_key (Some u), ''coin'') = Some (bal - 1000) \<and>
      hf t (mail_key (u @ ''|'' @ show_int now)) ''attach'' = Some (sl (mail_attach bal w)) \<and>
      hf t (mail_key (u @ ''|'' @ show_int now)) ''type'' = Some ''1'' \<and>
      u @ ''|'' @ show_int now \<in> set (members t (player_mails (Some (strip recv)))) \<and>
      (\<forall>v f. (user_key v, f) \<noteq> (user_key (Some u), ''coin'') \<longrightarrow> hf t (user_key v) f = hf s (user_key v) f)
    else t = s"
  using wp_InrD [OF send_mail_ok assms] by (simp add: send_post_def)

definition demo_mail :: redis where
  "demo_mail = empty_db\<lparr>kv := [(FORMAT_USER_HALL_SESSION ''s'', RHash [(''uid'', ''7'')]),
     (FORMAT_USER_HALL_SESSION ''r'', RHash [(''uid'', ''8'')]),
     (FORMAT_USER_HALL_SESSION ''x'', RHash [(''uid'', ''9'')]),
     (user_key (Some ''7''), RHash [(''coin'', ''1200''), (''nickname'', ''ann'')])]\<rparr>"

theorem send_mail_effect_witness:
  "if (0::int) = 0
   then \<exists>u bal w. sid_uid demo_mail ''s'' = Some u \<and> py_int (strip ''3'') = Inr w \<and>
      held demo_mail (user_key (Some u), ''coin'') = Some bal \<and> 1000 \<le> bal \<and>
      held (snd (send_mail (\<lambda>_. ''[]'') 5 ''now'' ''s'' ''8'' ''1'' ''3'' demo_mail)) (user_key (Some u), ''coin'') = Some (bal - 1000) \<and>
      hf (snd (send_mail (\<lambda>_. ''[]'') 5 ''now'' ''s'' ''8'' ''1'' ''3'' demo_mail)) (mail_key (u @ ''|'' @ show_int 5)) ''attach'' = Some ''[]'' \<and>
      hf (snd (send_mail (\<lambda>_. ''[]'') 5 ''now'' ''s'' ''8'' ''1'' ''3'' demo_mail)) (mail_key (u @ ''|'' @ show_int 5)) ''type'' = Some ''1'' \<and>
      u @ ''|'' @ show_int 5 \<in> set (members (snd (send_mail (\<lambda>_. ''[]'') 5 ''now'' ''s'' ''8'' ''1'' ''3'' demo_mail)) (player_mails (Some (strip ''8'')))) \<and>
      (\<forall>v f. (user_key v, f) \<noteq> (user_key (Some u), ''coin'') \<longrightarrow>
         hf (snd (send_mail (\<lambda>_. ''[]'') 5 ''now'' ''s'' ''8'' ''1'' ''3'' demo_mail)) (user_key v) f = hf demo_mail (user_key v) f)
   else snd (send_mail (\<lambda>_. ''[]'') 5 ''now'' ''s'' ''8'' ''1'' ''3'' demo_mail) = demo_mail"
proof (rule send_mail_effect [where sl = "\<lambda>_. ''[]''"])
  have "fst (send_mail (\<lambda>_. ''[]'') 5 ''now'' ''s'' ''8'' ''1'' ''3'' demo_mail) = Inr (Reply 0 ''sent'')" by code_simp
  then show "send_mail (\<lambda>_. ''[]'') 5 ''now'' ''s'' ''8'' ''1'' ''3'' demo_mail =
      (Inr (Reply 0 ''sent''), snd (send_mail (\<lambda>_. ''[]'') 5 ''now'' ''s'' ''8'' ''1'' ''3'' demo_mail))"
    by (simp add: prod_eq_iff)
qed

section \<open>Fetching\<close>

text \<open>What an attachment list gives of one kind (1 coins, 2 warheads).\<close>

fun attach_sum :: "int \<Rightarrow> pydict list \<Rightarrow> int" where
  "attach_sum i [] = 0"
| "attach_sum i (c # cs) =
     (if dict_int c ''id'' = Inr i then (case dict_int c ''num'' of Inr n \<Rightarrow> n | Inl _ \<Rightarrow> 0) else 0) + attach_sum i cs"

definition credited :: "pydict list \<Rightarrow> string option \<Rightarrow> redis \<Rightarrow> redis \<Rightarrow> bool" where
  "credited cs uid s t \<longleftrightarrow>
     held t (user_key uid, ''coin'') = map_option (\<lambda>b. b + attach_sum 1 cs) (held s (user_key uid, ''coin'')) \<and>
     held t (user_key uid, ''warhead'') = map_option (\<lambda>b. b + attach_sum 2 cs) (held s (user_key uid, ''warhead'')) \<and>
     (\<forall>f. f \<noteq> ''coin'' \<longrightarrow> f \<noteq> ''warhead'' \<longrightarrow> hf t (user_key uid) f = hf s (user_key uid) f) \<and>
     (\<forall>k. k \<noteq> user_key uid \<longrightarrow> look t k = look s k)"

lemma credit_attach_ok:
  "wp (credit_attach uid c) (\<lambda>_ t. credited [c] uid s t) (\<lambda>_ _. True) s"
  unfolding credit_attach_def
  by (intro ok_wp)
    (auto simp: credited_def held_def strtoll_show_int look_hput_other option.map_ident dest!: strtoll_show_intD)

lemma credited_Cons: "credited [c] uid s t \<Longrightarrow> credited cs uid t u \<Longrightarrow> credited (c # cs) uid s u"
  by (auto simp: credited_def option.map_comp comp_def add.assoc)

lemma credit_all_ok: "wp (forM cs (credit_attach uid)) (\<lambda>_ t. credited cs uid s t) (\<lambda>_ _. True) s"
proof (induction cs arbitrary: s)
  case (Cons c cs)
  have "wp (credit_attach uid c) (\<lambda>_. wp (forM cs (credit_attach uid)) (\<lambda>_ t. credited (c # cs) uid s t) (\<lambda>_ _. True)) (\<lambda>_ _. True) s"
    by (rule wp_mono [OF credit_attach_ok]) (auto intro: wp_mono [OF Cons.IH] credited_Cons)
  then show ?case by (simp add: wp_thenM)
qed (simp add: wp_retM credited_def option.map_ident)

definition fetch_post :: "(string \<Rightarrow> exn + pydict list) \<Rightarrow> string \<Rightarrow> string \<Rightarrow> redis \<Rightarrow> reply \<Rightarrow> redis \<Rightarrow> bool" where
  "fetch_post ev eid sid s r t \<longleftrightarrow> (case r of Reply c m \<Rightarrow> if c = 0
     then \<exists>body cs t1. hf s (mail_key eid) ''attach'' = Some body \<and> ev body = Inr cs \<and>
       credited cs (sid_uid s sid) s t1 \<and>
       t = unput (mail_key eid) (put_set (mail_set (hf s (mail_key eid) ''type'') (sid_uid s sid))
         (removeAll eid (members s (mail_set (hf s (mail_key eid) ''type'') (sid_uid s sid)))) t1)
     else t = s \<and> \<not> truthy (hf s (mail_key eid) ''attach''))"

lemma credited_other: "credited cs uid s t \<Longrightarrow> k \<noteq> user_key uid \<Longrightarrow> look t k = look s k"
  by (simp add: credited_def)

lemma get_attach_ok: "wp (get_attach ev eidf sid) (fetch_post ev (strip eidf) sid s) (\<lambda>_ _. True) s"
  unfolding get_attach_def Let_def
proof (intro ok_wp, goal_cases)
  case (1 cs)
  let ?e = "strip eidf"
  obtain body where atts: "hf s (mail_key ?e) ''attach'' = Some body" "ev body = Inr cs"
    using 1 by (cases "hf s (mail_key ?e) ''attach''") auto
  show ?case
  proof (rule wp_mono [OF credit_all_ok])
    fix x t1 assume c: "credited cs (sid_uid s sid) s t1"
    note look = credited_other [OF c]
    have "hf t1 (mail_key ?e) ''type'' = hf s (mail_key ?e) ''type''" by (rule hf_cong_look) (simp add: look)
    moreover have "members t1 (mail_set ty u) = members s (mail_set ty u)" for ty u
      by (rule members_cong_look) (simp add: look)
    ultimately show "wp (bindM (hget (mail_key ?e) ''type'') (\<lambda>ty. thenM (srem (mail_set ty (sid_uid s sid)) ?e)
       (thenM (delete_key (mail_key ?e)) (retM (Reply 0 ''ok''))))) (fetch_post ev ?e sid s) (\<lambda>_ _. True) t1"
      using atts c by (intro ok_wp) (auto simp: fetch_post_def)
  qed simp
qed (simp add: fetch_post_def)

lemma get_attach_empty: "hf t (mail_key (strip e)) ''attach'' = None \<Longrightarrow> snd (get_attach ev e sid t) = t \<and> fst (get_attach ev e sid t) \<noteq> Inr (Reply 0 m)"
proof -
  assume none: "hf t (mail_key (strip e)) ''attach'' = None"
  have "wp (get_attach ev e sid) (\<lambda>r u. u = t \<and> r \<noteq> Reply 0 m) (\<lambda>_ u. u = t) t"
    unfolding get_attach_def Let_def wp_bindM by (rule uidBySid_wp) (simp_all add: wp_eqs none)
  then show ?thesis
    by (cases "get_attach ev e sid t"; cases "fst (get_attach ev e sid t)") (auto simp: wp_def)
qed

text \<open>Fetching an attachment either refuses and changes nothing, or the entries of the mail's
  attachment are credited to the caller, coins and warheads by exactly their sums and no other field,
  and the mail is gone: nobody can fetch it a second time.\<close>

theorem get_attach_once:
  assumes "get_attach ev eidf sid s = (Inr (Reply c m), t)"
  shows "if c = 0
    then (\<exists>body cs. hf s (mail_key (strip eidf)) ''attach'' = Some body \<and> ev body = Inr cs \<and>
        held t (user_key (sid_uid s sid), ''coin'') = map_option (\<lambda>b. b + attach_sum 1 cs) (held s (user_key (sid_uid s sid), ''coin'')) \<and>
        held t (user_key (sid_uid s sid), ''warhead'') = map_option (\<lambda>b. b + attach_sum 2 cs) (held s (user_key (sid_uid s sid), ''warhead''))) \<and>
      look t (mail_key (strip eidf)) = None \<and>
      (\<forall>ev' sid' m'. fst (get_attach ev' eidf sid' t) \<noteq> Inr (Reply 0 m') \<and> snd (get_attach ev' eidf sid' t) = t)
    else t = s"
proof (cases "c = 0")
  case True
  with wp_InrD [OF get_attach_ok assms] have "fetch_post ev (strip eidf) sid s (Reply 0 m) t" by simp
  then obtain body cs t1 k l where p: "hf s (mail_key (strip eidf)) ''attach'' = Some body" "ev body = Inr cs"
      "credited cs (sid_uid s sid) s t1" "t = unput (mail_key (strip eidf)) (put_set k l t1)" "k \<noteq> user_key (sid_uid s sid)"
    unfolding fetch_post_def using mail_set_neqs(3) by fastforce
  have none: "look t (mail_key (strip eidf)) = None" "hf t (mail_key (strip eidf)) ''attach'' = None"
    by (simp_all add: p(4))
  have "held t (user_key (sid_uid s sid), f) = held t1 (user_key (sid_uid s sid), f)" for f
    using p(5) by (simp add: p(4) held_def)
  then have a: "\<exists>body cs. hf s (mail_key (strip eidf)) ''attach'' = Some body \<and> ev body = Inr cs \<and>
      held t (user_key (sid_uid s sid), ''coin'') = map_option (\<lambda>b. b + attach_sum 1 cs) (held s (user_key (sid_uid s sid), ''coin'')) \<and>
      held t (user_key (sid_uid s sid), ''warhead'') = map_option (\<lambda>b. b + attach_sum 2 cs) (held s (user_key (sid_uid s sid), ''warhead''))"
    using p(1-3) by (intro exI [of _ body] exI [of _ cs]) (simp add: credited_def)
  have b: "fst (get_attach ev' eidf sid' t) \<noteq> Inr (Reply 0 m') \<and> snd (get_attach ev' eidf sid' t) = t" for ev' sid' m'
    using get_attach_empty [OF none(2)] by blast
  show ?thesis unfolding if_P [OF True]
    by (intro conjI allI a none(1) b [THEN conjunct1] b [THEN conjunct2])
qed (use wp_InrD [OF get_attach_ok assms] in \<open>simp add: fetch_post_def\<close>)

text \<open>A reading of attachment texts for the examples: the numbers separated by bars.\<close>

fun nums_of :: "pydict list \<Rightarrow> string list" where
  "nums_of [] = []"
| "nums_of (c # cs) = map (\<lambda>(_, v). show_int (case v of PInt n \<Rightarrow> n | PStr _ \<Rightarrow> 0)) c @ nums_of cs"

definition bar_str :: "pydict list \<Rightarrow> string" where
  "bar_str cs = ''|'' @ join_with ''|'' (nums_of cs)"

fun entries_of :: "string list \<Rightarrow> exn + pydict list" where
  "entries_of (i # n # r) =
     (case (py_int i, py_int n, entries_of r) of
        (Inr i', Inr n', Inr cs) \<Rightarrow> Inr ([(''id'', PInt i'), (''num'', PInt n')] # cs) | _ \<Rightarrow> Inl SyntaxError)"
| "entries_of _ = Inr []"

definition bar_ev :: "string \<Rightarrow> exn + pydict list" where
  "bar_ev t = entries_of (tl (split_on (CHR ''|'') t))"

lemma show_int_no_bar: "CHR ''|'' \<notin> set (show_int n)"
proof -
  have "CHR ''|'' \<notin> set (show_nat m)" for m
    using show_nat_digits [of m] digit_not_special [of "CHR ''|''"] by (auto simp: list_all_iff)
  then show ?thesis by (simp add: show_int_def)
qed

lemma bar_ev_str: "bar_ev (bar_str (mail_attach c w)) = Inr (mail_attach c w)"
  by (simp add: bar_ev_def bar_str_def mail_attach_def split_on_plain [OF show_int_no_bar]
      split_on_append [OF show_int_no_bar])

definition demo_sent :: redis where
  "demo_sent = snd (send_mail bar_str 5 ''now'' ''s'' ''8'' ''1'' ''3'' demo_mail)"

lemma demo_sent_ok:
  "fst (send_mail bar_str 5 ''now'' ''s'' ''8'' ''1'' ''3'' demo_mail) = Inr (Reply 0 ''sent'')"
  "fst (get_attach bar_ev ''7|5'' ''r'' demo_sent) = Inr (Reply 0 ''ok'')"
  "fst (get_attach bar_ev ''7|5'' ''x'' demo_sent) = Inr (Reply 0 ''ok'')"
  by code_simp+

theorem get_attach_once_witness:
  "let t = snd (get_attach bar_ev ''7|5'' ''r'' demo_sent) in
   if (0::int) = 0
    then (\<exists>body cs. hf demo_sent (mail_key (strip ''7|5'')) ''attach'' = Some body \<and> bar_ev body = Inr cs \<and>
        held t (user_key (sid_uid demo_sent ''r''), ''coin'') = map_option (\<lambda>b. b + attach_sum 1 cs) (held demo_sent (user_key (sid_uid demo_sent ''r''), ''coin'')) \<and>
        held t (user_key (sid_uid demo_sent ''r''), ''warhead'') = map_option (\<lambda>b. b + attach_sum 2 cs) (held demo_sent (user_key (sid_uid demo_sent ''r''), ''warhead''))) \<and>
      look t (mail_key (strip ''7|5'')) = None \<and>
      (\<forall>ev' sid' m'. fst (get_attach ev' ''7|5'' sid' t) \<noteq> Inr (Reply 0 m') \<and> snd (get_attach ev' ''7|5'' sid' t) = t)
    else t = demo_sent"
  unfolding Let_def
  by (rule get_attach_once [where m = "''ok''"]) (simp add: prod_eq_iff demo_sent_ok)

section \<open>From sender to receiver\<close>

text \<open>C31: when a player mails another one and the receiver fetches the attachment, the sender is 1000
  coins poorer and the receiver richer by the sender's whole balance and by the warheads named in the
  form, which nobody paid: coins and warheads are created.  It relies on \<open>eval\<close> undoing \<open>str\<close> on the
  attachment lists that are sent.\<close>

theorem mail_round_trip:
  assumes "\<And>c w. ev (str_list (mail_attach c w)) = Inr (mail_attach c w)"
    and "send_mail str_list now stamp sid recv cof whf s = (Inr (Reply 0 m), t)"
    and "sid_uid s sid = Some u" "sid_uid t sid2 = Some v" "u \<noteq> v" "strip eidf = u @ ''|'' @ show_int now"
    and "get_attach ev eidf sid2 t = (Inr (Reply 0 m'), t')"
  shows "\<exists>bal w. held s (user_key (Some u), ''coin'') = Some bal \<and> py_int (strip whf) = Inr w \<and>
    held t' (user_key (Some u), ''coin'') = Some (bal - 1000) \<and>
    held t' (user_key (Some u), ''warhead'') = held s (user_key (Some u), ''warhead'') \<and>
    held t' (user_key (Some v), ''coin'') = map_option (\<lambda>b. b + bal) (held s (user_key (Some v), ''coin'')) \<and>
    held t' (user_key (Some v), ''warhead'') = map_option (\<lambda>b. b + w) (held s (user_key (Some v), ''warhead''))"
proof -
  let ?u = "user_key (Some u)" and ?v = "user_key (Some v)"
  have ne: "?u \<noteq> ?v" using assms(5) by (simp add: user_key_def)
  have "send_post str_list now sid (strip recv) (strip whf) s (Reply 0 m) t"
    using wp_InrD [OF send_mail_ok assms(2)] .
  then obtain bal w where send: "py_int (strip whf) = Inr w" "held s (?u, ''coin'') = Some bal" "1000 \<le> bal"
      "held t (?u, ''coin'') = Some (bal - 1000)"
      "hf t (mail_key (u @ ''|'' @ show_int now)) ''attach'' = Some (str_list (mail_attach bal w))"
    and frame: "\<And>x f. (user_key x, f) \<noteq> (?u, ''coin'') \<Longrightarrow> hf t (user_key x) f = hf s (user_key x) f"
    unfolding send_post_def assms(3) by auto
  have "fetch_post ev (strip eidf) sid2 t (Reply 0 m') t'"
    using wp_InrD [OF get_attach_ok assms(7)] .
  then obtain body cs t1 k l where p: "hf t (mail_key (strip eidf)) ''attach'' = Some body" "ev body = Inr cs"
      "credited cs (Some v) t t1" "t' = unput (mail_key (strip eidf)) (put_set k l t1)" "\<And>z. k \<noteq> user_key z"
    unfolding fetch_post_def assms(4) using mail_set_neqs(3) by fastforce
  have cs: "cs = mail_attach bal w" using p(1,2) assms(1) send(5) by (simp add: assms(6))
  have sums: "attach_sum 1 cs = bal" "attach_sum 2 cs = w"
    by (simp_all add: cs mail_attach_def dict_int_def)
  have t': "held t' (user_key z, f) = held t1 (user_key z, f)" for z f
    using p(5) [of z, symmetric] by (simp add: p(4) held_def)
  have "held t1 (?u, f) = held t (?u, f)" for f
    using p(3) ne hf_cong_look [of t1 ?u t] by (simp add: credited_def held_def)
  moreover have "held t1 (?v, ''coin'') = map_option (\<lambda>b. b + bal) (held t (?v, ''coin''))"
    "held t1 (?v, ''warhead'') = map_option (\<lambda>b. b + w) (held t (?v, ''warhead''))"
    using p(3) sums by (simp_all add: credited_def)
  moreover have "held t (?v, f) = held s (?v, f)" "held t (?u, ''warhead'') = held s (?u, ''warhead'')" for f
    using frame ne by (simp_all add: held_def)
  ultimately show ?thesis using send by (simp add: t')
qed

theorem mail_round_trip_witness:
  "\<exists>bal w. held demo_mail (user_key (Some ''7''), ''coin'') = Some bal \<and> py_int (strip ''3'') = Inr w \<and>
    held (snd (get_attach bar_ev ''7|5'' ''r'' demo_sent)) (user_key (Some ''7''), ''coin'') = Some (bal - 1000) \<and>
    held (snd (get_attach bar_ev ''7|5'' ''r'' demo_sent)) (user_key (Some ''7''), ''warhead'') = held demo_mail (user_key (Some ''7''), ''warhead'') \<and>
    held (snd (get_attach bar_ev ''7|5'' ''r'' demo_sent)) (user_key (Some ''8''), ''coin'') =
      map_option (\<lambda>b. b + bal) (held demo_mail (user_key (Some ''8''), ''coin'')) \<and>
    held (snd (get_attach bar_ev ''7|5'' ''r'' demo_sent)) (user_key (Some ''8''), ''warhead'') =
      map_option (\<lambda>b. b + w) (held demo_mail (user_key (Some ''8''), ''warhead''))"
proof (rule mail_round_trip [where str_list = bar_str and m = "''sent''" and m' = "''ok''"])
  show "send_mail bar_str 5 ''now'' ''s'' ''8'' ''1'' ''3'' demo_mail = (Inr (Reply 0 ''sent''), demo_sent)"
    by (simp add: prod_eq_iff demo_sent_ok demo_sent_def)
  show "get_attach bar_ev ''7|5'' ''r'' demo_sent = (Inr (Reply 0 ''ok''), snd (get_attach bar_ev ''7|5'' ''r'' demo_sent))"
    by (simp add: prod_eq_iff demo_sent_ok)
  show "sid_uid demo_mail ''s'' = Some ''7''" "sid_uid demo_sent ''r'' = Some ''8''" by code_simp+
  show "strip ''7|5'' = ''7'' @ ''|'' @ show_int 5" by code_simp
qed (simp_all add: bar_ev_str)

section \<open>The mailbox\<close>

definition mailbox :: "redis \<Rightarrow> string option \<Rightarrow> string list" where
  "mailbox s uid = members s (system_mails uid) @ members s (player_mails uid)"

lemma load_mail_ok:
  "wp (load_mail ev eid) (\<lambda>m t. t = s \<and> mail_dic m = hash_of s (mail_key eid) \<and> look s (mail_key eid) \<noteq> None) (\<lambda>_ _. True) s"
  unfolding load_mail_def
  by (intro ok_wp) (auto simp: hash_of_def split: option.splits)

lemma sort_keys_ok: "wp (mapM l (\<lambda>m. bindM (liftE (mail_ts m)) (\<lambda>t. retM (t, m))))
   (\<lambda>kl t. t = s \<and> map snd kl = l \<and> (\<forall>(k, m) \<in> set kl. mail_ts m = Inr k)) (\<lambda>_ _. True) s"
proof (rule ok_mapM_read [where P = "\<lambda>m p. snd p = m \<and> mail_ts m = Inr (fst p)"])
  show "wp (bindM (liftE (mail_ts m)) (\<lambda>t. retM (t, m))) (\<lambda>y t. t = s \<and> snd y = m \<and> mail_ts m = Inr (fst y)) (\<lambda>_ _. True) s" for m
    by (intro ok_wp) simp
  show "s = s \<and> map snd kl = l \<and> (\<forall>(k, m) \<in> set kl. mail_ts m = Inr k)" if "list_all2 (\<lambda>m p. snd p = m \<and> mail_ts m = Inr (fst p)) l kl" for kl
    using that by (induction rule: list_all2_induct) auto
qed

text \<open>A list of mails from the latest to the oldest.\<close>

definition latest_first :: "mail list \<Rightarrow> bool" where
  "latest_first ms \<longleftrightarrow> (\<exists>ks. map mail_ts ms = map Inr ks \<and> sorted (rev ks))"

lemma sorted_rev_neg: "sorted (map (\<lambda>x. - f x) xs) \<Longrightarrow> sorted (rev (map f xs))"
  for f :: "'a \<Rightarrow> int"
  by (induction xs) (auto simp: sorted_append)

lemma sorted_by_ts_ok:
  "wp (sorted_by_ts l) (\<lambda>r t. t = s \<and> mset (map snd r) = mset l \<and> latest_first (map snd r)) (\<lambda>_ _. True) s"
  unfolding sorted_by_ts_def wp_bindM
proof (rule wp_mono [OF sort_keys_ok])
  fix kl t assume a: "t = s \<and> map snd kl = l \<and> (\<forall>(k, m) \<in> set kl. mail_ts m = Inr k)"
  let ?r = "sort_key (\<lambda>p. - fst p) kl"
  have "mset (map snd ?r) = mset l" using a by (metis mset_map mset_sort)
  moreover have "map mail_ts (map snd ?r) = map Inr (map fst ?r)" using a by (auto simp: case_prod_beta)
  moreover have "sorted (rev (map fst ?r))" by (rule sorted_rev_neg) simp
  ultimately have "mset (map snd ?r) = mset l \<and> latest_first (map snd ?r)" unfolding latest_first_def by blast
  then show "wp (retM ?r) (\<lambda>r t. t = s \<and> mset (map snd r) = mset l \<and> latest_first (map snd r)) (\<lambda>_ _. True) t"
    using a by (simp add: wp_retM)
qed simp

lemma all_mails_ok: "wp (all_mails uid) (\<lambda>r t. t = s \<and> r = mailbox s uid) (\<lambda>_ _. True) s"
  unfolding all_mails_def by (intro ok_wp) (simp add: mailbox_def)

lemma load_all_ok:
  "wp (mapM eids (load_mail ev)) (\<lambda>ms t. t = s \<and> map mail_dic ms = map (\<lambda>e. hash_of s (mail_key e)) eids \<and>
     (\<forall>e \<in> set eids. look s (mail_key e) \<noteq> None)) (\<lambda>_ _. True) s"
proof (rule ok_mapM_read [OF load_mail_ok])
  fix ms assume "list_all2 (\<lambda>e m. mail_dic m = hash_of s (mail_key e) \<and> look s (mail_key e) \<noteq> None) eids ms"
  then show "s = s \<and> map mail_dic ms = map (\<lambda>e. hash_of s (mail_key e)) eids \<and> (\<forall>e \<in> set eids. look s (mail_key e) \<noteq> None)"
    by (induction rule: list_all2_induct) auto
qed

definition shown :: "mail list \<Rightarrow> string option \<Rightarrow> redis \<Rightarrow> bool" where
  "shown ms uid t \<longleftrightarrow>
     (\<exists>us rs. ms = us @ rs \<and> list_all unread us \<and> list_all (\<lambda>m. \<not> unread m) rs \<and> latest_first us \<and> latest_first rs) \<and>
     mset (map mail_dic ms) = mset (map (\<lambda>e. hash_of t (mail_key e)) (mailbox t uid)) \<and>
     (\<forall>e \<in> set (mailbox t uid). look t (mail_key e) \<noteq> None)"

lemma list_all_mset: "mset xs = mset (filter P ys) \<Longrightarrow> list_all P xs"
  by (drule mset_eq_setD) (auto simp: list_all_iff)

lemma shownI:
  assumes "map mail_dic ms = map (\<lambda>e. hash_of t (mail_key e)) (mailbox t uid)" "\<forall>e \<in> set (mailbox t uid). look t (mail_key e) \<noteq> None"
    and "mset us = mset (filter unread ms)" "latest_first us" "mset rs = mset (filter (\<lambda>m. \<not> unread m) ms)" "latest_first rs"
  shows "shown (us @ rs) uid t"
proof -
  have "mset ms = mset us + mset rs"
    using assms(3,5) multiset_partition [of "mset ms" unread] by (simp add: mset_filter)
  then have "mset (map mail_dic (us @ rs)) = mset (map mail_dic ms)" by simp
  then show ?thesis unfolding shown_def using assms list_all_mset [OF assms(3)] list_all_mset [OF assms(5)] by metis
qed

lemma show_mails_ok:
  assumes drop: "\<And>e t. e \<in> set (mailbox s (sid_uid s sid)) \<Longrightarrow> I t \<Longrightarrow> wp (drop_expired now (sid_uid s sid) e) (\<lambda>_. I) (\<lambda>_ _. True) t" and "I s"
  shows "wp (show_mails ev now sid) (\<lambda>ms t. I t \<and> shown ms (sid_uid s sid) t) (\<lambda>_ _. True) s"
  unfolding show_mails_def
  by (intro ok_wp wp_mono [OF all_mails_ok] ok_forM [where I = I]; (elim conjE)?; hypsubst?)
    (auto simp: assms intro!: wp_mono [OF load_all_ok] ok_wp wp_mono [OF sorted_by_ts_ok] shownI)

text \<open>A listing that succeeds shows exactly the mails of the two mailboxes of the player, each of
  which exists, the unread ones before the read ones and each part from the latest to the oldest.\<close>

theorem show_mails_order:
  assumes "show_mails ev now sid s = (Inr ms, t)"
  shows "(\<exists>us rs. ms = us @ rs \<and> list_all unread us \<and> list_all (\<lambda>m. \<not> unread m) rs \<and> latest_first us \<and> latest_first rs) \<and>
    mset (map mail_dic ms) = mset (map (\<lambda>e. hash_of t (mail_key e)) (mailbox t (sid_uid s sid))) \<and>
    (\<forall>e \<in> set (mailbox t (sid_uid s sid)). look t (mail_key e) \<noteq> None)"
proof -
  have "wp (show_mails ev now sid) (\<lambda>ms t. True \<and> shown ms (sid_uid s sid) t) (\<lambda>_ _. True) s"
    by (rule show_mails_ok) (auto simp: wp_def split: prod.split sum.split)
  from wp_InrD [OF this assms] show ?thesis by (simp add: shown_def)
qed

lemma demo_shown: "fst (show_mails bar_ev 6 ''r'' demo_sent) = Inr (projr (fst (show_mails bar_ev 6 ''r'' demo_sent)))"
proof -
  have "isl (fst (show_mails bar_ev 6 ''r'' demo_sent)) = False" by code_simp
  then show ?thesis by (cases "fst (show_mails bar_ev 6 ''r'' demo_sent)") auto
qed

theorem show_mails_order_witness:
  "let ms = projr (fst (show_mails bar_ev 6 ''r'' demo_sent)); t = snd (show_mails bar_ev 6 ''r'' demo_sent) in
   (\<exists>us rs. ms = us @ rs \<and> list_all unread us \<and> list_all (\<lambda>m. \<not> unread m) rs \<and> latest_first us \<and> latest_first rs) \<and>
    mset (map mail_dic ms) = mset (map (\<lambda>e. hash_of t (mail_key e)) (mailbox t (sid_uid demo_sent ''r''))) \<and>
    (\<forall>e \<in> set (mailbox t (sid_uid demo_sent ''r'')). look t (mail_key e) \<noteq> None)"
  unfolding Let_def
  by (rule show_mails_order [where ev = bar_ev and now = 6]) (subst surjective_pairing, simp only: demo_shown [symmetric])

section \<open>A mail fetched by somebody else\<close>

definition fresh :: "int \<Rightarrow> string \<Rightarrow> bool" where
  "fresh now eid \<longleftrightarrow> (case split_on (CHR ''|'') eid of _ # t # _ \<Rightarrow> (case py_int t of Inr n \<Rightarrow> now - n \<le> 3600 * 24 * 30 | _ \<Rightarrow> False) | _ \<Rightarrow> False)"

definition dangling :: "string \<Rightarrow> string option \<Rightarrow> redis \<Rightarrow> bool" where
  "dangling eid uid t \<longleftrightarrow> eid \<in> set (mailbox t uid) \<and> look t (mail_key eid) = None"

lemma drop_expired_dangling:
  assumes "fresh now eid" "dangling eid uid t"
  shows "wp (drop_expired now uid e) (\<lambda>_. dangling eid uid) (\<lambda>_ _. True) t"
proof (cases "e = eid")
  case True
  then show ?thesis using assms
    by (auto simp: drop_expired_def fresh_def wp_eqs split: list.splits sum.splits)
next
  case False
  then show ?thesis using assms(2) unfolding drop_expired_def
    by (intro ok_wp) (auto simp: dangling_def mailbox_def look_put_set)
qed

lemma dangling_blocks:
  assumes "fresh now eid" "dangling eid (sid_uid s sid) s"
  shows "fst (show_mails ev now sid s) \<noteq> Inr ms"
proof
  assume "fst (show_mails ev now sid s) = Inr ms"
  then have run: "show_mails ev now sid s = (Inr ms, snd (show_mails ev now sid s))" by (simp add: prod_eq_iff)
  have "wp (show_mails ev now sid) (\<lambda>ms t. dangling eid (sid_uid s sid) t \<and> shown ms (sid_uid s sid) t) (\<lambda>_ _. True) s"
    by (rule show_mails_ok) (auto intro: drop_expired_dangling assms)
  from wp_InrD [OF this run] show False by (auto simp: dangling_def shown_def)
qed

text \<open>A mail in one player's box can be fetched by another one, and from then on the owner's
  listing fails for as long as the mail is younger than thirty days: its id stays in the owner's set,
  the mail itself is gone.\<close>

theorem stolen_mail_blocks_box:
  assumes "get_attach ev eidf thief s = (Inr (Reply 0 m), t)"
    and "strip eidf \<in> set (mailbox s (sid_uid s owner))" "fmt (sid_uid s thief) \<noteq> fmt (sid_uid s owner)"
    and "fresh now (strip eidf)"
  shows "fst (show_mails ev' now owner t) \<noteq> Inr ms"
proof (rule dangling_blocks [OF assms(4)])
  let ?e = "strip eidf"
  have "fetch_post ev ?e thief s (Reply 0 m) t" using wp_InrD [OF get_attach_ok assms(1)] .
  then obtain cs t1 where c: "credited cs (sid_uid s thief) s t1"
    and t: "t = unput (mail_key ?e) (put_set (mail_set (hf s (mail_key ?e) ''type'') (sid_uid s thief))
         (removeAll ?e (members s (mail_set (hf s (mail_key ?e) ''type'') (sid_uid s thief)))) t1)"
    by (auto simp: fetch_post_def)
  note look = credited_other [OF c]
  have "members t1 (mail_set ty u) = members s (mail_set ty u)" for ty u
    by (rule members_cong_look) (simp add: look)
  from this [of "Some ''0''" "sid_uid s owner"] this [of None "sid_uid s owner"]
  have "mailbox t (sid_uid s owner) = mailbox s (sid_uid s owner)"
    using assms(3) by (auto simp: t mailbox_def mail_set_def)
  moreover have "sid_uid t owner = sid_uid s owner"
    by (rule sid_uid_frame) (simp add: t look_put_set look mail_set_neq [symmetric])
  ultimately show "dangling ?e (sid_uid t owner) t" using assms(2) by (simp add: dangling_def t)
qed

theorem stolen_mail_blocks_box_witness:
  "fst (show_mails bar_ev 6 ''r'' (snd (get_attach bar_ev ''7|5'' ''x'' demo_sent))) \<noteq> Inr []"
proof (rule stolen_mail_blocks_box [where ev = bar_ev and eidf = "''7|5''" and thief = "''x''" and s = demo_sent])
  show "get_attach bar_ev ''7|5'' ''x'' demo_sent = (Inr (Reply 0 ''ok''), snd (get_attach bar_ev ''7|5'' ''x'' demo_sent))"
    by (simp add: prod_eq_iff demo_sent_ok)
  show "strip ''7|5'' \<in> set (mailbox demo_sent (sid_uid demo_sent ''r''))" by code_simp
  show "fmt (sid_uid demo_sent ''x'') \<noteq> fmt (sid_uid demo_sent ''r'')" by code_simp
  show "fresh 6 (strip ''7|5'')" by code_simp
qed

end
