(* ===== verification/HallCommon.thy ===== *)
theory HallCommon
  imports Sessions MatchQueue FishBag
begin

text \<open>
  What the handlers of the fishing hall share: safe conversions (common/convert_util.py), pages of a
  list (common/utilt.py, common/web_util.py), the session check (model/hallModel.py), the lines sent to
  the game servers (model/protoclModel.py), the festival calendar (model/fishModel.py) and the limiter of
  API calls (common/web_util.py).
\<close>

section \<open>Conversions\<close>

definition to_int :: "string option \<Rightarrow> int" where
  "to_int v = (case py_int_none v of Inr n \<Rightarrow> n | Inl _ \<Rightarrow> 0)"

definition to_int0 :: "string option \<Rightarrow> int" where
  "to_int0 v = (let result = to_int v in if result = 0 \<or> result < 0 then 1 else result)"

lemma to_int0_pos: "1 \<le> to_int0 v"
  by (simp add: to_int0_def Let_def)

lemma to_int_show [simp]: "to_int (Some (show_int n)) = n"
  by (simp add: to_int_def py_int_none_def)

section \<open>Pages\<close>

definition ServerPagination :: "'a list \<Rightarrow> int \<Rightarrow> int \<Rightarrow> 'a list" where
  "ServerPagination dates pageSize pageNumber =
     (let start = (pageNumber - 1) * pageSize; stop = pageSize * pageNumber in py_slice dates start stop)"

definition get_server_pagination :: "'a list \<Rightarrow> int \<Rightarrow> int \<Rightarrow> 'a list" where
  "get_server_pagination dates pageSize pageNumber =
     (let start = (pageNumber - 1) * pageSize; stop = pageSize * pageNumber in py_slice dates start stop)"

section \<open>The session check\<close>

text \<open>Code and user table; a refusal carries no table.\<close>

definition check_session_verfiy :: "string \<Rightarrow> string option \<Rightarrow> string \<Rightarrow> string option \<Rightarrow> (int \<times> string option) rh" where
  "check_session_verfiy SessionTable account sid verfiySid =
     (if truthy verfiySid \<and> Some sid \<noteq> verfiySid then retM (- 4, None) else
      bindM (exists_key (''kick:session:'' @ sid)) (\<lambda>kicked.
      if kicked then retM (- 4, None) else
      bindM (exists_key SessionTable) (\<lambda>alive.
      if \<not> alive then retM (- 3, None) else
      bindM (getUserByAccount (fmt account)) (\<lambda>user_table.
      bindM (exists_key (fmt user_table)) (\<lambda>known.
      retM (if \<not> known then (- 5, None) else (0, user_table)))))))"

text \<open>The opening lines of a handler: look the session up, check it, and refuse with the code or go on
  with the account, the user id and the user table.\<close>

definition session_guard :: "string \<Rightarrow> (int \<Rightarrow> 'a) \<Rightarrow> (string option \<Rightarrow> string option \<Rightarrow> string \<Rightarrow> 'a rh) \<Rightarrow> 'a rh" where
  "session_guard sid_form refuse body =
     (let sid = strip sid_form in
      bindM (getInfoBySid sid) (\<lambda>(SessionTable, account, uid, verfiySid).
      bindM (check_session_verfiy SessionTable account sid verfiySid) (\<lambda>(check_code, user_table).
      if check_code < 0 then retM (refuse check_code) else body account uid (fmt user_table))))"

section \<open>Lines to the game servers\<close>

definition FISH_ROOM_LIST :: string where "FISH_ROOM_LIST = ''fish:room:lists''"
definition GAME_LIST :: string where "GAME_LIST = ''games:list''"

definition sendProtocol2GameService :: "string \<Rightarrow> string \<Rightarrow> unit rh" where
  "sendProtocol2GameService gameId protocolStr =
     bindM (lrange_all (FORMAT_GAME_SERVICE_SET gameId)) (\<lambda>serverList.
     forM serverList (\<lambda>serverTable.
       case split_on (CHR '':'') serverTable of
         [_, _, _, currency, ip, port] \<Rightarrow>
           rpush (FORMAT_SERVICE_PROTOCOL_TABLE gameId (currency @ '':'' @ ip @ '':'' @ port)) protocolStr
       | _ \<Rightarrow> raiseM ValueError))"

definition isGameServiceRunning :: "string \<Rightarrow> bool rh" where
  "isGameServiceRunning gameId = bindM (lrange_all (FORMAT_GAME_SERVICE_SET gameId)) (\<lambda>l. retM (l \<noteq> []))"

definition sendProtocol2AllGameService :: "string \<Rightarrow> string \<Rightarrow> unit rh" where
  "sendProtocol2AllGameService protocolStr game =
     bindM (if game = ''MAHJONG'' then lrange_all GAME_LIST
            else if game = ''FISH'' then lrange_all FISH_ROOM_LIST else retM []) (\<lambda>gameIds.
     forM gameIds (\<lambda>gameId.
       bindM (isGameServiceRunning gameId) (\<lambda>isRunning.
       if isRunning then sendProtocol2GameService gameId protocolStr else retM ())))"

section \<open>Calendar\<close>

text \<open>What a handler reads off the clock; \<open>mk\<close> is \<open>time.mktime(time.strptime(d, '%Y-%m-%d'))\<close>.\<close>

record clock =
  today_s :: string
  hour_s :: string
  month_s :: string
  mk :: "string \<Rightarrow> exn + int"

definition ACTIVE_CONFIG_ONE_HESH :: "string \<Rightarrow> string" where
  "ACTIVE_CONFIG_ONE_HESH i = ''active:configs:'' @ i @ '':hesh''"

definition mk_none :: "clock \<Rightarrow> string option \<Rightarrow> exn + int" where
  "mk_none c d = (case d of None \<Rightarrow> Inl TypeError | Some x \<Rightarrow> mk c x)"

text \<open>\<open>check_spring_time\<close> for one activity (the callers modelled pass an id).\<close>

definition check_spring_time :: "clock \<Rightarrow> string \<Rightarrow> bool rh" where
  "check_spring_time c active_id =
     (let key = ACTIVE_CONFIG_ONE_HESH active_id in
      bindM (exists_key key) (\<lambda>springTime.
      bindM (hmget key [''start_time'', ''end_time'']) (\<lambda>v.
      if springTime then
        bindM (liftE (mk_none c (v ! 0))) (\<lambda>s_time.
        bindM (liftE (mk_none c (v ! 1))) (\<lambda>e_time.
        bindM (liftE (mk c (today_s c))) (\<lambda>log_time.
        retM (\<not> log_time < s_time \<and> \<not> log_time > e_time))))
      else retM False)))"

section \<open>The limiter of API calls\<close>

definition USER_API_ACCESS_TABLE :: "string \<Rightarrow> string" where "USER_API_ACCESS_TABLE ip = ''user:'' @ ip @ '':api:limit:table''"
definition USER_API_EXPIRE :: int where "USER_API_EXPIRE = 60"

text \<open>\<open>redis.ttl(k)\<close> of the client: \<open>None\<close> for no key, no time-to-live or zero.\<close>

definition ttl_of :: "string \<Rightarrow> int option rh" where
  "ttl_of k = (\<lambda>s. (Inr (if look s k = None then None else
     (case map_of (ttl s) k of Some t \<Rightarrow> if t > 0 then Some t else None | None \<Rightarrow> None)), s))"

definition api_limit_checker :: "string \<Rightarrow> string \<Rightarrow> bool rh" where
  "api_limit_checker ip api_path =
     (let t = USER_API_ACCESS_TABLE ip in
      bindM (exists_key t) (\<lambda>ex.
      if ex then
        bindM (ttl_of t) (\<lambda>left.
        if left = None then
          thenM (delete_key t)
          (thenM (execute [drop_reply (hincrby t api_path ''1''), expire_key t USER_API_EXPIRE]) (retM True))
        else
          bindM (hget t api_path) (\<lambda>n.
          if to_int n > 200 then retM False else
          thenM (execute [drop_reply (hincrby t api_path ''1'')]) (retM True)))
      else thenM (execute [hset t api_path ''1'', expire_key t USER_API_EXPIRE]) (retM True)))"

end
