(* ===== verification/FishBenefit.thy ===== *)
theory FishBenefit
  imports HallCommon FishFriend
begin

text \<open>
  Relief coins and daily signs of the fishing hall (fish/fish_benefit.py and
  fish/fish_util/fish_benefit_fun.py).  The clock, the generated token, \<open>json\<close> and \<open>str\<close>/\<open>eval\<close> of the stored
  texts are arguments.
\<close>

section \<open>Keys\<close>

definition FISH_CONSTS_CONFIG :: string where "FISH_CONSTS_CONFIG = ''fish:config:setting:hesh''"
definition FISH_BENEFIT_COIN_TABLE :: "string \<Rightarrow> string" where "FISH_BENEFIT_COIN_TABLE d = ''benefit:coin:take:'' @ d @ '':hesh''"
definition USER_BENEFIT_TOKEN :: "string option \<Rightarrow> string" where "USER_BENEFIT_TOKEN uid = ''benefit:user:'' @ fmt uid @ '':token''"
definition FISH_TABLE_NOW_RUN :: string where "FISH_TABLE_NOW_RUN = ''sign:now:run''"
definition FISH_SIGN_TABLE :: "string \<Rightarrow> string" where "FISH_SIGN_TABLE i = ''sign:fish:'' @ i @ '':table''"
definition FISH_SIGN_TABLE_WEEK :: "string \<Rightarrow> string \<Rightarrow> string" where "FISH_SIGN_TABLE_WEEK i w = ''sign:fish:'' @ i @ '':'' @ w @ '':hesh''"
definition FISH_SIGN_TABLE_USER_NUMBER :: "string \<Rightarrow> string" where "FISH_SIGN_TABLE_USER_NUMBER m = ''sign:fish:user:numbers:'' @ m @ '':hesh''"
definition FISH_SIGN_TABLE_USER_RECEIVE :: "string \<Rightarrow> string" where "FISH_SIGN_TABLE_USER_RECEIVE m = ''sign:fish:user:numbers:'' @ m @ '':receive:hesh''"

section \<open>Relief coins\<close>

record benefit =
  user_take_count :: int
  min_coin :: int
  take_count :: int
  benefit_coin :: int

definition can_take_benefit :: "clock \<Rightarrow> string option \<Rightarrow> string \<Rightarrow> (int \<times> benefit) rh" where
  "can_take_benefit c uid user_table =
     bindM (hmget FISH_CONSTS_CONFIG [''save_min_money'', ''save_times'', ''save_money'']) (\<lambda>v.
     thenM (hget user_table ''coin'')
     (bindM (hget (FISH_BENEFIT_COIN_TABLE (today_s c)) (fmt uid)) (\<lambda>taken.
      bindM (check_spring_time c ''2'') (\<lambda>isSpring.
      (let multiple = if isSpring \<and> hour_s c = ''19'' then 3 else 1;
           info = \<lparr>user_take_count = to_int taken, min_coin = to_int (v ! 0), take_count = to_int (v ! 1),
             benefit_coin = to_int (v ! 2) * multiple\<rparr>
       in retM (if take_count info \<le> user_take_count info then (- 9002, info) else (0, info)))))))"

definition pay_benefit :: "clock \<Rightarrow> string option \<Rightarrow> string option \<Rightarrow> string \<Rightarrow> benefit \<Rightarrow> reply rh" where
  "pay_benefit c account uid user_table info =
     thenM (execute
       [drop_reply (hincrby (FISH_BENEFIT_COIN_TABLE (today_s c)) (fmt uid) ''1''),
        drop_reply (hincrby user_table ''coin'' (show_int (benefit_coin info))),
        delete_key (USER_BENEFIT_TOKEN uid)])
     (thenM (expire_key (FISH_BENEFIT_COIN_TABLE (today_s c)) 86400)
     (thenM (sendProtocol2AllGameService (''memberRefresh|'' @ fmt account) ''FISH'')
     (retM (Reply 0 ''taken''))))"

definition do_take_benefit :: "clock \<Rightarrow> string \<Rightarrow> string \<Rightarrow> reply rh" where
  "do_take_benefit c sid token =
     session_guard sid (\<lambda>code. Reply code ''session'') (\<lambda>account uid user_table.
     bindM (get (USER_BENEFIT_TOKEN uid)) (\<lambda>server_token.
     if Some (strip token) \<noteq> server_token then retM (Reply (- 9003) ''taken already'') else
     bindM (can_take_benefit c uid user_table) (\<lambda>(code, info).
     if code < 0 then retM (Reply code ''no more today'')
     else pay_benefit c account uid user_table info)))"

text \<open>\<open>/getBenefitInfo\<close>: \<open>token\<close> is the digest of the time and the session.\<close>

definition get_benefit_info :: "clock \<Rightarrow> string \<Rightarrow> string \<Rightarrow> (int + benefit \<times> bool \<times> string) rh" where
  "get_benefit_info c token sid =
     session_guard sid Inl (\<lambda>account uid user_table.
     bindM (can_take_benefit c uid user_table) (\<lambda>(code, info).
     thenM (set_str (USER_BENEFIT_TOKEN uid) token)
     (retM (Inr (info, \<not> code < 0, token)))))"

section \<open>Daily signs\<close>

record sign_clock = clock +
  weekday_n :: int
  week_now :: string
  week_of :: "int \<Rightarrow> exn + string"

text \<open>The texts stored for signs: the dictionary of a day, and the list of the users of a day.\<close>

record sign_text =
  ev_info :: "string \<Rightarrow> exn + pydict"
  str_info :: "pydict \<Rightarrow> string"
  ev_users :: "string \<Rightarrow> exn + string option list"
  str_users :: "string option list \<Rightarrow> string"

text \<open>\<open>WeekTo[int(day)]\<close> and the date of that day in this week.\<close>

definition day_in_week :: "sign_clock \<Rightarrow> int \<Rightarrow> exn + string" where
  "day_in_week c d = (if 1 \<le> d \<and> d \<le> 7 then week_of c d else Inl KeyError)"

definition users_of :: "sign_text \<Rightarrow> string \<Rightarrow> string \<Rightarrow> string option list rh" where
  "users_of x key signDay = bindM (hget key signDay) (\<lambda>u. if truthy u then liftE (ev_users x (the u)) else retM [])"

definition eval_info :: "sign_text \<Rightarrow> string option \<Rightarrow> exn + pydict" where
  "eval_info x v = (case v of None \<Rightarrow> Inl TypeError | Some t \<Rightarrow> ev_info x t)"

definition dict_get :: "pydict \<Rightarrow> string \<Rightarrow> exn + pyv" where
  "dict_get d k = (case map_of d k of None \<Rightarrow> Inl KeyError | Some v \<Rightarrow> Inr v)"

definition to_int_v :: "pyv \<Rightarrow> int" where
  "to_int_v v = (case pyv_int v of Inr n \<Rightarrow> n | Inl _ \<Rightarrow> 0)"

definition check_sign_valid :: "sign_text \<Rightarrow> sign_clock \<Rightarrow> string option \<Rightarrow> string \<Rightarrow> string \<Rightarrow> (int \<times> pydict) rh" where
  "check_sign_valid x c uid signDay signType =
     bindM (exists_key (FISH_SIGN_TABLE signType)) (\<lambda>ex.
     if \<not> ex then retM (- 10001, []) else
     bindM (hget (FISH_SIGN_TABLE signType) signDay) (\<lambda>t.
     bindM (liftE (eval_info x t)) (\<lambda>sign_day_info.
     bindM (liftE (py_int signDay)) (\<lambda>d.
     bindM (liftE (day_in_week c d)) (\<lambda>curDatetime.
     if d > weekday_n c then retM (- 1003, []) else
     bindM (users_of x (FISH_SIGN_TABLE_WEEK signType curDatetime) signDay) (\<lambda>users.
     if uid \<in> set users then retM (- 10002, []) else
     thenM (hset (FISH_SIGN_TABLE_WEEK signType curDatetime) signDay (str_users x (users @ [uid])))
     (retM (0, sign_day_info))))))))"

definition get_should_sign_warheads :: "string option \<Rightarrow> int rh" where
  "get_should_sign_warheads uid =
     bindM (hget (user_key uid) ''vip_level'') (\<lambda>v. bindM (liftE (int_or v 0)) (\<lambda>n. retM (1000000 * (n + 1))))"

definition sign_id_of :: "string rh" where
  "sign_id_of = bindM (get FISH_TABLE_NOW_RUN) (\<lambda>v. retM (if truthy v then the v else ''1''))"

definition GIVE_COIN :: int where "GIVE_COIN = 1"

text \<open>\<open>/doSign\<close>.  The queued writes run at the end; \<open>sign_warheads\<close> is bound only in the branch of coins.\<close>

definition do_take_sign_reward :: "sign_text \<Rightarrow> sign_clock \<Rightarrow> string \<Rightarrow> string \<Rightarrow> (reply \<times> int) rh" where
  "do_take_sign_reward x c sid day_form =
     (let signDay = strip day_form in
     session_guard sid (\<lambda>code. (Reply code ''session'', 0)) (\<lambda>account uid user_table.
     bindM sign_id_of (\<lambda>sign_id.
     bindM (check_sign_valid x c uid signDay sign_id) (\<lambda>(code, info).
     if code < 0 then retM (Reply code ''no sign'', 0) else
     bindM (liftE (dict_get info ''give_type'')) (\<lambda>ty.
     bindM (if to_int_v ty = GIVE_COIN then
         thenM (liftE (dict_get info ''coin''))
         (bindM (get_should_sign_warheads uid) (\<lambda>sign_warheads.
          bindM (users_of x (FISH_SIGN_TABLE_WEEK sign_id (week_now c)) signDay) (\<lambda>users.
          retM (Some sign_warheads,
            [drop_reply (hincrby user_table ''warhead'' (show_int sign_warheads)),
             hset (FISH_SIGN_TABLE sign_id) signDay (str_info x info),
             hset (FISH_SIGN_TABLE_WEEK sign_id (week_now c)) signDay (str_users x (users @ [uid]))]))))
       else retM (None, [])) (\<lambda>(sign_warheads, pipe).
     bindM (hget (FISH_SIGN_TABLE_USER_NUMBER (month_s c)) (fmt account)) (\<lambda>number.
     bindM (if truthy number then
         bindM (liftE (py_int_none number)) (\<lambda>n.
         thenM (hincrby (FISH_SIGN_TABLE_USER_NUMBER (month_s c)) (fmt account) ''1'') (retM (n + 1)))
       else thenM (hset (FISH_SIGN_TABLE_USER_NUMBER (month_s c)) (fmt account) ''1'') (retM 1)) (\<lambda>number.
     thenM (execute (pipe @ [hset (user_key uid) ''last_sign_date'' (today_s c)]))
     (case sign_warheads of None \<Rightarrow> raiseM NameError | Some w \<Rightarrow> retM (Reply 0 (show_int w), number))))))))))"

section \<open>The monthly rewards\<close>

definition receiveMoney :: "(string \<times> int) list" where
  "receiveMoney = [(''5'', 100000), (''10'', 250000), (''15'', 500000), (''20'', 1000000)]"

definition no_receive :: "(string \<times> int) list" where
  "no_receive = [(''5'', 0), (''10'', 0), (''15'', 0), (''20'', 0)]"

definition receive_month :: "(string \<Rightarrow> exn + (string \<times> int) list) \<Rightarrow> ((string \<times> int) list \<Rightarrow> string) \<Rightarrow> clock \<Rightarrow>
    string option \<Rightarrow> string option \<Rightarrow> string \<Rightarrow> reply rh" where
  "receive_month loads dumps c account userTable day =
     bindM (hget (FISH_SIGN_TABLE_USER_RECEIVE (month_s c)) (fmt account)) (\<lambda>receive.
     bindM (hget (FISH_SIGN_TABLE_USER_NUMBER (month_s c)) (fmt account)) (\<lambda>number.
     bindM (liftE (int_or number 0)) (\<lambda>number.
     bindM (if truthy receive then liftE (loads (the receive)) else retM no_receive) (\<lambda>receive.
     bindM (liftE (py_int day)) (\<lambda>d.
     if d \<le> number then
       if map_of receive day = None then retM (Reply 1 ''no such day'') else
       (case map_of receiveMoney day of None \<Rightarrow> raiseM KeyError | Some money \<Rightarrow>
        if map_of receive day = Some 0 then
          thenM (hincrby (fmt userTable) ''coin'' (show_int money))
          (thenM (hset (FISH_SIGN_TABLE_USER_RECEIVE (month_s c)) (fmt account) (dumps (AList.update day 1 receive)))
          (retM (Reply 0 ''received'')))
        else retM (Reply 1 ''received already''))
     else retM (Reply 1 ''not yet''))))))"

definition doSignMonth :: "(string \<Rightarrow> exn + (string \<times> int) list) \<Rightarrow> ((string \<times> int) list \<Rightarrow> string) \<Rightarrow> clock \<Rightarrow> string \<Rightarrow> string \<Rightarrow> reply rh" where
  "doSignMonth loads dumps c sid day =
     session_guard sid (\<lambda>code. Reply code ''session'') (\<lambda>account uid user_table.
     bindM (get (FORMAT_ACCOUNT2USER_TABLE (fmt account))) (\<lambda>userTable.
     receive_month loads dumps c account userTable (strip day)))"

text \<open>\<open>/getSignInfo\<close>: for every day of the table whether the user signed, and its picture.\<close>

definition sign_day_entry :: "sign_text \<Rightarrow> sign_clock \<Rightarrow> string option \<Rightarrow> string \<Rightarrow> string \<times> string \<Rightarrow> (int \<times> bool \<times> pyv) list rh" where
  "sign_day_entry x c uid signId e =
     (if fst e = ''title'' then retM [] else
      bindM (liftE (ev_info x (snd e))) (\<lambda>val.
      bindM (liftE (py_int (fst e))) (\<lambda>day.
      bindM (liftE (day_in_week c day)) (\<lambda>cur.
      bindM (users_of x (FISH_SIGN_TABLE_WEEK signId cur) (show_int day)) (\<lambda>users.
      bindM (liftE (dict_get val ''image'')) (\<lambda>image.
      retM [(day, Some (fmt uid) \<in> set users, image)]))))))"

definition get_user_sign_info :: "sign_text \<Rightarrow> sign_clock \<Rightarrow> string option \<Rightarrow> string \<Rightarrow> (int \<times> bool \<times> pyv) list option rh" where
  "get_user_sign_info x c uid signId =
     bindM (exists_key (FISH_SIGN_TABLE signId)) (\<lambda>ex.
     if \<not> ex then retM None else
     bindM (hgetall (FISH_SIGN_TABLE signId)) (\<lambda>info.
     bindM (mapM info (sign_day_entry x c uid signId)) (\<lambda>rows. retM (Some (concat rows)))))"

definition get_sign_info :: "sign_text \<Rightarrow> (string \<Rightarrow> exn + (string \<times> int) list) \<Rightarrow> sign_clock \<Rightarrow> string \<Rightarrow>
    (int + (int \<times> bool \<times> pyv) list \<times> int \<times> int \<times> (string \<times> int) list) rh" where
  "get_sign_info x loads c sid =
     session_guard sid Inl (\<lambda>account uid user_table.
     bindM sign_id_of (\<lambda>sign_id.
     bindM (get_user_sign_info x c uid sign_id) (\<lambda>info. case info of None \<Rightarrow> retM (Inl (- 10001)) | Some rows \<Rightarrow>
     bindM (hget (FISH_SIGN_TABLE_USER_NUMBER (month_s c)) (fmt account)) (\<lambda>number.
     bindM (liftE (int_or number 0)) (\<lambda>number.
     bindM (hget (FISH_SIGN_TABLE_USER_RECEIVE (month_s c)) (fmt account)) (\<lambda>receive.
     bindM (if truthy receive then liftE (loads (the receive)) else retM no_receive) (\<lambda>receive.
     retM (Inr (rows, weekday_n c, number, receive)))))))))"

end
