(* ===== verification/FishSpring.thy ===== *)
theory FishSpring
  imports FishBenefit
begin

text \<open>
  The festival activities of the fishing hall (fish/fish_spring.py): the list of activities, the daily
  quiz with its red packets, and the survey.  \<open>json.loads\<close> of the stored objects and of the answers of
  a form, the clock and the random numbers are arguments.
\<close>

section \<open>Keys\<close>

definition ACTIVICE_SPRING_TIME :: string where "ACTIVICE_SPRING_TIME = ''activice:setting:time''"
definition ACTIVE_CONFIG_ALL_LIST :: string where "ACTIVE_CONFIG_ALL_LIST = ''active:configs:all:set''"
definition ACTIVICE_QUESTION_SELECT :: nat where "ACTIVICE_QUESTION_SELECT = 4"
definition ACTIVICE_QUESTION_ALL_HESH :: string where "ACTIVICE_QUESTION_ALL_HESH = ''activice:question:hesh''"
definition ACTIVICE_QUESTION_REWARD_LIST :: string where "ACTIVICE_QUESTION_REWARD_LIST = ''activice:question:reward:hesh''"
definition ACTIVICE_QUESTION_REWARD_COUNT :: "string \<Rightarrow> string" where
  "ACTIVICE_QUESTION_REWARD_COUNT rid = ''activice:question:reward:'' @ rid @ '':count:hesh''"
definition ACTIVICE_QUESTION_GOLD_MIN :: int where "ACTIVICE_QUESTION_GOLD_MIN = 10000"
definition ACTIVICE_QUESTION_GOLD_MAX :: int where "ACTIVICE_QUESTION_GOLD_MAX = 50000"
definition ACTIVICE_SEND_GOLD_COUNT :: string where "ACTIVICE_SEND_GOLD_COUNT = ''activice:question:send:gold:hesh''"
definition ACTIVICE_SEND_REDPACK_COUNT :: string where "ACTIVICE_SEND_REDPACK_COUNT = ''activice:question:send:redpack:hesh''"
definition ACTIVICE_SEND_TICK_COUNT :: string where "ACTIVICE_SEND_TICK_COUNT = ''activice:question:send:tick:hesh''"
definition ACTIVICE_QUESTION_ANSWER :: string where "ACTIVICE_QUESTION_ANSWER = ''activice:question:answer:hesh''"
definition ACTIVICE_QUESTION_START :: string where "ACTIVICE_QUESTION_START = ''activice:question:start:hesh''"
definition SURVER_NUMBER :: string where "SURVER_NUMBER = ''lws_001''"
definition SURVER_SEND_GOLD :: int where "SURVER_SEND_GOLD = 500000"
definition ACTIVICE_SURVER_NUMBER_LIST :: "string \<Rightarrow> string" where "ACTIVICE_SURVER_NUMBER_LIST n = ''activice:surver:'' @ n @ '':list''"
definition ACTIVICE_SURVER_ANSWER :: "string \<Rightarrow> string" where "ACTIVICE_SURVER_ANSWER n = ''activice:surver:answer:'' @ n @ '':set''"
definition ACTIVICE_SURVER_RESULT :: "string \<Rightarrow> string \<Rightarrow> string" where
  "ACTIVICE_SURVER_RESULT n t = ''activice:surver:result:'' @ n @ '':'' @ t @ '':hesh''"
definition ACTIVICE_SEND_SURVER_GOLD_COUNT :: "string \<Rightarrow> string" where
  "ACTIVICE_SEND_SURVER_GOLD_COUNT n = ''activice:surver:send:'' @ n @ '':hesh''"

section \<open>Activities\<close>

text \<open>The opening lines of every handler of the module.\<close>

definition alive_guard :: "string \<Rightarrow> 'a \<Rightarrow> (string option \<Rightarrow> 'a rh) \<Rightarrow> 'a rh" where
  "alive_guard sid refused body =
     bindM (getInfoBySid (strip sid)) (\<lambda>(SessionTable, account, uid, verfiySid).
     bindM (exists_key SessionTable) (\<lambda>alive. if alive then body account else retM refused))"

text \<open>\<open>json.loads\<close>: an object of numbers and strings, and the answers of a form, where the answer of a
  question is the list of its choices as \<open>str\<close> prints them, or \<open>None\<close> when it cannot be iterated.\<close>

record spring_json =
  js_obj :: "string \<Rightarrow> exn + pydict"
  js_answers :: "string \<Rightarrow> exn + (string \<times> string list option) list"

definition js_none :: "spring_json \<Rightarrow> string option \<Rightarrow> exn + pydict" where
  "js_none j v = (case v of None \<Rightarrow> Inl TypeError | Some t \<Rightarrow> js_obj j t)"

text \<open>\<open>strptime\<close> of a value of an object: it has to be a string.\<close>

definition mk_pyv :: "clock \<Rightarrow> pyv \<Rightarrow> exn + int" where
  "mk_pyv c v = (case v of PStr d \<Rightarrow> mk c d | PInt _ \<Rightarrow> Inl TypeError)"

text \<open>\<open>check_spring_time(redis, False)\<close>: the span is one JSON object; an empty one lacks \<open>from\<close>.\<close>

definition check_spring_all :: "spring_json \<Rightarrow> clock \<Rightarrow> bool rh" where
  "check_spring_all j c =
     bindM (get ACTIVICE_SPRING_TIME) (\<lambda>springTime.
     bindM (liftE (js_none j springTime)) (\<lambda>springTime.
     bindM (liftE (dict_get springTime ''from'')) (\<lambda>start_date.
     bindM (liftE (dict_get springTime ''to'')) (\<lambda>end_date.
     bindM (liftE (mk_pyv c start_date)) (\<lambda>s_time.
     bindM (liftE (mk_pyv c end_date)) (\<lambda>e_time.
     bindM (liftE (mk c (today_s c))) (\<lambda>log_time.
     retM (\<not> log_time < s_time \<and> \<not> log_time > e_time))))))))"

definition active_entry :: "spring_json \<Rightarrow> string \<Rightarrow> ((string \<times> string) list \<times> pydict \<times> int) rh" where
  "active_entry j activeId =
     bindM (hgetall (ACTIVE_CONFIG_ONE_HESH activeId)) (\<lambda>tempData.
     case map_of tempData ''route'' of None \<Rightarrow> raiseM KeyError | Some r \<Rightarrow>
     bindM (liftE (js_obj j r)) (\<lambda>route.
     case map_of tempData ''code'' of None \<Rightarrow> raiseM KeyError | Some k \<Rightarrow>
     bindM (liftE (py_int k)) (\<lambda>code. retM (tempData, route, code))))"

definition doActives :: "spring_json \<Rightarrow> clock \<Rightarrow> string \<Rightarrow> (int + ((string \<times> string) list \<times> pydict \<times> int) list) rh" where
  "doActives j c sid =
     alive_guard sid (Inl (- 3)) (\<lambda>account.
     bindM (check_spring_all j c) (\<lambda>isSpring.
     if isSpring then
       bindM (smembers ACTIVE_CONFIG_ALL_LIST) (\<lambda>activeList.
       bindM (mapM activeList (active_entry j)) (\<lambda>data. retM (Inr data)))
     else retM (Inr [])))"

section \<open>The quiz\<close>

definition hkeys :: "string \<Rightarrow> string list rh" where
  "hkeys k = bindM (hgetall k) (\<lambda>h. retM (map fst h))"

text \<open>\<open>/question\<close>: \<open>sample l n\<close> is \<open>random.sample(l, n)\<close>.\<close>

definition getQuestion :: "spring_json \<Rightarrow> clock \<Rightarrow> (string list \<Rightarrow> nat \<Rightarrow> string list) \<Rightarrow> string \<Rightarrow> (reply + pydict list) rh" where
  "getQuestion j c sample sid =
     alive_guard sid (Inl (Reply (- 3) ''session'')) (\<lambda>account.
     bindM (check_spring_time c ''4'') (\<lambda>isIntime.
     if \<not> isIntime then retM (Inl (Reply 1 ''not open'')) else
     bindM (hget ACTIVICE_QUESTION_ANSWER (fmt account)) (\<lambda>answer.
     bindM (hget ACTIVICE_QUESTION_START (fmt account)) (\<lambda>isStart.
     if answer = Some (today_s c) \<or> isStart = Some (today_s c) then retM (Inl (Reply 1 ''answered already'')) else
     bindM (hkeys ACTIVICE_QUESTION_ALL_HESH) (\<lambda>questions.
     bindM (mapM (sample questions (min ACTIVICE_QUESTION_SELECT (length questions)))
       (\<lambda>key. bindM (hget ACTIVICE_QUESTION_ALL_HESH key) (\<lambda>q. liftE (js_none j q)))) (\<lambda>selectQuestion.
     retM (Inr selectQuestion)))))))"

definition setQuestionStart :: "clock \<Rightarrow> string \<Rightarrow> reply rh" where
  "setQuestionStart c sid =
     alive_guard sid (Reply (- 3) ''session'') (\<lambda>account.
     bindM (check_spring_time c ''4'') (\<lambda>isIntime.
     if \<not> isIntime then retM (Reply 1 ''not open'') else
     thenM (hset ACTIVICE_QUESTION_START (fmt account) (today_s c)) (retM (Reply 0 ''started''))))"

text \<open>One answer, right (1) or not (0): what fails on the way counts as wrong.\<close>

definition right_answer :: "spring_json \<Rightarrow> string \<times> string list option \<Rightarrow> nat rh" where
  "right_answer j a =
     tryM (bindM (hget ACTIVICE_QUESTION_ALL_HESH (fst a)) (\<lambda>info.
           bindM (liftE (js_none j info)) (\<lambda>info.
           bindM (liftE (dict_get info ''correct'')) (\<lambda>correct.
           case snd a of None \<Rightarrow> raiseM TypeError | Some ans \<Rightarrow>
           retM (if correct = PStr (join_with '','' ans) then 1 else 0)))))
       (retM 0)"

fun pyv_str :: "pyv \<Rightarrow> string" where
  "pyv_str (PInt n) = show_int n"
| "pyv_str (PStr t) = t"

text \<open>A reward of the list with the copies of it still to be had today: the id, the prize and how many.\<close>

definition reward_copies :: "spring_json \<Rightarrow> string \<Rightarrow> string \<times> string \<Rightarrow> (pyv \<times> pydict \<times> nat) rh" where
  "reward_copies j curDate e =
     bindM (liftE (js_obj j (snd e))) (\<lambda>prize.
     bindM (liftE (dict_get prize ''id'')) (\<lambda>rid.
     bindM (liftE (dict_int prize ''max'')) (\<lambda>maxCount.
     bindM (hget (ACTIVICE_QUESTION_REWARD_COUNT (pyv_str rid)) curDate) (\<lambda>curCount.
     bindM (liftE (int_or curCount 0)) (\<lambda>curCount.
     retM (rid, AList.update ''last'' (PInt (maxCount - curCount)) (AList.update ''max'' (PInt maxCount) prize),
       nat (maxCount - curCount)))))))"

text \<open>One draw: \<open>random.choice\<close> of the copies; the number kept of the reward goes up.  \<open>None\<close> is a draw
  that failed.\<close>

definition draw_reward :: "string \<Rightarrow> (pyv \<times> pydict) list \<Rightarrow> nat \<Rightarrow> pyv list \<Rightarrow> (pydict option \<times> pyv list) rh" where
  "draw_reward curDate pool r probabilitys =
     (if probabilitys = [] then retM (None, []) else
      (let rid = probabilitys ! (r mod length probabilitys); rest = remove1 rid probabilitys in
       case map_of pool rid of None \<Rightarrow> retM (None, rest) | Some prize \<Rightarrow>
       tryM (thenM (hincrby (ACTIVICE_QUESTION_REWARD_COUNT (pyv_str rid)) curDate ''1'') (retM (Some prize, rest)))
         (retM (None, rest))))"

definition total_of :: "pydict \<Rightarrow> exn + int" where
  "total_of prize = (case map_of prize ''total'' of None \<Rightarrow> Inl KeyError | Some (PInt n) \<Rightarrow> Inr n | Some (PStr _) \<Rightarrow> Inl TypeError)"

definition randint :: "nat \<Rightarrow> int \<Rightarrow> int \<Rightarrow> int" where
  "randint r lo hi = lo + int (r mod nat (hi - lo + 1))"

text \<open>The packets of the right answers: coins, tickets and what was sent.  \<open>rnd\<close> gives the two random
  numbers of every round.\<close>

fun send_packets :: "(nat \<Rightarrow> nat \<times> nat) \<Rightarrow> string \<Rightarrow> (pyv \<times> pydict) list \<Rightarrow> int \<Rightarrow> int \<Rightarrow> nat \<Rightarrow> pyv list \<Rightarrow> (int \<times> int \<times> pydict list) rh" where
  "send_packets rnd curDate pool lo hi 0 probabilitys = retM (0, 0, [])"
| "send_packets rnd curDate pool lo hi (Suc n) probabilitys =
     bindM (draw_reward curDate pool (fst (rnd n)) probabilitys) (\<lambda>(choice_item, rest).
     bindM (case choice_item of
         None \<Rightarrow> (let r_gold = randint (snd (rnd n)) lo hi in
           retM (r_gold, 0, [(''title'', PStr (''gold'' @ show_int r_gold)), (''total'', PInt r_gold)]))
       | Some prize \<Rightarrow> bindM (liftE (total_of prize)) (\<lambda>t. retM (0, t, prize))) (\<lambda>(gold, tick, packet).
     bindM (send_packets rnd curDate pool lo hi n rest) (\<lambda>(goldTotal, tickTotal, sendPool).
     retM (gold + goldTotal, tick + tickTotal, packet # sendPool))))"

definition pay_packets :: "string \<Rightarrow> string option \<Rightarrow> string option \<Rightarrow> nat \<Rightarrow> int \<Rightarrow> int \<Rightarrow> unit rh" where
  "pay_packets curDate account userTable correctCount goldTotal tickTotal =
     execute
       ([drop_reply (hincrby ACTIVICE_SEND_REDPACK_COUNT curDate (show_int (int correctCount)))] @
        (if goldTotal \<noteq> 0 then
           [drop_reply (hincrby (fmt userTable) ''coin'' (show_int goldTotal)),
            drop_reply (hincrby ACTIVICE_SEND_GOLD_COUNT curDate (show_int goldTotal))] else []) @
        (if tickTotal \<noteq> 0 then
           [drop_reply (hincrby ''fish:redpick:account:hesh'' (fmt account) (show_int tickTotal)),
            drop_reply (hincrby (fmt userTable) ''exchange_ticket'' (show_int (tickTotal * 8))),
            drop_reply (hincrby ACTIVICE_SEND_TICK_COUNT curDate (show_int (tickTotal * 8)))] else []) @
        [hset ACTIVICE_QUESTION_ANSWER (fmt account) curDate])"

text \<open>The rewards that are left, drawn and paid for the right answers.\<close>

definition reward_answers :: "spring_json \<Rightarrow> (nat \<Rightarrow> nat \<times> nat) \<Rightarrow> string \<Rightarrow> string option \<Rightarrow> nat \<Rightarrow> (reply \<times> pydict list) rh" where
  "reward_answers j rnd curDate account correctCount =
     bindM (hgetall ACTIVICE_QUESTION_REWARD_LIST) (\<lambda>rewards.
     bindM (mapM rewards (reward_copies j curDate)) (\<lambda>copies.
     (let pool = map (\<lambda>(rid, prize, _). (rid, prize)) (rev (filter (\<lambda>(_, _, left). left > 0) copies));
          probabilitys = concat (map (\<lambda>(rid, _, left). replicate left rid) copies);
          goldPreMin = ACTIVICE_QUESTION_GOLD_MIN div int correctCount;
          goldPreMax = ACTIVICE_QUESTION_GOLD_MAX div int correctCount in
      bindM (send_packets rnd curDate pool goldPreMin goldPreMax correctCount probabilitys) (\<lambda>(goldTotal, tickTotal, sendPool).
      bindM (get (FORMAT_ACCOUNT2USER_TABLE (fmt account))) (\<lambda>userTable.
      thenM (pay_packets curDate account userTable correctCount goldTotal tickTotal)
      (retM (Reply 0 (show_int (int correctCount)), sendPool)))))))"

definition question_answer :: "spring_json \<Rightarrow> clock \<Rightarrow> (nat \<Rightarrow> nat \<times> nat) \<Rightarrow> string \<Rightarrow> string \<Rightarrow> (reply \<times> pydict list) rh" where
  "question_answer j c rnd sid data =
     (case js_answers j (strip data) of Inl _ \<Rightarrow> retM (Reply 1 ''arguments'', []) | Inr anwser \<Rightarrow>
     alive_guard sid (Reply (- 3) ''session'', []) (\<lambda>account.
     bindM (check_spring_time c ''4'') (\<lambda>isIntime.
     if \<not> isIntime then retM (Reply 1 ''not open'', []) else
     bindM (hget ACTIVICE_QUESTION_ANSWER (fmt account)) (\<lambda>lastDate.
     if truthy lastDate \<and> lastDate = Some (today_s c) then retM (Reply 1 ''answered already'', []) else
     bindM (hkeys ACTIVICE_QUESTION_ALL_HESH) (\<lambda>questions.
     if length anwser < min ACTIVICE_QUESTION_SELECT (length questions) then retM (Reply 1 ''not complete'', []) else
     bindM (mapM anwser (right_answer j)) (\<lambda>right.
     if sum_list right = 0 then retM (Reply 1 ''nothing right'', [])
     else reward_answers j rnd (today_s c) account (sum_list right)))))))"

section \<open>The survey\<close>

definition getSurver :: "spring_json \<Rightarrow> string \<Rightarrow> (reply + pydict list) rh" where
  "getSurver j sid =
     alive_guard sid (Inl (Reply (- 3) ''session'')) (\<lambda>account.
     bindM (sismember (ACTIVICE_SURVER_ANSWER SURVER_NUMBER) (fmt account)) (\<lambda>isAnswer.
     if isAnswer then retM (Inl (Reply 1 ''answered already'')) else
     bindM (lrange_all (ACTIVICE_SURVER_NUMBER_LIST SURVER_NUMBER)) (\<lambda>questions.
     bindM (mapM questions (\<lambda>temp. liftE (js_obj j temp))) (\<lambda>selectQuestion.
     retM (Inr selectQuestion)))))"

text \<open>The queued counters of the choices; an answer that cannot be iterated makes the handler raise.\<close>

definition survey_choices :: "(string \<times> string list option) list \<Rightarrow> exn + unit rh list" where
  "survey_choices anwser =
     (if \<exists>a \<in> set anwser. snd a = None then Inl TypeError else
      Inr (concat (map (\<lambda>(tid, ans). map (\<lambda>aid. drop_reply (hincrby (ACTIVICE_SURVER_RESULT SURVER_NUMBER tid) aid ''1'')) (the ans)) anwser)))"

definition survey_record :: "string \<Rightarrow> string option \<Rightarrow> (string \<times> string list option) list \<Rightarrow> reply rh" where
  "survey_record curDate account anwser =
     bindM (get (FORMAT_ACCOUNT2USER_TABLE (fmt account))) (\<lambda>userTable.
     bindM (liftE (survey_choices anwser)) (\<lambda>choices.
     thenM (execute (choices @
       [drop_reply (hincrby (fmt userTable) ''coin'' (show_int SURVER_SEND_GOLD)),
        drop_reply (hincrby (ACTIVICE_SEND_SURVER_GOLD_COUNT SURVER_NUMBER) curDate (show_int SURVER_SEND_GOLD)),
        sadd (ACTIVICE_SURVER_ANSWER SURVER_NUMBER) (fmt account)]))
     (retM (Reply 0 ''thanks''))))"

definition surver_answer :: "spring_json \<Rightarrow> string \<Rightarrow> string \<Rightarrow> string \<Rightarrow> reply rh" where
  "surver_answer j curDate sid data =
     (case js_answers j (strip data) of Inl _ \<Rightarrow> retM (Reply 1 ''arguments'') | Inr anwser \<Rightarrow>
     alive_guard sid (Reply (- 3) ''session'') (\<lambda>account.
     bindM (sismember (ACTIVICE_SURVER_ANSWER SURVER_NUMBER) (fmt account)) (\<lambda>isAnswer.
     if isAnswer then retM (Reply 1 ''answered already'') else survey_record curDate account anwser)))"

end
