(* ===== verification/HallLaws.thy ===== *)
theory HallLaws
  imports HallCommon RoomWorkers
begin

text \<open>
  Properties of the shared parts of the hall: pages, the session check, the limiter.
\<close>

section \<open>Pages\<close>

lemma page_take_drop: "ServerPagination xs (int n) (int (Suc i)) = take n (drop (i * n) xs)"
proof -
  have "(int (Suc i) - 1) * int n = int (i * n)" "int n * int (Suc i) = int (i * n + n)"
    by (simp_all add: algebra_simps)
  then show ?thesis unfolding ServerPagination_def Let_def by (simp only: py_slice_nat) simp
qed

text \<open>The pages of a list, one after the other, are the list: no entry is on two pages and none is
  left out.\<close>

theorem pages_cover:
  assumes "length xs \<le> k * n"
  shows "concat (map (\<lambda>i. ServerPagination xs (int n) (int i)) [1..<Suc k]) = xs"
proof -
  have "concat (map (\<lambda>i. ServerPagination xs (int n) (int i)) [1..<Suc k]) = take (k * n) xs" for k
  proof (induction k)
    case (Suc k)
    have "[1..<Suc (Suc k)] = [1..<Suc k] @ [Suc k]" by simp
    then show ?case
      using Suc page_take_drop [of xs n k] take_add [of "k * n" n xs] by (simp add: add.commute del: upt_Suc)
  qed simp
  then show ?thesis using assms by simp
qed

theorem pages_cover_witness:
  "concat (map (\<lambda>i. ServerPagination ''abcde'' (int 2) (int i)) [1..<Suc 3]) = ''abcde''"
  by (rule pages_cover) simp_all

section \<open>The limiter\<close>

definition calls_of :: "redis \<Rightarrow> string \<Rightarrow> string \<Rightarrow> int option" where
  "calls_of s ip path = counter (hf s (USER_API_ACCESS_TABLE ip) path)"

text \<open>Every counter of the table is a number of at most 201.\<close>

definition limiter_inv :: "redis \<Rightarrow> bool" where
  "limiter_inv s \<longleftrightarrow> (\<forall>ip path. \<exists>n. hf s (USER_API_ACCESS_TABLE ip) path = None \<or>
     hf s (USER_API_ACCESS_TABLE ip) path = Some (show_int n) \<and> 0 \<le> n \<and> n \<le> 201)"

lemma api_key_inj [simp]: "USER_API_ACCESS_TABLE a = USER_API_ACCESS_TABLE b \<longleftrightarrow> a = b"
  by (simp add: USER_API_ACCESS_TABLE_def)

lemma strtoll_1 [simp]: "strtoll ''1'' = Some 1"
  by code_simp

lemma show_int_1: "''1'' = show_int 1"
  by code_simp

definition expired :: "string \<Rightarrow> int \<Rightarrow> redis \<Rightarrow> redis" where
  "expired k t s = (if look s k = None then s else if t \<le> 0 then unput k s else s\<lparr>ttl := AList.update k t (ttl s)\<rparr>)"

lemma expire_key_expired [simp]: "expire_key k t s = (Inr (), expired k t s)"
  by (simp add: expire_key_def expired_def)

lemma hf_expired [simp]: "hf (expired k t s) j g = (if t \<le> 0 \<and> j = k then None else hf s j g)"
  by (auto simp: expired_def hf_def hash_of_def)

lemma wp_expire_key [wp_eqs]: "wp (expire_key k t) Q E s = Q () (expired k t s)"
  by (simp add: wp_def)

lemma wp_ttl_of [wp_eqs]: "wp (ttl_of k) Q E s = Q (if look s k = None then None else
     (case map_of (ttl s) k of Some t \<Rightarrow> if t > 0 then Some t else None | None \<Rightarrow> None)) s"
  by (simp add: wp_def ttl_of_def)

lemma limiter_put:
  assumes "limiter_inv s" "0 \<le> n" "n \<le> 201"
  shows "limiter_inv (hput (USER_API_ACCESS_TABLE ip) path (show_int n) s)"
  using assms unfolding limiter_inv_def by auto

lemma limiter_unput: "limiter_inv s \<Longrightarrow> limiter_inv (unput k s)"
  by (auto simp: limiter_inv_def)

lemma limiter_expire: "limiter_inv s \<Longrightarrow> limiter_inv (expired k t s)"
  by (auto simp: limiter_inv_def)

text \<open>One call: refused exactly when the counter is already above 200.\<close>

lemma limiter_step:
  assumes "limiter_inv s"
  shows "wp (api_limit_checker ip path) (\<lambda>ok t. limiter_inv t \<and>
      (\<not> ok \<longrightarrow> t = s \<and> to_int (hf s (USER_API_ACCESS_TABLE ip) path) > 200)) (\<lambda>_. limiter_inv) s"
proof -
  let ?k = "USER_API_ACCESS_TABLE ip"
  obtain n where n: "hf s ?k path = None \<or> hf s ?k path = Some (show_int n) \<and> 0 \<le> n \<and> n \<le> 201"
    using assms unfolding limiter_inv_def by blast
  have inc: "to_int (hf s ?k path) \<le> 200 \<Longrightarrow> counter (hf s ?k path) = Some m \<Longrightarrow> limiter_inv (hput ?k path (show_int (m + 1)) s)" for m
    using n by (auto simp: strtoll_show_int_iff intro!: limiter_put [OF assms] split: if_splits)
  show ?thesis
    using assms limiter_put [OF assms, of 1 ip path] limiter_put [OF limiter_unput [OF assms], of 1 ip path ?k] inc
    by (auto simp: api_limit_checker_def Let_def wp_eqs USER_API_EXPIRE_def show_int_1 [symmetric]
        limiter_unput limiter_expire not_less split: option.splits if_splits)
qed

text \<open>What can happen to the tables: calls, and keys whose time runs out.\<close>

datatype limiter_op = Call string string | RunOut string

fun limiter_do :: "limiter_op \<Rightarrow> redis \<Rightarrow> redis" where
  "limiter_do (Call ip path) s = snd (api_limit_checker ip path s)"
| "limiter_do (RunOut k) s = expire_now k s"

lemma limiter_do_inv: "limiter_inv s \<Longrightarrow> limiter_inv (limiter_do op s)"
proof (cases op)
  case (Call ip path)
  assume inv: "limiter_inv s"
  have "wp (api_limit_checker ip path) (\<lambda>_. limiter_inv) (\<lambda>_. limiter_inv) s"
    by (rule wp_mono [OF limiter_step [OF inv]]) auto
  then show ?thesis by (simp add: Call wp_state)
qed (simp add: expire_now_def limiter_unput)

interpretation limiter: state_machine limiter_do limiter_inv
  by unfold_locales (rule limiter_do_inv)

text \<open>C35: whatever calls arrive and whichever tables expire in between, no counter of the limiter
  passes 201; a call is refused only when its counter is above 200, and then nothing changes.\<close>

theorem limiter_bounded:
  assumes "limiter_inv s"
  shows "limiter_inv (fold limiter_do ops s) \<and>
    (\<forall>ip path t. api_limit_checker ip path (fold limiter_do ops s) = (Inr False, t) \<longrightarrow>
       t = fold limiter_do ops s \<and> to_int (hf t (USER_API_ACCESS_TABLE ip) path) > 200)"
proof -
  have inv: "limiter_inv (fold limiter_do ops s)"
    using assms by (rule limiter.inv_run)
  then show ?thesis using wp_InrD [OF limiter_step [OF inv]] by blast
qed

lemma limiter_inv_empty: "limiter_inv empty_db"
  by (simp add: limiter_inv_def hf_def hash_of_def)

theorem limiter_bounded_witness: "limiter_inv (fold limiter_do [Call ''ip'' ''/a'', Call ''ip'' ''/a'', RunOut ''x''] empty_db)"
  using limiter_bounded [OF limiter_inv_empty, of "[Call ''ip'' ''/a'', Call ''ip'' ''/a'', RunOut ''x'']"] by blast

section \<open>Pipelines and predicates\<close>

lemma run_all_keeps: "(\<And>c. c \<in> set cs \<Longrightarrow> keeps P c) \<Longrightarrow> P s \<Longrightarrow> P (snd (run_all cs s))"
proof (induction cs arbitrary: s)
  case (Cons c cs)
  have "P (snd (c s))" using Cons.prems by (simp add: keeps_def)
  with Cons show ?case by (auto split: prod.split sum.split)
qed simp

lemma keeps_execute [pres_intros]: "(\<And>c. c \<in> set cs \<Longrightarrow> keeps P c) \<Longrightarrow> keeps P (execute cs)"
  using run_all_keeps [of cs P] by (auto simp: keeps_def execute_def split: prod.split option.split) (metis snd_conv)+

text \<open>The first command may need to know the state it starts from.\<close>

lemma execute_first:
  assumes "wp c (\<lambda>_. P) (\<lambda>_. P) s" "\<And>c. c \<in> set cs \<Longrightarrow> keeps P c"
  shows "wp (execute (c # cs)) (\<lambda>_. P) (\<lambda>_. P) s"
proof -
  have "P (snd (run_all cs t))" if "P t" for t using run_all_keeps [of cs P] assms(2) that by blast
  moreover have "wp (execute cs) (\<lambda>_. P) (\<lambda>_. P) t" if "P t" for t
    using keepsD [OF keeps_execute] assms(2) that by (auto simp: wp_state)
  ultimately show ?thesis
    unfolding wp_execute_Cons by (rule wp_mono [OF assms(1), rotated])
qed

lemma keeps_drop_reply [pres_intros]: "keeps P c \<Longrightarrow> keeps P (drop_reply c)"
  by (simp add: drop_reply_def pres_intros)

section \<open>The session check\<close>

text \<open>A guarded handler answers with a refusal and changes nothing, or the session is alive and the body
  runs on the unchanged state.\<close>

lemma session_guard_wp:
  assumes "\<And>code. code < 0 \<Longrightarrow> Q (refuse code) s" "E ResponseError s"
    and "\<And>account uid ut. hf s (FORMAT_USER_HALL_SESSION (strip sid)) ''account'' = account \<Longrightarrow>
        hf s (FORMAT_USER_HALL_SESSION (strip sid)) ''uid'' = uid \<Longrightarrow> look s ut \<noteq> None \<Longrightarrow>
        look s (FORMAT_ACCOUNT2USER_TABLE (fmt account)) = Some (RStr ut) \<or> ut = ''None'' \<Longrightarrow> wp (body account uid ut) Q E s"
  shows "wp (session_guard sid refuse body) Q E s"
  using assms
  by (auto simp: session_guard_def getInfoBySid_def check_session_verfiy_def getUserByAccount_def Let_def wp_eqs
      split: option.split rval.split)

end
