(* ===== verification/Histories.thy ===== *)
theory Histories
  imports Prelude
begin

text \<open>
  Histories of requests seen from outside: how often something happens in one, and which labelled history of a
  simpler system it is.
\<close>

section \<open>Counting\<close>

text \<open>How many requests of a history are such that \<open>ev\<close> holds of them in the state they find.\<close>

fun occurs :: "('op \<Rightarrow> 's \<Rightarrow> bool) \<Rightarrow> ('op \<Rightarrow> 's \<Rightarrow> 's) \<Rightarrow> 'op list \<Rightarrow> 's \<Rightarrow> nat" where
  "occurs ev step [] s = 0"
| "occurs ev step (op # ops) s = (if ev op s then 1 else 0) + occurs ev step ops (step op s)"

text \<open>A counter kept in the state that no request of the kind \<open>plain\<close> takes back and every event raises.\<close>

locale counting = state_machine +
  fixes ev :: "'a \<Rightarrow> 'b \<Rightarrow> bool"
    and plain :: "'a \<Rightarrow> bool"
    and counter_of :: "'b \<Rightarrow> nat"
  assumes count_step: "inv s \<Longrightarrow> plain op \<Longrightarrow> (if ev op s then 1 else 0) + counter_of s \<le> counter_of (step op s)"
begin

lemma occurs_counted: "inv s \<Longrightarrow> list_all plain ops \<Longrightarrow> occurs ev step ops s + counter_of s \<le> counter_of (fold step ops s)"
proof (induction ops arbitrary: s)
  case (Cons op ops)
  have "occurs ev step ops (step op s) + counter_of (step op s) \<le> counter_of (fold step ops (step op s))"
    using Cons inv_step by simp
  with count_step [of s op] Cons.prems show ?case by simp
qed simp

lemma occurs_bounded: "inv s \<Longrightarrow> list_all plain ops \<Longrightarrow> (\<And>t. inv t \<Longrightarrow> counter_of t \<le> n) \<Longrightarrow> occurs ev step ops s + counter_of s \<le> n"
  using occurs_counted inv_run by (meson order_trans)

end

section \<open>Labelled histories\<close>

text \<open>\<open>trace R ls A B\<close>: a step of \<open>R\<close> for every label, in their order, leads from \<open>A\<close> to \<open>B\<close>.\<close>

inductive trace :: "('l \<Rightarrow> 'c \<Rightarrow> 'c \<Rightarrow> bool) \<Rightarrow> 'l list \<Rightarrow> 'c \<Rightarrow> 'c \<Rightarrow> bool" for R where
  finished: "trace R [] A A"
| more: "R l A B \<Longrightarrow> trace R ls B C \<Longrightarrow> trace R (l # ls) A C"

inductive_simps trace_simps [simp]: "trace R [] A B" "trace R (l # ls) A B"

text \<open>The labels of a history, each read off the state its request finds.\<close>

fun labels :: "('op \<Rightarrow> 's \<Rightarrow> 'l) \<Rightarrow> ('op \<Rightarrow> 's \<Rightarrow> 's) \<Rightarrow> 'op list \<Rightarrow> 's \<Rightarrow> 'l list" where
  "labels lab step [] s = []"
| "labels lab step (op # ops) s = lab op s # labels lab step ops (step op s)"

locale labelled_simulation = state_machine +
  fixes abs :: "'b \<Rightarrow> 'c"
    and lab :: "'a \<Rightarrow> 'b \<Rightarrow> 'l"
    and lstep :: "'l \<Rightarrow> 'c \<Rightarrow> 'c \<Rightarrow> bool"
  assumes lsim_step: "inv s \<Longrightarrow> lstep (lab op s) (abs s) (abs (step op s))"
begin

lemma lsim_run: "inv s \<Longrightarrow> trace lstep (labels lab step ops s) (abs s) (abs (fold step ops s))"
proof (induction ops arbitrary: s)
  case (Cons op ops)
  then have "trace lstep (labels lab step ops (step op s)) (abs (step op s)) (abs (fold step ops (step op s)))"
    using inv_step by blast
  with lsim_step [OF Cons.prems] show ?case by (auto intro: exI [of _ "abs (step op s)"])
qed simp

end

end
