(* ===== verification/BenefitLaws.thy ===== *)
theory BenefitLaws
  imports FishBenefit HallLaws FishBox Histories
begin

text \<open>
  What the relief coins and the sign rewards guarantee over histories of requests.
\<close>

section \<open>Keys and accounts\<close>

lemmas benefit_keys = FISH_CONSTS_CONFIG_def FISH_BENEFIT_COIN_TABLE_def USER_BENEFIT_TOKEN_def FISH_TABLE_NOW_RUN_def
  FISH_SIGN_TABLE_def FISH_SIGN_TABLE_WEEK_def FISH_SIGN_TABLE_USER_NUMBER_def FISH_SIGN_TABLE_USER_RECEIVE_def
  FORMAT_ACCOUNT2USER_TABLE_def FORMAT_USER_HALL_SESSION_def user_key_def service_keys ACTIVE_CONFIG_ONE_HESH_def

text \<open>The tables accounts point at: hashes of users whose id has no colon (or \<open>None\<close>, the text of a
  missing one).\<close>

definition user_tables :: "string set" where
  "user_tables = insert ''None'' {user_key (Some u) | u. CHR '':'' \<notin> set u}"

definition accounts_ok :: "redis \<Rightarrow> bool" where
  "accounts_ok s \<longleftrightarrow> (\<forall>a ut. look s (FORMAT_ACCOUNT2USER_TABLE a) = Some (RStr ut) \<longrightarrow> ut \<in> user_tables)"

lemma user_tables_neq:
  assumes "ut \<in> user_tables"
  shows "ut \<noteq> FISH_CONSTS_CONFIG" "ut \<noteq> FISH_BENEFIT_COIN_TABLE d" "ut \<noteq> USER_BENEFIT_TOKEN u" "ut \<noteq> FORMAT_ACCOUNT2USER_TABLE a"
    "ut \<noteq> FORMAT_USER_HALL_SESSION r" "ut \<noteq> FISH_SIGN_TABLE i" "ut \<noteq> FISH_SIGN_TABLE_WEEK i w"
    "ut \<noteq> FISH_SIGN_TABLE_USER_NUMBER m" "ut \<noteq> FISH_SIGN_TABLE_USER_RECEIVE m" "ut \<noteq> FORMAT_SERVICE_PROTOCOL_TABLE g b"
    "ut \<noteq> FISH_TABLE_NOW_RUN"
  using assms by (auto simp: user_tables_def benefit_keys)

lemma benefit_keys_neq [simp]:
  "FISH_BENEFIT_COIN_TABLE d \<noteq> FISH_CONSTS_CONFIG" "USER_BENEFIT_TOKEN u \<noteq> FISH_CONSTS_CONFIG"
  "USER_BENEFIT_TOKEN u \<noteq> FISH_BENEFIT_COIN_TABLE d" "FISH_BENEFIT_COIN_TABLE d \<noteq> USER_BENEFIT_TOKEN u"
  "USER_BENEFIT_TOKEN u \<noteq> FORMAT_ACCOUNT2USER_TABLE a" "FISH_BENEFIT_COIN_TABLE d \<noteq> FORMAT_ACCOUNT2USER_TABLE a"
  "FORMAT_SERVICE_PROTOCOL_TABLE g b \<noteq> FISH_CONSTS_CONFIG" "FORMAT_SERVICE_PROTOCOL_TABLE g b \<noteq> FISH_BENEFIT_COIN_TABLE d"
  "FORMAT_SERVICE_PROTOCOL_TABLE g b \<noteq> FORMAT_ACCOUNT2USER_TABLE a"
  by (simp_all add: benefit_keys)

lemma benefit_table_inj [simp]: "FISH_BENEFIT_COIN_TABLE d = FISH_BENEFIT_COIN_TABLE e \<longleftrightarrow> d = e"
  by (simp add: benefit_keys)

definition server_lines :: "string set" where
  "server_lines = {k. \<exists>g b. k = FORMAT_SERVICE_PROTOCOL_TABLE g b}"

lemma server_lines_mem [simp]: "FORMAT_SERVICE_PROTOCOL_TABLE g b \<in> server_lines"
  by (auto simp: server_lines_def)

lemma only_send_all [only_intros]: "only server_lines (sendProtocol2AllGameService line game)"
  unfolding sendProtocol2AllGameService_def isGameServiceRunning_def sendProtocol2GameService_def
  by (intro only_intros; simp)

lemma only_check_spring [only_intros]: "only ks (check_spring_time c i)"
  unfolding check_spring_time_def Let_def by (intro only_intros)

lemma only_can_take [only_intros]: "only ks (can_take_benefit c uid ut)"
  unfolding can_take_benefit_def Let_def by (intro only_intros)

section \<open>Relief coins\<close>

text \<open>The counters of every day are numbers no greater than the configured limit.\<close>

definition benefit_inv :: "int \<Rightarrow> redis \<Rightarrow> bool" where
  "benefit_inv L s \<longleftrightarrow> accounts_ok s \<and> to_int (hf s FISH_CONSTS_CONFIG ''save_times'') = L \<and>
     (\<forall>d u. hf s (FISH_BENEFIT_COIN_TABLE d) u = None \<or>
        (\<exists>n. hf s (FISH_BENEFIT_COIN_TABLE d) u = Some (show_int n) \<and> 0 \<le> n \<and> n \<le> max 0 L))"

text \<open>What \<open>can_take_benefit\<close> reads.\<close>

lemma can_take_ok:
  "wp (can_take_benefit c uid ut) (\<lambda>(code, info) t. t = s \<and> is_hash s (FISH_BENEFIT_COIN_TABLE (today_s c)) \<and>
     (\<not> code < 0 \<longrightarrow> to_int (hf s (FISH_BENEFIT_COIN_TABLE (today_s c)) (fmt uid)) < to_int (hf s FISH_CONSTS_CONFIG ''save_times'')))
     (\<lambda>_ t. t = s) s"
proof -
  have "wp (check_spring_time c i) (\<lambda>_ t. t = s) (\<lambda>_ t. t = s) s" for i
    by (auto simp: check_spring_time_def Let_def wp_eqs mk_none_def split: sum.split option.split)
  from this [of "''2''"] have spring: "wp (check_spring_time c ''2'') (\<lambda>x t. t = s) (\<lambda>_ t. t = s) s" .
  show ?thesis
    unfolding can_take_benefit_def Let_def
    by (simp add: wp_eqs) (auto intro!: wp_mono [OF spring] simp: wp_eqs split: if_splits)
qed

lemma benefit_inv_cong:
  assumes "benefit_inv L s" "\<And>a. look t (FORMAT_ACCOUNT2USER_TABLE a) = look s (FORMAT_ACCOUNT2USER_TABLE a)"
    and "look t FISH_CONSTS_CONFIG = look s FISH_CONSTS_CONFIG" "\<And>d. look t (FISH_BENEFIT_COIN_TABLE d) = look s (FISH_BENEFIT_COIN_TABLE d)"
  shows "benefit_inv L t"
  using assms by (simp add: benefit_inv_def accounts_ok_def hf_def hash_of_def)

lemma not_server_lines [simp]:
  "FISH_CONSTS_CONFIG \<notin> server_lines" "FISH_BENEFIT_COIN_TABLE d \<notin> server_lines" "FORMAT_ACCOUNT2USER_TABLE a \<notin> server_lines"
  by (auto simp: server_lines_def benefit_keys)

lemma benefit_inv_only: "only server_lines m \<Longrightarrow> benefit_inv L s \<Longrightarrow> wp m (\<lambda>_. benefit_inv L) (\<lambda>_. benefit_inv L) s"
  by (erule only_wp) (erule benefit_inv_cong; simp)+

lemma benefit_inv_user:
  assumes "benefit_inv L s" "ut \<in> user_tables"
  shows "benefit_inv L (hput ut f v s)"
  by (rule benefit_inv_cong [OF assms(1)]) (simp_all add: look_hput_other user_tables_neq [OF assms(2), symmetric])

lemma benefit_inv_token: "benefit_inv L s \<Longrightarrow> benefit_inv L (unput (USER_BENEFIT_TOKEN u) s)"
  "benefit_inv L s \<Longrightarrow> benefit_inv L (set_key (USER_BENEFIT_TOKEN u) v s)"
  by (rule benefit_inv_cong; assumption?; simp add: benefit_keys)+

lemma benefit_inv_expired: "benefit_inv L s \<Longrightarrow> 0 < n \<Longrightarrow> benefit_inv L (expired k n s)"
  by (rule benefit_inv_cong; assumption?; simp add: expired_def)

lemma benefit_inv_count:
  assumes "benefit_inv L s" "n \<le> L" "0 \<le> n"
  shows "benefit_inv L (hput (FISH_BENEFIT_COIN_TABLE d) u (show_int n) s)"
  using assms unfolding benefit_inv_def accounts_ok_def by (auto simp: look_hput_other benefit_keys)

lemma benefit_count_step:
  assumes "benefit_inv L s" "to_int (hf s (FISH_BENEFIT_COIN_TABLE d) u) < L" "counter (hf s (FISH_BENEFIT_COIN_TABLE d) u) = Some m"
  shows "benefit_inv L (hput (FISH_BENEFIT_COIN_TABLE d) u (show_int (m + 1)) s)"
proof -
  have "hf s (FISH_BENEFIT_COIN_TABLE d) u = None \<or> (\<exists>n. hf s (FISH_BENEFIT_COIN_TABLE d) u = Some (show_int n) \<and> 0 \<le> n \<and> n \<le> max 0 L)"
    using assms(1) by (simp add: benefit_inv_def)
  then have "0 \<le> m \<and> m + 1 \<le> L"
    using assms(2,3) by (elim disjE exE conjE) (auto simp: strtoll_show_int_iff to_int_def py_int_none_def split: if_splits)
  then show ?thesis using benefit_inv_count [OF assms(1)] by simp
qed

lemma keeps_benefit_cmds:
  "ut \<in> user_tables \<Longrightarrow> keeps (benefit_inv L) (hincrby ut f a)" "keeps (benefit_inv L) (delete_key (USER_BENEFIT_TOKEN u))"
  "0 < n \<Longrightarrow> keeps (benefit_inv L) (expire_key k n)"
  by (auto simp: keeps_def hincrby_def delete_key_def benefit_inv_user benefit_inv_token benefit_inv_expired split: option.split)

lemma guard_user_tables: "accounts_ok s \<Longrightarrow> look s (FORMAT_ACCOUNT2USER_TABLE a) = Some (RStr ut) \<or> ut = ''None'' \<Longrightarrow> ut \<in> user_tables"
  by (auto simp: accounts_ok_def user_tables_def)

lemma take_pipe_inv:
  assumes "benefit_inv L s" "to_int (hf s (FISH_BENEFIT_COIN_TABLE d) u) < L" "ut \<in> user_tables"
  shows "wp (execute [drop_reply (hincrby (FISH_BENEFIT_COIN_TABLE d) u ''1''), drop_reply (hincrby ut f a), delete_key (USER_BENEFIT_TOKEN v)])
    (\<lambda>_. benefit_inv L) (\<lambda>_. benefit_inv L) s"
proof (rule execute_first)
  show "wp (drop_reply (hincrby (FISH_BENEFIT_COIN_TABLE d) u ''1'')) (\<lambda>_. benefit_inv L) (\<lambda>_. benefit_inv L) s"
    using assms(1) benefit_count_step [OF assms(1,2)] by (auto simp: wp_eqs split: option.split)
  show "keeps (benefit_inv L) c" if "c \<in> set [drop_reply (hincrby ut f a), delete_key (USER_BENEFIT_TOKEN v)]" for c
    using that assms(3) by (auto intro!: pres_intros keeps_benefit_cmds)
qed

lemma pay_benefit_inv:
  assumes "benefit_inv L s" "to_int (hf s (FISH_BENEFIT_COIN_TABLE (today_s c)) (fmt uid)) < L" "ut \<in> user_tables"
  shows "wp (pay_benefit c account uid ut info) (\<lambda>_. benefit_inv L) (\<lambda>_. benefit_inv L) s"
proof -
  have "keeps (benefit_inv L) (thenM (expire_key (FISH_BENEFIT_COIN_TABLE (today_s c)) 86400)
      (thenM (sendProtocol2AllGameService line ''FISH'') (retM (Reply 0 ''taken''))))" for line
    using benefit_inv_only [OF only_send_all] by (intro pres_intros keeps_benefit_cmds) (simp_all add: keeps_def wp_state)
  then show ?thesis unfolding pay_benefit_def wp_thenM [of "execute _"]
    by (intro wp_mono [OF take_pipe_inv [OF assms]] wp_keeps)
qed

lemma take_benefit_inv:
  assumes "benefit_inv L s"
  shows "wp (do_take_benefit c sid token) (\<lambda>_. benefit_inv L) (\<lambda>_. benefit_inv L) s"
  unfolding do_take_benefit_def
proof (rule session_guard_wp, goal_cases)
  case (3 account uid ut)
  have "accounts_ok s" and L: "to_int (hf s FISH_CONSTS_CONFIG ''save_times'') = L"
    using assms by (simp_all add: benefit_inv_def)
  then have ut: "ut \<in> user_tables" using 3 by (simp add: guard_user_tables)
  have "wp (can_take_benefit c uid ut) (\<lambda>(code, info). wp (if code < 0 then retM (Reply code ''no more today'')
     else pay_benefit c account uid ut info) (\<lambda>_. benefit_inv L) (\<lambda>_. benefit_inv L)) (\<lambda>_. benefit_inv L) s"
    by (rule wp_mono [OF can_take_ok]) (auto simp: wp_retM assms L intro!: pay_benefit_inv ut)
  then show ?case
    using assms by (simp add: wp_eqs case_prod_unfold split: option.split rval.split)
qed (use assms in auto)

datatype benefit_op = TakeBenefit clock string string | BenefitInfo clock string string | DayOver string

fun benefit_do :: "benefit_op \<Rightarrow> redis \<Rightarrow> redis" where
  "benefit_do (TakeBenefit c sid token) s = snd (do_take_benefit c sid token s)"
| "benefit_do (BenefitInfo c token sid) s = snd (get_benefit_info c token sid s)"
| "benefit_do (DayOver d) s = expire_now (FISH_BENEFIT_COIN_TABLE d) s"

lemma benefit_info_inv:
  assumes "benefit_inv L s"
  shows "wp (get_benefit_info c token sid) (\<lambda>_. benefit_inv L) (\<lambda>_. benefit_inv L) s"
  unfolding get_benefit_info_def
proof (rule session_guard_wp)
  show "wp (bindM (can_take_benefit c uid ut) (\<lambda>(code, info). thenM (set_str (USER_BENEFIT_TOKEN uid) token)
     (retM (Inr (info, \<not> code < 0, token))))) (\<lambda>_. benefit_inv L) (\<lambda>_. benefit_inv L) s" for uid ut
    unfolding wp_bindM
    by (rule wp_mono [OF can_take_ok]) (auto simp: wp_eqs assms benefit_inv_token)
qed (use assms in auto)

lemma benefit_day_over: "benefit_inv L s \<Longrightarrow> benefit_inv L (expire_now (FISH_BENEFIT_COIN_TABLE d) s)"
  by (auto simp: benefit_inv_def accounts_ok_def expire_now_def benefit_keys split: if_splits)

section \<open>How often relief is paid\<close>

text \<open>A request for relief of day \<open>d\<close> by a session of the user \<open>u\<close> that is answered with success, or that changes
  the coins of anybody however it ends.\<close>

definition relief_paid :: "string \<Rightarrow> string \<Rightarrow> benefit_op \<Rightarrow> redis \<Rightarrow> bool" where
  "relief_paid d u op s \<longleftrightarrow> (\<exists>c sid token. op = TakeBenefit c sid token \<and> today_s c = d \<and> fmt (sid_uid s sid) = u \<and>
     ((\<exists>m. fst (do_take_benefit c sid token s) = Inr (Reply 0 m)) \<or> (\<exists>k. hf (benefit_do op s) k ''coin'' \<noteq> hf s k ''coin'')))"

text \<open>What the counters say, and a state in which one of them has moved by one.\<close>

definition times_taken :: "redis \<Rightarrow> string \<Rightarrow> string \<Rightarrow> int" where
  "times_taken s d u = to_int (hf s (FISH_BENEFIT_COIN_TABLE d) u)"

definition counted_once :: "string \<Rightarrow> string \<Rightarrow> redis \<Rightarrow> redis \<Rightarrow> bool" where
  "counted_once d u s t \<longleftrightarrow> (\<forall>e v. times_taken t e v = times_taken s e v + (if e = d \<and> v = u then 1 else 0))"

lemma counted_same: "(\<And>d. look v (FISH_BENEFIT_COIN_TABLE d) = look t (FISH_BENEFIT_COIN_TABLE d)) \<Longrightarrow> counted_once d u s t \<Longrightarrow> counted_once d u s v"
  by (simp add: counted_once_def times_taken_def hf_def hash_of_def)

lemma keeps_counted:
  "ut \<in> user_tables \<Longrightarrow> keeps (counted_once d u s) (hincrby ut f a)" "keeps (counted_once d u s) (delete_key (USER_BENEFIT_TOKEN v))"
  "0 < n \<Longrightarrow> keeps (counted_once d u s) (expire_key k n)" "keeps (counted_once d u s) (sendProtocol2AllGameService l g)"
proof -
  show "ut \<in> user_tables \<Longrightarrow> keeps (counted_once d u s) (hincrby ut f a)"
    by (rule keepsI, auto simp: wp_eqs look_hput_other user_tables_neq(2) [symmetric] elim!: counted_same [rotated] split: option.split)
  show "keeps (counted_once d u s) (delete_key (USER_BENEFIT_TOKEN v))"
    by (rule keepsI, auto simp: wp_eqs intro: counted_same [rotated])
  show "0 < n \<Longrightarrow> keeps (counted_once d u s) (expire_key k n)"
    by (rule keepsI, auto simp: wp_eqs expired_def intro: counted_same [rotated])
  show "keeps (counted_once d u s) (sendProtocol2AllGameService l g)"
    by (rule keepsI, rule only_wp [OF only_send_all]) (auto intro: counted_same [rotated])
qed

lemma pay_counted:
  assumes inv: "benefit_inv L s" and L: "in_llong L" and less: "times_taken s (today_s c) (fmt uid) < L"
    and hash: "is_hash s (FISH_BENEFIT_COIN_TABLE (today_s c))" and ut: "ut \<in> user_tables"
  shows "wp (pay_benefit c account uid ut info) (\<lambda>r. counted_once (today_s c) (fmt uid) s) (\<lambda>_. counted_once (today_s c) (fmt uid) s) s"
proof -
  let ?d = "today_s c" let ?P = "counted_once (today_s c) (fmt uid) s" let ?f = "hf s (FISH_BENEFIT_COIN_TABLE ?d) (fmt uid)"
  have one: "strtoll ''1'' = Some 1" by code_simp
  have "?f = None \<or> (\<exists>n. ?f = Some (show_int n) \<and> 0 \<le> n \<and> n \<le> max 0 L)" using inv by (simp add: benefit_inv_def)
  then obtain n where n: "counter ?f = Some n" "0 \<le> n" "n < L" "times_taken s ?d (fmt uid) = n"
    using less L by (elim disjE exE conjE)
      (auto simp: times_taken_def to_int_def py_int_none_def strtoll_show_int_iff in_llong_def llong_min_def split: if_splits)
  then have "?P (hput (FISH_BENEFIT_COIN_TABLE ?d) (fmt uid) (show_int (n + 1)) s)"
    by (auto simp: counted_once_def times_taken_def)
  moreover have "in_llong (n + 1)" using n L by (simp add: in_llong_def llong_min_def)
  ultimately have first: "wp (drop_reply (hincrby (FISH_BENEFIT_COIN_TABLE ?d) (fmt uid) ''1'')) (\<lambda>_. ?P) (\<lambda>_. ?P) s"
    using n(1) hash by (simp add: wp_eqs one)
  have rest: "keeps ?P (thenM (expire_key (FISH_BENEFIT_COIN_TABLE ?d) 86400)
      (thenM (sendProtocol2AllGameService line ''FISH'') (retM (Reply 0 ''taken''))))" for line
    by (intro pres_intros keeps_counted) simp_all
  have "wp (execute [drop_reply (hincrby (FISH_BENEFIT_COIN_TABLE ?d) (fmt uid) ''1''), drop_reply (hincrby ut ''coin'' (show_int (benefit_coin info))),
      delete_key (USER_BENEFIT_TOKEN uid)]) (\<lambda>_. ?P) (\<lambda>_. ?P) s"
    by (rule execute_first [OF first]) (auto intro!: pres_intros keeps_counted ut)
  then show ?thesis unfolding pay_benefit_def wp_thenM [of "execute _"]
    by (rule wp_mono) (blast intro: wp_keeps [OF rest])+
qed

text \<open>A request for relief changes nothing, or it is counted.\<close>

lemma take_counted:
  assumes inv: "benefit_inv L s" and L: "in_llong L"
  shows "wp (do_take_benefit c sid token) (\<lambda>r t. counted_once (today_s c) (fmt (sid_uid s sid)) s t \<or> t = s \<and> (\<forall>m. r \<noteq> Reply 0 m))
     (\<lambda>_ t. counted_once (today_s c) (fmt (sid_uid s sid)) s t \<or> t = s) s"
  unfolding do_take_benefit_def
proof (rule session_guard_wp, goal_cases)
  case (3 account uid ut)
  have "accounts_ok s" and cfg: "to_int (hf s FISH_CONSTS_CONFIG ''save_times'') = L"
    using inv by (simp_all add: benefit_inv_def)
  then have ut: "ut \<in> user_tables" using 3 by (simp add: guard_user_tables)
  have uid: "uid = sid_uid s sid" using 3 by (simp add: sid_uid_def)
  let ?Q = "\<lambda>r t. counted_once (today_s c) (fmt (sid_uid s sid)) s t \<or> t = s \<and> (\<forall>m. r \<noteq> Reply 0 m)"
  let ?E = "\<lambda>_ t. counted_once (today_s c) (fmt (sid_uid s sid)) s t \<or> t = s"
  have pay: "wp (pay_benefit c account uid ut info) ?Q ?E s"
    if "times_taken s (today_s c) (fmt uid) < L" "is_hash s (FISH_BENEFIT_COIN_TABLE (today_s c))" for info
    by (rule wp_mono [OF pay_counted [OF inv L that ut]]) (simp_all add: uid)
  have "wp (can_take_benefit c uid ut) (\<lambda>(code, info). wp (if code < 0 then retM (Reply code ''no more today'')
     else pay_benefit c account uid ut info) ?Q ?E) ?E s"
    by (rule wp_mono [OF can_take_ok]) (auto simp: wp_retM cfg times_taken_def intro!: pay)
  then show ?case
    by (simp add: wp_eqs case_prod_unfold split: option.split rval.split)
qed auto

lemma info_untaken:
  "wp (get_benefit_info c token sid) (\<lambda>_ t. \<forall>d u. times_taken t d u = times_taken s d u) (\<lambda>_ t. t = s) s"
  unfolding get_benefit_info_def
proof (rule session_guard_wp)
  show "wp (bindM (can_take_benefit c uid ut) (\<lambda>(code, info). thenM (set_str (USER_BENEFIT_TOKEN uid) token)
     (retM (Inr (info, \<not> code < 0, token))))) (\<lambda>_ t. \<forall>d u. times_taken t d u = times_taken s d u) (\<lambda>_ t. t = s) s" for uid ut
    unfolding wp_bindM
    by (rule wp_mono [OF can_take_ok]) (auto simp: wp_eqs times_taken_def)
qed simp_all

lemma taken_step:
  assumes "benefit_inv L s" "in_llong L" "op \<noteq> DayOver d"
  shows "times_taken (benefit_do op s) d u \<ge> times_taken s d u + (if relief_paid d u op s then 1 else 0)"
proof (cases op)
  case (TakeBenefit c sid token)
  have "counted_once (today_s c) (fmt (sid_uid s sid)) s (benefit_do op s) \<or>
      benefit_do op s = s \<and> (\<forall>m. fst (do_take_benefit c sid token s) \<noteq> Inr (Reply 0 m))"
    using take_counted [OF assms(1,2), of c sid token] by (auto simp: TakeBenefit wp_def split: prod.splits sum.splits)
  then show ?thesis by (elim disjE) (auto simp: counted_once_def relief_paid_def TakeBenefit)
next
  case (BenefitInfo c token sid)
  have "\<forall>d u. times_taken (benefit_do op s) d u = times_taken s d u"
    using info_untaken [of c token sid s] by (auto simp: BenefitInfo wp_def split: prod.splits sum.splits)
  then show ?thesis by (simp add: relief_paid_def BenefitInfo)
next
  case (DayOver e)
  then show ?thesis using assms(3) by (auto simp: times_taken_def relief_paid_def expire_now_def hf_def hash_of_def split: if_splits)
qed

lemma taken_bounds: "benefit_inv L s \<Longrightarrow> 0 \<le> times_taken s d u \<and> times_taken s d u \<le> max 0 L"
proof -
  assume "benefit_inv L s"
  then have "hf s (FISH_BENEFIT_COIN_TABLE d) u = None \<or> (\<exists>n. hf s (FISH_BENEFIT_COIN_TABLE d) u = Some (show_int n) \<and> 0 \<le> n \<and> n \<le> max 0 L)"
    by (simp add: benefit_inv_def)
  then show ?thesis by (auto simp: times_taken_def to_int_def py_int_none_def)
qed

interpretation relief: counting benefit_do "\<lambda>s. benefit_inv L s \<and> in_llong L" "relief_paid d u" "\<lambda>op. op \<noteq> DayOver d" "\<lambda>s. nat (times_taken s d u)" for L d u
proof unfold_locales
  fix s :: redis and op assume s: "benefit_inv L s \<and> in_llong L"
  then show "benefit_inv L (benefit_do op s) \<and> in_llong L"
    using take_benefit_inv benefit_info_inv by (cases op) (auto simp: wp_state benefit_day_over)
  show "(if relief_paid d u op s then 1 else 0) + nat (times_taken s d u) \<le> nat (times_taken (benefit_do op s) d u)" if "op \<noteq> DayOver d"
    using taken_step [of L s op d u] taken_bounds [of L s d u] s that by (auto split: if_splits)
qed

text \<open>C29: over every history of requests, by any users, that does not outlast the day, a user is paid relief of that
  day no more often than the configured limit, less the times already counted: no more requests for relief succeed
  or change the coins of anybody.  The counters of a day are dropped a day after the last relief.\<close>

theorem benefit_bounded:
  assumes "benefit_inv L s" "in_llong L" "DayOver d \<notin> set ops"
  shows "int (occurs (relief_paid d u) benefit_do ops s) + times_taken s d u \<le> max 0 L"
proof -
  have "list_all (\<lambda>op. op \<noteq> DayOver d) ops" using assms(3) by (auto simp: list_all_iff)
  then have "occurs (relief_paid d u) benefit_do ops s + nat (times_taken s d u) \<le> nat (max 0 L)"
    using taken_bounds by (intro relief.occurs_bounded [where L = L]) (auto simp: assms(1,2) intro!: nat_mono)
  then show ?thesis using taken_bounds [OF assms(1), of d u] by linarith
qed

definition demo_clock :: clock where
  "demo_clock = \<lparr>today_s = ''2018-06-01'', hour_s = ''12'', month_s = ''2018-06'', mk = (\<lambda>_. Inr 0)\<rparr>"

definition demo_benefit :: redis where
  "demo_benefit = empty_db\<lparr>kv := [(FORMAT_USER_HALL_SESSION ''s'', RHash [(''account'', ''ann''), (''uid'', ''7'')]),
     (FORMAT_ACCOUNT2USER_TABLE ''ann'', RStr (user_key (Some ''7''))), (user_key (Some ''7''), RHash [(''coin'', ''10'')]),
     (FISH_CONSTS_CONFIG, RHash [(''save_times'', ''2''), (''save_money'', ''50'')]),
     (FISH_SIGN_TABLE_USER_NUMBER ''2018-06'', RHash [(''ann'', ''6'')]),
     (USER_BENEFIT_TOKEN (Some ''7''), RStr ''tok'')]\<rparr>"

lemma demo_benefit_look: "look demo_benefit k = map_of [(FORMAT_USER_HALL_SESSION ''s'', RHash [(''account'', ''ann''), (''uid'', ''7'')]),
     (FORMAT_ACCOUNT2USER_TABLE ''ann'', RStr (user_key (Some ''7''))), (user_key (Some ''7''), RHash [(''coin'', ''10'')]),
     (FISH_CONSTS_CONFIG, RHash [(''save_times'', ''2''), (''save_money'', ''50'')]),
     (FISH_SIGN_TABLE_USER_NUMBER ''2018-06'', RHash [(''ann'', ''6'')]),
     (USER_BENEFIT_TOKEN (Some ''7''), RStr ''tok'')] k"
  by (simp add: demo_benefit_def look_def)

lemma benefit_inv_demo: "benefit_inv 2 demo_benefit"
proof -
  have "to_int (hf demo_benefit FISH_CONSTS_CONFIG ''save_times'') = 2" by code_simp
  moreover have "hf demo_benefit (FISH_BENEFIT_COIN_TABLE d) u = None" for d u
    by (simp add: demo_benefit_def hf_def hash_of_def look_def benefit_keys)
  moreover have "accounts_ok demo_benefit"
    by (auto simp: accounts_ok_def demo_benefit_def look_def benefit_keys user_tables_def split: if_splits)
  ultimately show ?thesis by (simp add: benefit_inv_def)
qed

theorem benefit_bounded_witness:
  "int (occurs (relief_paid ''2018-06-01'' ''7'') benefit_do
     [TakeBenefit demo_clock ''s'' ''tok'', BenefitInfo demo_clock ''new'' ''s'', TakeBenefit demo_clock ''s'' ''new''] demo_benefit) +
     times_taken demo_benefit ''2018-06-01'' ''7'' \<le> 2"
  using benefit_bounded [OF benefit_inv_demo, of "''2018-06-01''" "[TakeBenefit demo_clock ''s'' ''tok'', BenefitInfo demo_clock ''new'' ''s'', TakeBenefit demo_clock ''s'' ''new'']" "''7''"]
  by (simp add: in_llong_def llong_min_def llong_max_def del: occurs.simps)

end
