(* ===== verification/SignLaws.thy ===== *)
theory SignLaws
  imports BenefitLaws
begin

text \<open>
  The sign rewards: what a monthly reward and a daily sign give, and that neither is given twice.
\<close>

section \<open>JSON\<close>

text \<open>What is used of \<open>json\<close>: loading what was dumped gives the same dictionary.\<close>

definition json_law :: "(string \<Rightarrow> exn + (string \<times> int) list) \<Rightarrow> ((string \<times> int) list \<Rightarrow> string) \<Rightarrow> bool" where
  "json_law loads dumps \<longleftrightarrow> (\<forall>d. dumps d \<noteq> [] \<and> (\<exists>d'. loads (dumps d) = Inr d' \<and> map_of d' = map_of d))"

text \<open>A pair of functions with that law, for the examples: each character of a key is marked.\<close>

fun mark :: "string \<Rightarrow> string" where
  "mark [] = []"
| "mark (x # xs) = CHR ''c'' # x # mark xs"

fun demo_pairs :: "(string \<times> int) list \<Rightarrow> string" where
  "demo_pairs [] = []"
| "demo_pairs ((k, n) # d) = mark k @ CHR ''='' # show_int n @ CHR '';'' # demo_pairs d"

definition demo_dumps :: "(string \<times> int) list \<Rightarrow> string" where
  "demo_dumps d = CHR ''{'' # demo_pairs d"

fun rd_key :: "string \<Rightarrow> string \<Rightarrow> (string \<times> int) list" and rd_num :: "string \<Rightarrow> string \<Rightarrow> string \<Rightarrow> (string \<times> int) list" where
  "rd_key k (c # r) = (if c = CHR ''='' then rd_num k [] r else case r of [] \<Rightarrow> [] | x # r' \<Rightarrow> rd_key (k @ [x]) r')"
| "rd_key k [] = []"
| "rd_num k n (c # r) = (if c = CHR '';'' then (k, case py_int n of Inr v \<Rightarrow> v | Inl _ \<Rightarrow> 0) # rd_key [] r else rd_num k (n @ [c]) r)"
| "rd_num k n [] = []"

definition demo_loads :: "string \<Rightarrow> exn + (string \<times> int) list" where
  "demo_loads t = Inr (rd_key [] (tl t))"

lemma rd_mark: "rd_key k (mark xs @ CHR ''='' # r) = rd_num (k @ xs) [] r"
  by (induction xs arbitrary: k) auto

lemma rd_digits: "CHR '';'' \<notin> set ds \<Longrightarrow> rd_num k n (ds @ CHR '';'' # r) = (k, case py_int (n @ ds) of Inr v \<Rightarrow> v | Inl _ \<Rightarrow> 0) # rd_key [] r"
  by (induction ds arbitrary: n) auto

lemma show_int_no_semicolon: "CHR '';'' \<notin> set (show_int n)"
proof -
  have "CHR '';'' \<notin> set (show_nat m)" for m
    using show_nat_digits [of m] by (auto simp: list_all_iff is_digit_def)
  then show ?thesis by (simp add: show_int_def)
qed

lemma rd_pairs: "rd_key [] (demo_pairs d) = d"
  by (induction d rule: demo_pairs.induct) (simp_all add: rd_mark rd_digits [OF show_int_no_semicolon])

lemma json_law_demo: "json_law demo_loads demo_dumps"
  by (simp add: json_law_def demo_loads_def demo_dumps_def rd_pairs)

section \<open>Monthly rewards\<close>

definition received :: "(string \<Rightarrow> exn + (string \<times> int) list) \<Rightarrow> string \<Rightarrow> string \<Rightarrow> string \<Rightarrow> redis \<Rightarrow> bool" where
  "received loads month account day s \<longleftrightarrow> (\<exists>v d. hf s (FISH_SIGN_TABLE_USER_RECEIVE month) account = Some v \<and> v \<noteq> [] \<and>
     loads v = Inr d \<and> map_of d day \<noteq> None \<and> map_of d day \<noteq> Some 0)"

lemma sign_keys_neq [simp]:
  "FISH_SIGN_TABLE_USER_RECEIVE m \<noteq> FORMAT_USER_HALL_SESSION r" "FISH_SIGN_TABLE_USER_RECEIVE m \<noteq> FORMAT_ACCOUNT2USER_TABLE a"
  "FORMAT_USER_HALL_SESSION r \<noteq> FISH_SIGN_TABLE_USER_RECEIVE m" "FORMAT_ACCOUNT2USER_TABLE a \<noteq> FISH_SIGN_TABLE_USER_RECEIVE m"
  by (simp_all add: benefit_keys)

lemma receive_inj [simp]: "FISH_SIGN_TABLE_USER_RECEIVE m = FISH_SIGN_TABLE_USER_RECEIVE n \<longleftrightarrow> m = n"
  by (simp add: benefit_keys)

text \<open>The account of a session, and the table of the user it points at: the one that is paid.\<close>

definition session_account :: "redis \<Rightarrow> string \<Rightarrow> string" where
  "session_account s sid = fmt (hf s (FORMAT_USER_HALL_SESSION (strip sid)) ''account'')"

definition payee :: "redis \<Rightarrow> string \<Rightarrow> string" where
  "payee s sid = (case look s (FORMAT_ACCOUNT2USER_TABLE (session_account s sid)) of Some (RStr ut) \<Rightarrow> ut | _ \<Rightarrow> ''None'')"

lemma payee_fmt:
  "(case v of None \<Rightarrow> look s (FORMAT_ACCOUNT2USER_TABLE (session_account s sid)) = None
    | Some u \<Rightarrow> look s (FORMAT_ACCOUNT2USER_TABLE (session_account s sid)) = Some (RStr u)) \<Longrightarrow> fmt v = payee s sid"
  by (auto simp: payee_def split: option.splits)

text \<open>What stays over a history: the sessions, the accounts, and a reward once received.\<close>

definition month_inv :: "(string \<Rightarrow> exn + (string \<times> int) list) \<Rightarrow> string \<Rightarrow> string \<Rightarrow> string \<Rightarrow> redis \<Rightarrow> redis \<Rightarrow> bool" where
  "month_inv loads month account day s0 s \<longleftrightarrow> accounts_ok s \<and> received loads month account day s \<and>
     (\<forall>r. look s (FORMAT_USER_HALL_SESSION r) = look s0 (FORMAT_USER_HALL_SESSION r))"

lemma month_inv_user:
  assumes "month_inv loads month account day s0 s" "ut \<in> user_tables"
  shows "month_inv loads month account day s0 (hput ut f v s)"
  using assms user_tables_neq [OF assms(2)] unfolding month_inv_def accounts_ok_def received_def
  by (simp add: look_hput_other user_tables_neq [OF assms(2), symmetric])

lemma month_inv_receive:
  assumes "month_inv loads month account day s0 s" "json_law loads dumps"
    and "(m, a) = (month, account) \<Longrightarrow> \<exists>d. map_of d' = (map_of d)(x \<mapsto> 1) \<and> map_of d day \<noteq> None \<and> map_of d day \<noteq> Some 0"
  shows "month_inv loads month account day s0 (hput (FISH_SIGN_TABLE_USER_RECEIVE m) a (dumps d') s)"
proof -
  have "received loads month account day (hput (FISH_SIGN_TABLE_USER_RECEIVE m) a (dumps d') s)"
  proof (cases "(m, a) = (month, account)")
    case True
    obtain d'' where "dumps d' \<noteq> []" "loads (dumps d') = Inr d''" "map_of d'' = map_of d'"
      using assms(2) unfolding json_law_def by blast
    then show ?thesis using True assms(3) by (auto simp: received_def split: if_splits)
  next
    case False
    then show ?thesis using assms(1) by (auto simp: month_inv_def received_def)
  qed
  then show ?thesis using assms(1) by (simp add: month_inv_def accounts_ok_def look_hput_other)
qed

lemma fmt_account: "accounts_ok s \<Longrightarrow> (case v of None \<Rightarrow> look s (FORMAT_ACCOUNT2USER_TABLE a) = None | Some u \<Rightarrow> look s (FORMAT_ACCOUNT2USER_TABLE a) = Some (RStr u)) \<Longrightarrow> fmt v \<in> user_tables"
  by (cases v) (auto simp: accounts_ok_def user_tables_def)

lemma get_account_wp:
  assumes "E ResponseError s" "\<And>v. (case v of None \<Rightarrow> look s k = None | Some u \<Rightarrow> look s k = Some (RStr u)) \<Longrightarrow> Q v s"
  shows "wp (get k) Q E s"
  using assms(1) assms(2) [of None] assms(2) [of "Some _"] by (auto simp: wp_get split: option.split rval.split)

lemma receive_month_inv:
  assumes inv: "month_inv loads month account day s0 s" and law: "json_law loads dumps" and ut: "fmt v \<in> user_tables"
  shows "wp (receive_month loads dumps c a v x) (\<lambda>_. month_inv loads month account day s0) (\<lambda>_. month_inv loads month account day s0) s"
proof -
  let ?f = "hf s (FISH_SIGN_TABLE_USER_RECEIVE (month_s c)) (fmt a)"
  have upd: "\<exists>d. map_of (AList.update x 1 r) = (map_of d)(x \<mapsto> 1) \<and> map_of d day \<noteq> None \<and> map_of d day \<noteq> Some 0"
    if "(month_s c, fmt a) = (month, account)" "?f = Some y" "loads y = Inr r" for y r
    using that inv by (intro exI [of _ r]) (auto simp: month_inv_def received_def update_conv')
  have new: "(month_s c, fmt a) \<noteq> (month, account)" if "\<not> truthy ?f"
    using that inv by (auto simp: month_inv_def received_def)
  have keep: "month_inv loads month account day s0 (hput (FISH_SIGN_TABLE_USER_RECEIVE (month_s c)) (fmt a) (dumps (AList.update x 1 r)) (hput (fmt v) ''coin'' w s))"
    if "?f = Some y \<and> loads y = Inr r \<or> \<not> truthy ?f" for r w y
    using that upd new by (intro month_inv_receive [OF month_inv_user [OF inv ut] law]) blast
  show ?thesis
    using inv month_inv_user [OF inv ut] keep
    by (cases ?f) (auto simp: receive_month_def wp_eqs split: sum.split option.split)
qed

lemma month_step:
  assumes inv: "month_inv loads month account day s0 s" and law: "json_law loads dumps"
  shows "wp (doSignMonth loads dumps c sid x) (\<lambda>_. month_inv loads month account day s0) (\<lambda>_. month_inv loads month account day s0) s"
  unfolding doSignMonth_def
proof (rule session_guard_wp, goal_cases)
  case (3 a uid ut)
  have acc: "accounts_ok s" using inv by (simp add: month_inv_def)
  show ?case unfolding wp_bindM
    by (rule get_account_wp) (auto intro: inv receive_month_inv [OF inv law] fmt_account [OF acc])
qed (use inv in auto)

text \<open>The same request finds the reward received.\<close>

lemma received_refused:
  assumes "received loads (month_s c) (fmt (hf s (FORMAT_USER_HALL_SESSION (strip sid)) ''account'')) (strip x) s"
  shows "wp (doSignMonth loads dumps c sid x) (\<lambda>r _. r \<noteq> Reply 0 m) (\<lambda>_ _. True) s"
  unfolding doSignMonth_def
proof (rule session_guard_wp, goal_cases)
  case (3 a uid ut)
  then have "received loads (month_s c) (fmt a) (strip x) s" using assms by simp
  then show ?case
    unfolding receive_month_def by (intro ok_wp) (auto simp: received_def split: option.splits)
qed auto

text \<open>A success: the day was reached, not received, is paid once to the user of the account and noted.\<close>

definition month_paid :: "string \<Rightarrow> string \<Rightarrow> string \<Rightarrow> redis \<Rightarrow> redis \<Rightarrow> bool" where
  "month_paid month sid day s t \<longleftrightarrow> (let ut = payee s sid; key = FISH_SIGN_TABLE_USER_RECEIVE month in
     (\<exists>money d n b. map_of receiveMoney day = Some money \<and> py_int day = Inr d \<and>
        int_or (hf s (FISH_SIGN_TABLE_USER_NUMBER month) (session_account s sid)) 0 = Inr n \<and> d \<le> n \<and>
        held s (ut, ''coin'') = Some b \<and> held t (ut, ''coin'') = Some (b + money)) \<and>
     (\<forall>k f. (k, f) \<notin> {(ut, ''coin''), (key, session_account s sid)} \<longrightarrow> hf t k f = hf s k f) \<and>
     (\<forall>k. k \<notin> {ut, key} \<longrightarrow> look t k = look s k))"

lemma month_success:
  assumes law: "json_law loads dumps" and acc: "accounts_ok s"
  shows "wp (doSignMonth loads dumps c sid x) (\<lambda>r t. r = Reply 0 m \<longrightarrow> month_paid (month_s c) sid (strip x) s t \<and>
     month_inv loads (month_s c) (session_account s sid) (strip x) s t) (\<lambda>_ _. True) s"
  unfolding doSignMonth_def
proof (rule session_guard_wp, goal_cases)
  case (3 a uid ut)
  have a: "fmt a = session_account s sid" using 3 by (simp add: session_account_def)
  show ?case unfolding wp_bindM a
  proof (rule get_account_wp)
    fix v assume v: "case v of None \<Rightarrow> look s (FORMAT_ACCOUNT2USER_TABLE (session_account s sid)) = None
      | Some u \<Rightarrow> look s (FORMAT_ACCOUNT2USER_TABLE (session_account s sid)) = Some (RStr u)"
    then have ut: "payee s sid \<in> user_tables" using fmt_account [OF acc] payee_fmt by metis
    note neq = user_tables_neq [OF ut]
    have rec: "received loads (month_s c) (session_account s sid) (strip x)
        (hput (FISH_SIGN_TABLE_USER_RECEIVE (month_s c)) (session_account s sid) (dumps (AList.update (strip x) 1 r)) u)" for r u
    proof -
      obtain d where "dumps (AList.update (strip x) 1 r) \<noteq> []" "loads (dumps (AList.update (strip x) 1 r)) = Inr d"
          "map_of d = map_of (AList.update (strip x) 1 r)"
        using law unfolding json_law_def by blast
      then show ?thesis by (simp add: received_def update_conv')
    qed
    show "wp (receive_month loads dumps c a v (strip x)) (\<lambda>r t. r = Reply 0 m \<longrightarrow> month_paid (month_s c) sid (strip x) s t \<and>
       month_inv loads (month_s c) (session_account s sid) (strip x) s t) (\<lambda>_ _. True) s"
      unfolding receive_month_def a payee_fmt [OF v] using acc ut rec
      by (intro ok_wp) (auto simp: month_paid_def Let_def month_inv_def accounts_ok_def look_hput_other held_def strtoll_show_int
          neq neq [symmetric] dest!: strtoll_show_intD)
  qed auto
qed auto

fun month_do :: "(string \<Rightarrow> exn + (string \<times> int) list) \<Rightarrow> ((string \<times> int) list \<Rightarrow> string) \<Rightarrow> clock \<times> string \<times> string \<Rightarrow> redis \<Rightarrow> redis" where
  "month_do loads dumps (c, sid, x) s = snd (doSignMonth loads dumps c sid x s)"

lemma month_history:
  assumes "month_inv loads month account day s0 s" "json_law loads dumps"
  shows "month_inv loads month account day s0 (fold (month_do loads dumps) ops s)"
proof -
  have step: "month_inv loads month account day s0 (month_do loads dumps op u)" if "month_inv loads month account day s0 u" for op u
    using month_step [OF that assms(2)] by (cases op) (simp add: wp_state)
  from assms(1) show ?thesis by (induction ops arbitrary: s) (simp_all add: step)
qed

text \<open>C8: a monthly reward that was answered with success belongs to a day count the account reached, is paid, exactly
  the amount of that count, to the user the account of the session points at, and changes nothing but that
  purse and the account's note of what was received; whatever requests follow in whatever months, no session of the
  same account gets the same reward of the same month again.\<close>

theorem sign_month_once:
  assumes "json_law loads dumps" "accounts_ok s"
    and "doSignMonth loads dumps c sid x s = (Inr (Reply 0 m), t)"
    and "month_s c' = month_s c" "session_account s sid' = session_account s sid" "strip x' = strip x"
  shows "month_paid (month_s c) sid (strip x) s t \<and>
     fst (doSignMonth loads dumps c' sid' x' (fold (month_do loads dumps) ops t)) \<noteq> Inr (Reply 0 m')"
proof
  note paid = wp_InrD [OF month_success [OF assms(1,2), of c sid x m] assms(3), simplified]
  then show "month_paid (month_s c) sid (strip x) s t" by blast
  let ?u = "fold (month_do loads dumps) ops t"
  have inv: "month_inv loads (month_s c) (session_account s sid) (strip x) s ?u"
    using paid by (intro month_history assms(1)) blast
  then have "session_account ?u sid' = session_account s sid"
    using assms(5) by (simp add: session_account_def month_inv_def hf_def hash_of_def)
  then have "received loads (month_s c') (fmt (hf ?u (FORMAT_USER_HALL_SESSION (strip sid')) ''account'')) (strip x') ?u"
    using inv assms(4,6) by (simp add: month_inv_def session_account_def)
  from received_refused [OF this, of dumps m'] show "fst (doSignMonth loads dumps c' sid' x' ?u) \<noteq> Inr (Reply 0 m')"
    by (auto simp: wp_def split: prod.splits sum.splits)
qed

lemma demo_accounts: "accounts_ok demo_benefit"
  using benefit_inv_demo by (simp add: benefit_inv_def)

definition demo_signed :: redis where
  "demo_signed = snd (doSignMonth demo_loads demo_dumps demo_clock ''s'' ''5'' demo_benefit)"

lemma demo_month: "doSignMonth demo_loads demo_dumps demo_clock ''s'' ''5'' demo_benefit = (Inr (Reply 0 ''received''), demo_signed)"
proof -
  have "strip ''s'' = ''s''" "strip ''5'' = ''5''" "py_int ''5'' = Inr 5" "int_or (Some ''6'') 0 = Inr 6" "strtoll ''10'' = Some 10"
    by code_simp+
  then have "wp (doSignMonth demo_loads demo_dumps demo_clock ''s'' ''5'') (\<lambda>r _. r = Reply 0 ''received'') (\<lambda>_ _. False) demo_benefit"
    by (simp add: demo_benefit_look doSignMonth_def session_guard_def getInfoBySid_def check_session_verfiy_def getUserByAccount_def Let_def
        receive_month_def receiveMoney_def no_receive_def wp_eqs hput_def is_hash_def hf_def hash_of_def demo_clock_def benefit_keys
        FORMAT_USER_PLATFORM_SESSION_def strtoll_show_int in_llong_def llong_min_def llong_max_def truthy_def fmt_def)
  then have "fst (doSignMonth demo_loads demo_dumps demo_clock ''s'' ''5'' demo_benefit) = Inr (Reply 0 ''received'')"
    by (auto simp: wp_def split: prod.splits sum.splits)
  then show ?thesis by (simp add: demo_signed_def prod_eq_iff)
qed

theorem sign_month_once_witness:
  "held demo_signed (user_key (Some ''7''), ''coin'') = Some 100010 \<and>
     fst (doSignMonth demo_loads demo_dumps demo_clock ''s'' ''5'' (fold (month_do demo_loads demo_dumps) [(demo_clock, ''s'', ''10'')] demo_signed)) \<noteq> Inr (Reply 0 ''received'')"
proof -
  have "payee demo_benefit ''s'' = user_key (Some ''7'')" "strip ''5'' = ''5''" "held demo_benefit (user_key (Some ''7''), ''coin'') = Some 10"
    by code_simp+
  with sign_month_once [OF json_law_demo demo_accounts demo_month refl refl refl, of "[(demo_clock, ''s'', ''10'')]" "''received''"]
  show ?thesis by (auto simp: month_paid_def Let_def receiveMoney_def)
qed

end
