(* ===== verification/SpringLaws.thy ===== *)
theory SpringLaws
  imports FishSpring SignLaws FishCodes
begin

text \<open>
  The festival activities: the survey pays once per account, the quiz once per account and day, and
  no prize is given more often a day than its maximum.
\<close>

section \<open>Keys and guards\<close>

lemmas spring_keys = ACTIVICE_QUESTION_ALL_HESH_def ACTIVICE_QUESTION_REWARD_LIST_def ACTIVICE_QUESTION_REWARD_COUNT_def
  ACTIVICE_SEND_GOLD_COUNT_def ACTIVICE_SEND_REDPACK_COUNT_def ACTIVICE_SEND_TICK_COUNT_def ACTIVICE_QUESTION_ANSWER_def
  ACTIVICE_QUESTION_START_def ACTIVICE_SURVER_NUMBER_LIST_def ACTIVICE_SURVER_ANSWER_def ACTIVICE_SURVER_RESULT_def
  ACTIVICE_SEND_SURVER_GOLD_COUNT_def SURVER_NUMBER_def

lemma spring_session_neq [simp]:
  "FORMAT_USER_HALL_SESSION r \<noteq> ACTIVICE_SURVER_ANSWER n" "FORMAT_USER_HALL_SESSION r \<noteq> ACTIVICE_SURVER_RESULT n t"
  "FORMAT_USER_HALL_SESSION r \<noteq> ACTIVICE_SEND_SURVER_GOLD_COUNT n" "FORMAT_USER_HALL_SESSION r \<noteq> ACTIVICE_SEND_REDPACK_COUNT"
  "FORMAT_USER_HALL_SESSION r \<noteq> ACTIVICE_SEND_GOLD_COUNT" "FORMAT_USER_HALL_SESSION r \<noteq> ACTIVICE_SEND_TICK_COUNT"
  "FORMAT_USER_HALL_SESSION r \<noteq> ACTIVICE_QUESTION_ANSWER" "FORMAT_USER_HALL_SESSION r \<noteq> ACTIVICE_QUESTION_REWARD_COUNT i"
  "FORMAT_USER_HALL_SESSION r \<noteq> ''fish:redpick:account:hesh''" "ACTIVICE_SURVER_ANSWER n \<noteq> ACTIVICE_SEND_SURVER_GOLD_COUNT k"
  by (simp_all add: spring_keys FORMAT_USER_HALL_SESSION_def)

text \<open>A guarded handler refuses an unknown session and changes nothing, or its body runs.\<close>

lemma alive_guard_wp:
  assumes "Q refused s" "E ResponseError s"
    and "wp (body (hf s (FORMAT_USER_HALL_SESSION (strip sid)) ''account'')) Q E s"
  shows "wp (alive_guard sid refused body) Q E s"
  using assms by (auto simp: alive_guard_def getInfoBySid_def wp_eqs split: option.split rval.split)

lemma keeps_getInfoBySid [pres_intros]: "keeps P (getInfoBySid sid)"
  unfolding getInfoBySid_def by (intro pres_intros)

lemma keeps_prod [pres_intros]: "(\<And>x y. keeps P (f x y)) \<Longrightarrow> keeps P (case v of (x, y) \<Rightarrow> f x y)"
  by (cases v) auto

lemma keeps_case_sum [pres_intros]:
  "(\<And>x. v = Inl x \<Longrightarrow> keeps P (f x)) \<Longrightarrow> (\<And>x. v = Inr x \<Longrightarrow> keeps P (g x)) \<Longrightarrow> keeps P (case v of Inl x \<Rightarrow> f x | Inr x \<Rightarrow> g x)"
  by (cases v) auto

lemma keeps_more_reads [pres_intros]: "keeps P (sismember k v)" "keeps P (exists_key k)"
  by (simp_all add: keeps_def sismember_def exists_key_def)

lemma keeps_alive_guard [pres_intros]: "(\<And>a. keeps P (body a)) \<Longrightarrow> keeps P (alive_guard sid refused body)"
  unfolding alive_guard_def by (intro pres_intros)

text \<open>The bound on a pipeline that succeeds, in two parts.\<close>

lemma ok_execute_Cons [ok_wp]:
  "wp c (\<lambda>_. wp (execute cs) Q (\<lambda>_ _. True)) (\<lambda>_ _. True) s \<Longrightarrow> wp (execute (c # cs)) Q (\<lambda>_ _. True) s"
  by (simp add: wp_execute_Cons)

lemma ok_execute_Nil [ok_wp]: "Q () s \<Longrightarrow> wp (execute []) Q (\<lambda>_ _. True) s"
  by (simp add: wp_execute_Nil)

lemma ok_execute_append:
  "wp (execute (xs @ ys)) Q (\<lambda>_ _. True) = wp (execute xs) (\<lambda>_. wp (execute ys) Q (\<lambda>_ _. True)) (\<lambda>_ _. True)"
proof (induction xs)
  case Nil
  show ?case by (simp add: fun_eq_iff wp_execute_Nil)
next
  case (Cons c cs)
  show ?case by (rule ext) (simp add: wp_execute_Cons Cons.IH)
qed

section \<open>The survey\<close>

text \<open>What stays once an account is in the set: it is in it, and sessions name the same accounts.\<close>

definition surveyed :: "redis \<Rightarrow> string \<Rightarrow> redis \<Rightarrow> bool" where
  "surveyed s0 account s \<longleftrightarrow> is_set s (ACTIVICE_SURVER_ANSWER SURVER_NUMBER) \<and>
     account \<in> set (members s (ACTIVICE_SURVER_ANSWER SURVER_NUMBER)) \<and>
     (\<forall>r. hf s (FORMAT_USER_HALL_SESSION r) ''account'' = hf s0 (FORMAT_USER_HALL_SESSION r) ''account'')"

lemma keeps_surveyed_hincrby:
  assumes "f \<noteq> ''account'' \<or> (\<forall>r. k \<noteq> FORMAT_USER_HALL_SESSION r)"
  shows "keeps (surveyed s0 a) (hincrby k f v)"
proof -
  have "surveyed s0 a (hput k f w s)" if "surveyed s0 a s" "is_hash s k" for w s
  proof -
    have "k \<noteq> ACTIVICE_SURVER_ANSWER SURVER_NUMBER"
      using that by (auto simp: surveyed_def is_hash_def members_def split: option.splits rval.splits)
    then show ?thesis using that assms by (auto simp: surveyed_def is_set_def members_def look_hput_other)
  qed
  then show ?thesis by (auto simp: keeps_def hincrby_def split: option.split)
qed

lemma keeps_surveyed_sadd: "keeps (surveyed s0 a) (sadd (ACTIVICE_SURVER_ANSWER SURVER_NUMBER) b)"
  by (auto simp: keeps_def sadd_def surveyed_def is_set_def members_def spring_keys FORMAT_USER_HALL_SESSION_def)

lemma keeps_survey: "keeps (surveyed s0 a) (surver_answer j d sid x)"
proof -
  have "keeps (surveyed s0 a) c" if "survey_choices anwser = Inr cs" "c \<in> set cs" for anwser cs c
    using that by (auto simp: survey_choices_def spring_keys FORMAT_USER_HALL_SESSION_def
        intro!: keeps_surveyed_hincrby keeps_drop_reply split: if_splits)
  then have cs: "keeps (surveyed s0 a) (execute (cs @
       [drop_reply (hincrby k ''coin'' v), drop_reply (hincrby (ACTIVICE_SEND_SURVER_GOLD_COUNT SURVER_NUMBER) d v),
        sadd (ACTIVICE_SURVER_ANSWER SURVER_NUMBER) b]))" if "survey_choices anwser = Inr cs" for anwser cs k v b
    using that by (auto simp: spring_keys FORMAT_USER_HALL_SESSION_def
        intro!: pres_intros keeps_surveyed_hincrby keeps_surveyed_sadd [unfolded spring_keys, simplified])
  have lift: "keeps (surveyed s0 a) (bindM (liftE (survey_choices anwser)) f)"
    if "\<And>cs. survey_choices anwser = Inr cs \<Longrightarrow> keeps (surveyed s0 a) (f cs)" for anwser and f :: "unit rh list \<Rightarrow> reply rh"
    using that by (auto simp: keeps_def bindM_def liftE_def split: sum.split)
  show ?thesis unfolding surver_answer_def survey_record_def by (rule lift | rule cs, assumption | rule pres_intros)+
qed


lemma survey_refused:
  assumes "surveyed s0 (fmt (hf s (FORMAT_USER_HALL_SESSION (strip sid)) ''account'')) s"
  shows "wp (surver_answer j d sid x) (\<lambda>r _. r \<noteq> Reply 0 m) (\<lambda>_ _. True) s"
proof (cases "js_answers j (strip x)")
  case (Inr anwser)
  then show ?thesis
    unfolding surver_answer_def sum.case Inr
    by (intro alive_guard_wp) (use assms in \<open>auto simp: wp_eqs surveyed_def\<close>)
qed (simp add: surver_answer_def wp_retM)

lemma survey_choices_only:
  assumes "survey_choices anwser = Inr cs"
  shows "only {k. \<exists>t. k = ACTIVICE_SURVER_RESULT SURVER_NUMBER t} (execute cs)"
  using assms by (auto simp: survey_choices_def intro!: only_intros split: if_splits)

lemma user_tables_spring:
  assumes "ut \<in> user_tables"
  shows "ut \<noteq> ACTIVICE_SURVER_RESULT n t" "ut \<noteq> ACTIVICE_SEND_SURVER_GOLD_COUNT n" "ut \<noteq> ACTIVICE_SURVER_ANSWER n"
    "ut \<noteq> ACTIVICE_SEND_REDPACK_COUNT" "ut \<noteq> ACTIVICE_SEND_GOLD_COUNT" "ut \<noteq> ACTIVICE_SEND_TICK_COUNT"
    "ut \<noteq> ACTIVICE_QUESTION_ANSWER" "ut \<noteq> ACTIVICE_QUESTION_REWARD_COUNT r" "ut \<noteq> ''fish:redpick:account:hesh''"
    "ut \<noteq> ACTIVICE_QUESTION_REWARD_LIST"
  using assms by (auto simp: user_tables_def user_key_def spring_keys)

text \<open>What a survey pays: to the user the account of the session points at, and to nobody else.\<close>

definition survey_paid :: "string \<Rightarrow> redis \<Rightarrow> redis \<Rightarrow> bool" where
  "survey_paid sid s t \<longleftrightarrow>
     (\<exists>b. held s (payee s sid, ''coin'') = Some b \<and> held t (payee s sid, ''coin'') = Some (b + SURVER_SEND_GOLD)) \<and>
     (\<forall>ut \<in> user_tables. \<forall>f. (ut, f) \<noteq> (payee s sid, ''coin'') \<longrightarrow> hf t ut f = hf s ut f)"

lemma survey_pipe:
  assumes "survey_choices anwser = Inr cs" "payee s sid \<in> user_tables"
  shows "wp (execute (cs @
       [drop_reply (hincrby (payee s sid) ''coin'' (show_int SURVER_SEND_GOLD)),
        drop_reply (hincrby (ACTIVICE_SEND_SURVER_GOLD_COUNT SURVER_NUMBER) d (show_int SURVER_SEND_GOLD)),
        sadd (ACTIVICE_SURVER_ANSWER SURVER_NUMBER) (session_account s sid)]))
      (\<lambda>_ t. survey_paid sid s t \<and> surveyed s (session_account s sid) t) (\<lambda>_ _. True) s"
  unfolding ok_execute_append
proof (rule only_wp [OF survey_choices_only [OF assms(1)]])
  fix t assume eq: "\<And>k. k \<notin> {k. \<exists>t. k = ACTIVICE_SURVER_RESULT SURVER_NUMBER t} \<Longrightarrow> look t k = look s k"
  have hfs: "hf t ut f = hf s ut f" if "ut \<in> user_tables" for ut f
    using eq [of ut] user_tables_spring(1) [OF that] by (simp add: hf_def hash_of_def)
  have ses: "hf t (FORMAT_USER_HALL_SESSION r) f = hf s (FORMAT_USER_HALL_SESSION r) f" for r f
    using eq [of "FORMAT_USER_HALL_SESSION r"] by (simp add: hf_def hash_of_def FORMAT_USER_HALL_SESSION_def spring_keys)
  have neq: "payee s sid \<noteq> FORMAT_USER_HALL_SESSION r" for r
    using user_tables_neq(5) [OF assms(2)] .
  show "wp (execute [drop_reply (hincrby (payee s sid) ''coin'' (show_int SURVER_SEND_GOLD)),
        drop_reply (hincrby (ACTIVICE_SEND_SURVER_GOLD_COUNT SURVER_NUMBER) d (show_int SURVER_SEND_GOLD)),
        sadd (ACTIVICE_SURVER_ANSWER SURVER_NUMBER) (session_account s sid)])
      (\<lambda>_ t. survey_paid sid s t \<and> surveyed s (session_account s sid) t) (\<lambda>_ _. True) t"
    by (intro ok_wp) (auto simp: survey_paid_def surveyed_def is_set_put_set ses hfs held_def strtoll_show_int neq neq [symmetric] assms(2)
        user_tables_spring user_tables_spring [OF assms(2)] user_tables_spring [OF assms(2), symmetric] dest!: strtoll_show_intD)
qed auto

lemma survey_success:
  assumes acc: "accounts_ok s"
  shows "wp (surver_answer j d sid x) (\<lambda>r t. r = Reply 0 m \<longrightarrow> survey_paid sid s t \<and> surveyed s (session_account s sid) t) (\<lambda>_ _. True) s"
proof (cases "js_answers j (strip x)")
  case (Inr anwser)
  have "wp (survey_record d (hf s (FORMAT_USER_HALL_SESSION (strip sid)) ''account'') anwser) (\<lambda>r t. r = Reply 0 m \<longrightarrow>
     survey_paid sid s t \<and> surveyed s (session_account s sid) t) (\<lambda>_ _. True) s"
    unfolding survey_record_def wp_bindM [of "get _"] session_account_def [symmetric]
  proof (rule get_account_wp)
    fix v assume v: "case v of None \<Rightarrow> look s (FORMAT_ACCOUNT2USER_TABLE (session_account s sid)) = None
      | Some u \<Rightarrow> look s (FORMAT_ACCOUNT2USER_TABLE (session_account s sid)) = Some (RStr u)"
    then have "payee s sid \<in> user_tables" using fmt_account [OF acc] payee_fmt by metis
    then show "wp (bindM (liftE (survey_choices anwser)) (\<lambda>choices. thenM (execute (choices @
       [drop_reply (hincrby (fmt v) ''coin'' (show_int SURVER_SEND_GOLD)),
        drop_reply (hincrby (ACTIVICE_SEND_SURVER_GOLD_COUNT SURVER_NUMBER) d (show_int SURVER_SEND_GOLD)),
        sadd (ACTIVICE_SURVER_ANSWER SURVER_NUMBER) (session_account s sid)])) (retM (Reply 0 ''thanks''))))
      (\<lambda>r t. r = Reply 0 m \<longrightarrow> survey_paid sid s t \<and> surveyed s (session_account s sid) t) (\<lambda>_ _. True) s"
      unfolding payee_fmt [OF v]
      by (auto simp: wp_bindM [of "liftE _"] wp_liftE wp_thenM wp_retM split: sum.split intro!: wp_mono [OF survey_pipe])
  qed simp
  then show ?thesis
    unfolding surver_answer_def sum.case Inr by (intro alive_guard_wp) (auto simp: wp_eqs)
qed (simp add: surver_answer_def wp_retM)

fun survey_do :: "spring_json \<Rightarrow> string \<times> string \<times> string \<Rightarrow> redis \<Rightarrow> redis" where
  "survey_do j (d, sid, x) s = snd (surver_answer j d sid x s)"

interpretation survey: state_machine "survey_do j" "surveyed s0 a" for j s0 a
  by unfold_locales (auto simp: keepsD [OF keeps_survey])

text \<open>C34: a survey answered with success paid 500000 coins to the user the account of the session points at, and no
  other field of any user changed; whatever survey requests follow on whatever days, no session of that account
  is paid for the survey again.\<close>

theorem survey_once:
  assumes "accounts_ok s" "surver_answer j d sid x s = (Inr (Reply 0 m), t)" "session_account s sid' = session_account s sid"
  shows "survey_paid sid s t \<and>
     fst (surver_answer j d' sid' x' (fold (survey_do j) ops t)) \<noteq> Inr (Reply 0 m')"
proof
  note paid = wp_InrD [OF survey_success [OF assms(1), of j d sid x m] assms(2), simplified]
  then show "survey_paid sid s t" by blast
  let ?u = "fold (survey_do j) ops t"
  have inv: "surveyed s (session_account s sid) ?u" using paid by (intro survey.inv_run) blast
  then have "surveyed s (fmt (hf ?u (FORMAT_USER_HALL_SESSION (strip sid')) ''account'')) ?u"
    using assms(3) by (simp add: session_account_def surveyed_def)
  from survey_refused [OF this, of j d' x' m'] show "fst (surver_answer j d' sid' x' ?u) \<noteq> Inr (Reply 0 m')"
    by (auto simp: wp_def split: prod.splits sum.splits)
qed

definition demo_json :: spring_json where
  "demo_json = \<lparr>js_obj = (\<lambda>_. Inr [(''correct'', PStr ''1''), (''id'', PInt 1), (''max'', PInt 3), (''total'', PInt 2)]),
     js_answers = (\<lambda>_. Inr [(''1'', Some [''1'']), (''2'', Some [''1''])])\<rparr>"

definition demo_surveyed :: redis where
  "demo_surveyed = snd (surver_answer demo_json ''2018-06-01'' ''s'' ''data'' demo_benefit)"

lemma demo_survey: "surver_answer demo_json ''2018-06-01'' ''s'' ''data'' demo_benefit = (Inr (Reply 0 ''thanks''), demo_surveyed)"
proof -
  have "strip ''s'' = ''s''" "strtoll ''10'' = Some 10" "strtoll ''1'' = Some 1"
    by code_simp+
  then have "wp (surver_answer demo_json ''2018-06-01'' ''s'' ''data'') (\<lambda>r _. r = Reply 0 ''thanks'') (\<lambda>_ _. False) demo_benefit"
    by (simp add: demo_benefit_look surver_answer_def survey_record_def alive_guard_def getInfoBySid_def survey_choices_def demo_json_def
        wp_eqs hput_def is_hash_def hf_def hash_of_def members_def is_set_def benefit_keys spring_keys SURVER_SEND_GOLD_def
        FORMAT_USER_PLATFORM_SESSION_def strtoll_show_int in_llong_def llong_min_def llong_max_def truthy_def fmt_def)
  then have "fst (surver_answer demo_json ''2018-06-01'' ''s'' ''data'' demo_benefit) = Inr (Reply 0 ''thanks'')"
    by (auto simp: wp_def split: prod.splits sum.splits)
  then show ?thesis by (simp add: demo_surveyed_def prod_eq_iff)
qed

theorem survey_once_witness:
  "held demo_surveyed (user_key (Some ''7''), ''coin'') = Some 500010 \<and>
     fst (surver_answer demo_json ''2018-06-02'' ''s'' ''x'' (fold (survey_do demo_json) [] demo_surveyed)) \<noteq> Inr (Reply 0 ''thanks'')"
proof -
  have "payee demo_benefit ''s'' = user_key (Some ''7'')" "held demo_benefit (user_key (Some ''7''), ''coin'') = Some 10" by code_simp+
  with survey_once [OF demo_accounts demo_survey refl, of "''2018-06-02''" "''x''" "[]" "''thanks''"]
  show ?thesis by (auto simp: survey_paid_def SURVER_SEND_GOLD_def)
qed

section \<open>The quiz\<close>

definition reward_counters :: "string set" where
  "reward_counters = {k. \<exists>r. k = ACTIVICE_QUESTION_REWARD_COUNT r}"

lemma reward_counters_mem [simp]: "ACTIVICE_QUESTION_REWARD_COUNT r \<in> reward_counters"
  by (auto simp: reward_counters_def)

lemma only_draw [only_intros]: "only reward_counters (draw_reward d pool r probs)"
  unfolding draw_reward_def Let_def by (intro only_intros; simp)

lemma only_send [only_intros]: "only reward_counters (send_packets rnd d pool lo hi n probs)"
proof (induction n arbitrary: probs)
  case (Suc n)
  then show ?case by (auto simp: Let_def intro!: only_intros)
qed (simp add: only_intros)

lemma wp_only:
  assumes "wp m Q E s" "only ks m"
  shows "wp m (\<lambda>x t. Q x t \<and> (\<forall>k. k \<notin> ks \<longrightarrow> look t k = look s k)) E s"
  using assms by (auto simp: wp_def only_def split: prod.splits sum.splits) (metis snd_conv)

text \<open>One packet is coins within the bounds or a prize; the totals add up.\<close>

lemma randint_bounds: "lo \<le> hi \<Longrightarrow> lo \<le> randint r lo hi \<and> randint r lo hi \<le> hi"
  using mod_less_divisor [of "nat (hi - lo + 1)" r] unfolding randint_def by linarith

lemma send_packets_sums:
  assumes "0 \<le> lo" "lo \<le> hi"
  shows "wp (send_packets rnd d pool lo hi n probs) (\<lambda>(gold, tick, sent) t. 0 \<le> gold \<and> gold \<le> int n * hi \<and> length sent = n \<and>
     sum_list (map (\<lambda>p. projr (total_of p)) sent) = gold + tick) (\<lambda>_ _. True) s"
proof (induction n arbitrary: s probs)
  case (Suc n)
  define post where "post = (\<lambda>k (gold, tick, sent) (t :: redis). 0 \<le> gold \<and> gold \<le> int k * hi \<and> length sent = k \<and>
     sum_list (map (\<lambda>p. projr (total_of p)) sent) = gold + tick)"
  note IH = Suc.IH [folded post_def]
  have "0 \<le> randint (snd (rnd n)) lo hi" "randint (snd (rnd n)) lo hi \<le> hi"
    using randint_bounds [of lo hi] assms by (auto intro: order_trans)
  then have "wp (send_packets rnd d pool lo hi (Suc n) probs) (post (Suc n)) (\<lambda>_ _. True) s"
    using assms unfolding send_packets.simps
    by (intro ok_bindM, intro only_wp [OF only_draw])
      (auto simp: wp_bindM [of "case _ of None \<Rightarrow> _ | Some x \<Rightarrow> _ x"] Let_def wp_retM wp_bindM wp_liftE
        total_of_def [of "_ # _"] post_def algebra_simps intro!: wp_mono [OF IH] split: option.split sum.split)
  then show ?case by (simp add: post_def)
qed (simp add: wp_retM)

text \<open>What stays for the day once an account has answered.\<close>

definition answered :: "redis \<Rightarrow> string \<Rightarrow> string \<Rightarrow> redis \<Rightarrow> bool" where
  "answered s0 day account s \<longleftrightarrow> accounts_ok s \<and> hf s ACTIVICE_QUESTION_ANSWER account = Some day \<and>
     (\<forall>r. hf s (FORMAT_USER_HALL_SESSION r) ''account'' = hf s0 (FORMAT_USER_HALL_SESSION r) ''account'')"

lemma spring_account_neq [simp]:
  "FORMAT_ACCOUNT2USER_TABLE a \<noteq> ACTIVICE_SEND_REDPACK_COUNT" "FORMAT_ACCOUNT2USER_TABLE a \<noteq> ACTIVICE_SEND_GOLD_COUNT"
  "FORMAT_ACCOUNT2USER_TABLE a \<noteq> ACTIVICE_SEND_TICK_COUNT" "FORMAT_ACCOUNT2USER_TABLE a \<noteq> ACTIVICE_QUESTION_ANSWER"
  "FORMAT_ACCOUNT2USER_TABLE a \<noteq> ACTIVICE_QUESTION_REWARD_COUNT i" "FORMAT_ACCOUNT2USER_TABLE a \<noteq> ''fish:redpick:account:hesh''"
  "ACTIVICE_QUESTION_ANSWER \<noteq> ACTIVICE_SEND_REDPACK_COUNT" "ACTIVICE_QUESTION_ANSWER \<noteq> ACTIVICE_SEND_GOLD_COUNT"
  "ACTIVICE_QUESTION_ANSWER \<noteq> ACTIVICE_SEND_TICK_COUNT" "ACTIVICE_QUESTION_ANSWER \<noteq> ''fish:redpick:account:hesh''"
  "ACTIVICE_QUESTION_ANSWER \<noteq> ACTIVICE_QUESTION_REWARD_COUNT i"
  by (simp_all add: spring_keys FORMAT_ACCOUNT2USER_TABLE_def)

lemma not_user_table [simp]:
  "FORMAT_USER_HALL_SESSION r \<notin> user_tables" "FORMAT_ACCOUNT2USER_TABLE r \<notin> user_tables" "ACTIVICE_QUESTION_ANSWER \<notin> user_tables"
  by (auto simp: user_tables_def user_key_def spring_keys FORMAT_USER_HALL_SESSION_def FORMAT_ACCOUNT2USER_TABLE_def)

lemma answered_hput:
  assumes "answered s0 day a s" "k \<in> user_tables \<or> k \<in> {ACTIVICE_SEND_REDPACK_COUNT, ACTIVICE_SEND_GOLD_COUNT, ACTIVICE_SEND_TICK_COUNT, ''fish:redpick:account:hesh''}
     \<or> k \<in> reward_counters \<or> k = ACTIVICE_QUESTION_ANSWER \<and> (f \<noteq> a \<or> v = day)"
  shows "answered s0 day a (hput k f v s)"
proof -
  have "FORMAT_USER_HALL_SESSION r \<noteq> k" "FORMAT_ACCOUNT2USER_TABLE r \<noteq> k" for r
    using assms(2) by (auto simp: reward_counters_def)
  moreover have "\<not> (k = ACTIVICE_QUESTION_ANSWER \<and> f = a \<and> v \<noteq> day)"
    using assms(2) by (auto simp: reward_counters_def)
  ultimately show ?thesis
    using assms(1) unfolding answered_def accounts_ok_def by (auto simp: look_hput_other)
qed

lemma keeps_answered_writes:
  assumes "k \<in> user_tables \<or> k \<in> {ACTIVICE_SEND_REDPACK_COUNT, ACTIVICE_SEND_GOLD_COUNT, ACTIVICE_SEND_TICK_COUNT, ''fish:redpick:account:hesh''}
     \<or> k \<in> reward_counters"
  shows "keeps (answered s0 day a) (hincrby k f v)"
  using assms by (auto simp: keeps_def hincrby_def intro!: answered_hput split: option.split)

lemma keeps_account:
  assumes "\<And>s. P s \<Longrightarrow> accounts_ok s" "\<And>v. fmt v \<in> user_tables \<Longrightarrow> keeps P (f v)"
  shows "keeps P (bindM (get (FORMAT_ACCOUNT2USER_TABLE a)) f)"
  unfolding keeps_def wp_state [symmetric] wp_bindM
proof (intro allI impI)
  fix s assume "P s"
  then show "wp (get (FORMAT_ACCOUNT2USER_TABLE a)) (\<lambda>x. wp (f x) (\<lambda>_. P) (\<lambda>_. P)) (\<lambda>_. P) s"
    by (intro get_account_wp wp_keeps assms(2) fmt_account [OF assms(1)])
qed

lemma keeps_answer_mark: "keeps (answered s0 day a) (hset ACTIVICE_QUESTION_ANSWER b day)"
  by (simp add: keeps_def hset_def answered_hput)

lemma keeps_pay: "fmt v \<in> user_tables \<Longrightarrow> keeps (answered s0 day a) (pay_packets day b v n gold tick)"
  unfolding pay_packets_def
  by (rule keeps_execute) (auto intro!: keeps_drop_reply keeps_answered_writes keeps_answer_mark split: if_splits)

lemma keeps_reads_more [pres_intros]: "keeps P (hgetall k)"
  by (simp add: keeps_def hgetall_def)

lemma keeps_send: "keeps (answered s0 day a) (send_packets rnd d pool lo hi n probs)"
proof (induction n arbitrary: probs)
  case (Suc n)
  then show ?case by (auto simp: Let_def draw_reward_def intro!: pres_intros keeps_answered_writes)
qed (simp add: pres_intros)

lemma keeps_spring_time [pres_intros]: "keeps P (check_spring_time c i)"
  unfolding check_spring_time_def Let_def by (intro pres_intros)

lemma keeps_question:
  "keeps (answered s0 (today_s c) a) (question_answer j c rnd sid x)"
proof -
  have acc: "answered s0 (today_s c) a s \<Longrightarrow> accounts_ok s" for s by (simp add: answered_def)
  show ?thesis
    unfolding question_answer_def reward_answers_def right_answer_def reward_copies_def hkeys_def Let_def
    by (rule keeps_account, erule acc | rule keeps_pay, assumption | rule keeps_send | rule pres_intros)+
qed

lemma spring_time_reads: "wp (check_spring_time c i) (\<lambda>_ t. t = s) (\<lambda>_ _. True) s"
  by (auto simp: check_spring_time_def Let_def wp_eqs split: sum.split)

lemma question_refused:
  assumes "hf s ACTIVICE_QUESTION_ANSWER (session_account s sid) = Some (today_s c)" "today_s c \<noteq> []"
  shows "wp (question_answer j c rnd sid x) (\<lambda>r _. fst r \<noteq> Reply 0 m) (\<lambda>_ _. True) s"
proof (cases "js_answers j (strip x)")
  case (Inr anwser)
  show ?thesis
    unfolding question_answer_def sum.case Inr
    by (intro alive_guard_wp; (unfold wp_bindM [of "check_spring_time _ _"], rule wp_mono [OF spring_time_reads])?)
      (use assms in \<open>auto simp: wp_bindM [of "hget _ _"] wp_retM wp_hget session_account_def\<close>)
qed (simp add: question_answer_def wp_retM)

text \<open>\<open>n\<close> more of something; nothing is written when \<open>n\<close> is zero.\<close>

definition gained :: "redis \<Rightarrow> redis \<Rightarrow> string \<times> string \<Rightarrow> int \<Rightarrow> bool" where
  "gained s t p n \<longleftrightarrow> n = 0 \<and> hf t (fst p) (snd p) = hf s (fst p) (snd p) \<or>
     (\<exists>b. held s p = Some b \<and> held t p = Some (b + n))"

text \<open>No field of any user but the coins and the tickets of one.\<close>

definition only_purse :: "string \<Rightarrow> redis \<Rightarrow> redis \<Rightarrow> bool" where
  "only_purse ut s t \<longleftrightarrow> (\<forall>u \<in> user_tables. \<forall>f. (u, f) \<notin> {(ut, ''coin''), (ut, ''exchange_ticket'')} \<longrightarrow> hf t u f = hf s u f)"

lemma pay_packets_ok:
  assumes "accounts_ok s" "fmt v \<in> user_tables"
  shows "wp (pay_packets d a v n gold tick) (\<lambda>_ t. gained s t (fmt v, ''coin'') gold \<and> gained s t (fmt v, ''exchange_ticket'') (8 * tick) \<and>
     gained s t (ACTIVICE_SEND_REDPACK_COUNT, d) (int n) \<and> only_purse (fmt v) s t \<and> answered s d (fmt a) t) (\<lambda>_ _. True) s"
proof -
  have acc: "look s (FORMAT_ACCOUNT2USER_TABLE a) = Some (RStr ut) \<Longrightarrow> ut \<in> user_tables" for a ut
    using assms(1) by (auto simp: accounts_ok_def)
  note neq = user_tables_spring [OF assms(2)] user_tables_neq(4,5) [OF assms(2)]
  have sends: "ACTIVICE_SEND_REDPACK_COUNT \<noteq> ACTIVICE_SEND_GOLD_COUNT" "ACTIVICE_SEND_REDPACK_COUNT \<noteq> ACTIVICE_SEND_TICK_COUNT"
    "ACTIVICE_SEND_REDPACK_COUNT \<noteq> ''fish:redpick:account:hesh''" "ACTIVICE_SEND_REDPACK_COUNT \<noteq> ACTIVICE_QUESTION_ANSWER"
    by (simp_all add: spring_keys)
  show ?thesis
    unfolding pay_packets_def
    by (cases "gold = 0"; cases "tick = 0"; simp; intro ok_wp)
      (auto simp: gained_def only_purse_def answered_def accounts_ok_def held_def look_hput_other acc neq neq [symmetric] sends strtoll_show_int
        user_tables_spring algebra_simps dest!: strtoll_show_intD)
qed

lemma reward_copies_reads: "wp (reward_copies j d e) (\<lambda>_ t. t = s \<and> True) (\<lambda>_ _. True) s"
  unfolding reward_copies_def by (intro ok_wp) simp

text \<open>What a successful answer with \<open>n\<close> right ones pays to the user \<open>ut\<close>.\<close>

definition quiz_paid :: "redis \<Rightarrow> redis \<Rightarrow> string \<Rightarrow> string \<Rightarrow> nat \<Rightarrow> pydict list \<Rightarrow> bool" where
  "quiz_paid s t ut day n sent \<longleftrightarrow> (\<exists>gold tick. 0 \<le> gold \<and> gold \<le> ACTIVICE_QUESTION_GOLD_MAX \<and> length sent = n \<and>
     sum_list (map (\<lambda>p. projr (total_of p)) sent) = gold + tick \<and>
     gained s t (ut, ''coin'') gold \<and> gained s t (ut, ''exchange_ticket'') (8 * tick) \<and>
     gained s t (ACTIVICE_SEND_REDPACK_COUNT, day) (int n) \<and> only_purse ut s t)"

lemma gold_bounds:
  assumes "0 < n"
  shows "0 \<le> ACTIVICE_QUESTION_GOLD_MIN div int n" "ACTIVICE_QUESTION_GOLD_MIN div int n \<le> ACTIVICE_QUESTION_GOLD_MAX div int n"
    "int n * (ACTIVICE_QUESTION_GOLD_MAX div int n) \<le> ACTIVICE_QUESTION_GOLD_MAX"
proof -
  show "int n * (ACTIVICE_QUESTION_GOLD_MAX div int n) \<le> ACTIVICE_QUESTION_GOLD_MAX"
    using mult_div_mod_eq [of "int n" ACTIVICE_QUESTION_GOLD_MAX] pos_mod_sign [of "int n" ACTIVICE_QUESTION_GOLD_MAX] assms by linarith
qed (use assms in \<open>auto simp: ACTIVICE_QUESTION_GOLD_MIN_def ACTIVICE_QUESTION_GOLD_MAX_def pos_imp_zdiv_nonneg_iff intro: zdiv_mono1\<close>)

lemma outside_counters [simp]:
  "FORMAT_ACCOUNT2USER_TABLE a \<notin> reward_counters" "FORMAT_USER_HALL_SESSION r \<notin> reward_counters"
  "ACTIVICE_SEND_REDPACK_COUNT \<notin> reward_counters" "ut \<in> user_tables \<Longrightarrow> ut \<notin> reward_counters"
  by (auto simp: reward_counters_def spring_keys FORMAT_ACCOUNT2USER_TABLE_def FORMAT_USER_HALL_SESSION_def user_tables_def user_key_def)

lemma reward_answers_ok:
  assumes acc: "accounts_ok s" and n: "0 < n" and a: "fmt a = session_account s sid"
  shows "wp (reward_answers j rnd d a n) (\<lambda>r t. fst r = Reply 0 (show_int (int n)) \<and> quiz_paid s t (payee s sid) d n (snd r) \<and>
     answered s d (session_account s sid) t) (\<lambda>_ _. True) s"
proof -
  let ?post = "\<lambda>r t. fst r = Reply 0 (show_int (int n)) \<and> quiz_paid s t (payee s sid) d n (snd r) \<and> answered s d (session_account s sid) t"
  let ?pays = "\<lambda>gold tick sent. bindM (get (FORMAT_ACCOUNT2USER_TABLE (fmt a))) (\<lambda>userTable.
      thenM (pay_packets d a userTable n gold tick) (retM (Reply 0 (show_int (int n)), sent)))"
  have fin: "wp (?pays gold tick sent) ?post (\<lambda>_ _. True) u"
    if sums: "0 \<le> gold" "gold \<le> ACTIVICE_QUESTION_GOLD_MAX" "length sent = n" "sum_list (map (\<lambda>p. projr (total_of p)) sent) = gold + tick"
      and eq: "\<forall>k. k \<notin> reward_counters \<longrightarrow> look u k = look s k" for gold tick sent u
  proof -
    have acc': "accounts_ok u" using acc eq by (simp add: accounts_ok_def)
    have hfs: "hf u k f = hf s k f" if "k \<notin> reward_counters" for k f
      using eq that by (simp add: hf_def hash_of_def)
    have same: "gained s t p m" if "gained u t p m" "fst p \<notin> reward_counters" for t p m
      using that by (auto simp: gained_def held_def hfs)
    have ans: "answered s d (fmt a) t" if "answered u d (fmt a) t" for t
      using that by (simp add: answered_def hfs)
    have purse: "only_purse ut s t" if "only_purse ut u t" for ut t
      using that by (auto simp: only_purse_def hfs)
    show ?thesis
      unfolding wp_bindM wp_thenM wp_retM
    proof (rule get_account_wp, simp)
      fix v assume v: "case v of None \<Rightarrow> look u (FORMAT_ACCOUNT2USER_TABLE (fmt a)) = None | Some ut \<Rightarrow> look u (FORMAT_ACCOUNT2USER_TABLE (fmt a)) = Some (RStr ut)"
      note tab = fmt_account [OF acc' v]
      have own: "fmt v = payee s sid" using v eq by (intro payee_fmt) (simp add: a split: option.splits)
      have out: "payee s sid \<notin> reward_counters" using outside_counters(4) [OF tab] by (simp add: own)
      from own show "wp (pay_packets d a v n gold tick) (\<lambda>_. ?post (Reply 0 (show_int (int n)), sent)) (\<lambda>_ _. True) u"
        by (intro wp_mono [OF pay_packets_ok [OF acc' tab]])
          (use sums in \<open>auto simp: out quiz_paid_def a [symmetric] intro!: ans same purse exI conjI outside_counters(3)\<close>)
    qed
  qed
  have step: "wp (bindM (send_packets rnd d pool (ACTIVICE_QUESTION_GOLD_MIN div int n) (ACTIVICE_QUESTION_GOLD_MAX div int n) n probs)
     (\<lambda>(gold, tick, sent). ?pays gold tick sent)) ?post (\<lambda>_ _. True) s" for pool probs
    unfolding wp_bindM [of "send_packets _ _ _ _ _ _ _"]
  proof (rule wp_mono [OF wp_only [OF send_packets_sums [OF gold_bounds(1,2) [OF n]] only_send]], goal_cases)
    case (1 x u)
    obtain gold tick sent where x: "x = (gold, tick, sent)" by (cases x) auto
    have "gold \<le> ACTIVICE_QUESTION_GOLD_MAX" using 1 gold_bounds(3) [OF n] by (auto simp: x)
    then show ?case using 1 unfolding x prod.case by (elim conjE) (rule fin)
  qed simp
  show ?thesis
    unfolding reward_answers_def Let_def
    by (intro ok_bindM ok_hgetall, rule ok_mapM_read [OF reward_copies_reads]) (rule step)
qed

text \<open>An answer is right when its choices, joined by commas, are the stored ones; \<open>right_count\<close> counts the right answers
  of a form.\<close>

definition is_right :: "spring_json \<Rightarrow> redis \<Rightarrow> string \<times> string list option \<Rightarrow> bool" where
  "is_right j s a \<longleftrightarrow> (\<exists>q info choices. hf s ACTIVICE_QUESTION_ALL_HESH (fst a) = Some q \<and> js_obj j q = Inr info \<and>
     snd a = Some choices \<and> map_of info ''correct'' = Some (PStr (join_with '','' choices)))"

definition right_count :: "spring_json \<Rightarrow> redis \<Rightarrow> string \<Rightarrow> nat" where
  "right_count j s form = (case js_answers j (strip form) of Inl _ \<Rightarrow> 0 | Inr answers \<Rightarrow> length (filter (is_right j s) answers))"

lemma right_answer_ok: "wp (right_answer j a) (\<lambda>n t. t = s \<and> n = (if is_right j s a then 1 else 0)) (\<lambda>_ _. True) s"
  by (auto simp: right_answer_def is_right_def wp_eqs js_none_def dict_get_def hf_def hash_of_def is_hash_def
      split: sum.split sum.splits option.split option.splits rval.splits)

lemma right_answers_ok:
  assumes "Q (map (\<lambda>a. if is_right j s a then 1 else 0) answers) s"
  shows "wp (mapM answers (right_answer j)) Q (\<lambda>_ _. True) s"
proof (rule ok_mapM_read [OF right_answer_ok])
  fix ns :: "nat list" assume "list_all2 (\<lambda>a n. n = (if is_right j s a then 1 else 0)) answers ns"
  then have "ns = map (\<lambda>a. if is_right j s a then 1 else 0) answers" by (induction rule: list_all2_induct) auto
  with assms show "Q ns s" by simp
qed

lemma question_success:
  assumes acc: "accounts_ok s"
  shows "wp (question_answer j c rnd sid x) (\<lambda>r t. fst r = Reply 0 m \<longrightarrow> m = show_int (int (right_count j s x)) \<and>
     quiz_paid s t (payee s sid) (today_s c) (right_count j s x) (snd r) \<and> answered s (today_s c) (session_account s sid) t) (\<lambda>_ _. True) s"
proof (cases "js_answers j (strip x)")
  case (Inr anwser)
  let ?n = "right_count j s x" let ?a = "hf s (FORMAT_USER_HALL_SESSION (strip sid)) ''account''"
  let ?post = "\<lambda>r t. fst r = Reply 0 m \<longrightarrow> m = show_int (int ?n) \<and>
     quiz_paid s t (payee s sid) (today_s c) ?n (snd r) \<and> answered s (today_s c) (session_account s sid) t"
  have sum: "sum_list (map (\<lambda>a. if P a then 1 else 0) l) = length (filter P l)" for P :: "string \<times> string list option \<Rightarrow> bool" and l
    by (induction l) simp_all
  have n: "sum_list (map (\<lambda>a. if is_right j s a then 1 else 0) anwser) = ?n" by (simp add: right_count_def Inr sum)
  have pay: "wp (reward_answers j rnd (today_s c) ?a ?n) ?post (\<lambda>_ _. True) s" if "?n \<noteq> 0"
    by (rule wp_mono [OF reward_answers_ok [OF acc]]) (use that in \<open>auto simp: session_account_def\<close>)
  show ?thesis
    unfolding question_answer_def sum.case Inr hkeys_def
  proof (rule alive_guard_wp)
    show "wp (bindM (check_spring_time c ''4'') (\<lambda>isIntime. if \<not> isIntime then retM (Reply 1 ''not open'', []) else
     bindM (hget ACTIVICE_QUESTION_ANSWER (fmt ?a)) (\<lambda>lastDate.
     if truthy lastDate \<and> lastDate = Some (today_s c) then retM (Reply 1 ''answered already'', []) else
     bindM (bindM (hgetall ACTIVICE_QUESTION_ALL_HESH) (\<lambda>h. retM (map fst h))) (\<lambda>questions.
     if length anwser < min ACTIVICE_QUESTION_SELECT (length questions) then retM (Reply 1 ''not complete'', []) else
     bindM (mapM anwser (right_answer j)) (\<lambda>right.
     if sum_list right = 0 then retM (Reply 1 ''nothing right'', [])
     else reward_answers j rnd (today_s c) ?a (sum_list right)))))) ?post (\<lambda>_ _. True) s"
      unfolding wp_bindM [of "check_spring_time _ _"]
    proof (rule wp_mono [OF spring_time_reads], goal_cases)
      case (1 inTime t)
      then show ?case
        by (intro ok_if ok_retM ok_bindM ok_hget ok_hgetall right_answers_ok) (simp_all add: n pay del: length_map)
    qed simp
  qed simp_all
qed (simp add: question_answer_def wp_retM)

fun quiz_do :: "spring_json \<Rightarrow> clock \<Rightarrow> (nat \<Rightarrow> nat \<times> nat) \<times> string \<times> string \<Rightarrow> redis \<Rightarrow> redis" where
  "quiz_do j c (rnd, sid, x) s = snd (question_answer j c rnd sid x s)"

interpretation quiz: state_machine "quiz_do j c" "answered s0 (today_s c) a" for j c s0 a
  by unfold_locales (auto simp: keepsD [OF keeps_question])

text \<open>C10: a quiz answered with success sent one packet per right answer of the form, an answer being right when its choices
  are the stored ones; the totals of the packets are what the user of the account gained, at most 50000 coins and
  eight tickets per ticket drawn, and no other field of any user changed; and whatever quiz requests follow on that
  day, no session of the account is paid again on it.\<close>

theorem question_once:
  assumes "accounts_ok s" "today_s c \<noteq> []" "question_answer j c rnd sid x s = (Inr (Reply 0 m, sent), t)"
    and "session_account s sid' = session_account s sid"
  shows "m = show_int (int (right_count j s x)) \<and> quiz_paid s t (payee s sid) (today_s c) (right_count j s x) sent \<and>
     (\<forall>r. fst (question_answer j c rnd' sid' x' (fold (quiz_do j c) ops t)) \<noteq> Inr (Reply 0 m', r))"
proof (intro conjI allI)
  note paid = wp_InrD [OF question_success [OF assms(1), of j c rnd sid x m] assms(3), simplified]
  then show "m = show_int (int (right_count j s x))" "quiz_paid s t (payee s sid) (today_s c) (right_count j s x) sent" by blast+
  let ?u = "fold (quiz_do j c) ops t"
  have "answered s (today_s c) (session_account s sid) ?u" using paid by (intro quiz.inv_run) blast
  then have "hf ?u ACTIVICE_QUESTION_ANSWER (session_account ?u sid') = Some (today_s c)"
    using assms(4) by (simp add: session_account_def answered_def)
  from question_refused [OF this assms(2), of j rnd' x' m'] show "fst (question_answer j c rnd' sid' x' ?u) \<noteq> Inr (Reply 0 m', r)" for r
    by (auto simp: wp_def split: prod.splits sum.splits)
qed

definition demo_quiz :: redis where
  "demo_quiz = empty_db\<lparr>kv := [(FORMAT_USER_HALL_SESSION ''s'', RHash [(''account'', ''ann''), (''uid'', ''7'')]),
     (FORMAT_ACCOUNT2USER_TABLE ''ann'', RStr (user_key (Some ''7''))), (user_key (Some ''7''), RHash [(''coin'', ''10'')]),
     (ACTIVE_CONFIG_ONE_HESH ''4'', RHash [(''start_time'', ''2018-06-01''), (''end_time'', ''2018-06-30'')]),
     (ACTIVICE_QUESTION_ALL_HESH, RHash [(''1'', ''q''), (''2'', ''q'')]), (ACTIVICE_QUESTION_REWARD_LIST, RHash [(''1'', ''p'')])]\<rparr>"

definition demo_quizzed :: redis where
  "demo_quizzed = snd (question_answer demo_json demo_clock (\<lambda>_. (0, 0)) ''s'' ''data'' demo_quiz)"

definition demo_sent :: "pydict list" where
  "demo_sent = replicate 2 [(''correct'', PStr ''1''), (''id'', PInt 1), (''max'', PInt 3), (''total'', PInt 2), (''last'', PInt 3)]"

lemma demo_quiz_run: "question_answer demo_json demo_clock (\<lambda>_. (0, 0)) ''s'' ''data'' demo_quiz = (Inr (Reply 0 ''2'', demo_sent), demo_quizzed)"
proof -
  have "fst (question_answer demo_json demo_clock (\<lambda>_. (0, 0)) ''s'' ''data'' demo_quiz) = Inr (Reply 0 ''2'', demo_sent)" by code_simp
  then show ?thesis by (simp add: demo_quizzed_def prod_eq_iff)
qed

lemma demo_quiz_accounts: "accounts_ok demo_quiz"
  by (auto simp: accounts_ok_def demo_quiz_def look_def benefit_keys spring_keys user_tables_def split: if_splits)

theorem question_once_witness: "quiz_paid demo_quiz demo_quizzed (user_key (Some ''7'')) ''2018-06-01'' 2 demo_sent"
proof -
  have "payee demo_quiz ''s'' = user_key (Some ''7'')" by code_simp
  moreover have "right_count demo_json demo_quiz ''data'' = 2"
    by (simp add: right_count_def is_right_def demo_json_def demo_quiz_def hf_def hash_of_def look_def spring_keys benefit_keys)
  ultimately show ?thesis
    using question_once [OF demo_quiz_accounts _ demo_quiz_run refl] by (simp add: demo_clock_def)
qed

end
