(* ===== verification/QuizPrizes.thy ===== *)
theory QuizPrizes
  imports SpringLaws
begin

text \<open>
  The prizes of the quiz: over every history of answers, on any days and by any accounts, a prize is
  counted out at most as often a day as its maximum allows.
\<close>

section \<open>The list of prizes\<close>

text \<open>The ids and the maxima of the stored list, the ids all different.\<close>

definition caps_of :: "spring_json \<Rightarrow> (string \<times> string) list \<Rightarrow> (string \<times> int) list \<Rightarrow> bool" where
  "caps_of j L caps \<longleftrightarrow> distinct (map fst caps) \<and>
     list_all2 (\<lambda>e (r, m). \<exists>p rid. js_obj j (snd e) = Inr p \<and> map_of p ''id'' = Some rid \<and> pyv_str rid = r \<and> dict_int p ''max'' = Inr m) L caps"

definition ok_count :: "string option \<Rightarrow> int \<Rightarrow> bool" where
  "ok_count v b \<longleftrightarrow> v = None \<and> 0 \<le> b \<or> (\<exists>n. v = Some (show_int n) \<and> 0 \<le> n \<and> n \<le> b)"

definition prize_inv :: "spring_json \<Rightarrow> (string \<times> int) list \<Rightarrow> redis \<Rightarrow> bool" where
  "prize_inv j caps s \<longleftrightarrow> accounts_ok s \<and> caps_of j (hash_of s ACTIVICE_QUESTION_REWARD_LIST) caps \<and>
     (\<forall>(r, m) \<in> set caps. \<forall>d. ok_count (hf s (ACTIVICE_QUESTION_REWARD_COUNT r) d) (max 0 m))"

text \<open>Inside a request: the copies still in the draw have room, too.\<close>

definition draw_inv :: "spring_json \<Rightarrow> (string \<times> int) list \<Rightarrow> string \<Rightarrow> pyv list \<Rightarrow> redis \<Rightarrow> bool" where
  "draw_inv j caps day probs s \<longleftrightarrow> prize_inv j caps s \<and>
     (\<forall>(r, m) \<in> set caps. ok_count (hf s (ACTIVICE_QUESTION_REWARD_COUNT r) day) (max 0 m - int (count_list (map pyv_str probs) r)))"

lemma draw_inv_prize: "draw_inv j caps day probs s \<Longrightarrow> prize_inv j caps s"
  by (simp add: draw_inv_def)

section \<open>Keys\<close>

lemma reward_count_inj [simp]: "ACTIVICE_QUESTION_REWARD_COUNT r = ACTIVICE_QUESTION_REWARD_COUNT q \<longleftrightarrow> r = q"
  by (simp add: ACTIVICE_QUESTION_REWARD_COUNT_def)

lemma reward_list_neq [simp]: "ACTIVICE_QUESTION_REWARD_LIST \<noteq> ACTIVICE_QUESTION_REWARD_COUNT r"
proof
  assume "ACTIVICE_QUESTION_REWARD_LIST = ACTIVICE_QUESTION_REWARD_COUNT r"
  from arg_cong [OF this, of length] show False
    by (simp add: ACTIVICE_QUESTION_REWARD_LIST_def ACTIVICE_QUESTION_REWARD_COUNT_def)
qed

lemma prize_inv_cong:
  assumes "prize_inv j caps s" "\<And>a. look t (FORMAT_ACCOUNT2USER_TABLE a) = look s (FORMAT_ACCOUNT2USER_TABLE a)"
    and "look t ACTIVICE_QUESTION_REWARD_LIST = look s ACTIVICE_QUESTION_REWARD_LIST"
    and "\<And>r. look t (ACTIVICE_QUESTION_REWARD_COUNT r) = look s (ACTIVICE_QUESTION_REWARD_COUNT r)"
  shows "prize_inv j caps t"
  using assms by (simp add: prize_inv_def accounts_ok_def hf_def hash_of_def)

section \<open>Counting copies\<close>

lemma count_mem: "x \<in> set xs \<Longrightarrow> 0 < count_list (map f xs) (f x)"
  by (induction xs) auto

lemma count_remove1: "x \<in> set xs \<Longrightarrow> count_list (map f (remove1 x xs)) y = count_list (map f xs) y - (if f x = y then 1 else 0)"
proof (induction xs)
  case (Cons a xs)
  have "f x = f a \<Longrightarrow> x \<in> set xs \<Longrightarrow> 0 < count_list (map f xs) (f a)" using count_mem [of x xs f] by simp
  then show ?case using Cons by auto
qed simp

lemma count_replicate: "count_list (replicate n x) y = (if x = y then n else 0)"
  by (induction n) auto

lemma count_copies_none: "y \<notin> (\<lambda>(k, _). f k) ` set xs \<Longrightarrow> count_list (map f (concat (map (\<lambda>(k, n). replicate n k) xs))) y = 0"
  by (induction xs) (auto simp: count_replicate)

lemma count_copies:
  "distinct (map (\<lambda>(k, _). f k) xs) \<Longrightarrow> (k, n) \<in> set xs \<Longrightarrow> count_list (map f (concat (map (\<lambda>(k, n). replicate n k) xs))) (f k) = n"
  by (induction xs) (auto simp: count_replicate count_copies_none image_iff split: if_splits)

section \<open>One request\<close>

lemma draw_inv_remove: "draw_inv j caps day probs s \<Longrightarrow> rid \<in> set probs \<Longrightarrow> draw_inv j caps day (remove1 rid probs) s"
  by (fastforce simp: draw_inv_def ok_count_def count_remove1)

lemma draw_inv_take:
  assumes inv: "draw_inv j caps day probs s" and rid: "rid \<in> set probs"
    and old: "counter (hf s (ACTIVICE_QUESTION_REWARD_COUNT (pyv_str rid)) day) = Some old"
  shows "draw_inv j caps day (remove1 rid probs) (hput (ACTIVICE_QUESTION_REWARD_COUNT (pyv_str rid)) day (show_int (old + 1)) s)"
    (is "draw_inv j caps day ?rest ?t")
proof -
  have now: "ok_count (hf ?t (ACTIVICE_QUESTION_REWARD_COUNT r) day) (max 0 m - int (count_list (map pyv_str ?rest) r))"
    if "(r, m) \<in> set caps" for r m
  proof -
    have "ok_count (hf s (ACTIVICE_QUESTION_REWARD_COUNT r) day) (max 0 m - int (count_list (map pyv_str probs) r))"
      using inv that by (auto simp: draw_inv_def)
    then show ?thesis
      using old count_mem [OF rid, of pyv_str] by (auto simp: ok_count_def count_remove1 [OF rid] strtoll_show_int_iff split: if_splits)
  qed
  have "ok_count (hf ?t (ACTIVICE_QUESTION_REWARD_COUNT r) d) (max 0 m)" if "(r, m) \<in> set caps" for r m d
  proof (cases "d = day")
    case True
    then show ?thesis using now [OF that] by (auto simp: ok_count_def)
  next
    case False
    then show ?thesis using inv that by (auto simp: draw_inv_def prize_inv_def)
  qed
  moreover have "accounts_ok ?t" "caps_of j (hash_of ?t ACTIVICE_QUESTION_REWARD_LIST) caps"
    using inv by (simp_all add: draw_inv_def prize_inv_def accounts_ok_def look_hput_other hash_of_def)
  ultimately show ?thesis using now unfolding draw_inv_def prize_inv_def by blast
qed

lemma draw_reward_inv:
  assumes "draw_inv j caps day probs s"
  shows "wp (draw_reward day pool r probs) (\<lambda>(_, rest). draw_inv j caps day rest) (\<lambda>_. prize_inv j caps) s"
proof (cases "probs = []")
  case False
  then have mem: "probs ! (r mod length probs) \<in> set probs" by simp
  have one: "strtoll ''1'' = Some 1" by code_simp
  show ?thesis
    using assms False draw_inv_remove [OF assms mem] draw_inv_take [OF assms mem]
    by (auto simp: draw_reward_def Let_def wp_eqs one split: option.split)
qed (use assms in \<open>simp add: draw_reward_def wp_retM\<close>)

lemma send_packets_inv:
  assumes "draw_inv j caps day probs s"
  shows "wp (send_packets rnd day pool lo hi n probs) (\<lambda>_. prize_inv j caps) (\<lambda>_. prize_inv j caps) s"
  using assms
proof (induction n arbitrary: probs s)
  case (Suc n)
  have "wp (draw_reward day pool (fst (rnd n)) probs) (\<lambda>(_, rest) t. draw_inv j caps day rest t) (\<lambda>_. prize_inv j caps) s"
    by (rule draw_reward_inv [OF Suc.prems])
  then show ?case
    unfolding send_packets.simps wp_bindM
    by (rule wp_mono) (auto simp: Let_def wp_bindM [abs_def] wp_retM wp_liftE draw_inv_prize case_prod_unfold intro!: Suc.IH split: option.split sum.split)
qed (simp add: wp_retM draw_inv_prize)


lemma list_all2_partner: "list_all2 P xs ys \<Longrightarrow> y \<in> set ys \<Longrightarrow> \<exists>x \<in> set xs. P x y"
  by (induction rule: list_all2_induct) auto

text \<open>The draw starts with exactly the copies there is room for.\<close>

lemma draw_starts:
  fixes copies :: "(pyv \<times> pydict \<times> nat) list"
  assumes inv: "prize_inv j caps s"
    and copies: "list_all2 (\<lambda>e (rid, p, left). \<exists>q m n. js_obj j (snd e) = Inr q \<and> map_of q ''id'' = Some rid \<and> dict_int q ''max'' = Inr m \<and>
       int_or (hf s (ACTIVICE_QUESTION_REWARD_COUNT (pyv_str rid)) day) 0 = Inr n \<and> left = nat (m - n)) (hash_of s ACTIVICE_QUESTION_REWARD_LIST) copies"
  shows "draw_inv j caps day (concat (map (\<lambda>(rid, _, left). replicate left rid) copies)) s"
proof -
  let ?P = "\<lambda>(rid, p :: pydict, left) (r, m). pyv_str rid = r \<and> (\<exists>n. int_or (hf s (ACTIVICE_QUESTION_REWARD_COUNT r) day) 0 = Inr n \<and> left = nat (m - n))"
  let ?xs = "map (\<lambda>(rid, _, left). (rid, left)) copies"
  have all: "list_all2 ?P copies caps"
    using copies inv unfolding prize_inv_def caps_of_def by (fastforce simp: list_all2_conv_all_nth)
  have "map (\<lambda>(k, _). pyv_str k) ?xs = map fst caps"
    using all by (induction rule: list_all2_induct) auto
  then have dist: "distinct (map (\<lambda>(k, _). pyv_str k) ?xs)" using inv by (simp add: prize_inv_def caps_of_def)
  have eq: "concat (map (\<lambda>(rid, _, left). replicate left rid) copies) = concat (map (\<lambda>(k, n). replicate n k) ?xs)"
    by (simp add: comp_def case_prod_unfold)
  have "ok_count (hf s (ACTIVICE_QUESTION_REWARD_COUNT r) day) (max 0 m - int (count_list (map pyv_str (concat (map (\<lambda>(k, n). replicate n k) ?xs))) r))"
    if rm: "(r, m) \<in> set caps" for r m
  proof -
    obtain rid p left n where c: "(rid, p, left) \<in> set copies" "pyv_str rid = r"
        "int_or (hf s (ACTIVICE_QUESTION_REWARD_COUNT r) day) 0 = Inr n" "left = nat (m - n)"
      using list_all2_partner [OF all rm] by auto
    have "(rid, left) \<in> set ?xs" using c(1) by force
    from count_copies [OF dist this] have "count_list (map pyv_str (concat (map (\<lambda>(k, n). replicate n k) ?xs))) r = nat (m - n)"
      using c(2,4) by simp
    moreover have "ok_count (hf s (ACTIVICE_QUESTION_REWARD_COUNT r) day) (max 0 m)"
      using inv rm by (auto simp: prize_inv_def)
    ultimately show ?thesis using c(3) by (auto simp: ok_count_def)
  qed
  then show ?thesis using inv unfolding draw_inv_def eq by auto
qed

lemma prize_inv_write:
  assumes "prize_inv j caps s" "k \<in> user_tables \<or> k \<in> {ACTIVICE_SEND_REDPACK_COUNT, ACTIVICE_SEND_GOLD_COUNT, ACTIVICE_SEND_TICK_COUNT,
     ''fish:redpick:account:hesh'', ACTIVICE_QUESTION_ANSWER}"
  shows "prize_inv j caps (hput k f v s)"
proof (rule prize_inv_cong [OF assms(1)]; rule look_hput_other)
  show "FORMAT_ACCOUNT2USER_TABLE a \<noteq> k" for a using assms(2) by auto
  show "ACTIVICE_QUESTION_REWARD_LIST \<noteq> k"
    using assms(2) by (auto simp: spring_keys user_tables_def user_key_def)
  show "ACTIVICE_QUESTION_REWARD_COUNT r \<noteq> k" for r
    using assms(2) by (auto simp: spring_keys user_tables_def user_key_def)
qed

lemma keeps_prize_writes:
  assumes "k \<in> user_tables \<or> k \<in> {ACTIVICE_SEND_REDPACK_COUNT, ACTIVICE_SEND_GOLD_COUNT, ACTIVICE_SEND_TICK_COUNT,
     ''fish:redpick:account:hesh'', ACTIVICE_QUESTION_ANSWER}"
  shows "keeps (prize_inv j caps) (hincrby k f v)" "keeps (prize_inv j caps) (hset k f v)"
  using prize_inv_write [OF _ assms] by (simp_all add: keeps_def hincrby_def hset_def split: option.split)

lemma keeps_prize_pay: "fmt v \<in> user_tables \<Longrightarrow> keeps (prize_inv j caps) (pay_packets day b v n gold tick)"
  unfolding pay_packets_def
  by (rule keeps_execute) (auto intro!: keeps_drop_reply keeps_prize_writes split: if_splits)

lemma reward_copies_value:
  "wp (reward_copies j day e) (\<lambda>c t. t = s \<and> (\<lambda>e (rid, p, left). \<exists>q m n. js_obj j (snd e) = Inr q \<and> map_of q ''id'' = Some rid \<and> dict_int q ''max'' = Inr m \<and>
       int_or (hf s (ACTIVICE_QUESTION_REWARD_COUNT (pyv_str rid)) day) 0 = Inr n \<and> left = nat (m - n)) e c) (\<lambda>_ t. t = s) s"
  by (auto simp: reward_copies_def dict_get_def wp_eqs split: option.split sum.split)

lemma mapM_read:
  assumes "\<And>x. x \<in> set xs \<Longrightarrow> wp (f x) (\<lambda>y t. t = s \<and> P x y) (\<lambda>_ t. t = s) s"
  shows "wp (mapM xs f) (\<lambda>ys t. t = s \<and> list_all2 P xs ys) (\<lambda>_ t. t = s) s"
  using assms
proof (induction xs)
  case (Cons x xs)
  have "wp (mapM xs f) (\<lambda>ys t. t = s \<and> list_all2 P xs ys) (\<lambda>_ t. t = s) s" using Cons by simp
  then have "wp (f x) (\<lambda>y. wp (mapM xs f) (\<lambda>ys t. t = s \<and> list_all2 P (x # xs) (y # ys)) (\<lambda>_ t. t = s)) (\<lambda>_ t. t = s) s"
    by (intro wp_mono [OF Cons.prems [of x]]) (auto elim: wp_mono)
  then show ?case by (simp add: wp_bindM [abs_def] wp_retM)
qed (simp add: wp_retM)

lemma reward_answers_inv:
  assumes inv: "prize_inv j caps s"
  shows "wp (reward_answers j rnd day a n) (\<lambda>_. prize_inv j caps) (\<lambda>_. prize_inv j caps) s"
proof -
  have pay: "keeps (prize_inv j caps) (bindM (get (FORMAT_ACCOUNT2USER_TABLE b)) (\<lambda>v. thenM (pay_packets day a v n gold tick) (retM r)))"
    for b gold tick and r :: "reply \<times> pydict list"
    by (rule keeps_account) (auto simp: prize_inv_def [of j caps] intro!: pres_intros keeps_prize_pay)
  have send: "wp (bindM (send_packets rnd day pool lo hi n (concat (map (\<lambda>(rid, _, left). replicate left rid) copies)))
      (\<lambda>(goldTotal, tickTotal, sendPool). bindM (get (FORMAT_ACCOUNT2USER_TABLE (fmt a))) (\<lambda>v.
        thenM (pay_packets day a v n goldTotal tickTotal) (retM (Reply 0 (show_int (int n)), sendPool)))))
     (\<lambda>_. prize_inv j caps) (\<lambda>_. prize_inv j caps) s"
    if "draw_inv j caps day (concat (map (\<lambda>(rid, _, left). replicate left rid) copies)) s" for pool lo hi and copies :: "(pyv \<times> pydict \<times> nat) list"
    unfolding wp_bindM [of "send_packets _ _ _ _ _ _ _"]
    by (rule wp_mono [OF send_packets_inv [OF that]]) (auto intro!: wp_keeps pay)
  show ?thesis
    unfolding reward_answers_def Let_def wp_bindM [of "hgetall _"] wp_hgetall wp_bindM [of "mapM _ _"]
    using inv by (auto intro!: wp_mono [OF mapM_read [OF reward_copies_value]] send draw_starts [OF inv])
qed

lemma keeps_quiz: "keeps (prize_inv j caps) (question_answer j c rnd sid x)"
proof -
  have "keeps (prize_inv j caps) (reward_answers j rnd d a n)" for d a n
    using reward_answers_inv by (simp add: keeps_def wp_state)
  then show ?thesis
    unfolding question_answer_def right_answer_def hkeys_def by (intro pres_intros)
qed

fun quiz_request :: "spring_json \<Rightarrow> clock \<times> (nat \<Rightarrow> nat \<times> nat) \<times> string \<times> string \<Rightarrow> redis \<Rightarrow> redis" where
  "quiz_request j (c, rnd, sid, x) s = snd (question_answer j c rnd sid x s)"

interpretation prizes: state_machine "quiz_request j" "prize_inv j caps" for j caps
  by unfold_locales (auto simp: keepsD [OF keeps_quiz])

text \<open>C6: over every history of quiz answers, on any days, by any accounts and with any random numbers, no
  prize is counted out more often on a day than its maximum: the counters stay numbers within it.\<close>

theorem prizes_bounded:
  assumes "prize_inv j caps s"
  shows "prize_inv j caps (fold (quiz_request j) ops s)"
  using assms by (rule prizes.inv_run)

lemma demo_prize_inv: "prize_inv demo_json [(''1'', 3)] demo_quiz"
proof -
  have "caps_of demo_json (hash_of demo_quiz ACTIVICE_QUESTION_REWARD_LIST) [(''1'', 3)]"
  proof -
    have "show_int 1 = ''1''" "hash_of demo_quiz ACTIVICE_QUESTION_REWARD_LIST = [(''1'', ''p'')]" by code_simp+
    then show ?thesis by (simp add: caps_of_def demo_json_def dict_int_def)
  qed
  moreover have "hf demo_quiz (ACTIVICE_QUESTION_REWARD_COUNT ''1'') d = None" for d
    by (simp add: demo_quiz_def hf_def hash_of_def look_def benefit_keys spring_keys)
  ultimately show ?thesis by (simp add: prize_inv_def demo_quiz_accounts ok_count_def)
qed

theorem prizes_bounded_witness:
  "prize_inv demo_json [(''1'', 3)] (fold (quiz_request demo_json) [(demo_clock, \<lambda>_. (0, 0), ''s'', ''data'')] demo_quiz)"
  by (rule prizes_bounded) (rule demo_prize_inv)

end
