(* ===== verification/FishExchange.thy ===== *)
theory FishExchange
  imports FishBenefit
begin

text \<open>
  Exchanging currencies, delivery addresses, tickets and the reward shop of the fishing game
  (fish/fish_exchange.py) with the parts of model/userModel.py and model/goodsModel.py it calls.  What \<open>eval\<close> makes of a stored exchange and
  the descriptions of the reward types are arguments.
\<close>

section \<open>Keys\<close>

definition course_key :: "string \<Rightarrow> string" where "course_key cid = ''currency:change:course:'' @ cid @ '':hesh''"
definition other_key :: "string option \<Rightarrow> string" where "other_key uid = ''player:uid:'' @ fmt uid @ '':hesh''"
definition FORMAT_USER_ADDRESS_TABLE :: "string option \<Rightarrow> string" where "FORMAT_USER_ADDRESS_TABLE uid = ''user:'' @ fmt uid @ '':addr:info''"
definition FISH_REWARD_ON_SHOP_LIST :: string where "FISH_REWARD_ON_SHOP_LIST = ''fish:reward:onshop:list''"
definition FISH_REWARD_TABLE :: "string \<Rightarrow> string" where "FISH_REWARD_TABLE i = ''fish:reward:'' @ i @ '':info''"
definition FISH_REWARD_LIST :: string where "FISH_REWARD_LIST = ''fish:reward:id:list''"
definition FISH_REWARD_ID_SET :: string where "FISH_REWARD_ID_SET = ''fish:reward:id:sets''"
definition FISH_REWARD_AUTO_CHARGE :: string where "FISH_REWARD_AUTO_CHARGE = ''fish:reward:auto:charge:set''"
definition FISH_EXCHANGE_TABLE :: "string \<Rightarrow> string" where "FISH_EXCHANGE_TABLE i = ''fish:exchange:item:'' @ i @ '':info''"
definition FISH_USER_EXCHANGE_LIST :: "string option \<Rightarrow> string" where "FISH_USER_EXCHANGE_LIST uid = ''fish:exchange:user:'' @ fmt uid @ '':list''"
definition NUMS_PER_PAGE :: int where "NUMS_PER_PAGE = 30"

section \<open>Currency exchange\<close>

text \<open>\<open>formatInt\<close> of two stored fields.\<close>

definition two_ints :: "string \<Rightarrow> string \<Rightarrow> string \<Rightarrow> (int \<times> int) rh" where
  "two_ints k f g =
     bindM (hmget k [f, g]) (\<lambda>v.
     bindM (liftE (int_or (v ! 0) 0)) (\<lambda>x.
     bindM (liftE (int_or (v ! 1) 0)) (\<lambda>y. retM (x, y))))"

definition box_gain :: "string option \<Rightarrow> int \<Rightarrow> int \<Rightarrow> unit rh" where
  "box_gain uid gain_type gain = drop_reply (hincrby (box_key uid) (show_int gain_type) (show_int gain))"

text \<open>Paying with diamonds (1, out of the box), with coins (2, out of the purse) and with another item;
  the value is whether there was enough.\<close>

definition pay_diamonds :: "string option \<Rightarrow> int \<Rightarrow> int \<Rightarrow> int \<Rightarrow> bool rh" where
  "pay_diamonds uid cost gain gain_type =
     bindM (hget (box_key uid) (show_int 1)) (\<lambda>d.
     bindM (liftE (int_or d 0)) (\<lambda>cur_diamond.
     if cur_diamond < cost then retM False else
     thenM (if gain_type = 2
       then thenM (box_gain uid gain_type gain) (drop_reply (incrby ''fish:diamond2coin:sum'' (show_int gain)))
       else box_gain uid gain_type gain)
     (thenM (hincrby (box_key uid) (show_int 1) (show_int (- cost))) (retM True))))"

definition pay_coins :: "string option \<Rightarrow> int \<Rightarrow> int \<Rightarrow> int \<Rightarrow> int \<Rightarrow> bool rh" where
  "pay_coins uid cur_coin cost gain gain_type =
     (if cur_coin < cost then retM False else
      thenM (if gain_type = 1
        then thenM (hincrby (user_key uid) ''diamond'' (show_int gain)) (box_gain uid gain_type gain)
        else box_gain uid gain_type gain)
      (thenM (hincrby (user_key uid) ''coin'' (show_int (- cost))) (retM True)))"

definition pay_others :: "string option \<Rightarrow> int \<Rightarrow> int \<Rightarrow> int \<Rightarrow> int \<Rightarrow> bool rh" where
  "pay_others uid cost_type cost gain gain_type =
     bindM (hget (other_key uid) (show_int cost_type)) (\<lambda>n.
     bindM (liftE (int_or n 0)) (\<lambda>cur_num.
     if cur_num < cost then retM False else
     thenM (box_gain uid gain_type gain)
     (thenM (hincrby (other_key uid) (show_int cost_type) (show_int cost)) (retM True))))"

definition pay_price :: "string option \<Rightarrow> int \<Rightarrow> int \<Rightarrow> int \<Rightarrow> int \<Rightarrow> int \<Rightarrow> bool rh" where
  "pay_price uid cur_coin cost gain cost_type gain_type =
     (if cost_type = 1 then pay_diamonds uid cost gain gain_type
      else if cost_type = 2 then pay_coins uid cur_coin cost gain gain_type
      else pay_others uid cost_type cost gain gain_type)"

definition currency_exchange :: "string \<Rightarrow> string \<Rightarrow> (reply \<times> string option list) rh" where
  "currency_exchange cid sid =
     bindM (uidBySid sid) (\<lambda>uid.
     bindM (hget (user_key uid) ''box_pwd'') (\<lambda>box_pwd.
     if \<not> truthy box_pwd then retM (Reply 1 ''no box password'', []) else
     bindM (two_ints (course_key (strip cid)) ''cost'' ''gain'') (\<lambda>(cost, gain).
     bindM (two_ints (course_key (strip cid)) ''cost_type'' ''gain_type'') (\<lambda>(cost_type, gain_type).
     bindM (two_ints (user_key uid) ''coin'' ''diamond'') (\<lambda>(cur_coin, cur_diamond).
     bindM (pay_price uid cur_coin cost gain cost_type gain_type) (\<lambda>enough.
     if \<not> enough then retM (Reply (- 1) ''not enough'', []) else
     bindM (hmget (user_key uid) [''coin'', ''diamond'']) (\<lambda>v. retM (Reply 0 ''exchanged'', v))))))))"

section \<open>Addresses and tickets\<close>

definition do_user_modify_addr :: "string option \<Rightarrow> (string \<times> string) list \<Rightarrow> unit rh" where
  "do_user_modify_addr user_id addr_info = hmset (FORMAT_USER_ADDRESS_TABLE user_id) addr_info"

definition do_user_del_addr :: "string option \<Rightarrow> (string \<times> string) list \<Rightarrow> unit rh" where
  "do_user_del_addr user_id addr_info =
     bindM (exists_key (FORMAT_USER_ADDRESS_TABLE user_id)) (\<lambda>ex.
     if ex then delete_key (FORMAT_USER_ADDRESS_TABLE user_id) else retM ())"

record address =
  ad_name :: string
  ad_phone :: string
  ad_city :: string
  ad_address :: string

definition address_info :: "address \<Rightarrow> (string \<times> string) list" where
  "address_info a = [(''name'', strip (ad_name a)), (''phone'', strip (ad_phone a)), (''city'', strip (ad_city a)),
     (''address'', strip (ad_address a))]"

definition do_address :: "string \<Rightarrow> address \<Rightarrow> string \<Rightarrow> reply rh" where
  "do_address sid a action_form =
     (let action = strip action_form in
     session_guard sid (\<lambda>code. Reply code ''session'') (\<lambda>account uid user_table.
     if action \<notin> {''add'', ''modify'', ''delete''} then retM (Reply (- 2001) ''not allowed'') else
     thenM (if action = ''delete'' then do_user_del_addr uid (address_info a) else do_user_modify_addr uid (address_info a))
     (retM (Reply 0 ''done''))))"

definition do_gain_exchange_ticket :: "string \<Rightarrow> string \<Rightarrow> (int + int) rh" where
  "do_gain_exchange_ticket sid tickets_form =
     session_guard sid Inl (\<lambda>account uid user_table.
     bindM (liftE (py_int (strip tickets_form))) (\<lambda>tickets.
     if tickets < 0 then retM (Inl (- 5001)) else
     bindM (hincrby user_table ''exchange_ticket'' (show_int tickets)) (\<lambda>n. retM (Inr n))))"

text \<open>\<open>/doExchange\<close> answers before it does anything.\<close>

definition do_reward_exchange :: "string \<Rightarrow> string \<Rightarrow> string \<Rightarrow> reply rh" where
  "do_reward_exchange sid rewardId needTicket = retM (Reply 1 ''test stage: no exchange'')"

section \<open>The reward shop\<close>

type_synonym shop_row = "(string \<times> string option) list \<times> int"

definition get_reward_shop_data :: "string list \<Rightarrow> shop_row list rh" where
  "get_reward_shop_data on_shop_fields =
     bindM (lrange_all FISH_REWARD_ON_SHOP_LIST) (\<lambda>reward_onshop_ids.
     mapM reward_onshop_ids (\<lambda>onshop_id.
       bindM (mapM on_shop_fields (\<lambda>f. bindM (hget (FISH_REWARD_TABLE onshop_id) f) (\<lambda>v. retM (f, v)))) (\<lambda>shop_info.
       bindM (liftE (py_int onshop_id)) (\<lambda>i. retM (shop_info, i)))))"

definition refresh_reward_stock :: "string \<Rightarrow> (int + shop_row list) rh" where
  "refresh_reward_stock sid =
     session_guard sid Inl (\<lambda>account uid user_table.
     bindM (get_reward_shop_data [''reward_per_stock'']) (\<lambda>reward_info. retM (Inr reward_info)))"

text \<open>\<open>get_reward_shop_api_data\<close>: \<open>desc\<close> is the table of descriptions of the language.\<close>

definition describe_row :: "(int \<Rightarrow> exn + string) \<Rightarrow> shop_row \<Rightarrow> exn + shop_row" where
  "describe_row desc row = (case map_of (fst row) ''reward_type'' of None \<Rightarrow> Inl KeyError | Some t \<Rightarrow>
     (case desc (to_int t) of Inl e \<Rightarrow> Inl e | Inr d \<Rightarrow> Inr (AList.update ''reward_type'' (Some d) (fst row), snd row)))"

definition get_reward_shop_api_data :: "(int \<Rightarrow> exn + string) \<Rightarrow> string list \<Rightarrow> (string list \<times> shop_row list) rh" where
  "get_reward_shop_api_data desc on_shop_field =
     bindM (get_reward_shop_data on_shop_field) (\<lambda>on_shop_lists.
     bindM (mapM on_shop_lists (\<lambda>row. liftE (describe_row desc row))) (\<lambda>rows.
     bindM (mapM [0, 1, 2, 3, 4] (\<lambda>i. liftE (desc i))) (\<lambda>types. retM (types, rows))))"

definition get_fish_goods_info :: "(int \<Rightarrow> exn + string) \<Rightarrow> string \<Rightarrow> (int + (string list \<times> shop_row list) \<times> (string \<times> string) list) rh" where
  "get_fish_goods_info desc sid =
     session_guard sid Inl (\<lambda>account uid user_table.
     bindM (exists_key (FORMAT_USER_ADDRESS_TABLE uid)) (\<lambda>ex.
     bindM (if \<not> ex then retM [] else hgetall (FORMAT_USER_ADDRESS_TABLE uid)) (\<lambda>addr.
     bindM (get_reward_shop_api_data desc [''reward_name'', ''reward_per_stock'', ''reward_img_path'', ''reward_need_ticket'', ''reward_pos'', ''reward_type''])
       (\<lambda>shop. retM (Inr (shop, addr))))))"

section \<open>Records of exchanges\<close>

text \<open>\<open>LRANGE\<close> with any bounds.\<close>

definition lrange :: "string \<Rightarrow> int \<Rightarrow> int \<Rightarrow> string list rh" where
  "lrange k start stop = bindM (lrange_all k) (\<lambda>l.
     (let n = int (length l);
          start = (if start < 0 then n + start else start); stop = (if stop < 0 then n + stop else stop);
          start = (if start < 0 then 0 else start) in
      retM (if start > stop \<or> start \<ge> n then []
            else let stop = (if stop \<ge> n then n - 1 else stop) in take (nat (stop - start + 1)) (drop (nat start) l))))"

text \<open>\<open>MGET\<close>: a value that is no string reads as missing; no key at all is refused by the server.\<close>

definition mget :: "string list \<Rightarrow> string option list rh" where
  "mget ks = (\<lambda>s. if ks = [] then (Inl ResponseError, s)
     else (Inr (map (\<lambda>k. case look s k of Some (RStr v) \<Rightarrow> Some v | _ \<Rightarrow> None) ks), s))"

definition exchange_fields :: "string list" where
  "exchange_fields = [''exchange_reward_name'', ''exchange_card_no'', ''exchange_card_pwd'', ''exchange_date'', ''exchange_reward_status'']"

text \<open>One record with the day of its date and the asked fields; \<open>ev\<close> is \<open>eval\<close>.\<close>

definition exchange_row :: "(string \<Rightarrow> exn + pydict) \<Rightarrow> string list \<Rightarrow> string option \<Rightarrow> exn + pydict list" where
  "exchange_row ev flds v = (case v of None \<Rightarrow> Inr [] | Some t \<Rightarrow>
     (case ev t of Inl e \<Rightarrow> Inl e | Inr d \<Rightarrow>
      (case map_of d ''exchange_date'' of None \<Rightarrow> Inl KeyError | Some (PInt _) \<Rightarrow> Inl TypeError | Some (PStr day) \<Rightarrow>
       (let d' = AList.update ''exchange_date'' (PStr (take 10 day)) d in
        Inr [map (\<lambda>f. (f, case map_of d' f of None \<Rightarrow> PStr [] | Some x \<Rightarrow> x)) flds]))))"

definition get_user_exchange_list :: "(string \<Rightarrow> exn + pydict) \<Rightarrow> string option \<Rightarrow> string list \<Rightarrow> int \<Rightarrow> int \<Rightarrow> (pydict list \<times> int) rh" where
  "get_user_exchange_list ev user_id flds pageNum num_per_page =
     (let t = FISH_USER_EXCHANGE_LIST user_id; page_start = (pageNum - 1) * num_per_page; page_end = pageNum * num_per_page - 1 in
     bindM (exists_key t) (\<lambda>ex. if \<not> ex then retM ([], 0) else
     bindM (lrange_all t) (\<lambda>l. (let user_total_record = int (length l) in
     if page_start \<ge> user_total_record then retM ([], user_total_record) else
     bindM (lrange t page_start page_end) (\<lambda>user_change_ids.
     bindM (mget (map FISH_EXCHANGE_TABLE user_change_ids)) (\<lambda>recs.
     bindM (mapM recs (\<lambda>v. liftE (exchange_row ev flds v))) (\<lambda>rows.
     retM (concat rows, user_total_record))))))))"

definition get_user_reward_record :: "(string \<Rightarrow> exn + pydict) \<Rightarrow> string \<Rightarrow> string \<Rightarrow> (int + pydict list \<times> int) rh" where
  "get_user_reward_record ev sid page_form =
     session_guard sid Inl (\<lambda>account uid user_table.
     (let pageNum = (if strip page_form = [] then 1 else to_int (Some (strip page_form))) in
     bindM (get_user_exchange_list ev uid exchange_fields pageNum NUMS_PER_PAGE) (\<lambda>r. retM (Inr r))))"

end
