(* ===== verification/ExchangeLaws.thy ===== *)
theory ExchangeLaws
  imports FishExchange SpringLaws
begin

text \<open>
  What an exchange of currencies does to the player, and that an address is kept as it was given.
\<close>

section \<open>Currency exchange\<close>

lemma exchange_neq [simp]:
  "other_key u \<noteq> box_key v" "other_key u \<noteq> user_key v" "box_key v \<noteq> other_key u" "user_key v \<noteq> other_key u"
  by (simp_all add: other_key_def box_key_def user_key_def)

lemma ok_incrby [ok_wp]:
  "(\<And>t n. (\<And>j f. j \<noteq> k \<Longrightarrow> hf t j f = hf s j f) \<Longrightarrow> Q n t) \<Longrightarrow> wp (incrby k amt) Q (\<lambda>_ _. True) s"
  by (rule only_wp [of "{k}"]) (auto intro!: only_writes simp: hf_def hash_of_def)

lemma sum_key_neq [simp]: "user_key u \<noteq> ''fish:diamond2coin:sum''" "box_key u \<noteq> ''fish:diamond2coin:sum''"
  by (simp_all add: user_key_def box_key_def)

text \<open>Where the price is taken from, and what an exchange that was not refused did.\<close>

definition price_place :: "string option \<Rightarrow> int \<Rightarrow> string \<times> string" where
  "price_place uid cost_type = (if cost_type = 1 then (box_key uid, show_int 1)
     else if cost_type = 2 then (user_key uid, ''coin'') else (other_key uid, show_int cost_type))"

definition exchanged :: "string option \<Rightarrow> int \<Rightarrow> int \<Rightarrow> int \<Rightarrow> int \<Rightarrow> redis \<Rightarrow> redis \<Rightarrow> bool" where
  "exchanged uid cost gain cost_type gain_type s t \<longleftrightarrow>
     (\<exists>a b. held s (price_place uid cost_type) = Some a \<and> cost \<le> a \<and> held s (box_key uid, show_int gain_type) = Some b \<and>
       (if price_place uid cost_type = (box_key uid, show_int gain_type) then held t (price_place uid cost_type) = Some (a + gain - cost)
        else held t (price_place uid cost_type) = Some (if cost_type \<in> {1, 2} then a - cost else a + cost) \<and>
          held t (box_key uid, show_int gain_type) = Some (b + gain))) \<and>
     (if cost_type = 2 \<and> gain_type = 1 then \<exists>d. held s (user_key uid, ''diamond'') = Some d \<and> held t (user_key uid, ''diamond'') = Some (d + gain)
      else hf t (user_key uid) ''diamond'' = hf s (user_key uid) ''diamond'')"

lemma pay_diamonds_ok:
  "wp (pay_diamonds uid cost gain gain_type) (\<lambda>r t. if r then exchanged uid cost gain 1 gain_type s t else t = s) (\<lambda>_ _. True) s"
  unfolding pay_diamonds_def box_gain_def
  by (cases "gain_type = 1"; intro ok_wp) (auto simp: exchanged_def price_place_def held_def strtoll_show_int
      dest!: strtoll_show_intD dest: int_or_held)

lemma pay_coins_ok:
  assumes "int_or (hf s (user_key uid) ''coin'') 0 = Inr cur"
  shows "wp (pay_coins uid cur cost gain gain_type) (\<lambda>r t. if r then exchanged uid cost gain 2 gain_type s t else t = s) (\<lambda>_ _. True) s"
  using assms unfolding pay_coins_def box_gain_def
  by (intro ok_wp) (auto simp: exchanged_def price_place_def held_def strtoll_show_int
      dest!: strtoll_show_intD dest: int_or_held)

lemma pay_others_ok:
  assumes "cost_type \<notin> {1, 2}"
  shows "wp (pay_others uid cost_type cost gain gain_type) (\<lambda>r t. if r then exchanged uid cost gain cost_type gain_type s t else t = s) (\<lambda>_ _. True) s"
  using assms unfolding pay_others_def box_gain_def
  by (intro ok_wp) (auto simp: exchanged_def price_place_def held_def strtoll_show_int
      dest!: strtoll_show_intD dest: int_or_held)


definition exchange_post :: "string \<Rightarrow> string \<Rightarrow> redis \<Rightarrow> reply \<Rightarrow> redis \<Rightarrow> bool" where
  "exchange_post cid sid s r t \<longleftrightarrow> (case r of Reply c m \<Rightarrow> if c = 0
     then \<exists>cost gain cost_type gain_type.
       int_or (hf s (course_key (strip cid)) ''cost'') 0 = Inr cost \<and> int_or (hf s (course_key (strip cid)) ''gain'') 0 = Inr gain \<and>
       int_or (hf s (course_key (strip cid)) ''cost_type'') 0 = Inr cost_type \<and> int_or (hf s (course_key (strip cid)) ''gain_type'') 0 = Inr gain_type \<and>
       truthy (hf s (user_key (sid_uid s sid)) ''box_pwd'') \<and> exchanged (sid_uid s sid) cost gain cost_type gain_type s t
     else t = s)"

lemma pay_price_ok:
  assumes "int_or (hf s (user_key uid) ''coin'') 0 = Inr cur"
  shows "wp (pay_price uid cur cost gain ct gt) (\<lambda>r t. if r then exchanged uid cost gain ct gt s t else t = s) (\<lambda>_ _. True) s"
proof -
  consider "ct = 1" | "ct = 2" "ct \<noteq> 1" | "ct \<notin> {1, 2}" "ct \<noteq> 1" "ct \<noteq> 2" by auto
  then show ?thesis
  proof cases
    case 1
    show ?thesis unfolding pay_price_def if_P [OF 1] unfolding 1 by (rule pay_diamonds_ok)
  next
    case 2
    show ?thesis unfolding pay_price_def if_P [OF 2(1)] if_not_P [OF 2(2)] unfolding 2(1) by (rule pay_coins_ok [OF assms])
  next
    case 3
    show ?thesis unfolding pay_price_def if_not_P [OF 3(2)] if_not_P [OF 3(3)] by (rule pay_others_ok [OF 3(1)])
  qed
qed

lemma ok_two_ints [ok_wp]:
  "(\<And>x y. int_or (hf s k f) 0 = Inr x \<Longrightarrow> int_or (hf s k g) 0 = Inr y \<Longrightarrow> Q (x, y) s) \<Longrightarrow> wp (two_ints k f g) Q (\<lambda>_ _. True) s"
  unfolding two_ints_def by (intro ok_wp) auto

lemma ok_pair: "wp (f x y) Q (\<lambda>_ _. True) s \<Longrightarrow> wp (case (x, y) of (a, b) \<Rightarrow> f a b) Q (\<lambda>_ _. True) s"
  by simp

lemma currency_exchange_ok: "wp (currency_exchange cid sid) (\<lambda>r. exchange_post cid sid s (fst r)) (\<lambda>_ _. True) s"
  unfolding currency_exchange_def
proof (intro ok_bindM ok_uidBySid ok_hget ok_if ok_two_ints ok_pair ok_retM, goal_cases)
  case (2 cost gain ct gt cur d)
  show ?case
    by (rule wp_mono [OF pay_price_ok [OF 2(6)]], intro ok_if ok_retM ok_bindM ok_hmget) (use 2 in \<open>simp_all add: exchange_post_def\<close>)
qed (simp add: exchange_post_def)

text \<open>C32: an exchange refuses and changes nothing, or there was enough to pay the price of the course
  and the box holds the gain more; diamonds and coins are paid down by the price, but any other item
  grows by it, and diamonds bought with coins are credited to the purse as well as to the box.\<close>

theorem currency_exchange_effect:
  assumes "currency_exchange cid sid s = (Inr (Reply c m, v), t)"
  shows "if c = 0
     then \<exists>cost gain cost_type gain_type.
       int_or (hf s (course_key (strip cid)) ''cost'') 0 = Inr cost \<and> int_or (hf s (course_key (strip cid)) ''gain'') 0 = Inr gain \<and>
       int_or (hf s (course_key (strip cid)) ''cost_type'') 0 = Inr cost_type \<and> int_or (hf s (course_key (strip cid)) ''gain_type'') 0 = Inr gain_type \<and>
       truthy (hf s (user_key (sid_uid s sid)) ''box_pwd'') \<and> exchanged (sid_uid s sid) cost gain cost_type gain_type s t
     else t = s"
  using wp_InrD [OF currency_exchange_ok assms] by (simp add: exchange_post_def)

definition demo_course :: redis where
  "demo_course = empty_db\<lparr>kv := [(FORMAT_USER_HALL_SESSION ''s'', RHash [(''account'', ''ann''), (''uid'', ''7'')]),
     (user_key (Some ''7''), RHash [(''coin'', ''50''), (''box_pwd'', ''x'')]), (other_key (Some ''7''), RHash [(''3'', ''5'')]),
     (course_key ''c'', RHash [(''cost'', ''4''), (''gain'', ''9''), (''cost_type'', ''3''), (''gain_type'', ''1'')])]\<rparr>"

theorem currency_exchange_effect_witness:
  "if (0 :: int) = 0
     then \<exists>cost gain cost_type gain_type.
       int_or (hf demo_course (course_key (strip ''c'')) ''cost'') 0 = Inr cost \<and> int_or (hf demo_course (course_key (strip ''c'')) ''gain'') 0 = Inr gain \<and>
       int_or (hf demo_course (course_key (strip ''c'')) ''cost_type'') 0 = Inr cost_type \<and> int_or (hf demo_course (course_key (strip ''c'')) ''gain_type'') 0 = Inr gain_type \<and>
       truthy (hf demo_course (user_key (sid_uid demo_course ''s'')) ''box_pwd'') \<and>
       exchanged (sid_uid demo_course ''s'') cost gain cost_type gain_type demo_course (snd (currency_exchange ''c'' ''s'' demo_course))
     else snd (currency_exchange ''c'' ''s'' demo_course) = demo_course"
proof (rule currency_exchange_effect)
  have "fst (currency_exchange ''c'' ''s'' demo_course) = Inr (Reply 0 ''exchanged'', [Some ''50'', None])" by code_simp
  then show "currency_exchange ''c'' ''s'' demo_course = (Inr (Reply 0 ''exchanged'', [Some ''50'', None]), snd (currency_exchange ''c'' ''s'' demo_course))"
    by (simp add: prod_eq_iff)
qed

section \<open>Addresses\<close>

definition session_user :: "redis \<Rightarrow> string \<Rightarrow> string option" where
  "session_user s sid = hf s (FORMAT_USER_HALL_SESSION (strip sid)) ''uid''"

lemma address_session_neq: "FORMAT_USER_HALL_SESSION r \<noteq> FORMAT_USER_ADDRESS_TABLE u"
  by (simp add: FORMAT_USER_HALL_SESSION_def FORMAT_USER_ADDRESS_TABLE_def)

lemma address_stored: "map_of (address_info a) f \<noteq> None \<Longrightarrow> hf (hputs k (address_info a) s) k f = map_of (address_info a) f"
  by (auto simp: hf_hputs_same address_info_def split: if_splits)

lemma do_address_ok:
  "wp (do_address sid a act) (\<lambda>r t. r = Reply 0 m \<longrightarrow> session_user t sid = session_user s sid \<and>
     (if strip act = ''delete'' then look t (FORMAT_USER_ADDRESS_TABLE (session_user s sid)) = None
      else \<forall>f. map_of (address_info a) f \<noteq> None \<longrightarrow> hf t (FORMAT_USER_ADDRESS_TABLE (session_user s sid)) f = map_of (address_info a) f)) (\<lambda>_ _. True) s"
  unfolding do_address_def Let_def
proof (rule session_guard_wp, goal_cases)
  case (3 account uid ut)
  have uid: "session_user s sid = uid" using 3 by (simp add: session_user_def)
  show ?case
    unfolding uid do_user_del_addr_def do_user_modify_addr_def
    by (intro ok_wp) (auto simp: session_user_def 3 address_stored hf_hputs_other address_session_neq)
qed auto

lemma goods_info_address:
  "wp (get_fish_goods_info desc sid) (\<lambda>r _. \<forall>shop addr. r = Inr (shop, addr) \<longrightarrow>
     map_of addr = hf s (FORMAT_USER_ADDRESS_TABLE (session_user s sid)) \<and>
     (look s (FORMAT_USER_ADDRESS_TABLE (session_user s sid)) = None \<longrightarrow> addr = [])) (\<lambda>_ _. True) s"
  unfolding get_fish_goods_info_def
proof (rule session_guard_wp, goal_cases)
  case (3 account uid ut)
  have uid: "session_user s sid = uid" using 3 by (simp add: session_user_def)
  have shop: "only {} (get_reward_shop_api_data desc fs)" for fs
    unfolding get_reward_shop_api_data_def get_reward_shop_data_def by (intro only_intros)
  show ?case
    unfolding uid
    by (intro ok_bindM ok_exists_key ok_if ok_retM ok_hgetall only_wp [OF shop])
      (auto simp: wp_retM hf_def hash_of_def fun_eq_iff)
qed auto

text \<open>The address a player adds or changes is what the shop page then shows, field for field, and
  after deleting it the page shows none.\<close>

theorem address_round_trip:
  assumes "do_address sid a act s = (Inr (Reply 0 m), t)" "get_fish_goods_info desc sid t = (Inr (Inr (shop, addr)), u)"
  shows "if strip act = ''delete'' then addr = []
     else map_of addr ''name'' = Some (strip (ad_name a)) \<and> map_of addr ''phone'' = Some (strip (ad_phone a)) \<and>
       map_of addr ''city'' = Some (strip (ad_city a)) \<and> map_of addr ''address'' = Some (strip (ad_address a))"
proof -
  note stored = wp_InrD [OF do_address_ok [of sid a act m s] assms(1), simplified]
    and shown = wp_InrD [OF goods_info_address assms(2), simplified]
  show ?thesis using stored shown by (simp add: address_info_def)
qed

definition demo_address :: address where
  "demo_address = \<lparr>ad_name = ''Ann'', ad_phone = ''1'', ad_city = ''X'', ad_address = ''Y''\<rparr>"

definition demo_addressed :: redis where
  "demo_addressed = snd (do_address ''s'' demo_address ''add'' demo_benefit)"

theorem address_round_trip_witness:
  "if strip ''add'' = ''delete'' then [(''name'', ''Ann''), (''phone'', ''1''), (''city'', ''X''), (''address'', ''Y'')] = []
     else map_of [(''name'', ''Ann''), (''phone'', ''1''), (''city'', ''X''), (''address'', ''Y'')] ''name'' = Some (strip (ad_name demo_address)) \<and>
       map_of [(''name'', ''Ann''), (''phone'', ''1''), (''city'', ''X''), (''address'', ''Y'')] ''phone'' = Some (strip (ad_phone demo_address)) \<and>
       map_of [(''name'', ''Ann''), (''phone'', ''1''), (''city'', ''X''), (''address'', ''Y'')] ''city'' = Some (strip (ad_city demo_address)) \<and>
       map_of [(''name'', ''Ann''), (''phone'', ''1''), (''city'', ''X''), (''address'', ''Y'')] ''address'' = Some (strip (ad_address demo_address))"
proof (rule address_round_trip)
  have "fst (do_address ''s'' demo_address ''add'' demo_benefit) = Inr (Reply 0 ''done'')" by code_simp
  then show "do_address ''s'' demo_address ''add'' demo_benefit = (Inr (Reply 0 ''done''), demo_addressed)"
    by (simp add: demo_addressed_def prod_eq_iff)
  have "fst (get_fish_goods_info (\<lambda>_. Inr ''d'') ''s'' demo_addressed) =
     Inr (Inr ((replicate 5 ''d'', []), [(''name'', ''Ann''), (''phone'', ''1''), (''city'', ''X''), (''address'', ''Y'')]))"
    unfolding demo_addressed_def by code_simp
  then show "get_fish_goods_info (\<lambda>_. Inr ''d'') ''s'' demo_addressed =
     (Inr (Inr ((replicate 5 ''d'', []), [(''name'', ''Ann''), (''phone'', ''1''), (''city'', ''X''), (''address'', ''Y'')])),
      snd (get_fish_goods_info (\<lambda>_. Inr ''d'') ''s'' demo_addressed))"
    by (simp add: prod_eq_iff)
qed

end
