(* ===== verification/FishPay.thy ===== *)
theory FishPay
  imports FishBenefit "HOL-Library.List_Lexorder" "HOL-Library.Char_ord"
begin

text \<open>
  Payment of the fishing game: fish/fish_pay.py and fish/fish_util/fish_pay_func.py.  Arguments are what
  the payment services answer, the receipts of the app store, the digest, clocks and random numbers, and
  floating point: the texts of products with 0.01 and the sum the server forms.
\<close>

section \<open>Keys\<close>

definition ORDER_TABLE4FISH :: "string \<Rightarrow> string" where "ORDER_TABLE4FISH n = ''orders4fish:id:'' @ n"
definition PENDING_ORDER4FISH :: string where "PENDING_ORDER4FISH = ''pendingGoods4fish:set''"
definition SUCCEED_ORDER4FISH :: string where "SUCCEED_ORDER4FISH = ''succeedGoods4fish:set''"
definition ORDER_NUM_LIST4FISH :: string where "ORDER_NUM_LIST4FISH = ''orderNumList4fish:list''"
definition DAY_ORDER4FISH :: "string \<Rightarrow> string" where "DAY_ORDER4FISH d = ''dayOrder4fish:'' @ d @ '':list''"
definition DAY_SUCCEED_ORDER4FISH :: "string \<Rightarrow> string" where "DAY_SUCCEED_ORDER4FISH d = ''daySucceedOrder4fish:'' @ d @ '':list''"
definition DAY_PENDING_ORDER4FISH :: "string \<Rightarrow> string" where "DAY_PENDING_ORDER4FISH d = ''dayPendingOrder4fish:'' @ d @ '':list''"
definition PLAYER_ORDER4FISH :: "string \<Rightarrow> string" where "PLAYER_ORDER4FISH a = ''playerOrder4fish:'' @ a @ '':set''"
definition GOODS_TABLE :: "string \<Rightarrow> string" where "GOODS_TABLE i = ''goods:id:'' @ i"
definition GOODS_TABLE4FISH :: "string \<Rightarrow> string" where "GOODS_TABLE4FISH i = ''goods4fish:id:'' @ i"
definition GOODS_NUM4FISH :: "string \<Rightarrow> string" where "GOODS_NUM4FISH i = ''goodsNum4fish:'' @ i @ '':key''"
definition APP_PAY_ORDER_ITEM4FISH :: "string \<Rightarrow> string" where "APP_PAY_ORDER_ITEM4FISH i = ''receptslist4fish:'' @ i"
definition FISH_SYSTEM_RECHARGE_TOTAL :: string where "FISH_SYSTEM_RECHARGE_TOTAL = ''fish:sys:recharge:total''"
definition FISH_RECHARGE_USER_DAY_IDS :: string where "FISH_RECHARGE_USER_DAY_IDS = ''fish:recharge:user:id:sets''"
definition FISH_SYSTEM_DATE_RECHARGE_TOTAL :: "string \<Rightarrow> string" where
  "FISH_SYSTEM_DATE_RECHARGE_TOTAL d = ''fish:sys:date:'' @ d @ '':recharge:total''"
definition MCH_KEY_FISH :: string where "MCH_KEY_FISH = ''974a0bbae55f0dc9bb2270cbb63679b5''"

section \<open>Floating point\<close>

text \<open>\<open>cents\<close>: the text of \<open>int(price) * 0.01\<close>; \<open>fcents\<close>: of \<open>float(price) * 0.01\<close>; \<open>fen\<close>: \<open>int(float(price) * 100)\<close>;
  \<open>fadd\<close>: what the server stores for an old text and an increment, if both are numbers.\<close>

record floats =
  cents :: "int \<Rightarrow> string"
  fcents :: "string option \<Rightarrow> exn + string"
  fen :: "string option \<Rightarrow> exn + int"
  fadd :: "string option \<Rightarrow> string \<Rightarrow> string option"

definition hincrbyfloat :: "floats \<Rightarrow> string \<Rightarrow> string \<Rightarrow> string \<Rightarrow> unit rh" where
  "hincrbyfloat F k f amt = (\<lambda>s. if \<not> is_hash s k then (Inl ResponseError, s) else
     (case fadd F (hf s k f) amt of None \<Rightarrow> (Inl ResponseError, s) | Some v \<Rightarrow> (Inr (), hput k f v s)))"

definition incrbyfloat :: "floats \<Rightarrow> string \<Rightarrow> string \<Rightarrow> unit rh" where
  "incrbyfloat F k amt = bindM (get k) (\<lambda>old. \<lambda>s.
     (case fadd F old amt of None \<Rightarrow> (Inl ResponseError, s) | Some v \<Rightarrow> (Inr (), put k (RStr v) s)))"

section \<open>Recording a payment\<close>

definition vip_charge_record :: "string option \<Rightarrow> string \<Rightarrow> unit rh" where
  "vip_charge_record uid price =
     bindM (hincrby (user_key uid) ''vip_charge'' price) (\<lambda>charge_sum.
     thenM (if charge_sum \<ge> 1000 then hset (user_key uid) ''vip_level'' ''1'' else retM ())
     (thenM (if charge_sum \<ge> 3000 then hset (user_key uid) ''vip_level'' ''2'' else retM ())
     (thenM (if charge_sum \<ge> 6000 then hset (user_key uid) ''vip_level'' ''3'' else retM ())
     (thenM (if charge_sum \<ge> 10000 then hset (user_key uid) ''vip_level'' ''4'' else retM ())
     (if charge_sum \<ge> 20000 then hset (user_key uid) ''vip_level'' ''5'' else retM ())))))"

text \<open>The queued commands; an exception while queueing ends the call without executing any.\<close>

definition pay_commands :: "floats \<Rightarrow> string \<Rightarrow> string \<Rightarrow> string \<Rightarrow> int \<Rightarrow> string option \<Rightarrow> unit rh list rh" where
  "pay_commands F today user_id user_table n price =
     bindM (tryM (bindM (liftE (py_int_none price)) (\<lambda>p. retM (cents F p))) (liftE (fcents F price))) (\<lambda>amount.
     bindM (liftE (py_int_none price)) (\<lambda>p.
     bindM (sismember FISH_RECHARGE_USER_DAY_IDS user_id) (\<lambda>known.
     retM ([drop_reply (hincrby user_table ''coin'' (show_int n)),
            hincrbyfloat F user_table ''recharge_coin_total'' amount,
            incrbyfloat F FISH_SYSTEM_RECHARGE_TOTAL (fmt price),
            hincrbyfloat F (FISH_SYSTEM_DATE_RECHARGE_TOTAL today) ''recharge_coin_total'' (cents F p)] @
           (if known then [] else
           [drop_reply (hincrby (FISH_SYSTEM_DATE_RECHARGE_TOTAL today) ''recharge_user_total'' ''1''),
            sadd FISH_RECHARGE_USER_DAY_IDS user_id])))))"

definition do_pay_record :: "floats \<Rightarrow> string \<Rightarrow> string \<Rightarrow> string \<Rightarrow> int \<Rightarrow> string option \<Rightarrow> bool rh" where
  "do_pay_record F today user_id user_table n price =
     bindM (tryM (bindM (pay_commands F today user_id user_table n price) (\<lambda>cs. retM (Some cs))) (retM None)) (\<lambda>p.
     case p of None \<Rightarrow> retM False | Some cs \<Rightarrow> thenM (execute cs) (retM True))"

text \<open>\<open>do_add_fishcoin_2_members\<close>: for an order that is not there the message names an unbound variable.\<close>

definition do_add_fishcoin_2_members :: "floats \<Rightarrow> string \<Rightarrow> string \<Rightarrow> unit rh" where
  "do_add_fishcoin_2_members F today transNo =
     (let orderTable = ORDER_TABLE4FISH transNo in
     bindM (exists_key orderTable) (\<lambda>ex. if \<not> ex then raiseM NameError else
     bindM (hmget orderTable [''roomCards'', ''presentCards'']) (\<lambda>v.
     bindM (hmget orderTable [''num'', ''account'', ''money'']) (\<lambda>w.
     bindM (get (FORMAT_ACCOUNT2USER_TABLE (fmt (w ! 1)))) (\<lambda>userTable.
     thenM (hmget (fmt userTable) [''parentAg'', ''coin''])
     (case userTable of None \<Rightarrow> raiseM AttributeError | Some ut \<Rightarrow>
      (case split_on (CHR '':'') ut of
         _ # user_id # _ \<Rightarrow>
           thenM (do_pay_record F today user_id ut (to_int (v ! 0)) (w ! 2))
           (thenM (hmget ut [''parentAg'', ''coin'']) (retM ()))
       | _ \<Rightarrow> raiseM IndexError)))))))"

section \<open>Signatures\<close>

definition lower_char :: "char \<Rightarrow> char" where
  "lower_char c = (if of_char c \<ge> (65 :: nat) \<and> of_char c \<le> (90 :: nat) then char_of (of_char c + 32 :: nat) else c)"

definition para_filter :: "(string \<times> string) list \<Rightarrow> (string \<times> string) list" where
  "para_filter params = filter (\<lambda>(k, v). map lower_char k \<noteq> ''sign'' \<and> v \<noteq> []) params"

text \<open>\<open>digest\<close> is the upper-case MD5 of a text.\<close>

definition gen_sign4fish :: "(string \<Rightarrow> string) \<Rightarrow> (string \<times> string) list \<Rightarrow> string" where
  "gen_sign4fish digest params =
     digest (join_with ''&'' (map (\<lambda>(k, v). k @ ''='' @ v) (sort_key fst (filter (\<lambda>(k, v). v \<noteq> []) params)) @ [''key='' @ MCH_KEY_FISH]))"

definition checkSign :: "(string \<Rightarrow> string) \<Rightarrow> (string \<times> string) list \<Rightarrow> bool" where
  "checkSign digest params = (case map_of params ''sign'' of None \<Rightarrow> False
     | Some wx_sign \<Rightarrow> wx_sign = gen_sign4fish digest (para_filter params))"

definition need :: "(string \<times> string) list \<Rightarrow> string \<Rightarrow> exn + string" where
  "need d k = (case map_of d k of None \<Rightarrow> Inl KeyError | Some v \<Rightarrow> Inr v)"

text \<open>\<open>verfiyRcvDatas\<close>: the sets get the name of the table, not the number of the order.\<close>

definition verfiyRcvDatas :: "(string \<times> string) list \<Rightarrow> bool rh" where
  "verfiyRcvDatas params =
     bindM (liftE (need params ''out_trade_no'')) (\<lambda>no.
     bindM (exists_key (ORDER_TABLE4FISH no)) (\<lambda>ex. if \<not> ex then retM False else
     bindM (liftE (need params ''total_fee'')) (\<lambda>fee.
     bindM (liftE (need params ''time_end'')) (\<lambda>ended.
     bindM (liftE (need params ''fee_type'')) (\<lambda>currency.
     bindM (liftE (need params ''transaction_id'')) (\<lambda>transaction.
     tryM (thenM (execute
       [hmset (ORDER_TABLE4FISH no) [(''money'', fee), (''endTime'', ended), (''currency'', currency), (''orderNum'', transaction), (''type'', ''successful'')],
        srem PENDING_ORDER4FISH (ORDER_TABLE4FISH no), sadd SUCCEED_ORDER4FISH (ORDER_TABLE4FISH no),
        persist_key (ORDER_TABLE4FISH no)]) (retM True))
       (retM False)))))))"

section \<open>Handlers\<close>

text \<open>\<open>/notifyServer\<close>: \<open>params\<close> is the parsed XML; the answer to the service is a code (0 success).\<close>

definition do_paymentNotifyServer :: "floats \<Rightarrow> (string \<Rightarrow> string) \<Rightarrow> string \<Rightarrow> (string \<times> string) list \<Rightarrow> reply rh" where
  "do_paymentNotifyServer F digest today params =
     (if \<not> checkSign digest params then retM (Reply 1 ''signature'') else
      bindM (liftE (need params ''result_code'')) (\<lambda>result_code.
      if result_code \<noteq> ''SUCCESS'' then retM (Reply 1 ''request failed'') else
      bindM (verfiyRcvDatas params) (\<lambda>ok. if \<not> ok then retM (Reply 1 ''data'') else
      bindM (liftE (need params ''out_trade_no'')) (\<lambda>no.
      thenM (do_add_fishcoin_2_members F today no) (retM (Reply 0 ''paid''))))))"

text \<open>\<open>/buyCoin\<close>: the goods are given at once; the price that counts for the VIP level is the one of the form.\<close>

definition do_buyCoin :: "string \<Rightarrow> string \<Rightarrow> string \<Rightarrow> (reply \<times> int) rh" where
  "do_buyCoin sid price_form good_form =
     bindM (uidBySid sid) (\<lambda>uid.
     bindM (hmget (user_key uid) [''box_pwd'', ''box_lock'']) (\<lambda>v.
     if \<not> truthy (v ! 0) then retM (Reply 1 ''no box password'', 0) else
     if v ! 1 \<noteq> Some ''2'' then retM (Reply 1 ''open the box'', 0) else
     bindM (hmget (GOODS_TABLE (strip good_form)) [''cards'', ''name'', ''present_cards'', ''price'']) (\<lambda>g.
     thenM (incrby ''fish:diamond:charge:sum'' (fmt (g ! 3)))
     (bindM (liftE (int_or (g ! 0) 0)) (\<lambda>cards.
      bindM (liftE (int_or (g ! 2) 0)) (\<lambda>present_card.
      bindM (hincrby (box_key uid) ''1'' (show_int (cards + present_card))) (\<lambda>diamond.
      thenM (vip_charge_record uid (strip price_form))
      (retM (Reply 0 ''bought'', diamond)))))))))"

text \<open>\<open>/onAppleStorePay\<close>: \<open>validate\<close> gives the product and the transaction of each purchase of a receipt, or
  \<open>None\<close> when the store refuses it.  The crediting lines sit in a \<open>try\<close> of their own.\<close>

definition apple_credit :: "string \<Rightarrow> string \<Rightarrow> string \<Rightarrow> string \<Rightarrow> reply option rh" where
  "apple_credit userTable bundle_id productid transaction_id =
     tryM (bindM (exists_key (APP_PAY_ORDER_ITEM4FISH transaction_id)) (\<lambda>used.
           if used then retM (Some (Reply (- 8) ''transaction used'')) else
           bindM (exists_key (GOODS_TABLE4FISH bundle_id)) (\<lambda>known.
           if known then
             bindM (hget (GOODS_TABLE4FISH bundle_id) ''cards'') (\<lambda>cardNums.
             bindM (liftE (py_int_none cardNums)) (\<lambda>n.
             thenM (hincrby userTable ''coin'' (show_int n))
             (thenM (set_str (APP_PAY_ORDER_ITEM4FISH transaction_id) productid) (retM None))))
           else retM None)))
       (retM (Some (Reply (- 1) ''failed'')))"

definition do_onAppleStorePay :: "(string \<Rightarrow> string \<Rightarrow> (string \<times> string) list option) \<Rightarrow> string \<Rightarrow> string \<Rightarrow> string \<Rightarrow> reply rh" where
  "do_onAppleStorePay validate sid_form data_form bundle_form =
     (let sid = strip sid_form; bundle_id = strip bundle_form in
     bindM (hget FISH_CONSTS_CONFIG ''wechat_switch'') (\<lambda>v.
     if to_int v = 0 then retM (Reply (- 1) ''closed'') else
     (case validate bundle_id (strip data_form) of
        None \<Rightarrow> retM (Reply (- 1) ''refused'')
      | Some [] \<Rightarrow> raiseM IndexError
      | Some ((productid, transaction_id) # _) \<Rightarrow>
        bindM (getInfoBySid sid) (\<lambda>(SessionTable, account, uid, verfiySid).
        if truthy verfiySid \<and> Some sid \<noteq> verfiySid then retM (Reply (- 4) ''elsewhere'') else
        bindM (exists_key SessionTable) (\<lambda>alive. if \<not> alive then retM (Reply (- 3) ''session'') else
        bindM (getUserByAccount (fmt account)) (\<lambda>userTable.
        bindM (exists_key (fmt userTable)) (\<lambda>known. if \<not> known then retM (Reply (- 5) ''no user'') else
        thenM (hget (fmt userTable) ''parentAg'')
        (thenM (case userTable of None \<Rightarrow> raiseM AttributeError
           | Some ut \<Rightarrow> if length (split_on (CHR '':'') ut) < 2 then raiseM IndexError else retM ())
        (bindM (apple_credit (fmt userTable) bundle_id productid transaction_id) (\<lambda>r.
        case r of Some r \<Rightarrow> retM r | None \<Rightarrow>
        bindM (hget (fmt userTable) ''coin'') (\<lambda>roomCard. retM (Reply 0 (fmt roomCard)))))))))))))"

section \<open>Orders\<close>

text \<open>What placing an order asks of its surroundings: the time as text and as number, the random digits of the
  trade number, a nonce, the answer of the payment service to the trade number and the price, the digest,
  and \<open>eval\<close> of the service's text.\<close>

record wechat =
  now_s :: string
  stamp_n :: int
  pick :: "nat \<Rightarrow> nat"
  nonce :: string
  ask :: "string \<Rightarrow> int \<Rightarrow> exn + (string \<times> string) list"
  md5 :: "string \<Rightarrow> string"
  wx_eval :: "string \<Rightarrow> exn + (string \<times> string) list"

text \<open>\<open>'%0wd' % n\<close>.\<close>

definition pad_int :: "nat \<Rightarrow> int \<Rightarrow> string" where
  "pad_int w n = (let d = show_int \<bar>n\<bar> in
     if n < 0 then CHR ''-'' # replicate (w - 1 - length d) (CHR ''0'') @ d else replicate (w - length d) (CHR ''0'') @ d)"

definition MAX_TRADE_NO_COUNT :: nat where "MAX_TRADE_NO_COUNT = 32"

definition getOutTradeNo :: "string \<Rightarrow> (nat \<Rightarrow> nat) \<Rightarrow> string \<Rightarrow> int \<Rightarrow> exn + string" where
  "getOutTradeNo now digit goodsNum num =
     (case py_int goodsNum of Inl e \<Rightarrow> Inl e | Inr g \<Rightarrow>
      let outTradeNo = now @ pad_int 3 g @ pad_int 10 num in
      Inr (outTradeNo @ concat (map (\<lambda>i. show_int (int (digit i mod 10))) [0..<MAX_TRADE_NO_COUNT - length outTradeNo])))"

definition MCH_KEY :: string where "MCH_KEY = ''F82461BB1DA6946271F3457AF94BBE9B''"
definition APPID_FISH :: string where "APPID_FISH = ''wxbe5482fb0817089c''"
definition MCH_ID :: string where "MCH_ID = ''100001498210''"

definition getSign :: "(string \<Rightarrow> string) \<Rightarrow> string list \<Rightarrow> string" where
  "getSign digest strList = digest (join_with ''&'' (sort strList) @ ''&key='' @ MCH_KEY)"

definition order_sign :: "wechat \<Rightarrow> string \<Rightarrow> string" where
  "order_sign W prepayID = getSign (md5 W) [''appid='' @ APPID_FISH, ''partnerid='' @ MCH_ID, ''prepayid='' @ prepayID,
     ''package=Sign=WXPay'', ''noncestr='' @ nonce W, ''timeStamp='' @ show_int (stamp_n W)]"

definition next_order_index :: "string \<Rightarrow> int rh" where
  "next_order_index goodsId =
     bindM (incrby (GOODS_NUM4FISH goodsId) ''1'') (\<lambda>orderIndex.
     if orderIndex \<ge> 10000000000
     then thenM (set_str (GOODS_NUM4FISH goodsId) ''0'') (incrby (GOODS_NUM4FISH goodsId) ''1'')
     else retM orderIndex)"

definition order_fields :: "int \<Rightarrow> string \<Rightarrow> string \<Rightarrow> string \<Rightarrow> string option \<Rightarrow> int \<Rightarrow> string option \<Rightarrow> string \<Rightarrow> string \<Rightarrow> string option \<Rightarrow> string option \<Rightarrow> (string \<times> string) list" where
  "order_fields timeStamp sig_s nonceStr prepayID goodsName money account goodsId ty cards present_card =
     [(''time'', show_int timeStamp), (''sign'', sig_s), (''nonceStr'', nonceStr), (''prepayID'', prepayID), (''name'', fmt goodsName),
      (''body'', ''123''), (''money'', show_int money), (''startTime'', show_int timeStamp), (''account'', fmt account), (''num'', goodsId),
      (''type'', ty), (''roomCards'', fmt cards), (''presentCards'', fmt present_card)]"

definition place_pending :: "string \<Rightarrow> string \<Rightarrow> string option \<Rightarrow> (string \<times> string) list \<Rightarrow> unit rh" where
  "place_pending today outTradeNo account info =
     execute [hmset (ORDER_TABLE4FISH outTradeNo) info, sadd PENDING_ORDER4FISH outTradeNo, lpush ORDER_NUM_LIST4FISH outTradeNo,
       sadd (PLAYER_ORDER4FISH (fmt account)) outTradeNo, lpush (DAY_ORDER4FISH today) outTradeNo,
       lpush (DAY_PENDING_ORDER4FISH today) outTradeNo, expire_key (ORDER_TABLE4FISH outTradeNo) (1 * 60 * 60)]"

text \<open>The two handlers that place an order differ in the signature they keep and in what they read of the
  answer afterwards.\<close>

definition wechat_order :: "wechat \<Rightarrow> floats \<Rightarrow> string \<Rightarrow> (string \<Rightarrow> string) \<Rightarrow> ((string \<times> string) list \<Rightarrow> exn + unit) \<Rightarrow> string \<Rightarrow> string \<Rightarrow> reply rh" where
  "wechat_order W F today sign_of after sid id_form =
     (let goodsId = strip id_form in
     thenM (hget FISH_CONSTS_CONFIG ''wechat_switch'')
     (session_guard sid (\<lambda>code. Reply code ''session'') (\<lambda>account uid user_table.
     thenM (hget user_table ''parentAg'')
     (bindM (hmget (GOODS_TABLE goodsId) [''cards'', ''name'', ''present_cards'', ''price'']) (\<lambda>g.
      bindM (exists_key (GOODS_TABLE goodsId)) (\<lambda>ex. if \<not> ex then retM (Reply (- 1) ''goods not found'') else
      bindM (next_order_index goodsId) (\<lambda>orderIndex.
      bindM (liftE (getOutTradeNo (now_s W) (pick W) goodsId orderIndex)) (\<lambda>outTradeNo.
      bindM (liftE (fen F (g ! 3))) (\<lambda>money.
      bindM (liftE (ask W outTradeNo money)) (\<lambda>resultDict.
      if resultDict = [] then retM (Reply (- 1) ''payment failed'') else
      bindM (liftE (need resultDict ''return_code'')) (\<lambda>code.
      if code \<noteq> ''SUCCESS'' then retM (Reply (- 1) ''payment closed'') else
      bindM (liftE (need resultDict ''prepay_id'')) (\<lambda>prepayID.
      thenM (place_pending today outTradeNo account
        (order_fields (stamp_n W) (sign_of prepayID) (nonce W) prepayID (g ! 1) money account goodsId ''pending'' (g ! 0) (g ! 2)))
      (thenM (liftE (after resultDict)) (retM (Reply 0 outTradeNo)))))))))))))))"

text \<open>After placing: \<open>app_prepay_info\<close> is evaluated and its parts and \<open>sub_appid\<close> are sent to the client.\<close>

definition prepay_parts :: "wechat \<Rightarrow> (string \<times> string) list \<Rightarrow> exn + unit" where
  "prepay_parts W resultDict =
     (case need resultDict ''app_prepay_info'' of Inl e \<Rightarrow> Inl e | Inr t \<Rightarrow>
     (case wx_eval W t of Inl e \<Rightarrow> Inl e | Inr d \<Rightarrow>
      if \<forall>k \<in> {''partnerid'', ''prepayid'', ''noncestr'', ''paySign'', ''timestamp''}. map_of d k \<noteq> None
      then map_sum id (\<lambda>_. ()) (need resultDict ''sub_appid'') else Inl KeyError))"

definition do_onWeChatPay :: "wechat \<Rightarrow> floats \<Rightarrow> string \<Rightarrow> string \<Rightarrow> string \<Rightarrow> reply rh" where
  "do_onWeChatPay W F today sid goods = wechat_order W F today (order_sign W) (prepay_parts W) sid goods"

definition do_onWeChatPay4TX :: "wechat \<Rightarrow> floats \<Rightarrow> string \<Rightarrow> string \<Rightarrow> string \<Rightarrow> reply rh" where
  "do_onWeChatPay4TX W F today sid goods = wechat_order W F today (\<lambda>_. ''1'') (\<lambda>_. Inr ()) sid goods"

text \<open>\<open>/checkOrder\<close>: the set of successes holds names of tables.\<close>

definition do_checkOrder :: "string \<Rightarrow> string \<Rightarrow> reply rh" where
  "do_checkOrder no_form sid =
     (let outTradeNo = strip no_form; orderTable = ORDER_TABLE4FISH outTradeNo in
     thenM (hget FISH_CONSTS_CONFIG ''wechat_switch'')
     (session_guard sid (\<lambda>code. Reply code ''session'') (\<lambda>account uid user_table.
     if outTradeNo = [] then retM (Reply (- 1) ''no number'') else
     bindM (exists_key SUCCEED_ORDER4FISH) (\<lambda>ex.
     bindM (if ex then sismember SUCCEED_ORDER4FISH orderTable else retM False) (\<lambda>paid.
     if \<not> paid then retM (Reply (- 9) []) else
     thenM (hget orderTable ''roomCards'')
     (thenM (hincrby orderTable ''CheckNum'' ''1'')
     (bindM (hget user_table ''parentAg'') (\<lambda>groupId.
     thenM (hset orderTable ''groupId'' (fmt groupId))
     (bindM (hget user_table ''coin'') (\<lambda>roomCard. retM (Reply 0 (fmt roomCard))))))))))))"

text \<open>\<open>test_WeChatPay\<close>, the local stand-in for placing an order that counts as paid at once.\<close>

definition test_WeChatPay :: "wechat \<Rightarrow> floats \<Rightarrow> string \<Rightarrow> string \<Rightarrow> string \<Rightarrow> reply option rh" where
  "test_WeChatPay W F today goodsId userTable =
     bindM (hget userTable ''account'') (\<lambda>account.
     bindM (hmget (GOODS_TABLE goodsId) [''cards'', ''name'', ''present_cards'', ''price'']) (\<lambda>g.
     bindM (exists_key (GOODS_TABLE goodsId)) (\<lambda>ex. if \<not> ex then retM (Some (Reply (- 1) ''goods not found'')) else
     bindM (next_order_index goodsId) (\<lambda>orderIndex.
     bindM (liftE (getOutTradeNo (now_s W) (pick W) goodsId orderIndex)) (\<lambda>outTradeNo.
     case fen F (g ! 3) of Inl _ \<Rightarrow> retM None | Inr money \<Rightarrow>
     thenM (execute
       [hmset (ORDER_TABLE4FISH outTradeNo)
          (order_fields (stamp_n W) ''wechat_text'' ''test'' ''test'' (g ! 1) money account goodsId ''success'' (g ! 0) (g ! 2)),
        sadd SUCCEED_ORDER4FISH outTradeNo, lpush ORDER_NUM_LIST4FISH outTradeNo, sadd (PLAYER_ORDER4FISH (fmt account)) outTradeNo,
        lpush (DAY_ORDER4FISH today) outTradeNo, lpush (DAY_SUCCEED_ORDER4FISH today) outTradeNo,
        expire_key (ORDER_TABLE4FISH outTradeNo) (1 * 60 * 60)])
     (retM None))))))"

end
