(* ===== verification/PayLaws.thy ===== *)
theory PayLaws
  imports FishPay ExchangeLaws
begin

text \<open>
  What the payment handlers guarantee: a transaction of the app store is credited at most once, whatever
  requests arrive; a notification of the payment service is credited every time it arrives; and what an order is from placing it to being told that it was paid.
\<close>

section \<open>Keys\<close>

lemmas pay_keys = ORDER_TABLE4FISH_def PENDING_ORDER4FISH_def SUCCEED_ORDER4FISH_def ORDER_NUM_LIST4FISH_def DAY_ORDER4FISH_def
  DAY_PENDING_ORDER4FISH_def PLAYER_ORDER4FISH_def GOODS_TABLE_def GOODS_TABLE4FISH_def GOODS_NUM4FISH_def APP_PAY_ORDER_ITEM4FISH_def
  FISH_SYSTEM_RECHARGE_TOTAL_def FISH_RECHARGE_USER_DAY_IDS_def FISH_SYSTEM_DATE_RECHARGE_TOTAL_def

lemma user_tables_neq_pay:
  assumes "ut \<in> user_tables"
  shows "ut \<noteq> APP_PAY_ORDER_ITEM4FISH x" "ut \<noteq> GOODS_TABLE4FISH b" "ut \<noteq> ORDER_TABLE4FISH n" "ut \<noteq> PENDING_ORDER4FISH"
    "ut \<noteq> SUCCEED_ORDER4FISH" "ut \<noteq> FISH_SYSTEM_RECHARGE_TOTAL" "ut \<noteq> FISH_RECHARGE_USER_DAY_IDS"
    "ut \<noteq> FISH_SYSTEM_DATE_RECHARGE_TOTAL d"
  using assms by (auto simp: user_tables_def user_key_def pay_keys)

lemma pay_keys_neq [simp]:
  "FORMAT_ACCOUNT2USER_TABLE a \<noteq> APP_PAY_ORDER_ITEM4FISH x" "GOODS_TABLE4FISH b \<noteq> APP_PAY_ORDER_ITEM4FISH x"
  "ORDER_TABLE4FISH n \<noteq> PENDING_ORDER4FISH" "ORDER_TABLE4FISH n \<noteq> SUCCEED_ORDER4FISH" "PENDING_ORDER4FISH \<noteq> SUCCEED_ORDER4FISH"
  "ORDER_TABLE4FISH n \<noteq> FISH_SYSTEM_RECHARGE_TOTAL" "ORDER_TABLE4FISH n \<noteq> FISH_RECHARGE_USER_DAY_IDS"
  "ORDER_TABLE4FISH n \<noteq> FISH_SYSTEM_DATE_RECHARGE_TOTAL d"
  "FORMAT_ACCOUNT2USER_TABLE a \<noteq> ORDER_TABLE4FISH n" "FORMAT_ACCOUNT2USER_TABLE a \<noteq> PENDING_ORDER4FISH"
  "FORMAT_ACCOUNT2USER_TABLE a \<noteq> SUCCEED_ORDER4FISH" "FORMAT_ACCOUNT2USER_TABLE a \<noteq> FISH_SYSTEM_RECHARGE_TOTAL"
  "FORMAT_ACCOUNT2USER_TABLE a \<noteq> FISH_RECHARGE_USER_DAY_IDS" "FORMAT_ACCOUNT2USER_TABLE a \<noteq> FISH_SYSTEM_DATE_RECHARGE_TOTAL d"
  "FISH_RECHARGE_USER_DAY_IDS \<noteq> FISH_SYSTEM_RECHARGE_TOTAL" "FISH_RECHARGE_USER_DAY_IDS \<noteq> FISH_SYSTEM_DATE_RECHARGE_TOTAL d"
  "FISH_RECHARGE_USER_DAY_IDS \<noteq> ORDER_TABLE4FISH n" "FISH_RECHARGE_USER_DAY_IDS \<noteq> PENDING_ORDER4FISH"
  "FISH_RECHARGE_USER_DAY_IDS \<noteq> SUCCEED_ORDER4FISH"
  by (simp_all add: pay_keys FORMAT_ACCOUNT2USER_TABLE_def)

lemma receipt_key_inj [simp]: "APP_PAY_ORDER_ITEM4FISH x = APP_PAY_ORDER_ITEM4FISH y \<longleftrightarrow> x = y"
  by (simp add: pay_keys)

section \<open>The app store\<close>

text \<open>The coins of a user table, the transactions that are marked as used, and what goods are worth at most.\<close>

definition coins_at :: "redis \<Rightarrow> string \<Rightarrow> int" where
  "coins_at s ut = (case held s (ut, ''coin'') of None \<Rightarrow> 0 | Some n \<Rightarrow> n)"

definition marked :: "redis \<Rightarrow> string set" where
  "marked s = {x. look s (APP_PAY_ORDER_ITEM4FISH x) \<noteq> None}"

definition goods_worth :: "int \<Rightarrow> redis \<Rightarrow> bool" where
  "goods_worth C s \<longleftrightarrow> (\<forall>b n. py_int_none (hf s (GOODS_TABLE4FISH b) ''cards'') = Inr n \<longrightarrow> n \<le> C)"

lemma finite_marked: "finite (marked s)"
proof -
  have "inj APP_PAY_ORDER_ITEM4FISH" by (simp add: inj_def)
  then have "finite (APP_PAY_ORDER_ITEM4FISH -` dom (map_of (kv s)))"
    by (intro finite_vimageI finite_dom_map_of)
  then show ?thesis by (simp add: marked_def look_def vimage_def dom_def)
qed

text \<open>The transaction a request is about, if the store accepts its receipt.\<close>

type_synonym apple_request = "string \<times> string \<times> string"
type_synonym apple_store = "string \<Rightarrow> string \<Rightarrow> (string \<times> string) list option"

fun transaction :: "apple_store \<Rightarrow> apple_request \<Rightarrow> string option" where
  "transaction V (sid, d, b) = (case V (strip b) (strip d) of Some ((_, x) # _) \<Rightarrow> Some x | _ \<Rightarrow> None)"

fun apple_do :: "apple_store \<Rightarrow> apple_request \<Rightarrow> redis \<Rightarrow> redis" where
  "apple_do V (sid, d, b) s = snd (do_onAppleStorePay V sid d b s)"

text \<open>A request that changes anything marks a transaction that was not marked and credits one user table.\<close>

definition credited :: "string \<Rightarrow> string \<Rightarrow> redis \<Rightarrow> redis \<Rightarrow> bool" where
  "credited b x s t \<longleftrightarrow> (\<exists>ut n old p. ut \<in> user_tables \<and> x \<notin> marked s \<and> py_int_none (hf s (GOODS_TABLE4FISH b) ''cards'') = Inr n \<and>
     held s (ut, ''coin'') = Some old \<and> in_llong (old + n) \<and> t = set_key (APP_PAY_ORDER_ITEM4FISH x) p (hput ut ''coin'' (show_int (old + n)) s))"

lemma apple_credit_step:
  assumes "ut \<in> user_tables"
  shows "wp (apple_credit ut b p x) (\<lambda>_ t. t = s \<or> credited b x s t) (\<lambda>_ _. False) s"
  using assms unfolding apple_credit_def
  by (auto simp: wp_eqs credited_def marked_def held_def dest!: strtoll_show_intD split: option.split sum.split)

lemma apple_step:
  assumes "accounts_ok s"
  shows "apple_do V (sid, d, b) s = s \<or> (\<exists>x. transaction V (sid, d, b) = Some x \<and> credited (strip b) x s (apple_do V (sid, d, b) s))"
proof -
  have "wp (do_onAppleStorePay V sid d b)
      (\<lambda>_ t. t = s \<or> (\<exists>x. transaction V (sid, d, b) = Some x \<and> credited (strip b) x s t))
      (\<lambda>_ t. t = s \<or> (\<exists>x. transaction V (sid, d, b) = Some x \<and> credited (strip b) x s t)) s"
    unfolding do_onAppleStorePay_def getInfoBySid_def getUserByAccount_def Let_def
    using assms by (auto simp: wp_eqs accounts_ok_def split: option.split list.split rval.split sum.split
        intro!: wp_mono [OF apple_credit_step])
  then show ?thesis by (simp add: wp_state)
qed

definition apple_inv :: "int \<Rightarrow> string set \<Rightarrow> redis \<Rightarrow> redis \<Rightarrow> bool" where
  "apple_inv C U s0 s \<longleftrightarrow> 0 \<le> C \<and> finite U \<and> U \<subseteq> user_tables \<and> accounts_ok s \<and> goods_worth C s \<and> marked s0 \<subseteq> marked s \<and>
     (\<Sum>ut\<in>U. coins_at s ut) \<le> (\<Sum>ut\<in>U. coins_at s0 ut) + C * int (card (marked s - marked s0))"

lemma credited_marks: "credited b x s t \<Longrightarrow> marked t = insert x (marked s) \<and> x \<notin> marked s"
  by (auto simp: credited_def marked_def look_hput_other user_tables_neq_pay [THEN not_sym])

lemma credited_keeps: "credited b x s t \<Longrightarrow> accounts_ok s \<Longrightarrow> goods_worth C s \<Longrightarrow> accounts_ok t \<and> goods_worth C t"
  by (auto simp: credited_def accounts_ok_def goods_worth_def look_hput_other user_tables_neq user_tables_neq_pay not_sym)

lemma credited_coins:
  assumes "credited b x s t" "goods_worth C s" "0 \<le> C" "finite U" "U \<subseteq> user_tables"
  shows "(\<Sum>ut\<in>U. coins_at t ut) \<le> (\<Sum>ut\<in>U. coins_at s ut) + C"
proof -
  obtain w n old p where t: "w \<in> user_tables" "held s (w, ''coin'') = Some old" "n \<le> C" "in_llong (old + n)"
      "t = set_key (APP_PAY_ORDER_ITEM4FISH x) p (hput w ''coin'' (show_int (old + n)) s)"
    using assms(1,2) unfolding credited_def goods_worth_def by blast
  have "coins_at t ut = coins_at s ut + (if ut = w then n else 0)" if "ut \<in> U" for ut
    using that t assms(5) user_tables_neq_pay(1) by (auto simp: coins_at_def held_def strtoll_show_int subset_iff)
  then have "(\<Sum>ut\<in>U. coins_at t ut) = (\<Sum>ut\<in>U. coins_at s ut) + (if w \<in> U then n else 0)"
    using assms(4) by (simp add: sum.distrib sum.delta)
  then show ?thesis using t(3) assms(3) by simp
qed

lemma apple_inv_step: "apple_inv C U s0 s \<Longrightarrow> apple_inv C U s0 (apple_do V r s)"
proof -
  assume inv: "apple_inv C U s0 s"
  obtain sid d b where r: "r = (sid, d, b)" by (cases r)
  from inv have "accounts_ok s" by (simp add: apple_inv_def)
  from apple_step [OF this, of V sid d b] consider "apple_do V r s = s" | x where "credited (strip b) x s (apple_do V r s)"
    by (auto simp: r)
  then show ?thesis
  proof cases
    case (2 x)
    note m = credited_marks [OF 2]
    have "marked (apple_do V r s) - marked s0 = insert x (marked s - marked s0)" "x \<notin> marked s - marked s0"
      using m inv by (auto simp: apple_inv_def)
    then have "card (marked (apple_do V r s) - marked s0) = Suc (card (marked s - marked s0))"
      using finite_marked [of s] by simp
    then show ?thesis
      using inv m credited_keeps [OF 2, of C] credited_coins [OF 2, of C U] by (auto simp: apple_inv_def algebra_simps)
  qed (use inv in simp)
qed

interpretation apple: state_machine "apple_do V" "apple_inv C U s0" for V C U s0
  by unfold_locales (rule apple_inv_step)

lemma marked_run:
  "accounts_ok s \<Longrightarrow> marked (fold (apple_do V) rs s) \<subseteq> marked s \<union> {x. Some x \<in> transaction V ` set rs}"
proof (induction rs arbitrary: s)
  case (Cons r rs)
  obtain sid d b where r: "r = (sid, d, b)" by (cases r)
  from apple_step [OF Cons.prems, of V sid d b] consider "apple_do V r s = s"
    | x where "transaction V r = Some x" "credited (strip b) x s (apple_do V r s)" by (auto simp: r)
  then show ?case
  proof cases
    case (2 x)
    have "accounts_ok (apple_do V r s)" using 2(2) Cons.prems by (auto simp: credited_def accounts_ok_def look_hput_other user_tables_neq not_sym)
    from Cons.IH [OF this] credited_marks [OF 2(2)] 2(1) show ?thesis by (auto simp: image_iff)
  next
    case 1
    then show ?thesis using Cons.IH [OF Cons.prems] by auto
  qed
qed simp

text \<open>C11: over every history of requests to the app-store handler, all the coins any group of players gains
  together are at most the worth of the goods for each transaction the store knew: a transaction is credited
  once, to one player, whoever presents its receipt and however often.\<close>

theorem apple_credited_once:
  assumes "accounts_ok s" "goods_worth C s" "0 \<le> C" "finite U" "U \<subseteq> user_tables"
  shows "(\<Sum>ut\<in>U. coins_at (fold (apple_do V) rs s) ut) \<le>
     (\<Sum>ut\<in>U. coins_at s ut) + C * int (card ({x. Some x \<in> transaction V ` set rs} - marked s))"
proof -
  let ?t = "fold (apple_do V) rs s" and ?T = "{x. Some x \<in> transaction V ` set rs}"
  have "apple_inv C U s ?t" using assms by (intro apple.inv_run) (simp add: apple_inv_def)
  then have "(\<Sum>ut\<in>U. coins_at ?t ut) \<le> (\<Sum>ut\<in>U. coins_at s ut) + C * int (card (marked ?t - marked s))" by (simp add: apple_inv_def)
  moreover have "finite ?T" using finite_vimageI [of "transaction V ` set rs" Some] by (simp add: vimage_def)
  then have "card (marked ?t - marked s) \<le> card (?T - marked s)" using marked_run [OF assms(1), of V rs] by (intro card_mono) auto
  then have "C * int (card (marked ?t - marked s)) \<le> C * int (card (?T - marked s))" using assms(3) by (intro mult_left_mono) auto
  ultimately show ?thesis by linarith
qed

definition demo_apple :: redis where
  "demo_apple = empty_db\<lparr>kv := [(FISH_CONSTS_CONFIG, RHash [(''wechat_switch'', ''1'')]),
     (FORMAT_USER_HALL_SESSION ''s'', RHash [(''account'', ''ann''), (''uid'', ''7'')]),
     (FORMAT_USER_HALL_SESSION ''z'', RHash [(''account'', ''bob''), (''uid'', ''8'')]),
     (FORMAT_ACCOUNT2USER_TABLE ''ann'', RStr (user_key (Some ''7''))), (FORMAT_ACCOUNT2USER_TABLE ''bob'', RStr (user_key (Some ''8''))),
     (user_key (Some ''7''), RHash [(''coin'', ''10'')]), (user_key (Some ''8''), RHash [(''coin'', ''20'')]),
     (GOODS_TABLE4FISH ''g'', RHash [(''cards'', ''60'')])]\<rparr>"

definition demo_store :: apple_store where
  "demo_store b d = Some [(''p'', ''x'')]"

lemma demo_apple_ok: "accounts_ok demo_apple" "goods_worth 60 demo_apple"
proof -
  show "accounts_ok demo_apple"
    by (auto simp: accounts_ok_def demo_apple_def look_def benefit_keys pay_keys user_tables_def split: if_splits)
  have "py_int ''60'' = Inr 60" by code_simp
  then show "goods_worth 60 demo_apple"
    by (auto simp: goods_worth_def demo_apple_def hf_def hash_of_def look_def benefit_keys pay_keys py_int_none_def split: if_splits)
qed

text \<open>Two players present the same receipt: together they gain one purchase.\<close>

theorem apple_credited_once_witness:
  "(\<Sum>ut\<in>{user_key (Some ''7''), user_key (Some ''8'')}. coins_at (fold (apple_do demo_store) [(''s'', ''d'', ''g''), (''z'', ''d'', ''g'')] demo_apple) ut) \<le>
     (\<Sum>ut\<in>{user_key (Some ''7''), user_key (Some ''8'')}. coins_at demo_apple ut) +
     60 * int (card ({x. Some x \<in> transaction demo_store ` set [(''s'', ''d'', ''g''), (''z'', ''d'', ''g'')]} - marked demo_apple))"
  by (rule apple_credited_once) (simp_all add: demo_apple_ok, auto simp: user_tables_def)

section \<open>Notifications of the payment service\<close>

lemma ok_tryM: "(\<And>t. wp h Q (\<lambda>_ _. True) t) \<Longrightarrow> wp m Q (\<lambda>_ _. True) s \<Longrightarrow> wp (tryM m h) Q (\<lambda>_ _. True) s"
  by (simp add: wp_tryM wp_mono)

lemma ok_persist_key [ok_wp]: "Q () (s\<lparr>ttl := AList.delete k (ttl s)\<rparr>) \<Longrightarrow> wp (persist_key k) Q (\<lambda>_ _. True) s"
  by (simp add: wp_def persist_key_def)

lemma ok_incrbyfloat [ok_wp]: "(\<And>v. Q () (put k (RStr v) s)) \<Longrightarrow> wp (incrbyfloat F k amt) Q (\<lambda>_ _. True) s"
  unfolding incrbyfloat_def by (intro ok_bindM ok_get) (auto simp: wp_def split: option.split)

lemma ok_hincrbyfloat [ok_wp]: "(\<And>v. Q () (hput k f v s)) \<Longrightarrow> wp (hincrbyfloat F k f amt) Q (\<lambda>_ _. True) s"
  by (auto simp: hincrbyfloat_def wp_def split: option.split)

lemma pay_commands_reads:
  "wp (pay_commands F d uid ut n price)
     (\<lambda>cs t. t = s \<and> (\<exists>p. py_int_none price = Inr p) \<and> is_set s FISH_RECHARGE_USER_DAY_IDS \<and> (\<exists>amount am known.
        cs = [drop_reply (hincrby ut ''coin'' (show_int n)), hincrbyfloat F ut ''recharge_coin_total'' amount,
            incrbyfloat F FISH_SYSTEM_RECHARGE_TOTAL (fmt price),
            hincrbyfloat F (FISH_SYSTEM_DATE_RECHARGE_TOTAL d) ''recharge_coin_total'' am] @
           (if known then [] else [drop_reply (hincrby (FISH_SYSTEM_DATE_RECHARGE_TOTAL d) ''recharge_user_total'' ''1''),
            sadd FISH_RECHARGE_USER_DAY_IDS uid])))
     (\<lambda>_ t. t = s \<and> \<not> ((\<exists>p. py_int_none price = Inr p) \<and> is_set s FISH_RECHARGE_USER_DAY_IDS)) s"
  unfolding pay_commands_def by (auto simp: wp_eqs split: sum.split)

definition order_due :: "redis \<Rightarrow> string \<Rightarrow> string option \<Rightarrow> int" where
  "order_due s no fee = (if (\<exists>p. py_int_none fee = Inr p) \<and> is_set s FISH_RECHARGE_USER_DAY_IDS
     then to_int (hf s (ORDER_TABLE4FISH no) ''roomCards'') else 0)"

definition pay_places :: "string \<Rightarrow> string \<Rightarrow> string set" where
  "pay_places ut d = {ut, FISH_SYSTEM_RECHARGE_TOTAL, FISH_SYSTEM_DATE_RECHARGE_TOTAL d, FISH_RECHARGE_USER_DAY_IDS}"

lemma coins_hincrby [simp]: "in_llong n \<Longrightarrow> coins_at (hput ut ''coin'' (show_int n) s) ut = n"
  by (simp add: coins_at_def held_def strtoll_show_int)

lemma is_set_other [simp]:
  "j \<noteq> k \<Longrightarrow> is_set (put k v s) j = is_set s j" "j \<noteq> k \<Longrightarrow> is_set (hput k f w s) j = is_set s j"
  by (simp_all add: is_set_def look_hput_other)

lemma pay_pipe_ok:
  assumes "ut \<in> user_tables" "is_set s FISH_RECHARGE_USER_DAY_IDS"
  shows "wp (execute ([drop_reply (hincrby ut ''coin'' (show_int n)), hincrbyfloat F ut ''recharge_coin_total'' amount,
            incrbyfloat F FISH_SYSTEM_RECHARGE_TOTAL x,
            hincrbyfloat F (FISH_SYSTEM_DATE_RECHARGE_TOTAL d) ''recharge_coin_total'' am] @
           (if known then [] else [drop_reply (hincrby (FISH_SYSTEM_DATE_RECHARGE_TOTAL d) ''recharge_user_total'' ''1''),
            sadd FISH_RECHARGE_USER_DAY_IDS uid])))
     (\<lambda>_ t. (\<forall>k. k \<notin> pay_places ut d \<longrightarrow> look t k = look s k) \<and> is_set t FISH_RECHARGE_USER_DAY_IDS \<and>
       coins_at t ut = coins_at s ut + n) (\<lambda>_ _. True) s"
  using assms(2) user_tables_neq_pay [OF assms(1)] not_sym [OF user_tables_neq_pay(7) [OF assms(1)]]
  by (cases known; simp only: append.simps append_Nil2 if_True if_False; intro ok_wp)
    (auto simp: pay_places_def look_hput_other look_put_set coins_at_def held_def strtoll_show_int dest!: strtoll_show_intD)

lemma pay_record_ok:
  assumes "ut \<in> user_tables"
  shows "wp (do_pay_record F d uid ut n price) (\<lambda>_ t. (\<forall>k. k \<notin> pay_places ut d \<longrightarrow> look t k = look s k) \<and>
     is_set t FISH_RECHARGE_USER_DAY_IDS = is_set s FISH_RECHARGE_USER_DAY_IDS \<and>
     coins_at t ut = coins_at s ut + (if (\<exists>p. py_int_none price = Inr p) \<and> is_set s FISH_RECHARGE_USER_DAY_IDS then n else 0)) (\<lambda>_ _. True) s"
  unfolding do_pay_record_def wp_bindM [of "tryM _ _"] wp_tryM wp_bindM [of "pay_commands _ _ _ _ _ _"]
proof (rule wp_mono [OF pay_commands_reads], goal_cases)
  case (1 cs t)
  then obtain amount am known where t: "t = s" and set: "is_set s FISH_RECHARGE_USER_DAY_IDS" and cs: "cs = [drop_reply (hincrby ut ''coin'' (show_int n)), hincrbyfloat F ut ''recharge_coin_total'' amount,
            incrbyfloat F FISH_SYSTEM_RECHARGE_TOTAL (fmt price), hincrbyfloat F (FISH_SYSTEM_DATE_RECHARGE_TOTAL d) ''recharge_coin_total'' am] @
           (if known then [] else [drop_reply (hincrby (FISH_SYSTEM_DATE_RECHARGE_TOTAL d) ''recharge_user_total'' ''1''), sadd FISH_RECHARGE_USER_DAY_IDS uid])"
    by blast
  show ?case
    unfolding wp_retM option.case wp_thenM cs t by (rule wp_mono [OF pay_pipe_ok [OF assms set]]) (use 1 in \<open>auto simp: wp_retM\<close>)
next
  case (2 e t)
  then show ?case by (auto simp: wp_retM)
qed

text \<open>What stays of an order when it is told to be paid.\<close>

definition order_kept :: "string \<Rightarrow> redis \<Rightarrow> redis \<Rightarrow> bool" where
  "order_kept no s t \<longleftrightarrow> (\<forall>f \<in> {''roomCards'', ''account''}. hf t (ORDER_TABLE4FISH no) f = hf s (ORDER_TABLE4FISH no) f) \<and>
     (\<forall>a. look t (FORMAT_ACCOUNT2USER_TABLE a) = look s (FORMAT_ACCOUNT2USER_TABLE a)) \<and>
     is_set t FISH_RECHARGE_USER_DAY_IDS = is_set s FISH_RECHARGE_USER_DAY_IDS \<and>
     (no \<in> set (members s PENDING_ORDER4FISH) \<longrightarrow> no \<in> set (members t PENDING_ORDER4FISH))"

lemma order_neq_no: "no \<noteq> ORDER_TABLE4FISH no"
proof
  assume "no = ORDER_TABLE4FISH no"
  then have "length no = length (ORDER_TABLE4FISH no)" by simp
  then show False by (simp add: ORDER_TABLE4FISH_def)
qed

lemma look_persist [simp]: "members (s\<lparr>ttl := x\<rparr>) k = members s k" "is_set (s\<lparr>ttl := x\<rparr>) k = is_set s k"
  by (simp_all add: members_def is_set_def)

lemma coins_cong: "look t ut = look s ut \<Longrightarrow> coins_at t ut = coins_at s ut"
  by (simp add: coins_at_def held_def hf_def hash_of_def)

definition paid_state :: "string \<Rightarrow> (string \<times> string) list \<Rightarrow> redis \<Rightarrow> redis" where
  "paid_state no info s = (let u = hputs (ORDER_TABLE4FISH no) info s;
     v = put_set PENDING_ORDER4FISH (removeAll (ORDER_TABLE4FISH no) (members u PENDING_ORDER4FISH)) u;
     w = put_set SUCCEED_ORDER4FISH (List.insert (ORDER_TABLE4FISH no) (members v SUCCEED_ORDER4FISH)) v
     in w\<lparr>ttl := AList.delete (ORDER_TABLE4FISH no) (ttl w)\<rparr>)"

lemma look_paid:
  assumes "k \<notin> {ORDER_TABLE4FISH no, PENDING_ORDER4FISH, SUCCEED_ORDER4FISH}"
  shows "look (paid_state no info s) k = look s k"
  using assms by (simp add: paid_state_def Let_def look_put_set look_hputs_other)

lemma hf_paid: "hf (paid_state no info s) (ORDER_TABLE4FISH no) f = hf (hputs (ORDER_TABLE4FISH no) info s) (ORDER_TABLE4FISH no) f"
  by (simp add: paid_state_def Let_def)

lemma members_paid:
  "members (paid_state no info s) PENDING_ORDER4FISH = removeAll (ORDER_TABLE4FISH no) (members s PENDING_ORDER4FISH)"
  "ORDER_TABLE4FISH no \<in> set (members (paid_state no info s) SUCCEED_ORDER4FISH)"
  by (simp_all add: paid_state_def Let_def members_hputs not_sym [OF pay_keys_neq(3)])

lemma paid_keeps:
  assumes "''roomCards'' \<notin> fst ` set info" "''account'' \<notin> fst ` set info"
  shows "order_kept no s (paid_state no info s)" "ut \<in> user_tables \<Longrightarrow> coins_at (paid_state no info s) ut = coins_at s ut"
proof -
  have "map_of (rev info) f = None" if "f \<in> {''roomCards'', ''account''}" for f
    using assms that by (force simp: map_of_eq_None)
  then show "order_kept no s (paid_state no info s)"
    using order_neq_no [of no] by (auto simp: order_kept_def hf_paid hf_hputs_same look_paid members_paid intro!: is_set_cong_look)
  show "ut \<in> user_tables \<Longrightarrow> coins_at (paid_state no info s) ut = coins_at s ut"
    by (intro coins_cong look_paid) (simp add: user_tables_neq_pay)
qed

lemma verify_ok:
  assumes "map_of params ''out_trade_no'' = Some no"
  shows "wp (verfiyRcvDatas params) (\<lambda>ok t. ok \<longrightarrow> order_kept no s t \<and> (\<forall>ut\<in>user_tables. coins_at t ut = coins_at s ut) \<and>
       hf t (ORDER_TABLE4FISH no) ''money'' = map_of params ''total_fee'' \<and> ORDER_TABLE4FISH no \<in> set (members t SUCCEED_ORDER4FISH)) (\<lambda>_ _. True) s"
  unfolding verfiyRcvDatas_def
proof (intro ok_bindM ok_liftE ok_exists_key ok_if ok_retM ok_tryM ok_thenM ok_execute_Cons ok_execute_Nil ok_hmset ok_srem ok_sadd ok_persist_key, goal_cases)
  case (3 n fee ended currency tr)
  let ?i = "[(''money'', fee), (''endTime'', ended), (''currency'', currency), (''orderNum'', tr), (''type'', ''successful'')]"
  have "n = no" "map_of params ''total_fee'' = Some fee" using 3 assms by (auto simp: need_def split: option.splits)
  moreover have "order_kept no s (paid_state no ?i s)" "\<forall>ut\<in>user_tables. coins_at (paid_state no ?i s) ut = coins_at s ut"
    by (simp_all add: paid_keeps)
  moreover have "hf (paid_state no ?i s) (ORDER_TABLE4FISH no) ''money'' = Some fee" by (simp add: hf_paid hf_hputs_same)
  ultimately show ?case using members_paid(2) [of no ?i s] by (simp add: paid_state_def Let_def)
qed simp_all

lemma pay_order_kept:
  assumes "ut \<in> user_tables" "\<forall>k. k \<notin> pay_places ut d \<longrightarrow> look t k = look s k"
    and "is_set t FISH_RECHARGE_USER_DAY_IDS = is_set s FISH_RECHARGE_USER_DAY_IDS"
  shows "order_kept no s t"
proof -
  have "PENDING_ORDER4FISH \<noteq> FISH_SYSTEM_RECHARGE_TOTAL" "PENDING_ORDER4FISH \<noteq> FISH_SYSTEM_DATE_RECHARGE_TOTAL d"
    "PENDING_ORDER4FISH \<noteq> FISH_RECHARGE_USER_DAY_IDS" by (simp_all add: pay_keys)
  then have "ORDER_TABLE4FISH no \<notin> pay_places ut d" "FORMAT_ACCOUNT2USER_TABLE a \<notin> pay_places ut d" "PENDING_ORDER4FISH \<notin> pay_places ut d" for a
    using not_sym [OF user_tables_neq_pay(3) [OF assms(1)]] not_sym [OF user_tables_neq_pay(4) [OF assms(1)]]
      not_sym [OF user_tables_neq(4) [OF assms(1)]] by (simp_all add: pay_places_def)
  then have "look t (ORDER_TABLE4FISH no) = look s (ORDER_TABLE4FISH no)"
    "look t (FORMAT_ACCOUNT2USER_TABLE a) = look s (FORMAT_ACCOUNT2USER_TABLE a)"
    "look t PENDING_ORDER4FISH = look s PENDING_ORDER4FISH" for a using assms(2) by blast+
  then show ?thesis using assms(3) by (auto simp: order_kept_def members_def hf_def hash_of_def)
qed

lemma add_members_ok:
  assumes "accounts_ok s"
  shows "wp (do_add_fishcoin_2_members F d no) (\<lambda>_ t. order_kept no s t \<and> (\<exists>ut.
     look s (FORMAT_ACCOUNT2USER_TABLE (fmt (hf s (ORDER_TABLE4FISH no) ''account''))) = Some (RStr ut) \<and>
     coins_at t ut = coins_at s ut + order_due s no (hf s (ORDER_TABLE4FISH no) ''money''))) (\<lambda>_ _. True) s"
  unfolding do_add_fishcoin_2_members_def Let_def
proof (intro ok_bindM ok_exists_key ok_if ok_raiseM ok_hmget ok_get ok_thenM ok_option, goal_cases)
  case (1 v ut)
  then have ut: "look s (FORMAT_ACCOUNT2USER_TABLE (fmt (hf s (ORDER_TABLE4FISH no) ''account''))) = Some (RStr ut)" by simp
  then have mem: "ut \<in> user_tables" using assms by (auto simp: accounts_ok_def)
  let ?Q = "\<lambda>_ t. order_kept no s t \<and> (\<exists>ut.
     look s (FORMAT_ACCOUNT2USER_TABLE (fmt (hf s (ORDER_TABLE4FISH no) ''account''))) = Some (RStr ut) \<and>
     coins_at t ut = coins_at s ut + order_due s no (hf s (ORDER_TABLE4FISH no) ''money''))"
  have "wp (thenM (do_pay_record F d uid ut (to_int (hf s (ORDER_TABLE4FISH no) ''roomCards'')) (hf s (ORDER_TABLE4FISH no) ''money''))
      (thenM (hmget ut [''parentAg'', ''coin'']) (retM ()))) ?Q (\<lambda>_ _. True) s" for uid
    by (intro ok_thenM, rule wp_mono [OF pay_record_ok [OF mem]], intro ok_thenM ok_hmget ok_retM)
      (use pay_order_kept [OF mem, of d] ut in \<open>auto simp: order_due_def\<close>)
  then show ?case by (auto simp: wp_raiseM split: list.split)
qed


text \<open>One notification.\<close>

lemma order_kept_trans: "order_kept no s t \<Longrightarrow> order_kept no t u \<Longrightarrow> order_kept no s u"
  by (simp add: order_kept_def)

lemma order_kept_accounts: "order_kept no s t \<Longrightarrow> accounts_ok t = accounts_ok s"
  by (simp add: order_kept_def accounts_ok_def)

lemma order_kept_due: "order_kept no s t \<Longrightarrow> order_due t no fee = order_due s no fee"
  by (simp add: order_kept_def order_due_def)

lemma notify_ok:
  assumes "accounts_ok s" "map_of params ''out_trade_no'' = Some no"
    and "look s (FORMAT_ACCOUNT2USER_TABLE (fmt (hf s (ORDER_TABLE4FISH no) ''account''))) = Some (RStr ut)"
  shows "wp (do_paymentNotifyServer F digest d params) (\<lambda>r t. (\<exists>m. r = Reply 0 m) \<longrightarrow> order_kept no s t \<and>
     coins_at t ut = coins_at s ut + order_due s no (map_of params ''total_fee'')) (\<lambda>_ _. True) s"
  unfolding do_paymentNotifyServer_def
proof (intro ok_if ok_retM ok_bindM ok_liftE, goal_cases)
  case (3 code)
  have mem: "ut \<in> user_tables" using assms(1,3) by (auto simp: accounts_ok_def)
  show ?case
  proof (rule wp_mono [OF verify_ok [OF assms(2)]], intro ok_if ok_retM ok_bindM ok_liftE ok_thenM, goal_cases)
    case (2 ok t n)
    then have t: "order_kept no s t" "coins_at t ut = coins_at s ut" "hf t (ORDER_TABLE4FISH no) ''money'' = map_of params ''total_fee''" "n = no"
      using mem assms(2) by (auto simp: need_def)
    have "look t (FORMAT_ACCOUNT2USER_TABLE (fmt (hf t (ORDER_TABLE4FISH no) ''account''))) = Some (RStr ut)"
      using t(1) assms(3) by (simp add: order_kept_def)
    moreover have "accounts_ok t" using order_kept_accounts [OF t(1)] assms(1) by simp
    ultimately show ?case unfolding t(4)
      by (intro wp_mono [OF add_members_ok]) (use t order_kept_trans [OF t(1)] order_kept_due [OF t(1)] in \<open>auto simp: wp_retM\<close>)
  qed simp_all
qed simp_all

definition notify_do :: "floats \<Rightarrow> (string \<Rightarrow> string) \<Rightarrow> string \<Rightarrow> (string \<times> string) list \<Rightarrow> redis \<Rightarrow> redis" where
  "notify_do F digest d params s = snd (do_paymentNotifyServer F digest d params s)"

text \<open>C18: a notification is credited every time it arrives.  When the same signed notification has been
  answered with success \<open>k\<close> times, the coins of the account of the order have grown by \<open>k\<close> times the cards of
  the order (by nothing, though success was answered, when the paid amount is not an integer text), and an
  order that was in the set of pending orders is still in it.\<close>

theorem notify_each_time:
  assumes "accounts_ok s" "map_of params ''out_trade_no'' = Some no"
    and "look s (FORMAT_ACCOUNT2USER_TABLE (fmt (hf s (ORDER_TABLE4FISH no) ''account''))) = Some (RStr ut)"
    and "\<And>i. i < k \<Longrightarrow> \<exists>m. fst (do_paymentNotifyServer F digest d params ((notify_do F digest d params ^^ i) s)) = Inr (Reply 0 m)"
  shows "coins_at ((notify_do F digest d params ^^ k) s) ut = coins_at s ut + int k * order_due s no (map_of params ''total_fee'') \<and>
     (no \<in> set (members s PENDING_ORDER4FISH) \<longrightarrow> no \<in> set (members ((notify_do F digest d params ^^ k) s) PENDING_ORDER4FISH))"
proof -
  let ?t = "\<lambda>k. (notify_do F digest d params ^^ k) s"
  have "order_kept no s (?t k) \<and> coins_at (?t k) ut = coins_at s ut + int k * order_due s no (map_of params ''total_fee'')"
    using assms(4)
  proof (induction k)
    case (Suc k)
    then have IH: "order_kept no s (?t k)" "coins_at (?t k) ut = coins_at s ut + int k * order_due s no (map_of params ''total_fee'')" by auto
    have acc: "accounts_ok (?t k)" using order_kept_accounts [OF IH(1)] assms(1) by simp
    have "look (?t k) (FORMAT_ACCOUNT2USER_TABLE (fmt (hf (?t k) (ORDER_TABLE4FISH no) ''account''))) = Some (RStr ut)"
      using IH(1) assms(3) by (simp add: order_kept_def)
    moreover have "?t (Suc k) = snd (do_paymentNotifyServer F digest d params (?t k))"
      unfolding funpow.simps o_apply by (rule notify_do_def)
    then obtain m where "do_paymentNotifyServer F digest d params (?t k) = (Inr (Reply 0 m), ?t (Suc k))"
      using Suc.prems [of k] by (auto simp: prod_eq_iff)
    ultimately have "order_kept no (?t k) (?t (Suc k))"
      "coins_at (?t (Suc k)) ut = coins_at (?t k) ut + order_due (?t k) no (map_of params ''total_fee'')"
      using wp_InrD [OF notify_ok [OF acc assms(2)]] by blast+
    then show ?case using order_kept_trans [OF IH(1)] order_kept_due [OF IH(1)] IH(2) by (auto simp: algebra_simps)
  qed (simp add: order_kept_def)
  then show ?thesis by (simp add: order_kept_def)
qed

definition demo_floats :: floats where
  "demo_floats = \<lparr>cents = \<lambda>_. ''1'', fcents = \<lambda>_. Inr ''1'', fen = \<lambda>_. Inr 100, fadd = \<lambda>_ x. Some x\<rparr>"

definition demo_pay :: redis where
  "demo_pay = empty_db\<lparr>kv := [(FORMAT_ACCOUNT2USER_TABLE ''ann'', RStr (user_key (Some ''7''))), (user_key (Some ''7''), RHash [(''coin'', ''10'')]),
     (PENDING_ORDER4FISH, RSet [''n'']), (ORDER_TABLE4FISH ''n'', RHash [(''roomCards'', ''60''), (''account'', ''ann'')])]\<rparr>"

definition demo_note :: "(string \<times> string) list" where
  "demo_note = [(''sign'', ''S''), (''result_code'', ''SUCCESS''), (''out_trade_no'', ''n''), (''total_fee'', ''600''), (''time_end'', ''t''),
     (''fee_type'', ''c''), (''transaction_id'', ''w'')]"

lemma demo_note_twice:
  assumes "i < 2"
  shows "\<exists>m. fst (do_paymentNotifyServer demo_floats (\<lambda>_. ''S'') ''d'' demo_note ((notify_do demo_floats (\<lambda>_. ''S'') ''d'' demo_note ^^ i) demo_pay)) = Inr (Reply 0 m)"
proof -
  have "fst (do_paymentNotifyServer demo_floats (\<lambda>_. ''S'') ''d'' demo_note ((notify_do demo_floats (\<lambda>_. ''S'') ''d'' demo_note ^^ 0) demo_pay)) = Inr (Reply 0 ''paid'')"
    by code_simp
  moreover have "fst (do_paymentNotifyServer demo_floats (\<lambda>_. ''S'') ''d'' demo_note ((notify_do demo_floats (\<lambda>_. ''S'') ''d'' demo_note ^^ 1) demo_pay)) = Inr (Reply 0 ''paid'')"
    by code_simp
  ultimately show ?thesis using assms by (auto dest!: less_2_cases)
qed

lemma demo_pay_ok: "accounts_ok demo_pay"
  by (auto simp: accounts_ok_def demo_pay_def look_def benefit_keys pay_keys user_tables_def split: if_splits)

theorem notify_each_time_witness:
  "coins_at ((notify_do demo_floats (\<lambda>_. ''S'') ''d'' demo_note ^^ 2) demo_pay) (user_key (Some ''7'')) = 10 + 2 * 60"
proof -
  have "look demo_pay (FORMAT_ACCOUNT2USER_TABLE (fmt (hf demo_pay (ORDER_TABLE4FISH ''n'') ''account''))) = Some (RStr (user_key (Some ''7'')))"
    "map_of demo_note ''out_trade_no'' = Some ''n''" "coins_at demo_pay (user_key (Some ''7'')) = 10" "py_int ''600'' = Inr 600"
    "map_of demo_note ''total_fee'' = Some ''600''" "is_set demo_pay FISH_RECHARGE_USER_DAY_IDS" "to_int (hf demo_pay (ORDER_TABLE4FISH ''n'') ''roomCards'') = 60"
    by code_simp+
  then show ?thesis
    using notify_each_time [OF demo_pay_ok _ _ demo_note_twice, of "''n''" "user_key (Some ''7'')"]
    by (simp add: order_due_def py_int_none_def)
qed

section \<open>From placing an order to its coins\<close>

lemma ok_lpush [ok_wp]: "(\<And>l. Q () (put k (RList l) s)) \<Longrightarrow> wp (lpush k v) Q (\<lambda>_ _. True) s"
  by (simp add: wp_def lpush_def set_list_def)

lemma ok_expire_key [ok_wp]: "Q () (expired k n s) \<Longrightarrow> wp (expire_key k n) Q (\<lambda>_ _. True) s"
  by (simp add: wp_expire_key)

definition order_places :: "string \<Rightarrow> string \<Rightarrow> string \<Rightarrow> string set" where
  "order_places d no account = {ORDER_TABLE4FISH no, PENDING_ORDER4FISH, ORDER_NUM_LIST4FISH, PLAYER_ORDER4FISH account, DAY_ORDER4FISH d, DAY_PENDING_ORDER4FISH d}"

lemma order_places_neq:
  "ORDER_TABLE4FISH n \<noteq> ORDER_NUM_LIST4FISH" "ORDER_TABLE4FISH n \<noteq> PLAYER_ORDER4FISH a" "ORDER_TABLE4FISH n \<noteq> DAY_ORDER4FISH d"
  "ORDER_TABLE4FISH n \<noteq> DAY_PENDING_ORDER4FISH d" "PENDING_ORDER4FISH \<noteq> ORDER_NUM_LIST4FISH" "PENDING_ORDER4FISH \<noteq> PLAYER_ORDER4FISH a"
  "PENDING_ORDER4FISH \<noteq> DAY_ORDER4FISH d" "PENDING_ORDER4FISH \<noteq> DAY_PENDING_ORDER4FISH d" "ORDER_TABLE4FISH n \<noteq> GOODS_NUM4FISH g"
  by (simp_all add: pay_keys)

lemma look_expired: "0 < n \<Longrightarrow> look (expired k n s) j = look s j"
  by (simp add: expired_def)

lemma members_later:
  "0 < n \<Longrightarrow> members (expired k n s) j = members s j" "j \<noteq> k \<Longrightarrow> members (put k v s) j = members s j"
  by (simp_all add: members_def look_expired)

lemma place_pending_ok:
  "wp (place_pending d no account info) (\<lambda>_ t. (\<forall>f. f \<in> fst ` set info \<longrightarrow> hf t (ORDER_TABLE4FISH no) f = map_of (rev info) f) \<and>
     no \<in> set (members t PENDING_ORDER4FISH) \<and> (\<forall>k. k \<notin> order_places d no (fmt account) \<longrightarrow> look t k = look s k)) (\<lambda>_ _. True) s"
  unfolding place_pending_def
proof (intro ok_execute_Cons ok_execute_Nil ok_hmset ok_sadd ok_lpush ok_expire_key, intro conjI allI impI, goal_cases)
  case (1 l l' l'' f)
  then have "map_of (rev info) f \<noteq> None" by (simp add: map_of_eq_None)
  then show ?case using order_places_neq pay_keys_neq(3) by (auto simp: hf_hputs_same)
next
  case (2 l l' l'')
  then show ?case using order_places_neq by (simp add: members_later)
next
  case (3 l l' l'' k)
  then show ?case by (simp add: order_places_def look_expired look_put_set look_hputs_other)
qed

lemma order_frame:
  assumes "\<forall>k. k \<notin> order_places d no a \<longrightarrow> look t k = look s k"
  shows "look t (FORMAT_ACCOUNT2USER_TABLE b) = look s (FORMAT_ACCOUNT2USER_TABLE b)"
    "look t FISH_RECHARGE_USER_DAY_IDS = look s FISH_RECHARGE_USER_DAY_IDS" "ut \<in> user_tables \<Longrightarrow> look t ut = look s ut"
proof -
  have "FORMAT_ACCOUNT2USER_TABLE b \<notin> order_places d no a" "FISH_RECHARGE_USER_DAY_IDS \<notin> order_places d no a"
    by (simp_all add: order_places_def pay_keys FORMAT_ACCOUNT2USER_TABLE_def)
  moreover have "ut \<in> user_tables \<Longrightarrow> ut \<notin> order_places d no a"
    by (auto simp: order_places_def pay_keys user_tables_def user_key_def)
  ultimately show "look t (FORMAT_ACCOUNT2USER_TABLE b) = look s (FORMAT_ACCOUNT2USER_TABLE b)"
    "look t FISH_RECHARGE_USER_DAY_IDS = look s FISH_RECHARGE_USER_DAY_IDS" "ut \<in> user_tables \<Longrightarrow> look t ut = look s ut"
    using assms by blast+
qed

text \<open>What an order that was placed has taken down.\<close>

definition placed :: "string \<Rightarrow> string \<Rightarrow> string \<Rightarrow> redis \<Rightarrow> redis \<Rightarrow> bool" where
  "placed no account cards s t \<longleftrightarrow> hf t (ORDER_TABLE4FISH no) ''account'' = Some account \<and> hf t (ORDER_TABLE4FISH no) ''roomCards'' = Some cards \<and>
     no \<in> set (members t PENDING_ORDER4FISH) \<and> (\<forall>a. look t (FORMAT_ACCOUNT2USER_TABLE a) = look s (FORMAT_ACCOUNT2USER_TABLE a)) \<and>
     is_set t FISH_RECHARGE_USER_DAY_IDS = is_set s FISH_RECHARGE_USER_DAY_IDS \<and> (\<forall>ut\<in>user_tables. coins_at t ut = coins_at s ut)"

lemma ok_next_order:
  "(\<And>n t. (\<And>k. k \<noteq> GOODS_NUM4FISH g \<Longrightarrow> look t k = look s k) \<Longrightarrow> Q n t) \<Longrightarrow> wp (next_order_index g) Q (\<lambda>_ _. True) s"
  by (rule only_wp [of "{GOODS_NUM4FISH g}"]) (auto simp: next_order_index_def intro!: only_intros only_writes)

lemma ok_place:
  "(\<And>t. \<forall>f. f \<in> fst ` set info \<longrightarrow> hf t (ORDER_TABLE4FISH no) f = map_of (rev info) f \<Longrightarrow> no \<in> set (members t PENDING_ORDER4FISH) \<Longrightarrow>
      \<forall>k. k \<notin> order_places d no (fmt account) \<longrightarrow> look t k = look s k \<Longrightarrow> Q () t) \<Longrightarrow> wp (place_pending d no account info) Q (\<lambda>_ _. True) s"
  by (rule wp_mono [OF place_pending_ok]) auto

lemma goods_num_neq: "FORMAT_ACCOUNT2USER_TABLE a \<noteq> GOODS_NUM4FISH g" "FISH_RECHARGE_USER_DAY_IDS \<noteq> GOODS_NUM4FISH g"
  "ut \<in> user_tables \<Longrightarrow> ut \<noteq> GOODS_NUM4FISH g"
  by (auto simp: pay_keys FORMAT_ACCOUNT2USER_TABLE_def user_tables_def user_key_def)

lemma order_ok:
  "wp (wechat_order W F d sg after sid gid) (\<lambda>r t. \<forall>no. r = Reply 0 no \<longrightarrow>
     placed no (session_account s sid) (fmt (hf s (GOODS_TABLE (strip gid)) ''cards'')) s t) (\<lambda>_ _. True) s"
  unfolding wechat_order_def Let_def
proof (intro ok_thenM ok_hget session_guard_wp, goal_cases)
  case (3 account uid ut)
  show ?case
  proof (intro ok_thenM ok_bindM ok_hget ok_hmget ok_exists_key ok_if ok_retM ok_next_order ok_liftE ok_place, goal_cases)
    case (4 n t no' money rd code prepay u x)
    note frame = order_frame [OF 4(12)]
    have t: "look t (FORMAT_ACCOUNT2USER_TABLE a) = look s (FORMAT_ACCOUNT2USER_TABLE a)"
      "look t FISH_RECHARGE_USER_DAY_IDS = look s FISH_RECHARGE_USER_DAY_IDS" "w \<in> user_tables \<Longrightarrow> look t w = look s w" for a w
      using 4(2) goods_num_neq by simp_all
    have o: "hf u (ORDER_TABLE4FISH no') ''account'' = Some (fmt account)"
      "hf u (ORDER_TABLE4FISH no') ''roomCards'' = Some (fmt (hf s (GOODS_TABLE (strip gid)) ''cards''))"
      using 4(10) by (simp_all add: order_fields_def)
    have "fmt account = session_account s sid" using 3(1) by (simp add: session_account_def)
    moreover have "look u (FORMAT_ACCOUNT2USER_TABLE a) = look s (FORMAT_ACCOUNT2USER_TABLE a)" for a
      using frame(1) t(1) by (rule trans)
    moreover have "is_set u FISH_RECHARGE_USER_DAY_IDS = is_set s FISH_RECHARGE_USER_DAY_IDS"
      using trans [OF frame(2) t(2)] by (rule is_set_cong_look)
    moreover have "coins_at u w = coins_at s w" if "w \<in> user_tables" for w
      using trans [OF frame(3) [OF that] t(3) [OF that]] by (rule coins_cong)
    ultimately show ?case
      using o 4(11) unfolding placed_def by simp
  qed simp_all
qed simp_all

text \<open>C17: from the order to its coins.  When an order is placed for goods by either handler and a signed
  notification of a whole amount arrives for its number, the account of the session that placed the order
  has gained exactly the cards the goods had when it was placed; the present cards are not credited.\<close>

theorem order_paid_credits:
  assumes "accounts_ok s" "place \<in> {do_onWeChatPay W F d, do_onWeChatPay4TX W F d}" "place sid gid s = (Inr (Reply 0 no), t)"
    and "map_of params ''out_trade_no'' = Some no" "do_paymentNotifyServer F digest d' params t = (Inr (Reply 0 m), u)"
    and "look s (FORMAT_ACCOUNT2USER_TABLE (session_account s sid)) = Some (RStr ut)"
    and "py_int_none (map_of params ''total_fee'') = Inr fee" "is_set s FISH_RECHARGE_USER_DAY_IDS"
  shows "coins_at u ut = coins_at s ut + to_int (Some (fmt (hf s (GOODS_TABLE (strip gid)) ''cards'')))"
proof -
  have mem: "ut \<in> user_tables" using assms(1,6) by (auto simp: accounts_ok_def)
  have "wp (place sid gid) (\<lambda>r t. \<forall>no. r = Reply 0 no \<longrightarrow>
     placed no (session_account s sid) (fmt (hf s (GOODS_TABLE (strip gid)) ''cards'')) s t) (\<lambda>_ _. True) s"
    using assms(2) by (auto simp: do_onWeChatPay_def do_onWeChatPay4TX_def intro: order_ok)
  from wp_InrD [OF this assms(3)] have p: "placed no (session_account s sid) (fmt (hf s (GOODS_TABLE (strip gid)) ''cards'')) s t" by simp
  have acc: "accounts_ok t" using p assms(1) by (simp add: placed_def accounts_ok_def)
  have "look t (FORMAT_ACCOUNT2USER_TABLE (fmt (hf t (ORDER_TABLE4FISH no) ''account''))) = Some (RStr ut)"
    using p assms(6) by (simp add: placed_def)
  from wp_InrD [OF notify_ok [OF acc assms(4) this] assms(5)]
  have "coins_at u ut = coins_at t ut + order_due t no (map_of params ''total_fee'')" by blast
  then show ?thesis using p mem assms(7,8) by (simp add: placed_def order_due_def)
qed

definition demo_wechat :: wechat where
  "demo_wechat = \<lparr>now_s = ''20180601120000'', stamp_n = 7, pick = \<lambda>_. 4, nonce = ''o'', ask = \<lambda>_ _. Inr [(''return_code'', ''SUCCESS''), (''prepay_id'', ''p'')],
     md5 = \<lambda>_. ''S'', wx_eval = \<lambda>_. Inr []\<rparr>"

definition demo_no :: string where
  "demo_no = ''20180601120000'' @ ''005'' @ ''0000000001'' @ ''44444''"

definition demo_paid :: "(string \<times> string) list" where
  "demo_paid = AList.update ''out_trade_no'' demo_no demo_note"

definition demo_order :: redis where
  "demo_order = empty_db\<lparr>kv := [(FORMAT_USER_HALL_SESSION ''s'', RHash [(''account'', ''ann''), (''uid'', ''7'')]),
     (FORMAT_ACCOUNT2USER_TABLE ''ann'', RStr (user_key (Some ''7''))), (user_key (Some ''7''), RHash [(''coin'', ''10'')]),
     (GOODS_TABLE ''5'', RHash [(''cards'', ''60''), (''price'', ''6'')])]\<rparr>"

theorem order_paid_credits_witness:
  "coins_at (snd (do_paymentNotifyServer demo_floats (\<lambda>_. ''S'') ''d'' demo_paid
     (snd (do_onWeChatPay4TX demo_wechat demo_floats ''d'' ''s'' ''5'' demo_order)))) (user_key (Some ''7'')) = 10 + 60"
proof -
  let ?t = "snd (do_onWeChatPay4TX demo_wechat demo_floats ''d'' ''s'' ''5'' demo_order)"
  let ?u = "snd (do_paymentNotifyServer demo_floats (\<lambda>_. ''S'') ''d'' demo_paid ?t)"
  have acc: "accounts_ok demo_order"
    by (auto simp: accounts_ok_def demo_order_def look_def benefit_keys pay_keys user_tables_def split: if_splits)
  have "fst (do_onWeChatPay4TX demo_wechat demo_floats ''d'' ''s'' ''5'' demo_order) = Inr (Reply 0 demo_no)" by code_simp
  then have t: "do_onWeChatPay4TX demo_wechat demo_floats ''d'' ''s'' ''5'' demo_order = (Inr (Reply 0 demo_no), ?t)" by (simp add: prod_eq_iff)
  have "fst (do_paymentNotifyServer demo_floats (\<lambda>_. ''S'') ''d'' demo_paid ?t) = Inr (Reply 0 ''paid'')" by code_simp
  then have u: "do_paymentNotifyServer demo_floats (\<lambda>_. ''S'') ''d'' demo_paid ?t = (Inr (Reply 0 ''paid''), ?u)" by (simp add: prod_eq_iff)
  have "map_of demo_paid ''out_trade_no'' = Some demo_no" "py_int_none (map_of demo_paid ''total_fee'') = Inr 600"
    "look demo_order (FORMAT_ACCOUNT2USER_TABLE (session_account demo_order ''s'')) = Some (RStr (user_key (Some ''7'')))"
    "is_set demo_order FISH_RECHARGE_USER_DAY_IDS" "coins_at demo_order (user_key (Some ''7'')) = 10"
    "to_int (Some (fmt (hf demo_order (GOODS_TABLE (strip ''5'')) ''cards''))) = 60" by code_simp+
  then show ?thesis
    using order_paid_credits [where place = "do_onWeChatPay4TX demo_wechat demo_floats ''d''" and W = demo_wechat and F = demo_floats and d = "''d''",
        OF acc _ t _ u] by simp
qed

section \<open>Trade numbers\<close>

lemma show_nat_length: "n < 10 ^ w \<Longrightarrow> 0 < w \<Longrightarrow> length (show_nat n) \<le> w"
proof (induction w arbitrary: n)
  case (Suc w)
  show ?case
  proof (cases "n < 10")
    case True
    then show ?thesis by (simp add: show_nat.simps [of n])
  next
    case False
    then have "n div 10 < 10 ^ w" "0 < w" using Suc.prems(1) by (auto intro: Suc_lessI simp: less_mult_imp_div_less mult.commute gr0_conv_Suc split: nat.splits) (cases w; simp)
    with Suc.IH [of "n div 10"] False show ?thesis by (simp add: show_nat.simps [of n])
  qed
qed simp

lemma length_pad_int: "0 \<le> n \<Longrightarrow> n < 10 ^ w \<Longrightarrow> 0 < w \<Longrightarrow> length (pad_int w n) = w"
  using show_nat_length [of "nat n" w] by (simp add: pad_int_def Let_def show_int_def nat_less_iff)

lemma digits_val_zeros: "digits_val (replicate k (CHR ''0'') @ ds) = digits_val ds"
proof (induction k)
  case (Suc k)
  then show ?case by (simp add: digits_val_def digit_val_def)
qed simp

lemma pad_int_inj: "0 \<le> n \<Longrightarrow> 0 \<le> m \<Longrightarrow> pad_int w n = pad_int w m \<Longrightarrow> n = m"
  using show_nat_digits [of "nat n"] show_nat_digits [of "nat m"]
  by (auto simp: pad_int_def Let_def show_int_def dest!: arg_cong [where f = digits_val] simp: digits_val_zeros)

lemma concat_digits: "length (concat (map (\<lambda>i. show_int (int (f i mod 10))) [0..<k])) = k"
proof -
  have "length (show_int (int (f i mod 10))) = 1" for i
    by (simp add: show_int_def show_nat.simps [of "f i mod 10"] nat_int)
  then show ?thesis by (induction k) simp_all
qed

text \<open>A trade number has exactly 32 characters, and two of them agree only for the same second, the same goods
  and the same index, whatever the random digits.\<close>

theorem trade_numbers_distinct:
  assumes "getOutTradeNo now dg a i = Inr no" "getOutTradeNo now' dg' b j = Inr no'" "length now = 14" "length now' = 14"
    and "py_int a = Inr g" "py_int b = Inr h" "0 \<le> g" "g < 1000" "0 \<le> h" "h < 1000" "0 \<le> i" "i < 10000000000" "0 \<le> j" "j < 10000000000"
  shows "length no = 32 \<and> (no = no' \<longrightarrow> now = now' \<and> g = h \<and> i = j)"
proof -
  have len: "length (pad_int 3 g) = 3" "length (pad_int 3 h) = 3" "length (pad_int 10 i) = 10" "length (pad_int 10 j) = 10"
    using assms by (auto intro!: length_pad_int)
  from assms(1,3,5) len have no: "no = now @ pad_int 3 g @ pad_int 10 i @ concat (map (\<lambda>i. show_int (int (dg i mod 10))) [0..<5])"
    by (auto simp: getOutTradeNo_def Let_def MAX_TRADE_NO_COUNT_def simp del: upt_rec_numeral)
  from assms(2,4,6) len have no': "no' = now' @ pad_int 3 h @ pad_int 10 j @ concat (map (\<lambda>i. show_int (int (dg' i mod 10))) [0..<5])"
    by (auto simp: getOutTradeNo_def Let_def MAX_TRADE_NO_COUNT_def simp del: upt_rec_numeral)
  have "length no = 32" unfolding no length_append concat_digits using len assms(3) by simp
  moreover have "now = now' \<and> g = h \<and> i = j" if "no = no'"
    using that assms(3,4,7,9,11,13) len pad_int_inj [of g h 3] pad_int_inj [of i j 10] unfolding no no' by (simp del: upt_rec_numeral)
  ultimately show ?thesis by blast
qed

theorem trade_numbers_distinct_witness:
  "length demo_no = 32"
proof -
  have "getOutTradeNo ''20180601120000'' (\<lambda>_. 4) ''5'' 1 = Inr demo_no" "py_int ''5'' = Inr 5" by code_simp+
  from trade_numbers_distinct [OF this(1) this(1) _ _ this(2) this(2)] show ?thesis by simp
qed

end
