(* ===== verification/RunRules.thy ===== *)
theory RunRules
  imports Sessions
begin

text \<open>
  Symbolic execution of every run of a handler, one step at a time: what holds of the state when a read
  fails is asked once, as a separate obligation.  The rules fit obligations whose two outcomes ask the
  same of the state.
\<close>

named_theorems run_wp "one step of a run, whether it returns or raises"

lemma run_retM [run_wp]: "Q x s \<Longrightarrow> wp (retM x) Q E s"
  by (simp add: wp_retM)

lemma run_raiseM [run_wp]: "E e s \<Longrightarrow> wp (raiseM e) Q E s"
  by (simp add: wp_raiseM)

lemma run_bindM [run_wp]: "wp m (\<lambda>x. wp (f x) Q E) E s \<Longrightarrow> wp (bindM m f) Q E s"
  by (simp add: wp_bindM)

lemma run_thenM [run_wp]: "wp m (\<lambda>_. wp k Q E) E s \<Longrightarrow> wp (thenM m k) Q E s"
  by (simp add: wp_thenM)

lemma run_tryM [run_wp]: "wp m Q (\<lambda>_. wp h Q E) s \<Longrightarrow> wp (tryM m h) Q E s"
  by (simp add: wp_tryM)

lemma run_liftE [run_wp]: "(\<And>e. E e s) \<Longrightarrow> (\<And>x. r = Inr x \<Longrightarrow> Q x s) \<Longrightarrow> wp (liftE r) Q E s"
  by (simp add: wp_liftE split: sum.split)

lemma run_if [run_wp]: "(b \<Longrightarrow> wp m Q E s) \<Longrightarrow> (\<not> b \<Longrightarrow> wp k Q E s) \<Longrightarrow> wp (if b then m else k) Q E s"
  by simp

lemma run_option [run_wp]:
  "(v = None \<Longrightarrow> wp m Q E s) \<Longrightarrow> (\<And>x. v = Some x \<Longrightarrow> wp (f x) Q E s) \<Longrightarrow> wp (case v of None \<Rightarrow> m | Some x \<Rightarrow> f x) Q E s"
  by (cases v) auto

lemma run_get [run_wp]: "E ResponseError s \<Longrightarrow> (\<And>v. look s k = map_option RStr v \<Longrightarrow> Q v s) \<Longrightarrow> wp (get k) Q E s"
  by (auto simp: wp_get split: option.split rval.split)

lemma run_exists_key [run_wp]: "Q (look s k \<noteq> None) s \<Longrightarrow> wp (exists_key k) Q E s"
  by (simp add: wp_exists_key)

lemma run_hget [run_wp]: "E ResponseError s \<Longrightarrow> (is_hash s k \<Longrightarrow> Q (hf s k f) s) \<Longrightarrow> wp (hget k f) Q E s"
  by (simp add: wp_hget)

lemma run_hmget [run_wp]: "E ResponseError s \<Longrightarrow> (is_hash s k \<Longrightarrow> Q (map (hf s k) fs) s) \<Longrightarrow> wp (hmget k fs) Q E s"
  by (simp add: wp_hmget)

lemma run_hgetall [run_wp]: "E ResponseError s \<Longrightarrow> (is_hash s k \<Longrightarrow> Q (hash_of s k) s) \<Longrightarrow> wp (hgetall k) Q E s"
  by (simp add: wp_hgetall)

lemma run_smembers [run_wp]: "E ResponseError s \<Longrightarrow> (is_set s k \<Longrightarrow> Q (members s k) s) \<Longrightarrow> wp (smembers k) Q E s"
  by (simp add: wp_smembers)

lemma run_hset [run_wp]: "E ResponseError s \<Longrightarrow> (is_hash s k \<Longrightarrow> Q () (hput k f v s)) \<Longrightarrow> wp (hset k f v) Q E s"
  by (simp add: wp_hset)

lemma run_hmset [run_wp]: "E ResponseError s \<Longrightarrow> (is_hash s k \<Longrightarrow> Q () (hputs k m s)) \<Longrightarrow> wp (hmset k m) Q E s"
  by (simp add: wp_hmset)

lemma run_sadd [run_wp]: "E ResponseError s \<Longrightarrow> (is_set s k \<Longrightarrow> Q () (put_set k (List.insert v (members s k)) s)) \<Longrightarrow> wp (sadd k v) Q E s"
  by (simp add: wp_sadd)

lemma run_srem [run_wp]: "E ResponseError s \<Longrightarrow> (is_set s k \<Longrightarrow> Q () (put_set k (removeAll v (members s k)) s)) \<Longrightarrow> wp (srem k v) Q E s"
  by (simp add: wp_srem)

text \<open>Looking a session up tells its account, or raises.\<close>

lemma info_wp:
  assumes "E ResponseError s" "\<And>uid v. wp (body (FORMAT_USER_HALL_SESSION sid, hf s (FORMAT_USER_HALL_SESSION sid) ''account'', uid, v)) Q E s"
  shows "wp (bindM (getInfoBySid sid) body) Q E s"
  using assms by (auto simp: getInfoBySid_def wp_eqs split: option.split rval.split)

end
