(* ===== verification/BuyLaws.thy ===== *)
theory BuyLaws
  imports PayLaws RunRules
begin

text \<open>
  What buying diamonds into the safe box does (\<open>do_buyCoin\<close> and \<open>vip_charge_record\<close> of fish/fish_pay.py), however
  the request ends: the goods are delivered before the charge is recorded, so a price that is not a number
  delivers them and then ends in an error.
\<close>

text \<open>The level after a charge that makes the sum \<open>n\<close>, from the level before.\<close>

definition vip_level_of :: "int \<Rightarrow> string option \<Rightarrow> string option" where
  "vip_level_of n l = (if n \<ge> 20000 then Some ''5'' else if n \<ge> 10000 then Some ''4'' else if n \<ge> 6000 then Some ''3''
     else if n \<ge> 3000 then Some ''2'' else if n \<ge> 1000 then Some ''1'' else l)"

text \<open>The price of the form can be added to the sum the user was charged.\<close>

definition chargeable :: "string option \<Rightarrow> string \<Rightarrow> redis \<Rightarrow> bool" where
  "chargeable uid price s \<longleftrightarrow> (case (strtoll price, held s (user_key uid, ''vip_charge'')) of
     (Some p, Some w) \<Rightarrow> in_llong (w + p) | _ \<Rightarrow> False)"

definition charged :: "string option \<Rightarrow> string \<Rightarrow> redis \<Rightarrow> redis \<Rightarrow> bool" where
  "charged uid price s t \<longleftrightarrow> (\<exists>p w. strtoll price = Some p \<and> held s (user_key uid, ''vip_charge'') = Some w \<and>
     held t (user_key uid, ''vip_charge'') = Some (w + p) \<and>
     hf t (user_key uid) ''vip_level'' = vip_level_of (w + p) (hf s (user_key uid) ''vip_level''))"

text \<open>The box was open and holds the cards and the present of the goods more, \<open>n\<close> in all.\<close>

definition delivered :: "string option \<Rightarrow> string \<Rightarrow> int \<Rightarrow> redis \<Rightarrow> redis \<Rightarrow> bool" where
  "delivered uid good n s t \<longleftrightarrow>
     truthy (hf s (user_key uid) ''box_pwd'') \<and> hf s (user_key uid) ''box_lock'' = Some ''2'' \<and>
     (\<exists>cards present_card. int_or (hf s (GOODS_TABLE good) ''cards'') 0 = Inr cards \<and>
        int_or (hf s (GOODS_TABLE good) ''present_cards'') 0 = Inr present_card \<and>
        map_option (\<lambda>d. d + cards + present_card) (held s (box_key uid, ''1'')) = Some n \<and> held t (box_key uid, ''1'') = Some n)"

definition same_but :: "(string \<times> string) set \<Rightarrow> redis \<Rightarrow> redis \<Rightarrow> bool" where
  "same_but ps s t \<longleftrightarrow> (\<forall>k f. (k, f) \<notin> ps \<longrightarrow> hf t k f = hf s k f)"

text \<open>How a request to buy can end.\<close>

definition buy_outcome :: "string option \<Rightarrow> string \<Rightarrow> string \<Rightarrow> redis \<Rightarrow> exn + reply \<times> int \<Rightarrow> redis \<Rightarrow> bool" where
  "buy_outcome uid price good s r t \<longleftrightarrow> (case r of
     Inr (Reply c m, n) \<Rightarrow> if c = 0
       then delivered uid good n s t \<and> charged uid price s t \<and>
         same_but {(box_key uid, ''1''), (user_key uid, ''vip_charge''), (user_key uid, ''vip_level'')} s t
       else t = s
   | Inl e \<Rightarrow> (\<forall>k. k \<noteq> ''fish:diamond:charge:sum'' \<longrightarrow> look t k = look s k) \<or>
       (\<exists>n. delivered uid good n s t) \<and> \<not> chargeable uid price s \<and> same_but {(box_key uid, ''1'')} s t)"

lemma run_hincrby:
  assumes "is_hash s k"
    and "\<not> (case (strtoll amt, counter (hf s k f)) of (Some p, Some w) \<Rightarrow> in_llong (w + p) | _ \<Rightarrow> False) \<Longrightarrow> E ResponseError s"
    and "\<And>p w. strtoll amt = Some p \<Longrightarrow> counter (hf s k f) = Some w \<Longrightarrow> in_llong (w + p) \<Longrightarrow>
      Q (w + p) (hput k f (show_int (w + p)) s)"
  shows "wp (hincrby k f amt) Q E s"
  using assms by (auto simp: wp_hincrby split: option.split)

lemma sure_hset: "is_hash s k \<Longrightarrow> Q () (hput k f v s) \<Longrightarrow> wp (hset k f v) Q E s"
  by (simp add: wp_hset)

lemma run_incrby:
  assumes "E ResponseError s"
    and "\<And>t n. (\<And>j. j \<noteq> k \<Longrightarrow> look t j = look s j) \<Longrightarrow> (\<And>j f. hf t j f = hf s j f) \<Longrightarrow> Q n t"
  shows "wp (incrby k amt) Q E s"
  using assms by (auto simp: wp_incrby hf_def hash_of_def split: option.split rval.split)

lemma vip_charge_wp:
  assumes "is_hash s (user_key uid)"
  shows "wp (vip_charge_record uid price)
    (\<lambda>_ t. charged uid price s t \<and> same_but {(user_key uid, ''vip_charge''), (user_key uid, ''vip_level'')} s t)
    (\<lambda>_ t. t = s \<and> \<not> chargeable uid price s) s"
  unfolding vip_charge_record_def
  by (intro run_bindM run_hincrby run_thenM run_if sure_hset run_retM assms conjI refl)
    (simp_all add: chargeable_def charged_def held_def same_but_def strtoll_show_int vip_level_of_def)

lemma charge_sum_neq [simp]: "user_key u \<noteq> ''fish:diamond:charge:sum''" "box_key u \<noteq> ''fish:diamond:charge:sum''"
  by (simp_all add: user_key_def box_key_def)

lemma goods_key_neq [simp]: "GOODS_TABLE g \<noteq> ''fish:diamond:charge:sum''"
  by (simp add: GOODS_TABLE_def)

lemma run_deliver:
  assumes "E ResponseError s"
    and "\<And>p w. strtoll amt = Some p \<Longrightarrow> counter (hf s k f) = Some w \<Longrightarrow> in_llong (w + p) \<Longrightarrow>
      Q (w + p) (hput k f (show_int (w + p)) s)"
  shows "wp (hincrby k f amt) Q E s"
  using assms by (auto simp: wp_hincrby split: option.split)

text \<open>The charge is recorded in a state that differs from the first one in the box alone.\<close>

lemma charge_after_delivery:
  assumes "same_but {(box_key uid, ''1'')} s t" "is_hash t (user_key uid)" "delivered uid good n s t"
  shows "wp (thenM (vip_charge_record uid price) (retM (Reply 0 ''bought'', n)))
    (\<lambda>r t. buy_outcome uid price good s (Inr r) t) (\<lambda>e t. buy_outcome uid price good s (Inl e) t) t"
proof -
  have u: "hf t (user_key uid) f = hf s (user_key uid) f" for f
    using assms(1) by (simp add: same_but_def)
  then have same: "chargeable uid price t = chargeable uid price s"
    by (simp add: chargeable_def held_def)
  show ?thesis
  proof (intro run_thenM wp_mono [OF vip_charge_wp] run_retM assms(2), goal_cases)
    case (1 _ v)
    then show ?case using assms(1,3) by (auto simp: buy_outcome_def charged_def delivered_def same_but_def held_def u)
  next
    case (2 e v)
    then show ?case using assms(1,3) by (auto simp: buy_outcome_def same)
  qed
qed

lemma buy_wp:
  "wp (do_buyCoin sid price good) (\<lambda>r t. buy_outcome (sid_uid s sid) (strip price) (strip good) s (Inr r) t)
     (\<lambda>e t. buy_outcome (sid_uid s sid) (strip price) (strip good) s (Inl e) t) s"
  unfolding do_buyCoin_def
proof (intro run_bindM uidBySid_wp run_hmget run_if run_retM run_thenM run_liftE run_incrby, goal_cases)
  case (8 t n cards present_card)
  let ?u = "sid_uid s sid"
  have same: "look t k = look s k" if "k \<noteq> ''fish:diamond:charge:sum''" for k using 8(5) that .
  have hash: "is_hash t (user_key ?u)" using 8(1) same [of "user_key ?u"] by (simp add: is_hash_def)
  show ?case
  proof (intro run_deliver charge_after_delivery, goal_cases)
    case 1
    show ?case using same by (simp add: buy_outcome_def)
  next
    case (2 p w)
    show ?case using 8(6) by (simp add: same_but_def)
  next
    case (3 p w)
    show ?case using hash by simp
  next
    case (4 p w)
    then show ?case using 8 by (auto simp: delivered_def held_def strtoll_show_int dest!: strtoll_show_intD)
  qed
qed (simp_all add: buy_outcome_def)

text \<open>C19: however a request to buy ends.  A refusal changes nothing.  A success needs the box to be open; the box
  then holds the cards and the present of the goods more, although nothing was paid, the charged sum grows by the
  price the client sent, the VIP level is the one of the new sum, and no other field of any table changes.  An
  error leaves everything but the sum of all charges alone, or comes after the box was given the goods, because the
  price the client sent cannot be added to the sum he was charged, and then nothing else changes.\<close>

theorem buy_coin_effect:
  assumes "do_buyCoin sid price good s = (r, t)"
  shows "buy_outcome (sid_uid s sid) (strip price) (strip good) s r t"
  using buy_wp [of sid price good s] assms by (simp add: wp_def split: sum.splits)

definition demo_buy :: redis where
  "demo_buy = empty_db\<lparr>kv := [(FORMAT_USER_HALL_SESSION ''s'', RHash [(''account'', ''ann''), (''uid'', ''7'')]),
     (user_key (Some ''7''), RHash [(''box_pwd'', ''x''), (''box_lock'', ''2'')]), (GOODS_TABLE ''g'', RHash [(''cards'', ''6''), (''price'', ''9'')])]\<rparr>"

theorem buy_coin_effect_witness:
  "buy_outcome (Some ''7'') ''2'' ''g'' demo_buy (Inr (Reply 0 ''bought'', 6)) (snd (do_buyCoin ''s'' ''2'' ''g'' demo_buy)) \<and>
   buy_outcome (Some ''7'') ''x'' ''g'' demo_buy (Inl ResponseError) (snd (do_buyCoin ''s'' ''x'' ''g'' demo_buy))"
proof -
  have "fst (do_buyCoin ''s'' ''2'' ''g'' demo_buy) = Inr (Reply 0 ''bought'', 6)"
    "fst (do_buyCoin ''s'' ''x'' ''g'' demo_buy) = Inl ResponseError"
    "sid_uid demo_buy ''s'' = Some ''7''" "strip ''2'' = ''2''" "strip ''x'' = ''x''" "strip ''g'' = ''g''" by code_simp+
  then show ?thesis
    using buy_coin_effect [of "''s''" "''2''" "''g''" demo_buy "Inr (Reply 0 ''bought'', 6)"]
      buy_coin_effect [of "''s''" "''x''" "''g''" demo_buy "Inl ResponseError"] by (simp add: prod_eq_iff)
qed

text \<open>A price that is not a number, or none at all, delivers the goods and answers with an error.\<close>

theorem buy_without_price:
  "fst (do_buyCoin ''s'' ''x'' ''g'' demo_buy) = Inl ResponseError \<and>
   held (snd (do_buyCoin ''s'' ''x'' ''g'' demo_buy)) (box_key (Some ''7''), ''1'') = Some 6 \<and>
   hf (snd (do_buyCoin ''s'' ''x'' ''g'' demo_buy)) (user_key (Some ''7'')) ''vip_charge'' = None"
  by code_simp

end
