(* ===== verification/Clubs.thy ===== *)
theory Clubs
  imports HallCommon
begin

text \<open>
  Clubs of the card games: hall/club.py with the key names of club_db_define.py.  A club has an owner, up
  to three managers, members, and applications waiting for an answer.  Managers are kept as the text of
  a Python set: its text and \<open>eval\<close> of it are arguments (\<open>pyset\<close>).
\<close>

section \<open>Keys\<close>

definition CLUB_CREATE_ATTR :: string where "CLUB_CREATE_ATTR = ''club:create_attribute:hash''"
definition CLUB_LIST :: string where "CLUB_LIST = ''club:list:set''"
definition CLUB_ACCOUNT_LIST :: "string \<Rightarrow> string" where "CLUB_ACCOUNT_LIST a = ''club:account:'' @ a @ '':set''"
definition CLUB_PLAYER_LIST :: "string \<Rightarrow> string" where "CLUB_PLAYER_LIST c = ''club:players:'' @ c @ '':set''"
definition CLUB_PLAYER_TO_CLUB_LIST :: "string \<Rightarrow> string" where "CLUB_PLAYER_TO_CLUB_LIST a = ''club:players:accounts:'' @ a @ '':set''"
definition CLUB_ATTR :: "string \<Rightarrow> string" where "CLUB_ATTR c = ''club:attribute:'' @ c @ '':hash''"
definition CLUB_AUDI_LIST :: "string \<Rightarrow> string" where "CLUB_AUDI_LIST c = ''club:auditing:'' @ c @ '':set''"
definition CLUB_PLAYER_INTO :: "string \<Rightarrow> string" where "CLUB_PLAYER_INTO a = ''club:into:'' @ a"
definition CLUB_EXTENDS_ATTRIBUTE :: "string \<Rightarrow> string \<Rightarrow> string" where
  "CLUB_EXTENDS_ATTRIBUTE c i = ''club:auto:create:room:'' @ c @ '':'' @ i @ '':hset''"
definition CLUB_EXTENDS_LIST_ATTRIBUTE :: "string \<Rightarrow> string" where
  "CLUB_EXTENDS_LIST_ATTRIBUTE c = ''club:auto:create:room:'' @ c @ '':set''"
definition ONLINE_ACCOUNTS_TABLE :: string where "ONLINE_ACCOUNTS_TABLE = ''online:accounts''"
definition USER4AGENT_CARD :: "string \<Rightarrow> string \<Rightarrow> string" where "USER4AGENT_CARD ag i = ''agent:'' @ ag @ '':user:'' @ i @ '':card''"
definition auto_create_allow :: string where "auto_create_allow = ''club:auto_create:allow''"

section \<open>Texts\<close>

record pyset =
  str_set :: "string list \<Rightarrow> string"
  eval_set :: "string \<Rightarrow> exn + string list"

text \<open>\<open>eval\<close> of a field, and \<open>account in data\<close>.\<close>

definition eval_field :: "pyset \<Rightarrow> string option \<Rightarrow> exn + string list" where
  "eval_field E v = (case v of None \<Rightarrow> Inl TypeError | Some t \<Rightarrow> eval_set E t)"

definition among :: "string option \<Rightarrow> string list \<Rightarrow> bool" where
  "among account data = (case account of None \<Rightarrow> False | Some a \<Rightarrow> a \<in> set data)"

text \<open>\<open>t.split(sep)\<close> with the text read so far.\<close>

fun split_sep :: "string \<Rightarrow> string \<Rightarrow> string \<Rightarrow> string list" where
  "split_sep sep acc [] = [rev acc]"
| "split_sep sep acc (c # cs) =
     (if take (length sep) (c # cs) = sep then rev acc # split_sep sep [] (drop (length sep - 1) cs) else split_sep sep (c # acc) cs)"

definition audit_sep :: string where "audit_sep = ''|---|''"

definition audit_item :: "string option \<Rightarrow> string option \<Rightarrow> string option \<Rightarrow> string \<Rightarrow> string" where
  "audit_item account nick img status =
     fmt account @ audit_sep @ fmt nick @ audit_sep @ fmt img @ audit_sep @ status"

definition audit_parts :: "string \<Rightarrow> exn + (string \<times> string \<times> string \<times> string)" where
  "audit_parts entry = (case split_sep audit_sep [] entry of [a, b, c, d] \<Rightarrow> Inr (a, b, c, d) | _ \<Rightarrow> Inl ValueError)"

section \<open>ClubOperation\<close>

definition club_create_fields :: "string option \<Rightarrow> string \<Rightarrow> string \<Rightarrow> string \<Rightarrow> (string \<times> string) list" where
  "club_create_fields account club_name ag club_content =
     [(''club_name'', club_name), (''club_user'', fmt account), (''club_max_players'', ''9999''), (''club_is_vip'', ''0''),
      (''club_content'', club_content), (''club_use_create_room'', ''1''), (''club_manager'', ''set()''), (''club_agent'', ag)]"

definition op_create_club :: "string option \<Rightarrow> string \<Rightarrow> string \<Rightarrow> string \<Rightarrow> string \<Rightarrow> unit rh" where
  "op_create_club account club_number club_name ag club_content =
     thenM (sadd CLUB_LIST club_number)
     (thenM (hmset (CLUB_ATTR club_number) (club_create_fields account club_name ag club_content))
     (sadd (CLUB_ACCOUNT_LIST (fmt account)) club_number))"

definition op_add_club :: "string option \<Rightarrow> string \<Rightarrow> bool rh" where
  "op_add_club account club_number =
     bindM (exists_key (CLUB_ATTR club_number)) (\<lambda>ex.
     if ex then
       tryM (thenM (sadd (CLUB_PLAYER_TO_CLUB_LIST (fmt account)) club_number)
            (thenM (sadd (CLUB_PLAYER_LIST club_number) (fmt account)) (retM True))) (retM False)
     else retM False)"

definition op_sign_out_club :: "string option \<Rightarrow> string \<Rightarrow> bool rh" where
  "op_sign_out_club account club_number =
     tryM (thenM (srem (CLUB_PLAYER_LIST club_number) (fmt account))
          (thenM (srem (CLUB_PLAYER_TO_CLUB_LIST (fmt account)) club_number) (retM True))) (retM False)"

record club_row =
  row_name :: "string option"
  row_persons :: int
  row_number :: string
  row_creator :: int
  row_manager :: int

text \<open>The club the player entered last moves to the front.\<close>

definition history_first :: "string option \<Rightarrow> string list \<Rightarrow> string list rh" where
  "history_first account l =
     bindM (exists_key (CLUB_PLAYER_INTO (fmt account))) (\<lambda>ex. if \<not> ex then retM l else
     bindM (get (CLUB_PLAYER_INTO (fmt account))) (\<lambda>h.
     retM (case h of None \<Rightarrow> l | Some c \<Rightarrow> if c \<in> set l then c # remove1 c l else l)))"

definition get_cur_club_list :: "string option \<Rightarrow> club_row list rh" where
  "get_cur_club_list account =
     bindM (smembers (CLUB_ACCOUNT_LIST (fmt account))) (\<lambda>l0.
     bindM (history_first account l0) (\<lambda>l.
     mapM l (\<lambda>item.
       bindM (hget (CLUB_ATTR item) ''club_name'') (\<lambda>club_name.
       bindM (smembers (CLUB_PLAYER_LIST item)) (\<lambda>ps.
       retM \<lparr>row_name = club_name, row_persons = int (length ps) + 1, row_number = item, row_creator = 1, row_manager = 0\<rparr>)))))"

definition get_player_club_list :: "pyset \<Rightarrow> string option \<Rightarrow> club_row list rh" where
  "get_player_club_list E account =
     bindM (smembers (CLUB_PLAYER_TO_CLUB_LIST (fmt account))) (\<lambda>l0.
     bindM (history_first account l0) (\<lambda>l.
     mapM l (\<lambda>item.
       bindM (hget (CLUB_ATTR item) ''club_name'') (\<lambda>club_name.
       bindM (hget (CLUB_ATTR item) ''club_manager'') (\<lambda>m.
       bindM (if truthy m then liftE (eval_field E m) else retM []) (\<lambda>club_manager.
       bindM (smembers (CLUB_PLAYER_LIST item)) (\<lambda>ps.
       retM \<lparr>row_name = club_name, row_persons = int (length ps) + 1, row_number = item, row_creator = 0,
         row_manager = (if among account club_manager then 1 else 0)\<rparr>)))))))"

text \<open>An application that does not have four parts makes the handler send a removal without a member, which
  the server answers with an error.\<close>

record all_row = club_row +
  row_join :: int
  row_apply :: int

fun apply_status_of :: "string option \<Rightarrow> string list \<Rightarrow> string \<Rightarrow> string rh" where
  "apply_status_of account [] st = retM st"
| "apply_status_of account (entry # entries) st =
     (case audit_parts entry of
        Inl _ \<Rightarrow> raiseM ResponseError
      | Inr (a, nick, img, status) \<Rightarrow> apply_status_of account entries (if account = Some a then status else st))"

definition get_all_club_list :: "pyset \<Rightarrow> string option \<Rightarrow> all_row list rh" where
  "get_all_club_list E account =
     bindM (smembers CLUB_LIST) (\<lambda>l.
     mapM l (\<lambda>item.
       bindM (hget (CLUB_ATTR item) ''club_name'') (\<lambda>club_name.
       bindM (smembers (CLUB_PLAYER_LIST item)) (\<lambda>players.
       thenM (hmget (CLUB_ATTR item) [''club_name''])
       (bindM (hget (CLUB_ATTR item) ''club_manager'') (\<lambda>m.
       bindM (liftE (eval_field E m)) (\<lambda>data.
       bindM (if among account data then retM (show_int (- 2)) else
              bindM (smembers (CLUB_AUDI_LIST item)) (\<lambda>apply_list. apply_status_of account apply_list (show_int (- 2)))) (\<lambda>st.
       bindM (liftE (py_int st)) (\<lambda>n.
       retM \<lparr>row_name = club_name, row_persons = int (length players) + 1, row_number = item, row_creator = 0,
         row_manager = (if among account data then 1 else 0), row_join = (if among account players then 1 else 0), row_apply = n\<rparr>)))))))))"

section \<open>Creating, disbanding, editing\<close>

text \<open>The session check of the club handlers.\<close>

definition club_guard :: "string \<Rightarrow> 'a \<Rightarrow> (string option \<Rightarrow> 'a rh) \<Rightarrow> 'a rh" where
  "club_guard sid elsewhere body =
     bindM (getInfoBySid sid) (\<lambda>(SessionTable, account, uid, verfiySid).
     if truthy verfiySid \<and> Some sid \<noteq> verfiySid then retM elsewhere else body account)"

definition all_ints :: "string list \<Rightarrow> exn + int list" where
  "all_ints l = foldr (\<lambda>t r. case py_int t of Inl e \<Rightarrow> Inl e | Inr n \<Rightarrow> (case r of Inl e \<Rightarrow> Inl e | Inr ns \<Rightarrow> Inr (n # ns))) l (Inr [])"

text \<open>One more than the largest number, with every digit four replaced by five.\<close>

definition no_four :: "char \<Rightarrow> char" where
  "no_four c = (if c = CHR ''4'' then CHR ''5'' else c)"

definition next_club_id :: "int list \<Rightarrow> exn + int" where
  "next_club_id club_list =
     (let next_id = show_int (if club_list = [] then 2000 else Max (set club_list) + 1)
      in py_int (map no_four next_id))"

definition create_club :: "string \<Rightarrow> string \<Rightarrow> (reply + int) rh" where
  "create_club sid_form name_form =
     tryM (let sid = strip sid_form; club_name = strip name_form; club_content = strip name_form in
       if club_name = [] then retM (Inl (Reply 1 ''no name'')) else
       club_guard sid (Inl (Reply (- 4) ''elsewhere'')) (\<lambda>account.
       bindM (get (FORMAT_ACCOUNT2USER_TABLE (fmt account))) (\<lambda>ut.
       bindM (hgetall (fmt ut)) (\<lambda>user.
       case map_of user ''parentAg'' of None \<Rightarrow> raiseM KeyError | Some ag \<Rightarrow>
       if ag = [] then retM (Inl (Reply 1 ''no agent'')) else
       thenM (hget CLUB_CREATE_ATTR ''max_club_num'')
       (bindM (smembers (CLUB_ACCOUNT_LIST (fmt account))) (\<lambda>own.
        if length own \<ge> 10 then retM (Inl (Reply 1 ''too many clubs'')) else
        bindM (smembers CLUB_LIST) (\<lambda>l.
        bindM (liftE (all_ints l)) (\<lambda>club_list.
        bindM (liftE (next_club_id club_list)) (\<lambda>next_id.
        thenM (op_create_club account (show_int next_id) club_name ag club_content)
        (retM (Inr next_id)))))))))))
     (retM (Inl (Reply 1 ''failed'')))"

definition delete_club :: "string \<Rightarrow> string \<Rightarrow> reply rh" where
  "delete_club sid_form no_form =
     tryM (let sid = strip sid_form; club_number = strip no_form in
       club_guard sid (Reply (- 4) ''elsewhere'') (\<lambda>account.
       bindM (exists_key (CLUB_ATTR club_number)) (\<lambda>ex.
       if \<not> ex then retM (Reply 1 ''no such club'') else
       bindM (hget (CLUB_ATTR club_number) ''club_user'') (\<lambda>club_user.
       if club_user \<noteq> account then retM (Reply 1 ''not yours'') else
       bindM (smembers (CLUB_PLAYER_LIST club_number)) (\<lambda>players.
       thenM (execute ([delete_key (CLUB_ATTR club_number), srem CLUB_LIST club_number, srem (CLUB_ACCOUNT_LIST (fmt account)) club_number] @
           map (\<lambda>player. srem (CLUB_PLAYER_TO_CLUB_LIST player) club_number) players @ [delete_key (CLUB_PLAYER_LIST club_number)]))
       (retM (Reply 0 ''deleted'')))))))
     (retM (Reply 1 ''failed''))"

text \<open>\<open>club_user != account and account not in data\<close> in the order of the handler.\<close>

definition no_right :: "string option \<Rightarrow> string option \<Rightarrow> string list \<Rightarrow> bool" where
  "no_right club_user account data \<longleftrightarrow> club_user \<noteq> account \<and> \<not> among account data"

definition edit_club :: "pyset \<Rightarrow> string \<Rightarrow> string \<Rightarrow> string \<Rightarrow> reply rh" where
  "edit_club E sid_form no_form content_form =
     (let sid = strip sid_form; club_number = strip no_form in
      if club_number = [] then retM (Reply 1 ''no number'') else
      bindM (getInfoBySid sid) (\<lambda>(SessionTable, account, uid, verfiySid).
      bindM (exists_key (CLUB_ATTR club_number)) (\<lambda>ex.
      if \<not> ex then retM (Reply 1 ''failed'') else
      bindM (hget (CLUB_ATTR club_number) ''club_manager'') (\<lambda>m.
      bindM (liftE (eval_field E m)) (\<lambda>data.
      bindM (hget (CLUB_ATTR club_number) ''club_user'') (\<lambda>club_user.
      if no_right club_user account data then retM (Reply 1 ''no right'') else
      thenM (hset (CLUB_ATTR club_number) ''club_content'' (strip content_form)) (retM (Reply 0 ''edited''))))))))"

definition get_one :: "pyset \<Rightarrow> string \<Rightarrow> string \<Rightarrow> (reply + (string \<times> string) list \<times> string list \<times> int) rh" where
  "get_one E sid_form no_form =
     (let sid = strip sid_form; club_number = strip no_form in
      if club_number = [] then retM (Inl (Reply 1 ''no number'')) else
      bindM (getInfoBySid sid) (\<lambda>(SessionTable, account, uid, verfiySid).
      bindM (exists_key (CLUB_ATTR club_number)) (\<lambda>ex.
      if \<not> ex then retM (Inl (Reply 1 ''no such club'')) else
      if truthy verfiySid \<and> Some sid \<noteq> verfiySid then retM (Inl (Reply (- 4) ''elsewhere'')) else
      bindM (hgetall (CLUB_ATTR club_number)) (\<lambda>club_data.
      bindM (liftE (case map_of club_data ''club_manager'' of None \<Rightarrow> Inl KeyError | Some t \<Rightarrow> eval_set E t)) (\<lambda>managers.
      bindM (smembers (CLUB_PLAYER_LIST club_number)) (\<lambda>ps.
      retM (Inr (club_data, managers, int (length ps)))))))))"

section \<open>Lists\<close>

definition get_club_list :: "pyset \<Rightarrow> string \<Rightarrow> (reply + all_row list) rh" where
  "get_club_list E sid_form =
     club_guard (strip sid_form) (Inl (Reply (- 4) ''elsewhere'')) (\<lambda>account. bindM (get_all_club_list E account) (\<lambda>l. retM (Inr l)))"

definition get_owner_list :: "string \<Rightarrow> (reply + club_row list) rh" where
  "get_owner_list sid_form =
     club_guard (strip sid_form) (Inl (Reply (- 4) ''elsewhere'')) (\<lambda>account. bindM (get_cur_club_list account) (\<lambda>l. retM (Inr l)))"

definition join_club_list :: "pyset \<Rightarrow> string \<Rightarrow> (reply + club_row list) rh" where
  "join_club_list E sid_form =
     club_guard (strip sid_form) (Inl (Reply (- 4) ''elsewhere'')) (\<lambda>account. bindM (get_player_club_list E account) (\<lambda>l. retM (Inr l)))"

text \<open>The place of the last row of a club, 0 if there is none; swapping it to the front.\<close>

definition switch_number :: "string \<Rightarrow> club_row list \<Rightarrow> nat" where
  "switch_number c l = foldl (\<lambda>n (i, r). if row_number r = c then i else n) 0 (enumerate 0 l)"

definition swap_front :: "nat \<Rightarrow> 'a list \<Rightarrow> 'a list" where
  "swap_front n l = (l[n := l ! 0])[0 := l ! n]"

definition club_of_list :: "pyset \<Rightarrow> string \<Rightarrow> (reply + club_row list) rh" where
  "club_of_list E sid_form =
     club_guard (strip sid_form) (Inl (Reply (- 4) ''elsewhere'')) (\<lambda>account.
     bindM (get_cur_club_list account) (\<lambda>own.
     bindM (get_player_club_list E account) (\<lambda>joined. let cur_list = own @ joined in
     bindM (get (CLUB_PLAYER_INTO (fmt account))) (\<lambda>c.
     retM (Inr (if cur_list = [] then [] else if truthy c then swap_front (switch_number (fmt c) cur_list) cur_list else cur_list))))))"

text \<open>The players of a club with the time since they left; \<open>secs_of\<close> reads a date as seconds.\<close>

datatype ago = Never | Days int | Hours int | Minutes int | Seconds int

definition ago_of :: "int \<Rightarrow> ago" where
  "ago_of seco = (let mon = seco div 60; hour = mon div 60; day = hour div 24 in
     if day \<ge> 1 then Days day else if hour \<ge> 1 then Hours hour else if mon \<ge> 1 then Minutes mon else Seconds seco)"

record player_row =
  pl_account :: "string option"
  pl_nickname :: "string option"
  pl_avatar :: "string option"
  pl_online :: int
  pl_time :: ago
  pl_manager :: int
  pl_creator :: int

definition player_row_of :: "pyset \<Rightarrow> (string \<Rightarrow> exn + int) \<Rightarrow> int \<Rightarrow> string \<Rightarrow> string list \<Rightarrow> string option \<Rightarrow> string option \<Rightarrow> player_row rh" where
  "player_row_of E secs_of now club_number online managerAccount entry =
     bindM (get (FORMAT_ACCOUNT2USER_TABLE (fmt entry))) (\<lambda>ut.
     bindM (hmget (fmt ut) [''nickname'', ''headImgUrl'', ''account'', ''last_logout_date'']) (\<lambda>v.
     bindM (case v ! 3 of None \<Rightarrow> raiseM AttributeError | Some d \<Rightarrow>
              if strip d = [] then retM Never else bindM (liftE (secs_of d)) (\<lambda>t. retM (ago_of (now - t)))) (\<lambda>time.
     bindM (hget (CLUB_ATTR club_number) ''club_manager'') (\<lambda>m.
     bindM (liftE (eval_field E m)) (\<lambda>data.
     retM \<lparr>pl_account = v ! 2, pl_nickname = v ! 0, pl_avatar = v ! 1, pl_online = (if among (v ! 2) online then 1 else 0), pl_time = time,
       pl_manager = (if entry = managerAccount \<or> among (v ! 2) data then 1 else 0), pl_creator = (if entry = managerAccount then 1 else 0)\<rparr>)))))"

text \<open>Sorted by the pair of creator and manager, largest first; both are 0 or 1.\<close>

definition get_club_player_list :: "pyset \<Rightarrow> (string \<Rightarrow> exn + int) \<Rightarrow> int \<Rightarrow> string \<Rightarrow> player_row list rh" where
  "get_club_player_list E secs_of now club_number =
     bindM (smembers (CLUB_PLAYER_LIST club_number)) (\<lambda>accounts.
     bindM (smembers ONLINE_ACCOUNTS_TABLE) (\<lambda>online.
     bindM (hget (CLUB_ATTR club_number) ''club_user'') (\<lambda>managerAccount.
     bindM (mapM (List.insert managerAccount (map Some accounts)) (player_row_of E secs_of now club_number online managerAccount)) (\<lambda>players.
     retM (sort_key (\<lambda>x. - (2 * pl_creator x + pl_manager x)) players)))))"

definition club_user_list :: "pyset \<Rightarrow> (string \<Rightarrow> exn + int) \<Rightarrow> int \<Rightarrow> string \<Rightarrow> (reply + player_row list) rh" where
  "club_user_list E secs_of now no_form =
     (let club_number = strip no_form in
      if club_number = [] then retM (Inl (Reply 1 ''no number'')) else
      bindM (get_club_player_list E secs_of now club_number) (\<lambda>l. retM (Inr l)))"

section \<open>Joining and leaving\<close>

definition join_club :: "string \<Rightarrow> string \<Rightarrow> reply rh" where
  "join_club sid_form no_form =
     (let club_number = strip no_form in
      if club_number = [] then retM (Reply 1 ''no number'') else
      club_guard (strip sid_form) (Reply (- 4) ''elsewhere'') (\<lambda>account.
      bindM (hget (CLUB_ATTR club_number) ''club_user'') (\<lambda>club_user.
      if club_user = account then retM (Reply 1 ''your own club'') else
      bindM (op_add_club account club_number) (\<lambda>ok. retM (if ok then Reply 0 ''joined'' else Reply 1 ''failed'')))))"

definition sign_out_club :: "string \<Rightarrow> string \<Rightarrow> reply rh" where
  "sign_out_club sid_form no_form =
     club_guard (strip sid_form) (Reply (- 4) ''elsewhere'') (\<lambda>account.
     bindM (op_sign_out_club account (strip no_form)) (\<lambda>ok. retM (if ok then Reply 0 ''left'' else Reply 1 ''failed'')))"

definition force_sign_out_club :: "pyset \<Rightarrow> string \<Rightarrow> string \<Rightarrow> string \<Rightarrow> reply rh" where
  "force_sign_out_club E sid_form member_form no_form =
     (let member_account = strip member_form; club_number = strip no_form in
      bindM (getInfoBySid (strip sid_form)) (\<lambda>(SessionTable, builderaccount, uid, verfiySid).
      if \<not> truthy builderaccount then retM (Reply 1 ''no user'') else
      bindM (exists_key (CLUB_ATTR club_number)) (\<lambda>ex.
      if \<not> ex then retM (Reply 1 ''failed'') else
      bindM (hget (CLUB_ATTR club_number) ''club_manager'') (\<lambda>m.
      bindM (liftE (eval_field E m)) (\<lambda>data.
      bindM (hget (CLUB_ATTR club_number) ''club_user'') (\<lambda>club_user.
      if no_right club_user builderaccount data then retM (Reply 1 ''no right'') else
      if member_account \<in> set data then retM (Reply 1 ''a manager'') else
      bindM (op_sign_out_club (Some member_account) club_number) (\<lambda>ok.
      retM (if ok then Reply 0 ''out'' else Reply 1 ''failed'')))))))) "

section \<open>Applications\<close>

definition apply_club :: "string \<Rightarrow> string \<Rightarrow> reply rh" where
  "apply_club sid_form no_form =
     (let club_number = strip no_form in
      if club_number = [] then retM (Reply 1 ''no number'') else
      club_guard (strip sid_form) (Reply (- 4) ''elsewhere'') (\<lambda>account.
      bindM (hget (CLUB_ATTR club_number) ''club_user'') (\<lambda>club_user.
      if club_user = account then retM (Reply 1 ''your own club'') else
      bindM (exists_key (CLUB_ATTR club_number)) (\<lambda>ex.
      if \<not> ex then retM (Reply 1 ''no such club'') else
      bindM (get (FORMAT_ACCOUNT2USER_TABLE (fmt account))) (\<lambda>ut.
      bindM (hmget (fmt ut) [''nickname'', ''headImgUrl'', ''account'']) (\<lambda>v.
      thenM (sadd (CLUB_AUDI_LIST club_number) (audit_item (v ! 2) (v ! 0) (v ! 1) ''0'')) (retM (Reply 0 ''applied''))))))))"

record audit_row =
  au_account :: string
  au_nickname :: string
  au_avatar :: string
  au_status :: string
  au_user_id :: string
  au_reg_date :: "string option"
  au_order :: int

text \<open>A waiting application comes first, then the accepted, then the refused ones; any other status has no name.\<close>

definition audit_order :: "int \<Rightarrow> exn + int" where
  "audit_order n = (if n = 0 then Inr 2 else if n = 1 then Inr 1 else if n = - 1 then Inr 0 else Inl KeyError)"

definition last_part :: "string option \<Rightarrow> exn + string" where
  "last_part ut = (case ut of None \<Rightarrow> Inl AttributeError | Some t \<Rightarrow> Inr (last (split_on (CHR '':'') t)))"

definition audit_entry :: "string \<Rightarrow> audit_row option rh" where
  "audit_entry entry =
     (case audit_parts entry of Inl _ \<Rightarrow> retM None | Inr (account, nick, img, status) \<Rightarrow>
      bindM (get (FORMAT_ACCOUNT2USER_TABLE account)) (\<lambda>user_path.
      bindM (liftE (last_part user_path)) (\<lambda>user_id.
      bindM (hget (fmt user_path) ''reg_date'') (\<lambda>reg_date.
      bindM (liftE (py_int status)) (\<lambda>n.
      bindM (liftE (audit_order n)) (\<lambda>ord.
      retM (Some \<lparr>au_account = account, au_nickname = nick, au_avatar = img, au_status = status, au_user_id = user_id,
        au_reg_date = reg_date, au_order = ord\<rparr>)))))))"

definition apply_club_list :: "pyset \<Rightarrow> string \<Rightarrow> string \<Rightarrow> (reply + audit_row list) rh" where
  "apply_club_list E sid_form no_form =
     (let club_number = strip no_form in
      if club_number = [] then retM (Inl (Reply 1 ''no number'')) else
      club_guard (strip sid_form) (Inl (Reply (- 4) ''elsewhere'')) (\<lambda>account.
      bindM (exists_key (CLUB_ATTR club_number)) (\<lambda>ex.
      if \<not> ex then retM (Inl (Reply 1 ''failed'')) else
      bindM (hget (CLUB_ATTR club_number) ''club_manager'') (\<lambda>m.
      bindM (liftE (eval_field E m)) (\<lambda>data.
      bindM (hget (CLUB_ATTR club_number) ''club_user'') (\<lambda>club_user.
      if no_right club_user account data then retM (Inl (Reply 1 ''no right'')) else
      bindM (smembers (CLUB_AUDI_LIST club_number)) (\<lambda>result.
      bindM (mapM result audit_entry) (\<lambda>rows.
      retM (Inr (sort_key (\<lambda>r. - au_order r) (concat (map (\<lambda>r. case r of None \<Rightarrow> [] | Some x \<Rightarrow> [x]) rows)))))))))))) "

text \<open>The loops over the applications: the first waiting one of the user is answered; one that was accepted for
  a club that is gone goes on to the next.\<close>

definition answer_item :: "string \<Rightarrow> string \<Rightarrow> string \<times> string \<times> string \<times> string \<Rightarrow> string \<Rightarrow> unit rh" where
  "answer_item club_number entry parts status =
     (case parts of (account, nick, img, state) \<Rightarrow>
      thenM (srem (CLUB_AUDI_LIST club_number) entry)
      (sadd (CLUB_AUDI_LIST club_number) (audit_item (Some account) (Some nick) (Some img) status)))"

fun answer_loop :: "bool \<Rightarrow> string \<Rightarrow> string \<Rightarrow> string \<Rightarrow> string list \<Rightarrow> reply rh" where
  "answer_loop accept club_number who status [] = retM (Reply 1 ''failed'')"
| "answer_loop accept club_number who status (entry # entries) =
     bindM (liftE (audit_parts entry)) (\<lambda>parts. case parts of (account, nick, img, state) \<Rightarrow>
     bindM (if account = who then bindM (liftE (py_int state)) (\<lambda>n. retM (n = 0)) else retM False) (\<lambda>waiting.
     if \<not> waiting then answer_loop accept club_number who status entries else
     thenM (answer_item club_number entry parts status)
     (if accept then
        bindM (op_add_club (Some account) club_number) (\<lambda>ok.
        if ok then retM (Reply 0 ''accepted'') else answer_loop accept club_number who status entries)
      else retM (Reply 0 ''answered''))))"

definition apply_club_audit :: "pyset \<Rightarrow> string \<Rightarrow> string \<Rightarrow> string \<Rightarrow> string \<Rightarrow> reply rh" where
  "apply_club_audit E sid_form no_form who_form status_form =
     (let sid = strip sid_form; club_number = strip no_form; apply_user_account = strip who_form; status = strip status_form in
      bindM (getInfoBySid sid) (\<lambda>(SessionTable, account, uid, verfiySid).
      if club_number = [] then retM (Reply 1 ''no number'') else
      if apply_user_account = [] then retM (Reply 1 ''no user'') else
      bindM (if status = [] then retM 0 else liftE (py_int status)) (\<lambda>n.
      if n = 0 then retM (Reply 1 ''no status'') else
      if truthy verfiySid \<and> Some sid \<noteq> verfiySid then retM (Reply (- 4) ''elsewhere'') else
      bindM (exists_key (CLUB_ATTR club_number)) (\<lambda>ex.
      bindM (if ex then
               bindM (hget (CLUB_ATTR club_number) ''club_manager'') (\<lambda>m.
               bindM (liftE (eval_field E m)) (\<lambda>data.
               bindM (hget (CLUB_ATTR club_number) ''club_user'') (\<lambda>club_user. retM (no_right club_user account data))))
             else retM False) (\<lambda>refused.
      if refused then retM (Reply 1 ''no right'') else
      bindM (smembers (CLUB_AUDI_LIST club_number)) (\<lambda>apply_list.
      answer_loop (n = 1) club_number apply_user_account status apply_list))))))"

section \<open>Managers\<close>

definition add_manager :: "pyset \<Rightarrow> string \<Rightarrow> string \<Rightarrow> string \<Rightarrow> reply rh" where
  "add_manager E sid_form no_form who_form =
     (let club_number = strip no_form; manager_account = strip who_form in
      bindM (getInfoBySid (strip sid_form)) (\<lambda>(SessionTable, account, uid, verfiySid).
      bindM (exists_key (CLUB_ATTR club_number)) (\<lambda>ex.
      if \<not> ex then retM (Reply 1 ''failed'') else
      bindM (hget (CLUB_ATTR club_number) ''club_user'') (\<lambda>club_user.
      if club_user \<noteq> account then retM (Reply 1 ''no right'') else
      bindM (hget (CLUB_ATTR club_number) ''club_manager'') (\<lambda>m.
      bindM (liftE (eval_field E m)) (\<lambda>data.
      if length (remdups data) \<ge> 3 then retM (Reply 1 ''enough managers'') else
      thenM (hset (CLUB_ATTR club_number) ''club_manager'' (str_set E (List.insert manager_account data)))
      (retM (Reply 0 ''added''))))))))"

definition relieve_manager :: "pyset \<Rightarrow> string \<Rightarrow> string \<Rightarrow> string \<Rightarrow> reply rh" where
  "relieve_manager E sid_form no_form who_form =
     (let club_number = strip no_form; manager_account = strip who_form in
      bindM (getInfoBySid (strip sid_form)) (\<lambda>(SessionTable, account, uid, verfiySid).
      bindM (exists_key (CLUB_ATTR club_number)) (\<lambda>ex.
      if \<not> ex then retM (Reply 1 ''failed'') else
      bindM (hget (CLUB_ATTR club_number) ''club_user'') (\<lambda>club_user.
      if club_user \<noteq> account then retM (Reply 1 ''no right'') else
      bindM (hget (CLUB_ATTR club_number) ''club_manager'') (\<lambda>m.
      bindM (liftE (eval_field E m)) (\<lambda>data.
      if manager_account \<notin> set data then raiseM KeyError else
      (let rest = removeAll manager_account data in
      thenM (hset (CLUB_ATTR club_number) ''club_manager'' (if rest = [] then ''set()'' else str_set E rest))
      (retM (Reply 0 ''relieved'')))))))))"

definition isManager :: "pyset \<Rightarrow> string \<Rightarrow> string \<Rightarrow> (reply + int) rh" where
  "isManager E sid_form no_form =
     (let club_number = strip no_form in
      club_guard (strip sid_form) (Inl (Reply (- 4) ''elsewhere'')) (\<lambda>account.
      bindM (hget (CLUB_ATTR club_number) ''club_user'') (\<lambda>club_user.
      if club_user = account then retM (Inr 2) else
      bindM (hget (CLUB_ATTR club_number) ''club_manager'') (\<lambda>m.
      bindM (liftE (eval_field E m)) (\<lambda>data. retM (Inr (if among account data then 1 else - 1)))))))"

section \<open>Histories and automatic rooms\<close>

text \<open>The checks of a live session for an existing club.\<close>

definition club_alive :: "string \<Rightarrow> string \<Rightarrow> (string option \<Rightarrow> reply rh) \<Rightarrow> reply rh" where
  "club_alive sid club_number body =
     bindM (getInfoBySid sid) (\<lambda>(SessionTable, account, uid, verfiySid).
     bindM (exists_key SessionTable) (\<lambda>alive.
     if \<not> alive then retM (Reply (- 3) ''session'') else
     if truthy verfiySid \<and> Some sid \<noteq> verfiySid then retM (Reply (- 4) ''elsewhere'') else
     if club_number = [] then retM (Reply 1 ''no number'') else
     bindM (exists_key (CLUB_ATTR club_number)) (\<lambda>ex.
     if \<not> ex then retM (Reply 1 ''no such club'') else body account)))"

text \<open>Any existing hash the client names gets the mark.\<close>

definition history_sign :: "pyset \<Rightarrow> string \<Rightarrow> string \<Rightarrow> string \<Rightarrow> reply rh" where
  "history_sign E sid_form no_form path_form =
     (let club_number = strip no_form; path_data = split_on (CHR '','') (strip path_form) in
      club_alive (strip sid_form) club_number (\<lambda>account.
      tryM (
        bindM (hget (CLUB_ATTR club_number) ''club_user'') (\<lambda>owner.
        bindM (hget (CLUB_ATTR club_number) ''club_manager'') (\<lambda>m.
        bindM (liftE (eval_field E m)) (\<lambda>manager_list.
        if no_right owner account manager_list then retM (Reply 1 ''no right'') else
        bindM (get (FORMAT_ACCOUNT2USER_TABLE (fmt owner))) (\<lambda>path.
        thenM (hget (fmt path) ''parentAg'')
        (thenM (forM path_data (\<lambda>p. bindM (exists_key p) (\<lambda>ex. if ex then hset p ''tag'' ''True'' else retM ())))
        (retM (Reply 0 ''marked''))))))))
       (retM (Reply 1 ''failed''))))"

text \<open>\<open>owner != account and account not in account in managers\<close>: the chain asks whether the account is no part of
  itself, which no text satisfies, so nobody is refused; for a session without an account it raises.\<close>

definition chain_refuses :: "string option \<Rightarrow> string option \<Rightarrow> exn + bool" where
  "chain_refuses owner account =
     (if owner = account then Inr False else case account of None \<Rightarrow> Inl TypeError | Some a \<Rightarrow> Inr False)"

definition auto_allowed :: "string \<Rightarrow> int rh" where
  "auto_allowed club_number = bindM (hget auto_create_allow club_number) (\<lambda>allow. liftE (int_or allow 0))"

definition owner_cards :: "string option \<Rightarrow> int rh" where
  "owner_cards owner =
     bindM (getUserByAccount (fmt owner)) (\<lambda>userTable.
     bindM (hmget (fmt userTable) [''parentAg'', ''maxScore'', ''open_auth'']) (\<lambda>v.
     case userTable of None \<Rightarrow> raiseM AttributeError | Some ut \<Rightarrow>
       (case split_on (CHR '':'') ut of
          _ # i # _ \<Rightarrow> bindM (get (USER4AGENT_CARD (fmt (v ! 0)) i)) (\<lambda>roomCards. liftE (int_or roomCards 0))
        | _ \<Rightarrow> raiseM IndexError)))"

definition settting_auto_create_allow :: "string \<Rightarrow> string \<Rightarrow> reply rh" where
  "settting_auto_create_allow sid_form no_form =
     (let club_number = strip no_form in
      club_alive (strip sid_form) club_number (\<lambda>account.
      bindM (hget (CLUB_ATTR club_number) ''club_user'') (\<lambda>ownerAccount.
      bindM (liftE (chain_refuses ownerAccount account)) (\<lambda>refused.
      if refused then retM (Reply 1 ''no right'') else
      bindM (auto_allowed club_number) (\<lambda>allow.
      (let settingAllow = (if allow = 0 then 1 else 0) :: int in
      bindM (if settingAllow = 1 then owner_cards ownerAccount else retM 100) (\<lambda>roomCards.
      if roomCards < 100 then retM (Reply 1 ''too few cards'') else
      thenM (hset auto_create_allow club_number (show_int settingAllow)) (retM (Reply 0 (show_int settingAllow)))))))))) "

definition get_auto_create_allow :: "string \<Rightarrow> string \<Rightarrow> reply rh" where
  "get_auto_create_allow sid_form no_form =
     (let club_number = strip no_form in
      club_alive (strip sid_form) club_number (\<lambda>account.
      bindM (hget (CLUB_ATTR club_number) ''club_user'') (\<lambda>owner.
      bindM (liftE (chain_refuses owner account)) (\<lambda>refused.
      if refused then retM (Reply 1 ''no right'') else
      bindM (auto_allowed club_number) (\<lambda>allow. retM (Reply 0 (show_int allow)))))))"

definition ag_club :: "string \<Rightarrow> string rh" where
  "ag_club club_number =
     bindM (hget (CLUB_ATTR club_number) ''club_user'') (\<lambda>club_user.
     bindM (getUserByAccount (fmt club_user)) (\<lambda>userTable.
     bindM (hget (fmt userTable) ''parentAg'') (\<lambda>parentAg. retM (club_number @ ''-'' @ fmt parentAg))))"

definition setting_auto_create :: "string \<Rightarrow> string \<Rightarrow> string \<Rightarrow> string \<Rightarrow> string \<Rightarrow> reply rh" where
  "setting_auto_create sid_form no_form game_form rule_form id_form =
     (let sid = strip sid_form; club_number = strip no_form; i = strip id_form in
      thenM (getInfoBySid sid)
      (bindM (ag_club club_number) (\<lambda>agClubNumber.
      club_alive sid club_number (\<lambda>account.
      if i = [] then retM (Reply 1 ''no id'') else
      bindM (hget (CLUB_ATTR club_number) ''club_user'') (\<lambda>owner.
      bindM (liftE (chain_refuses owner account)) (\<lambda>refused.
      if refused then retM (Reply 0 ''no right'') else
      thenM (hmset (CLUB_EXTENDS_ATTRIBUTE agClubNumber i) [(''gameid'', strip game_form), (''rule'', strip rule_form)])
      (retM (Reply 0 ''set'')))))))) "

definition clear_auto_create :: "string \<Rightarrow> string \<Rightarrow> reply rh" where
  "clear_auto_create sid_form no_form =
     (let club_number = strip no_form in
      club_alive (strip sid_form) club_number (\<lambda>account.
      bindM (hget (CLUB_ATTR club_number) ''club_user'') (\<lambda>owner.
      bindM (liftE (chain_refuses owner account)) (\<lambda>refused.
      if refused then retM (Reply 0 ''no right'') else
      bindM (ag_club club_number) (\<lambda>agClubNumber.
      thenM (forM (map show_int [1..5]) (\<lambda>i.
        bindM (exists_key (CLUB_EXTENDS_ATTRIBUTE agClubNumber i)) (\<lambda>ex.
        if \<not> ex then
          thenM (sadd (CLUB_EXTENDS_LIST_ATTRIBUTE agClubNumber) (CLUB_EXTENDS_ATTRIBUTE agClubNumber i))
          (hset (CLUB_EXTENDS_ATTRIBUTE agClubNumber i) ''id'' i)
        else hmset (CLUB_EXTENDS_ATTRIBUTE agClubNumber i) [(''id'', i), (''rule'', []), (''gameid'', [])])))
      (retM (Reply 0 ''cleared'')))))))"

end
