(* ===== verification/ClubNumbers.thy ===== *)
theory ClubNumbers
  imports Clubs
begin

text \<open>
  The numbers of clubs: a new club gets a number no club has, without the digit four.
\<close>

definition numeric :: "string \<Rightarrow> bool" where
  "numeric c \<longleftrightarrow> c \<noteq> [] \<and> list_all is_digit c"

section \<open>Decimal texts\<close>

lemma numeric_strip: "numeric t \<Longrightarrow> strip t = t"
  using digit_not_special [of "hd t"] digit_not_special [of "last t"] by (intro strip_id) (simp add: numeric_def list_all_iff)

lemma py_int_numeric: "numeric t \<Longrightarrow> py_int t = Inr (digits_val t)"
proof -
  assume t: "numeric t"
  then obtain c cs where "t = c # cs" "is_digit c" by (cases t) (auto simp: numeric_def)
  with t numeric_strip [OF t] digit_not_special [of c] show ?thesis by (simp add: py_int_def py_int_opt_def py_int_body_def numeric_def)
qed

lemma digits_val_canonical:
  assumes "numeric ds" "length ds = 1 \<or> hd ds \<noteq> CHR ''0''"
  shows "show_int (digits_val ds) = ds \<and> (hd ds \<noteq> CHR ''0'' \<longrightarrow> 0 < digits_val ds)"
  using assms
proof (induction ds rule: rev_induct)
  case (snoc c ds)
  have c: "is_digit c" "0 \<le> digit_val c" "digit_val c < 10"
    using snoc.prems by (auto simp: numeric_def is_digit_def digit_val_def)
  then have "48 + nat (digit_val c) = of_char c" by (simp add: digit_val_def)
  then have c': "digit_char (nat (digit_val c)) = c" by (simp add: digit_char_def)
  show ?case
  proof (cases "ds = []")
    case True
    have "0 < digit_val c" if "c \<noteq> CHR ''0''"
    proof (rule ccontr)
      assume "\<not> 0 < digit_val c"
      then have "digit_val c = 0" using c(2) by simp
      with c' have "c = digit_char 0" by simp
      moreover have "digit_char 0 = CHR ''0''" by code_simp
      ultimately show False using that by simp
    qed
    then show ?thesis using True c c' by (simp add: nat_less_iff digits_val_def show_int_def show_nat.simps [of "nat (digit_val c)"])
  next
    case False
    have h: "hd ds \<noteq> CHR ''0''" "numeric ds" using snoc.prems False by (auto simp: numeric_def)
    with snoc.IH have ih: "show_int (digits_val ds) = ds" "0 < digits_val ds" by auto
    have "nat (10 * digits_val ds + digit_val c) div 10 = nat (digits_val ds)" "nat (10 * digits_val ds + digit_val c) mod 10 = nat (digit_val c)"
      using c ih(2) by (simp_all add: nat_add_distrib nat_mult_distrib)
    moreover have "\<not> nat (10 * digits_val ds + digit_val c) < 10" using c ih(2) by (simp add: nat_less_iff)
    ultimately show ?thesis
      using c c' ih by (simp add: show_int_def show_nat.simps [of "nat (10 * digits_val ds + digit_val c)"])
  qed
qed (simp add: numeric_def)

lemma hd_show_nat: "0 < n \<Longrightarrow> hd (show_nat n) \<noteq> CHR ''0''"
proof (induction n rule: show_nat.induct)
  case (1 n)
  show ?case
  proof (cases "n < 10")
    case True
    then have "digit_val (digit_char n) = int n" by (rule digit_char_props)
    then have "digit_char n \<noteq> CHR ''0''" using 1(2) by (auto simp: digit_val_def)
    then show ?thesis using True by (simp add: show_nat.simps [of n])
  next
    case False
    then have "hd (show_nat (n div 10)) \<noteq> CHR ''0''" using 1(1) by auto
    then show ?thesis using False show_nat_digits [of "n div 10"] by (simp add: show_nat.simps [of n] hd_append)
  qed
qed

section \<open>The next number\<close>

lemma no_four_digits: "list_all is_digit ds \<Longrightarrow> list_all is_digit (map no_four ds) \<and> digits_val ds \<le> digits_val (map no_four ds)"
proof (induction ds rule: rev_induct)
  case (snoc c ds)
  have "is_digit (no_four c)" "digit_val c \<le> digit_val (no_four c)" using snoc.prems by (simp_all add: no_four_def is_digit_def digit_val_def)
  then show ?case using snoc by simp
qed (simp add: digits_val_def)

lemma all_ints_set:
  "all_ints l = Inr vs \<Longrightarrow> (\<forall>v \<in> set vs. \<exists>t \<in> set l. py_int t = Inr v) \<and> (\<forall>t \<in> set l. \<exists>v \<in> set vs. py_int t = Inr v)"
  by (induction l arbitrary: vs) (auto simp: all_ints_def split: sum.splits)

lemma next_club_id_fresh:
  assumes "\<forall>t \<in> set l. numeric t" "all_ints l = Inr vs" "next_club_id vs = Inr n"
  shows "numeric (show_int n)" "CHR ''4'' \<notin> set (show_int n)" "\<forall>t \<in> set l. \<exists>v. py_int t = Inr v \<and> v < n" "show_int n \<notin> set l"
proof -
  define k where "k = (if vs = [] then 2000 else Max (set vs) + 1)"
  note l2 = all_ints_set [OF assms(2)]
  have nonneg: "0 \<le> v" if "v \<in> set vs" for v
  proof -
    from bspec [OF conjunct1 [OF l2] that] obtain t where "t \<in> set l" "py_int t = Inr v" by (rule bexE)
    moreover have t: "numeric t" using assms(1) calculation(1) by blast
    ultimately have "v = digits_val t" using py_int_numeric [OF t] by simp
    then show ?thesis using t digits_val_nonneg [of t] unfolding numeric_def by simp
  qed
  then have k0: "0 \<le> k" unfolding k_def using Max_in [of "set vs"] by (cases "vs = []") (auto intro: add_nonneg_nonneg)
  define ds where "ds = show_nat (nat k)"
  have ds: "list_all is_digit ds" "ds \<noteq> []" "digits_val ds = k" "length ds = 1 \<or> hd ds \<noteq> CHR ''0''"
  proof -
    show "list_all is_digit ds" "ds \<noteq> []" "digits_val ds = k" using show_nat_digits [of "nat k"] k0 unfolding ds_def by simp_all
    show "length ds = 1 \<or> hd ds \<noteq> CHR ''0''" using hd_show_nat [of "nat k"] unfolding ds_def by (cases "nat k = 0") (simp_all add: show_nat.simps [of 0])
  qed
  let ?m = "map no_four ds"
  have m: "numeric ?m" "k \<le> digits_val ?m" using no_four_digits [OF ds(1)] ds by (simp_all add: numeric_def)
  have "next_club_id vs = py_int ?m" using k0 by (simp add: next_club_id_def Let_def ds_def show_int_def flip: k_def)
  then have n: "n = digits_val ?m" using assms(3) py_int_numeric [OF m(1)] by simp
  have "length ?m = 1 \<or> hd ?m \<noteq> CHR ''0''" using ds(2,4) by (cases ds) (auto simp: no_four_def)
  then have shw: "show_int n = ?m" unfolding n using digits_val_canonical [OF m(1)] by blast
  show "numeric (show_int n)" "CHR ''4'' \<notin> set (show_int n)" using m(1) by (auto simp: shw no_four_def)
  show less: "\<forall>t \<in> set l. \<exists>v. py_int t = Inr v \<and> v < n"
  proof
    fix t assume "t \<in> set l"
    from bspec [OF conjunct2 [OF l2] this] obtain v where v: "v \<in> set vs" "py_int t = Inr v" by (rule bexE)
    then have "v < k" using Max_ge [of "set vs" v] by (auto simp: k_def)
    then show "\<exists>v. py_int t = Inr v \<and> v < n" using v m(2) n by auto
  qed
  then show "show_int n \<notin> set l" by auto
qed

end
