(* ===== verification/ClubLaws.thy ===== *)
theory ClubLaws
  imports ClubNumbers RunRules SpringLaws
begin

text \<open>
  The club module as an abstract system of owners, managers and members, in which every step has an actor
  who may take it; every request to the module is a step by the account of its session.
\<close>

section \<open>Keys\<close>

lemmas club_keys = CLUB_CREATE_ATTR_def CLUB_LIST_def CLUB_ACCOUNT_LIST_def CLUB_PLAYER_LIST_def CLUB_PLAYER_TO_CLUB_LIST_def
  CLUB_ATTR_def CLUB_AUDI_LIST_def CLUB_PLAYER_INTO_def CLUB_EXTENDS_ATTRIBUTE_def CLUB_EXTENDS_LIST_ATTRIBUTE_def
  auto_create_allow_def FORMAT_USER_HALL_SESSION_def

definition club_sets :: "string set" where
  "club_sets = insert CLUB_LIST (range CLUB_PLAYER_LIST \<union> range CLUB_PLAYER_TO_CLUB_LIST)"

definition club_places :: "string set" where
  "club_places = club_sets \<union> range CLUB_ATTR \<union> range FORMAT_USER_HALL_SESSION"

lemma club_sets_mem [simp]: "CLUB_LIST \<in> club_sets" "CLUB_PLAYER_LIST c \<in> club_sets" "CLUB_PLAYER_TO_CLUB_LIST a \<in> club_sets"
  by (simp_all add: club_sets_def)

lemma club_sets_neq [simp]:
  "CLUB_ATTR c \<notin> club_sets" "FORMAT_USER_HALL_SESSION r \<notin> club_sets"
  by (auto simp: club_sets_def club_keys)

lemma club_attr_neq [simp]: "CLUB_ATTR c \<noteq> FORMAT_USER_HALL_SESSION r" "FORMAT_USER_HALL_SESSION r \<noteq> CLUB_ATTR c"
  "CLUB_ATTR c \<noteq> CLUB_LIST" "CLUB_LIST \<noteq> CLUB_ATTR c" "CLUB_ATTR c \<noteq> CLUB_PLAYER_LIST d" "CLUB_ATTR c \<noteq> CLUB_PLAYER_TO_CLUB_LIST a"
  "CLUB_PLAYER_LIST d \<noteq> CLUB_ATTR c" "CLUB_PLAYER_TO_CLUB_LIST a \<noteq> CLUB_ATTR c" "CLUB_LIST \<noteq> CLUB_PLAYER_LIST d" "CLUB_PLAYER_LIST d \<noteq> CLUB_LIST"
  "CLUB_LIST \<noteq> CLUB_PLAYER_TO_CLUB_LIST a" "CLUB_PLAYER_TO_CLUB_LIST a \<noteq> CLUB_LIST"
  "FORMAT_USER_HALL_SESSION r \<noteq> CLUB_PLAYER_LIST d" "FORMAT_USER_HALL_SESSION r \<noteq> CLUB_PLAYER_TO_CLUB_LIST a" "FORMAT_USER_HALL_SESSION r \<noteq> CLUB_LIST"
  by (simp_all add: club_keys)

lemma club_key_inj [simp]: "CLUB_ATTR c = CLUB_ATTR d \<longleftrightarrow> c = d" "CLUB_PLAYER_LIST c = CLUB_PLAYER_LIST d \<longleftrightarrow> c = d"
  "CLUB_PLAYER_TO_CLUB_LIST a = CLUB_PLAYER_TO_CLUB_LIST b \<longleftrightarrow> a = b"
  by (simp_all add: club_keys)

lemma club_players_alias: "CLUB_PLAYER_LIST c = CLUB_PLAYER_TO_CLUB_LIST a \<longleftrightarrow> c = ''accounts:'' @ a"
  by (auto simp: club_keys)

lemma numeric_alias [simp]: "numeric c \<Longrightarrow> CLUB_PLAYER_LIST c \<noteq> CLUB_PLAYER_TO_CLUB_LIST a" "numeric c \<Longrightarrow> CLUB_PLAYER_TO_CLUB_LIST a \<noteq> CLUB_PLAYER_LIST c"
  using club_players_alias [of c a] by (auto simp: numeric_def is_digit_def eq_commute [of "CLUB_PLAYER_TO_CLUB_LIST a"])

lemma other_places [simp]:
  "CLUB_AUDI_LIST c \<notin> club_places" "CLUB_PLAYER_INTO a \<notin> club_places" "CLUB_EXTENDS_ATTRIBUTE c i \<notin> club_places"
  "CLUB_EXTENDS_LIST_ATTRIBUTE c \<notin> club_places" "auto_create_allow \<notin> club_places" "CLUB_ACCOUNT_LIST a \<notin> club_places"
  by (auto simp: club_places_def club_sets_def club_keys)

section \<open>The abstract system\<close>

record clubs =
  owner :: "string \<Rightarrow> string option"
  mgrs :: "string \<Rightarrow> string set"
  membs :: "(string \<times> string) set"

definition may_manage :: "string \<Rightarrow> clubs \<Rightarrow> string \<Rightarrow> bool" where
  "may_manage u A c \<longleftrightarrow> owner A c = Some u \<or> u \<in> mgrs A c"

inductive club_step :: "string \<Rightarrow> clubs \<Rightarrow> clubs \<Rightarrow> bool" for u where
  stay: "club_step u A A"
| found: "owner A c = None \<Longrightarrow> CHR ''4'' \<notin> set c \<Longrightarrow> club_step u A (A\<lparr>owner := (owner A)(c := Some u)\<rparr>)"
| enter: "owner A c \<noteq> None \<Longrightarrow> x = u \<or> may_manage u A c \<Longrightarrow> club_step u A (A\<lparr>membs := insert (c, x) (membs A)\<rparr>)"
| leave: "x = u \<or> may_manage u A c \<and> x \<notin> mgrs A c \<Longrightarrow> club_step u A (A\<lparr>membs := membs A - {(c, x)}\<rparr>)"
| disband: "owner A c = Some u \<Longrightarrow> club_step u A
    (A\<lparr>owner := (owner A)(c := None), mgrs := (mgrs A)(c := {}), membs := {(d, x) \<in> membs A. d \<noteq> c}\<rparr>)"
| appoint: "owner A c = Some u \<Longrightarrow> card (mgrs A c) < 3 \<Longrightarrow> club_step u A (A\<lparr>mgrs := (mgrs A)(c := insert x (mgrs A c))\<rparr>)"
| relieve: "owner A c = Some u \<Longrightarrow> club_step u A (A\<lparr>mgrs := (mgrs A)(c := mgrs A c - {x})\<rparr>)"

section \<open>The abstraction and the invariant\<close>

definition club_mgrs :: "pyset \<Rightarrow> redis \<Rightarrow> string \<Rightarrow> string set" where
  "club_mgrs E s c = (case eval_field E (hf s (CLUB_ATTR c) ''club_manager'') of Inl _ \<Rightarrow> {} | Inr l \<Rightarrow> set l)"

definition clubs_of :: "pyset \<Rightarrow> redis \<Rightarrow> clubs" where
  "clubs_of E s = \<lparr>owner = (\<lambda>c. hf s (CLUB_ATTR c) ''club_user''), mgrs = club_mgrs E s,
     membs = {(c, a). numeric c \<and> a \<in> set (members s (CLUB_PLAYER_LIST c))}\<rparr>"

text \<open>What \<open>str\<close> of a set and \<open>eval\<close> are trusted with: the text of a set is read back as that set.\<close>

definition set_law :: "pyset \<Rightarrow> bool" where
  "set_law E \<longleftrightarrow> eval_set E ''set()'' = Inr [] \<and> (\<forall>xs. xs \<noteq> [] \<longrightarrow> (\<exists>ys. eval_set E (str_set E xs) = Inr ys \<and> set ys = set xs))"

text \<open>The sets are sets and the numbers are numbers; an existing club is listed, has an owner and at most three
  managers; the two sides of the membership agree; members belong to existing clubs; and no account of a
  session is a number.\<close>

definition sets_ok :: "redis \<Rightarrow> bool" where
  "sets_ok s \<longleftrightarrow> (\<forall>k \<in> club_sets. is_set s k) \<and> (\<forall>c \<in> set (members s CLUB_LIST). numeric c)"

definition attrs_ok :: "pyset \<Rightarrow> redis \<Rightarrow> bool" where
  "attrs_ok E s \<longleftrightarrow> (\<forall>c. look s (CLUB_ATTR c) \<noteq> None \<longrightarrow> c \<in> set (members s CLUB_LIST) \<and> is_hash s (CLUB_ATTR c) \<and>
     hf s (CLUB_ATTR c) ''club_user'' \<noteq> None \<and> (\<exists>l. eval_field E (hf s (CLUB_ATTR c) ''club_manager'') = Inr l \<and> card (set l) \<le> 3))"

definition sides_ok :: "redis \<Rightarrow> bool" where
  "sides_ok s \<longleftrightarrow> (\<forall>c a. numeric c \<longrightarrow> (a \<in> set (members s (CLUB_PLAYER_LIST c)) \<longleftrightarrow> c \<in> set (members s (CLUB_PLAYER_TO_CLUB_LIST a))) \<and>
     (a \<in> set (members s (CLUB_PLAYER_LIST c)) \<longrightarrow> look s (CLUB_ATTR c) \<noteq> None))"

definition names_ok :: "redis \<Rightarrow> bool" where
  "names_ok s \<longleftrightarrow> (\<forall>r a. hf s (FORMAT_USER_HALL_SESSION r) ''account'' = Some a \<longrightarrow> \<not> numeric a)"

definition club_inv :: "pyset \<Rightarrow> redis \<Rightarrow> bool" where
  "club_inv E s \<longleftrightarrow> sets_ok s \<and> attrs_ok E s \<and> sides_ok s \<and> names_ok s"

text \<open>States that agree on what clubs are made of.\<close>

definition club_same :: "redis \<Rightarrow> redis \<Rightarrow> bool" where
  "club_same s t \<longleftrightarrow> (\<forall>k \<in> club_sets. is_set t k = is_set s k \<and> members t k = members s k) \<and>
     (\<forall>c. (look t (CLUB_ATTR c) = None) = (look s (CLUB_ATTR c) = None) \<and> is_hash t (CLUB_ATTR c) = is_hash s (CLUB_ATTR c) \<and>
       hf t (CLUB_ATTR c) ''club_user'' = hf s (CLUB_ATTR c) ''club_user'' \<and> hf t (CLUB_ATTR c) ''club_manager'' = hf s (CLUB_ATTR c) ''club_manager'') \<and>
     (\<forall>r. hf t (FORMAT_USER_HALL_SESSION r) ''account'' = hf s (FORMAT_USER_HALL_SESSION r) ''account'')"

lemma club_same_refl [simp]: "club_same s s"
  by (simp add: club_same_def)

lemma club_same_trans: "club_same s t \<Longrightarrow> club_same t u \<Longrightarrow> club_same s u"
  by (simp add: club_same_def)

lemma club_same_inv: "club_same s t \<Longrightarrow> club_inv E t = club_inv E s"
  unfolding club_inv_def sets_ok_def attrs_ok_def sides_ok_def names_ok_def club_same_def by simp

lemma club_same_abs: "club_same s t \<Longrightarrow> clubs_of E t = clubs_of E s"
  by (simp add: clubs_of_def club_same_def club_mgrs_def fun_eq_iff)

lemma club_same_exists: "club_same s t \<Longrightarrow> (look t (CLUB_ATTR c) = None) = (look s (CLUB_ATTR c) = None)"
  unfolding club_same_def by blast

lemma club_same_frame: "(\<And>k. k \<in> club_places \<Longrightarrow> look t k = look s k) \<Longrightarrow> club_same s t"
  by (simp add: club_same_def club_places_def is_set_def members_def is_hash_def hf_def hash_of_def)

section \<open>Members come and go\<close>

lemma inv_numeric: "club_inv E s \<Longrightarrow> look s (CLUB_ATTR c) \<noteq> None \<Longrightarrow> numeric c"
  by (auto simp: club_inv_def attrs_ok_def sets_ok_def)

lemma inv_sets: "club_inv E s \<Longrightarrow> k \<in> club_sets \<Longrightarrow> is_set s k"
  by (simp add: club_inv_def sets_ok_def)

definition good :: "pyset \<Rightarrow> string \<Rightarrow> redis \<Rightarrow> redis \<Rightarrow> bool" where
  "good E u s t \<longleftrightarrow> club_inv E t \<and> club_step u (clubs_of E s) (clubs_of E t)"

lemma good_same: "club_inv E s \<Longrightarrow> club_same s t \<Longrightarrow> good E u s t"
  by (simp add: good_def club_same_inv club_same_abs stay)

lemma good_refl [simp]: "club_inv E s \<Longrightarrow> good E u s s"
  by (rule good_same) simp_all

definition entered :: "string \<Rightarrow> string \<Rightarrow> redis \<Rightarrow> redis" where
  "entered c a s = (let t = put_set (CLUB_PLAYER_TO_CLUB_LIST a) (List.insert c (members s (CLUB_PLAYER_TO_CLUB_LIST a))) s
     in put_set (CLUB_PLAYER_LIST c) (List.insert a (members t (CLUB_PLAYER_LIST c))) t)"

definition left_club :: "string \<Rightarrow> string \<Rightarrow> redis \<Rightarrow> redis" where
  "left_club c a s = (let t = put_set (CLUB_PLAYER_LIST c) (removeAll a (members s (CLUB_PLAYER_LIST c))) s
     in put_set (CLUB_PLAYER_TO_CLUB_LIST a) (removeAll c (members t (CLUB_PLAYER_TO_CLUB_LIST a))) t)"

lemma look_put_set_other: "j \<noteq> k \<Longrightarrow> look (put_set k l s) j = look s j"
  by (simp add: look_put_set)

lemma member_moves_frame:
  "k \<notin> {CLUB_PLAYER_LIST c, CLUB_PLAYER_TO_CLUB_LIST a} \<Longrightarrow> look (entered c a s) k = look s k"
  "k \<notin> {CLUB_PLAYER_LIST c, CLUB_PLAYER_TO_CLUB_LIST a} \<Longrightarrow> look (left_club c a s) k = look s k"
  by (simp_all add: entered_def left_club_def Let_def look_put_set)

text \<open>What depends on neither side of the membership.\<close>

lemma attrs_names_frame:
  assumes "\<And>d. look t (CLUB_ATTR d) = look s (CLUB_ATTR d)" "look t CLUB_LIST = look s CLUB_LIST"
    and "\<And>r. look t (FORMAT_USER_HALL_SESSION r) = look s (FORMAT_USER_HALL_SESSION r)"
  shows "attrs_ok E t = attrs_ok E s" "names_ok t = names_ok s" "owner (clubs_of E t) = owner (clubs_of E s)" "mgrs (clubs_of E t) = mgrs (clubs_of E s)"
  using assms by (simp_all add: attrs_ok_def names_ok_def clubs_of_def club_mgrs_def fun_eq_iff hf_def hash_of_def is_hash_def members_def)

lemma entered_members:
  assumes "numeric c" "numeric d"
  shows "set (members (entered c a s) (CLUB_PLAYER_LIST d)) = set (members s (CLUB_PLAYER_LIST d)) \<union> (if d = c then {a} else {})"
    "set (members (entered c a s) (CLUB_PLAYER_TO_CLUB_LIST b)) = set (members s (CLUB_PLAYER_TO_CLUB_LIST b)) \<union> (if b = a then {c} else {})"
  using assms by (auto simp: entered_def Let_def)

lemma entered_good:
  assumes "club_inv E s" "look s (CLUB_ATTR c) \<noteq> None" "a = u \<or> may_manage u (clubs_of E s) c"
  shows "good E u s (entered c a s)"
proof -
  have c: "numeric c" by (rule inv_numeric) fact+
  have frame: "look (entered c a s) (CLUB_ATTR d) = look s (CLUB_ATTR d)" "look (entered c a s) CLUB_LIST = look s CLUB_LIST"
    "look (entered c a s) (FORMAT_USER_HALL_SESSION r) = look s (FORMAT_USER_HALL_SESSION r)" for d r
    by (rule member_moves_frame; simp)+
  note frame' = attrs_names_frame [OF frame]
  have "sets_ok (entered c a s)"
    using assms(1) frame(2) by (auto simp: club_inv_def sets_ok_def entered_def Let_def members_def)
  moreover have "sides_ok (entered c a s)"
    using assms(1,2) c frame(1) by (auto simp: club_inv_def sides_ok_def entered_members)
  ultimately have "club_inv E (entered c a s)" using assms(1) frame' by (simp add: club_inv_def)
  moreover have "clubs_of E (entered c a s) = (clubs_of E s)\<lparr>membs := insert (c, a) (membs (clubs_of E s))\<rparr>"
    using frame'(3,4) c by (auto simp: clubs_of_def entered_members split: if_splits)
  moreover have "owner (clubs_of E s) c \<noteq> None" using assms(1,2) by (auto simp: club_inv_def attrs_ok_def clubs_of_def)
  ultimately show ?thesis using enter assms(3) by (simp add: good_def)
qed

text \<open>A number that is no number may name the list of clubs of a player; then only an account is removed from it.\<close>

lemma left_members:
  assumes "numeric c \<or> \<not> numeric a" "numeric d"
  shows "x \<in> set (members (left_club c a s) (CLUB_PLAYER_LIST d)) \<longleftrightarrow> x \<in> set (members s (CLUB_PLAYER_LIST d)) \<and> \<not> (d = c \<and> x = a)"
    "d \<in> set (members (left_club c a s) (CLUB_PLAYER_TO_CLUB_LIST b)) \<longleftrightarrow> d \<in> set (members s (CLUB_PLAYER_TO_CLUB_LIST b)) \<and> \<not> (d = c \<and> b = a)"
  using assms by (auto simp: left_club_def Let_def)

lemma left_good:
  assumes "club_inv E s" "numeric c \<or> \<not> numeric a" "a = u \<or> may_manage u (clubs_of E s) c \<and> a \<notin> club_mgrs E s c"
  shows "good E u s (left_club c a s)"
proof -
  have frame: "look (left_club c a s) (CLUB_ATTR d) = look s (CLUB_ATTR d)" "look (left_club c a s) CLUB_LIST = look s CLUB_LIST"
    "look (left_club c a s) (FORMAT_USER_HALL_SESSION r) = look s (FORMAT_USER_HALL_SESSION r)" for d r
    by (rule member_moves_frame; simp)+
  note frame' = attrs_names_frame [OF frame]
  have "sets_ok (left_club c a s)"
    using assms(1) frame(2) by (auto simp: club_inv_def sets_ok_def left_club_def Let_def members_def)
  moreover have "sides_ok (left_club c a s)"
    using assms(1) frame(1) by (auto simp: club_inv_def sides_ok_def left_members [OF assms(2)])
  ultimately have "club_inv E (left_club c a s)" using assms(1) frame' by (simp add: club_inv_def)
  moreover have "clubs_of E (left_club c a s) = (clubs_of E s)\<lparr>membs := membs (clubs_of E s) - {(c, a)}\<rparr>"
    using frame'(3,4) by (auto simp: clubs_of_def left_members [OF assms(2)])
  ultimately show ?thesis using leave [of a u "clubs_of E s" c] assms(3) by (simp add: good_def clubs_of_def)
qed

section \<open>A club is disbanded\<close>

lemma snd_run_all_Cons [simp]: "snd (run_all (c # cs) s) = snd (run_all cs (snd (c s)))"
  by (auto split: prod.split sum.split)

lemma snd_run_all_append: "snd (run_all (cs @ ds) s) = snd (run_all ds (snd (run_all cs s)))"
  by (induction cs arbitrary: s) (simp_all del: run_all.simps(2))

lemma wp_execute_state: "wp (execute cs) (\<lambda>_. P) (\<lambda>_. P) s \<longleftrightarrow> P (snd (run_all cs s))"
  by (simp add: wp_def execute_def split: prod.split option.split)

lemma snd_srem: "snd (srem k v s) = (if is_set s k then put_set k (removeAll v (members s k)) s else s)"
  by (simp add: srem_def put_set_def Let_def)

lemma leave_all:
  assumes "\<And>p. is_set s (CLUB_PLAYER_TO_CLUB_LIST p)"
  shows "\<forall>k. k \<notin> range CLUB_PLAYER_TO_CLUB_LIST \<longrightarrow> look (snd (run_all (map (\<lambda>p. srem (CLUB_PLAYER_TO_CLUB_LIST p) c) ps) s)) k = look s k"
    and "is_set (snd (run_all (map (\<lambda>p. srem (CLUB_PLAYER_TO_CLUB_LIST p) c) ps) s)) (CLUB_PLAYER_TO_CLUB_LIST b)"
    and "d \<in> set (members (snd (run_all (map (\<lambda>p. srem (CLUB_PLAYER_TO_CLUB_LIST p) c) ps) s)) (CLUB_PLAYER_TO_CLUB_LIST b)) \<longleftrightarrow>
      d \<in> set (members s (CLUB_PLAYER_TO_CLUB_LIST b)) \<and> \<not> (d = c \<and> b \<in> set ps)"
  using assms by (induction ps arbitrary: s) (auto simp: snd_srem look_put_set simp del: run_all.simps(2))

definition disbanded :: "string \<Rightarrow> string \<Rightarrow> redis \<Rightarrow> redis" where
  "disbanded c a s = snd (run_all ([delete_key (CLUB_ATTR c), srem CLUB_LIST c, srem (CLUB_ACCOUNT_LIST a) c] @
     map (\<lambda>player. srem (CLUB_PLAYER_TO_CLUB_LIST player) c) (members s (CLUB_PLAYER_LIST c)) @ [delete_key (CLUB_PLAYER_LIST c)]) s)"

lemma club_account_neq [simp]:
  "CLUB_ATTR d \<noteq> CLUB_ACCOUNT_LIST a" "CLUB_LIST \<noteq> CLUB_ACCOUNT_LIST a" "CLUB_PLAYER_LIST d \<noteq> CLUB_ACCOUNT_LIST a"
  "CLUB_PLAYER_TO_CLUB_LIST b \<noteq> CLUB_ACCOUNT_LIST a" "FORMAT_USER_HALL_SESSION r \<noteq> CLUB_ACCOUNT_LIST a"
  by (simp_all add: club_keys)

lemma disbanded_facts:
  assumes inv: "club_inv E s" and c: "numeric c"
  shows "look (disbanded c a s) (CLUB_ATTR d) = (if d = c then None else look s (CLUB_ATTR d))"
    and "look (disbanded c a s) (FORMAT_USER_HALL_SESSION r) = look s (FORMAT_USER_HALL_SESSION r)"
    and "members (disbanded c a s) CLUB_LIST = removeAll c (members s CLUB_LIST)"
    and "numeric d \<Longrightarrow> members (disbanded c a s) (CLUB_PLAYER_LIST d) = (if d = c then [] else members s (CLUB_PLAYER_LIST d))"
    and "d \<in> set (members (disbanded c a s) (CLUB_PLAYER_TO_CLUB_LIST b)) \<longleftrightarrow>
      d \<in> set (members s (CLUB_PLAYER_TO_CLUB_LIST b)) \<and> \<not> (d = c \<and> b \<in> set (members s (CLUB_PLAYER_LIST c)))"
    and "k \<in> club_sets \<Longrightarrow> is_set (disbanded c a s) k"
proof -
  let ?s3 = "snd (srem (CLUB_ACCOUNT_LIST a) c (put_set CLUB_LIST (removeAll c (members s CLUB_LIST)) (unput (CLUB_ATTR c) s)))"
  let ?s4 = "snd (run_all (map (\<lambda>p. srem (CLUB_PLAYER_TO_CLUB_LIST p) c) (members s (CLUB_PLAYER_LIST c))) ?s3)"
  have d5: "disbanded c a s = unput (CLUB_PLAYER_LIST c) ?s4"
    using inv_sets [OF inv, of CLUB_LIST]
    by (simp add: disbanded_def snd_run_all_append snd_srem delete_key_def is_set_def del: run_all.simps(2))
  have s3: "look ?s3 k = (if k = CLUB_ATTR c then None else if k = CLUB_LIST then look (put_set CLUB_LIST (removeAll c (members s CLUB_LIST)) s) k else look s k)"
    if "k \<noteq> CLUB_ACCOUNT_LIST a" for k using that by (simp add: snd_srem look_put_set)
  have sets: "is_set ?s3 (CLUB_PLAYER_TO_CLUB_LIST p)" "members ?s3 (CLUB_PLAYER_TO_CLUB_LIST p) = members s (CLUB_PLAYER_TO_CLUB_LIST p)" for p
    using inv_sets [OF inv, of "CLUB_PLAYER_TO_CLUB_LIST p"] s3 [of "CLUB_PLAYER_TO_CLUB_LIST p"] by (simp_all add: is_set_def members_def)
  note s4 = leave_all [OF sets(1), where ps = "members s (CLUB_PLAYER_LIST c)"]
  have off: "CLUB_ATTR d \<notin> range CLUB_PLAYER_TO_CLUB_LIST" "FORMAT_USER_HALL_SESSION r \<notin> range CLUB_PLAYER_TO_CLUB_LIST"
    "CLUB_LIST \<notin> range CLUB_PLAYER_TO_CLUB_LIST" "numeric d \<Longrightarrow> CLUB_PLAYER_LIST d \<notin> range CLUB_PLAYER_TO_CLUB_LIST" for d by auto
  show "look (disbanded c a s) (CLUB_ATTR d) = (if d = c then None else look s (CLUB_ATTR d))"
    "look (disbanded c a s) (FORMAT_USER_HALL_SESSION r) = look s (FORMAT_USER_HALL_SESSION r)"
    unfolding d5 using s4(1) off s3 by simp_all
  have l: "look ?s4 CLUB_LIST = look (put_set CLUB_LIST (removeAll c (members s CLUB_LIST)) s) CLUB_LIST" using s4(1) off s3 [of CLUB_LIST] by simp
  then show "members (disbanded c a s) CLUB_LIST = removeAll c (members s CLUB_LIST)"
    unfolding d5 by (simp add: members_def look_put_set)
  show "numeric d \<Longrightarrow> members (disbanded c a s) (CLUB_PLAYER_LIST d) = (if d = c then [] else members s (CLUB_PLAYER_LIST d))"
    unfolding d5 using s4(1) off(4) s3 [of "CLUB_PLAYER_LIST d"] by (simp add: members_def)
  show "d \<in> set (members (disbanded c a s) (CLUB_PLAYER_TO_CLUB_LIST b)) \<longleftrightarrow>
      d \<in> set (members s (CLUB_PLAYER_TO_CLUB_LIST b)) \<and> \<not> (d = c \<and> b \<in> set (members s (CLUB_PLAYER_LIST c)))"
    unfolding d5 using c by (simp add: s4(3) sets(2))
  have "is_set ?s4 k" if "k \<in> club_sets"
  proof (cases "k \<in> range CLUB_PLAYER_TO_CLUB_LIST \<or> k = CLUB_LIST")
    case False
    then have "look ?s4 k = look s k" using s4(1) s3 [of k] that by (auto simp: club_sets_def)
    then show ?thesis using inv_sets [OF inv that] by (simp add: is_set_def)
  qed (use s4(2) l in \<open>auto simp: is_set_def look_put_set\<close>)
  then show "k \<in> club_sets \<Longrightarrow> is_set (disbanded c a s) k" unfolding d5 by (simp add: is_set_def)
qed

lemma disbanded_good:
  assumes inv: "club_inv E s" and own: "owner (clubs_of E s) c = Some u"
  shows "good E u s (disbanded c a s)"
proof -
  have at: "look s (CLUB_ATTR c) \<noteq> None" using own by (auto simp: clubs_of_def hf_def hash_of_def split: option.splits)
  have c: "numeric c" by (rule inv_numeric [OF inv at])
  note f = disbanded_facts [OF inv c, where a = a]
  have h: "hf (disbanded c a s) (CLUB_ATTR d) g = (if d = c then None else hf s (CLUB_ATTR d) g)"
    "is_hash (disbanded c a s) (CLUB_ATTR d) = (d = c \<or> is_hash s (CLUB_ATTR d))"
    "hf (disbanded c a s) (FORMAT_USER_HALL_SESSION r) g = hf s (FORMAT_USER_HALL_SESSION r) g" for d g r
    using f(1,2) by (simp_all add: hf_def hash_of_def is_hash_def)
  have "sets_ok (disbanded c a s)" using inv f(3,6) by (auto simp: club_inv_def sets_ok_def)
  moreover have "attrs_ok E (disbanded c a s)" using inv f(1,3) h by (auto simp: club_inv_def attrs_ok_def)
  moreover have "names_ok (disbanded c a s)" using inv h(3) by (simp add: club_inv_def names_ok_def)
  moreover have "sides_ok (disbanded c a s)" using inv f(1,4,5) by (auto simp: club_inv_def sides_ok_def)
  ultimately have "club_inv E (disbanded c a s)" by (simp add: club_inv_def)
  moreover have "clubs_of E (disbanded c a s) = (clubs_of E s)
    \<lparr>owner := (owner (clubs_of E s))(c := None), mgrs := (mgrs (clubs_of E s))(c := {}), membs := {(d, x) \<in> membs (clubs_of E s). d \<noteq> c}\<rparr>"
    using f(4) h(1) by (auto simp: clubs_of_def club_mgrs_def fun_eq_iff eval_field_def split: if_splits)
  ultimately show ?thesis using disband [OF own] by (simp add: good_def)
qed

section \<open>A club is founded; managers change\<close>

lemma club_sets_cong: "look t k = look s k \<Longrightarrow> is_set t k = is_set s k \<and> members t k = members s k"
  by (simp add: is_set_def members_def)

text \<open>A change of the attributes of one club, and of the list of clubs when it is new.\<close>

lemma attrs_change:
  assumes inv: "club_inv E s"
    and sets: "\<And>k. k \<in> club_sets - {CLUB_LIST} \<Longrightarrow> look t k = look s k" "is_set t CLUB_LIST"
    and listed: "set (members t CLUB_LIST) = insert c (set (members s CLUB_LIST))" "numeric c"
    and ses: "\<And>r. look t (FORMAT_USER_HALL_SESSION r) = look s (FORMAT_USER_HALL_SESSION r)"
    and other: "\<And>d. d \<noteq> c \<Longrightarrow> look t (CLUB_ATTR d) = look s (CLUB_ATTR d)"
    and new: "look t (CLUB_ATTR c) \<noteq> None" "is_hash t (CLUB_ATTR c)" "hf t (CLUB_ATTR c) ''club_user'' \<noteq> None"
      "eval_field E (hf t (CLUB_ATTR c) ''club_manager'') = Inr l" "card (set l) \<le> 3"
  shows "club_inv E t" "clubs_of E t = (clubs_of E s)\<lparr>owner := (owner (clubs_of E s))(c := hf t (CLUB_ATTR c) ''club_user''),
     mgrs := (mgrs (clubs_of E s))(c := set l)\<rparr>"
proof -
  have h: "hf t (CLUB_ATTR d) g = hf s (CLUB_ATTR d) g" "is_hash t (CLUB_ATTR d) = is_hash s (CLUB_ATTR d)" if "d \<noteq> c" for d g
    using other [OF that] by (simp_all add: hf_def hash_of_def is_hash_def)
  have m: "members t (CLUB_PLAYER_LIST d) = members s (CLUB_PLAYER_LIST d)" "members t (CLUB_PLAYER_TO_CLUB_LIST a) = members s (CLUB_PLAYER_TO_CLUB_LIST a)" for d a
    using sets(1) [of "CLUB_PLAYER_LIST d"] sets(1) [of "CLUB_PLAYER_TO_CLUB_LIST a"] by (simp_all add: members_def)
  have "is_set t k" if "k \<in> club_sets" for k
    using sets(1) [of k] sets(2) inv_sets [OF inv that] that by (cases "k = CLUB_LIST") (simp_all add: is_set_def)
  then have "sets_ok t" using inv listed by (auto simp: club_inv_def sets_ok_def)
  moreover have "attrs_ok E t"
    unfolding attrs_ok_def
  proof (intro allI impI)
    fix d assume d: "look t (CLUB_ATTR d) \<noteq> None"
    show "d \<in> set (members t CLUB_LIST) \<and> is_hash t (CLUB_ATTR d) \<and> hf t (CLUB_ATTR d) ''club_user'' \<noteq> None \<and>
       (\<exists>l. eval_field E (hf t (CLUB_ATTR d) ''club_manager'') = Inr l \<and> card (set l) \<le> 3)"
    proof (cases "d = c")
      case True
      then show ?thesis using new listed(1) by simp
    next
      case False
      then show ?thesis using inv d other [OF False] h [OF False] listed(1) by (simp add: club_inv_def attrs_ok_def)
    qed
  qed
  moreover have "sides_ok t"
    unfolding sides_ok_def m
  proof (intro allI impI conjI)
    fix d a assume d: "numeric d"
    show "a \<in> set (members s (CLUB_PLAYER_LIST d)) \<longleftrightarrow> d \<in> set (members s (CLUB_PLAYER_TO_CLUB_LIST a))"
      using inv d by (simp add: club_inv_def sides_ok_def)
    show "look t (CLUB_ATTR d) \<noteq> None" if "a \<in> set (members s (CLUB_PLAYER_LIST d))"
      using inv d that new(1) other [of d] by (cases "d = c") (auto simp: club_inv_def sides_ok_def)
  qed
  moreover have "names_ok t" using inv ses by (simp add: club_inv_def names_ok_def hf_def hash_of_def)
  ultimately show "club_inv E t" by (simp add: club_inv_def)
  show "clubs_of E t = (clubs_of E s)\<lparr>owner := (owner (clubs_of E s))(c := hf t (CLUB_ATTR c) ''club_user''),
     mgrs := (mgrs (clubs_of E s))(c := set l)\<rparr>"
    using h m new(4) by (auto simp: clubs_of_def club_mgrs_def fun_eq_iff)
qed

lemma good_then_same: "good E u s t \<Longrightarrow> club_same t v \<Longrightarrow> good E u s v"
  by (simp add: good_def club_same_inv club_same_abs)

lemma good_frame: "good E u s t \<Longrightarrow> (\<And>k. k \<in> club_places \<Longrightarrow> look v k = look t k) \<Longrightarrow> good E u s v"
  by (erule good_then_same, rule club_same_frame)

definition founded :: "string \<Rightarrow> (string \<times> string) list \<Rightarrow> redis \<Rightarrow> redis" where
  "founded c fs s = hputs (CLUB_ATTR c) fs (put_set CLUB_LIST (List.insert c (members s CLUB_LIST)) s)"

lemma founded_good:
  assumes inv: "club_inv E s" "set_law E" and c: "numeric c" "CHR ''4'' \<notin> set c" "c \<notin> set (members s CLUB_LIST)"
  shows "good E (fmt account) s (founded c (club_create_fields account nm ag content) s)"
proof -
  let ?t = "founded c (club_create_fields account nm ag content) s"
  have none: "look s (CLUB_ATTR c) = None" using inv c(3) by (auto simp: club_inv_def attrs_ok_def)
  then have f: "hf s (CLUB_ATTR c) g = None" for g by (simp add: hf_def hash_of_def)
  have new: "hf ?t (CLUB_ATTR c) ''club_user'' = Some (fmt account)" "hf ?t (CLUB_ATTR c) ''club_manager'' = Some ''set()''"
    by (simp_all add: founded_def hf_hputs_same club_create_fields_def)
  have fr: "look ?t k = look s k" if "k \<in> club_sets - {CLUB_LIST}" for k
  proof -
    from that have "k \<noteq> CLUB_ATTR c" "k \<noteq> CLUB_LIST" using club_sets_neq(1) [of c] by auto
    then show ?thesis by (simp add: founded_def look_hputs_other look_put_set)
  qed
  have li: "is_set ?t CLUB_LIST" "set (members ?t CLUB_LIST) = insert c (set (members s CLUB_LIST))"
    by (simp_all add: founded_def members_hputs is_set_def look_hputs_other look_put_set)
  have rest: "look ?t (FORMAT_USER_HALL_SESSION r) = look s (FORMAT_USER_HALL_SESSION r)" "d \<noteq> c \<Longrightarrow> look ?t (CLUB_ATTR d) = look s (CLUB_ATTR d)" for r d
    by (simp_all add: founded_def look_hputs_other look_put_set)
  have "is_hash ?t (CLUB_ATTR c)" by (simp add: founded_def club_create_fields_def)
  moreover have "look ?t (CLUB_ATTR c) \<noteq> None" using new(1) by (auto simp: hf_def hash_of_def split: option.splits)
  moreover have "eval_field E (hf ?t (CLUB_ATTR c) ''club_manager'') = Inr []" using inv(2) by (simp add: new eval_field_def set_law_def)
  ultimately have "club_inv E ?t" "clubs_of E ?t = (clubs_of E s)\<lparr>owner := (owner (clubs_of E s))(c := Some (fmt account)), mgrs := (mgrs (clubs_of E s))(c := {})\<rparr>"
    using attrs_change [OF inv(1) fr li c(1) rest, where l = "[]"] new(1) by auto
  moreover have "(mgrs (clubs_of E s))(c := {}) = mgrs (clubs_of E s)" using f by (simp add: clubs_of_def club_mgrs_def eval_field_def fun_eq_iff)
  moreover have "owner (clubs_of E s) c = None" using f by (simp add: clubs_of_def)
  ultimately show ?thesis using found c(2) by (simp add: good_def)
qed

lemma managers_good:
  assumes inv: "club_inv E s" and own: "hf s (CLUB_ATTR c) ''club_user'' = Some u"
    and ev: "eval_set E v = Inr l" "card (set l) \<le> 3"
    and st: "card (club_mgrs E s c) < 3 \<and> set l = insert x (club_mgrs E s c) \<or> set l = club_mgrs E s c - {x}"
  shows "good E u s (hput (CLUB_ATTR c) ''club_manager'' v s)"
proof -
  let ?t = "hput (CLUB_ATTR c) ''club_manager'' v s"
  have at: "look s (CLUB_ATTR c) \<noteq> None" using own by (auto simp: hf_def hash_of_def split: option.splits)
  then have listed: "c \<in> set (members s CLUB_LIST)" using inv unfolding club_inv_def attrs_ok_def by blast
  have c: "numeric c" by (rule inv_numeric [OF inv at])
  have fr: "look ?t k = look s k" if "k \<in> club_sets" for k
  proof (rule look_hput_other)
    show "k \<noteq> CLUB_ATTR c" using that club_sets_neq(1) [of c] by auto
  qed
  have new1: "look ?t (CLUB_ATTR c) \<noteq> None" "is_hash ?t (CLUB_ATTR c)" by (simp_all add: hput_def is_hash_def)
  have new2: "hf ?t (CLUB_ATTR c) ''club_user'' \<noteq> None" "eval_field E (hf ?t (CLUB_ATTR c) ''club_manager'') = Inr l"
    using own ev(1) by (simp_all add: eval_field_def)
  have li: "is_set ?t CLUB_LIST" "set (members ?t CLUB_LIST) = insert c (set (members s CLUB_LIST))"
    using fr [of CLUB_LIST] inv_sets [OF inv, of CLUB_LIST] listed by (simp_all add: is_set_def members_def insert_absorb)
  have rest: "look ?t (FORMAT_USER_HALL_SESSION r) = look s (FORMAT_USER_HALL_SESSION r)" "d \<noteq> c \<Longrightarrow> look ?t (CLUB_ATTR d) = look s (CLUB_ATTR d)" for r d
    by (simp_all add: look_hput_other)
  have fr': "look ?t k = look s k" if "k \<in> club_sets - {CLUB_LIST}" for k using fr that by simp
  note ch = attrs_change [OF inv fr' li c rest new1 new2 ev(2)]
  have "hf ?t (CLUB_ATTR c) ''club_user'' = Some u" using own by simp
  with ch have "club_inv E ?t" "clubs_of E ?t = (clubs_of E s)\<lparr>owner := (owner (clubs_of E s))(c := Some u), mgrs := (mgrs (clubs_of E s))(c := set l)\<rparr>"
    by simp_all
  moreover have "(owner (clubs_of E s))(c := Some u) = owner (clubs_of E s)" using own by (simp add: clubs_of_def fun_eq_iff)
  ultimately have t: "club_inv E ?t" "clubs_of E ?t = (clubs_of E s)\<lparr>mgrs := (mgrs (clubs_of E s))(c := set l)\<rparr>" by simp_all
  have o: "owner (clubs_of E s) c = Some u" "mgrs (clubs_of E s) c = club_mgrs E s c" using own by (simp_all add: clubs_of_def)
  from st have "club_step u (clubs_of E s) ((clubs_of E s)\<lparr>mgrs := (mgrs (clubs_of E s))(c := set l)\<rparr>)"
  proof
    assume "card (club_mgrs E s c) < 3 \<and> set l = insert x (club_mgrs E s c)"
    with appoint [OF o(1), where x = x] show ?thesis unfolding o(2) by simp
  next
    assume "set l = club_mgrs E s c - {x}"
    with relieve [OF o(1), where x = x] show ?thesis unfolding o(2) by simp
  qed
  with t show ?thesis by (simp add: good_def)
qed

section \<open>Every request is a step\<close>

lemma club_guard_wp:
  assumes "Q elsewhere s" "E ResponseError s" "wp (body (hf s (FORMAT_USER_HALL_SESSION sid) ''account'')) Q E s"
  shows "wp (club_guard sid elsewhere body) Q E s"
  using assms by (auto simp: club_guard_def getInfoBySid_def wp_eqs split: option.split rval.split)

lemma club_alive_wp:
  assumes "\<And>c m. (c, m) \<in> {(- 3, ''session''), (- 4, ''elsewhere''), (1, ''no number''), (1, ''no such club'')} \<Longrightarrow> Q (Reply c m) s" "E ResponseError s"
    "look s (CLUB_ATTR c) \<noteq> None \<Longrightarrow> wp (body (hf s (FORMAT_USER_HALL_SESSION sid) ''account'')) Q E s"
  shows "wp (club_alive sid c body) Q E s"
  unfolding club_alive_def by (rule info_wp) (use assms in \<open>auto simp: wp_eqs\<close>)

lemma op_create_good:
  assumes "club_inv E s" "set_law E" "numeric c" "CHR ''4'' \<notin> set c" "c \<notin> set (members s CLUB_LIST)"
  shows "wp (op_create_club account c nm ag content) (\<lambda>_. good E (fmt account) s) (\<lambda>_. good E (fmt account) s) s"
proof -
  have "look s (CLUB_ATTR c) = None" using assms(1,5) by (auto simp: club_inv_def attrs_ok_def)
  then have h: "is_hash (put_set CLUB_LIST (List.insert c (members s CLUB_LIST)) s) (CLUB_ATTR c)" by (simp add: is_hash_def look_put_set)
  note g = founded_good [OF assms, of account nm ag content]
  have fr: "look (put_set (CLUB_ACCOUNT_LIST a) l t) k = look t k" if "k \<in> club_places" for a l t k
    using that by (auto simp: look_put_set)
  show ?thesis
    unfolding op_create_club_def wp_thenM wp_sadd wp_hmset
    using h inv_sets [OF assms(1), of CLUB_LIST] g good_frame [OF g fr]
    by (simp add: founded_def [symmetric] club_create_fields_def [of account nm ag content, THEN arg_cong [where f = "\<lambda>l. l \<noteq> []"]])
qed

lemma create_club_good:
  assumes "club_inv E s" "set_law E"
  shows "wp (create_club sid nm) (\<lambda>_. good E (session_account s sid) s) (\<lambda>_. good E (session_account s sid) s) s"
  unfolding create_club_def wp_tryM Let_def wp_retM wp_if
proof (split if_split, intro conjI impI club_guard_wp, goal_cases)
  case 4
  have c: "wp (op_create_club account (show_int n) x y z) (\<lambda>_. good E (fmt account) s) (\<lambda>_. good E (fmt account) s) s"
    if "all_ints (members s CLUB_LIST) = Inr vs" "next_club_id vs = Inr n" for account n vs x y z
    using next_club_id_fresh [OF _ that] assms by (intro op_create_good) (auto simp: club_inv_def sets_ok_def)
  show ?case
    unfolding session_account_def [symmetric]
    by (intro run_wp) (auto simp: assms session_account_def wp_retM intro!: wp_mono [OF c])
qed (simp_all add: assms)

lemma frame_good:
  assumes "only (- club_places) m" "club_inv E s"
  shows "wp m (\<lambda>_. good E u s) (\<lambda>_. good E u s) s"
  by (rule only_wp [OF assms(1)]) (auto intro!: good_frame [OF good_refl [OF assms(2)]])

lemma add_club_run:
  assumes "club_inv E s"
  shows "wp (op_add_club account c) (\<lambda>ok t. if ok then look s (CLUB_ATTR c) \<noteq> None \<and> t = entered c (fmt account) s else t = s) (\<lambda>_ _. False) s"
proof -
  have "is_set (put_set (CLUB_PLAYER_TO_CLUB_LIST a) l s) (CLUB_PLAYER_LIST c)" for a l
    using inv_sets [OF assms, of "CLUB_PLAYER_LIST c"] by simp
  then show ?thesis
    using inv_sets [OF assms, of "CLUB_PLAYER_TO_CLUB_LIST (fmt account)"] by (simp add: op_add_club_def wp_eqs entered_def Let_def)
qed

lemma add_club_exists:
  assumes "club_inv E s" "look s (CLUB_ATTR c) \<noteq> None"
  shows "wp (op_add_club account c) (\<lambda>ok t. ok \<and> t = entered c (fmt account) s) (\<lambda>_ _. False) s"
proof -
  have "is_set (put_set (CLUB_PLAYER_TO_CLUB_LIST a) l s) (CLUB_PLAYER_LIST c)" for a l
    using inv_sets [OF assms(1), of "CLUB_PLAYER_LIST c"] by simp
  then show ?thesis
    using inv_sets [OF assms(1), of "CLUB_PLAYER_TO_CLUB_LIST (fmt account)"] assms(2) by (simp add: op_add_club_def wp_eqs entered_def Let_def)
qed

lemma sign_out_run:
  assumes "club_inv E s"
  shows "wp (op_sign_out_club account c) (\<lambda>ok t. t = left_club c (fmt account) s) (\<lambda>_ _. False) s"
  using inv_sets [OF assms] by (simp add: op_sign_out_club_def wp_eqs left_club_def Let_def)

lemma session_not_numeric: "club_inv E s \<Longrightarrow> \<not> numeric (fmt (hf s (FORMAT_USER_HALL_SESSION r) ''account''))"
  by (cases "hf s (FORMAT_USER_HALL_SESSION r) ''account''") (auto simp: club_inv_def names_ok_def numeric_def is_digit_def)

lemma join_club_good:
  assumes "club_inv E s"
  shows "wp (join_club sid c) (\<lambda>_. good E (session_account s sid) s) (\<lambda>_. good E (session_account s sid) s) s"
  unfolding join_club_def Let_def
  by (intro run_if run_retM club_guard_wp run_bindM run_hget wp_mono [OF add_club_run [OF assms]])
    (auto simp: assms wp_eqs session_account_def intro!: entered_good split: if_splits)

lemma sign_out_club_good:
  assumes "club_inv E s"
  shows "wp (sign_out_club sid c) (\<lambda>_. good E (session_account s sid) s) (\<lambda>_. good E (session_account s sid) s) s"
  unfolding sign_out_club_def
  by (intro club_guard_wp run_bindM wp_mono [OF sign_out_run [OF assms]])
    (auto simp: assms wp_eqs session_account_def session_not_numeric [OF assms] intro!: left_good)

text \<open>The right the handlers ask for is the right of the abstract system.\<close>

lemma right_managed:
  assumes "\<not> no_right (hf s (CLUB_ATTR c) ''club_user'') account l" "eval_field E (hf s (CLUB_ATTR c) ''club_manager'') = Inr l"
    and "hf s (CLUB_ATTR c) ''club_user'' \<noteq> None"
  shows "may_manage (fmt account) (clubs_of E s) c" "club_mgrs E s c = set l"
  using assms by (auto simp: no_right_def may_manage_def clubs_of_def club_mgrs_def among_def split: option.splits)

lemma force_sign_out_good:
  assumes "club_inv E s"
  shows "wp (force_sign_out_club E sid who c) (\<lambda>_. good E (session_account s sid) s) (\<lambda>_. good E (session_account s sid) s) s"
  unfolding force_sign_out_club_def Let_def
proof (intro info_wp, goal_cases)
  case (2 uid v)
  have "hf s (CLUB_ATTR (strip c)) ''club_user'' \<noteq> None" "numeric (strip c)" if "look s (CLUB_ATTR (strip c)) \<noteq> None"
    using assms that inv_numeric [OF assms that] by (auto simp: club_inv_def attrs_ok_def)
  note at = this
  show ?case
    unfolding prod.case
    by (intro run_if run_retM run_bindM run_exists_key run_hget run_liftE wp_mono [OF sign_out_run [OF assms]])
      (auto simp: assms wp_retM session_account_def at right_managed intro!: left_good)
qed (simp add: assms)

end
