(* ===== verification/ClubRuns.thy ===== *)
theory ClubRuns
  imports ClubLaws Histories
begin

text \<open>
  The requests to the club module as one operation each, and what holds along every history of them:
  the module is a simulation of the abstract clubs.
\<close>

section \<open>Requests that change attributes, managers or members\<close>

lemma hash_write_same:
  assumes "is_hash s p" "look s p \<noteq> None" "f \<noteq> ''club_user''" "f \<noteq> ''club_manager''" "f \<noteq> ''account''"
  shows "club_same s (hput p f v s)"
proof -
  have "p \<noteq> k" if "is_set s k" for k using assms(1,2) that by (auto simp: is_hash_def is_set_def split: option.splits rval.splits)
  then have "look (hput p f v s) k = look s k" if "is_set s k" for k using that by (metis look_hput_other)
  then have "is_set (hput p f v s) k = is_set s k \<and> members (hput p f v s) k = members s k" for k
    using assms(1,2) by (cases "p = k") (auto simp: is_set_def members_def is_hash_def look_hput_other hput_def split: option.splits rval.splits)
  moreover have "hf (hput p f v s) k g = hf s k g" if "g \<noteq> f" for k g using that by simp
  moreover have "(look (hput p f v s) k = None) = (look s k = None)" "is_hash (hput p f v s) k = is_hash s k" for k
    using assms(1,2) by (cases "p = k"; simp add: hput_def is_hash_def)+
  ultimately show ?thesis using assms by (simp add: club_same_def)
qed

lemma delete_club_good:
  assumes "club_inv E s"
  shows "wp (delete_club sid c) (\<lambda>_. good E (session_account s sid) s) (\<lambda>_. good E (session_account s sid) s) s"
  unfolding delete_club_def wp_tryM Let_def
proof (intro club_guard_wp, goal_cases)
  case 3
  have "good E (fmt account) s (disbanded (strip c) (fmt account) s)"
    if "look s (CLUB_ATTR (strip c)) \<noteq> None" "hf s (CLUB_ATTR (strip c)) ''club_user'' = account" for account
    using that assms by (intro disbanded_good) (auto simp: clubs_of_def club_inv_def attrs_ok_def split: option.splits)
  then show ?case
    unfolding session_account_def
    by (intro run_wp wp_mono [OF wp_execute_state [THEN iffD2]])
      (auto simp: assms wp_retM disbanded_def)
qed (simp_all add: assms wp_retM)

lemma edit_club_good:
  assumes "club_inv E s"
  shows "wp (edit_club E sid c content) (\<lambda>_. good E (session_account s sid) s) (\<lambda>_. good E (session_account s sid) s) s"
  unfolding edit_club_def Let_def
proof (intro run_if run_retM info_wp, goal_cases)
  case (3 uid v)
  show ?case unfolding prod.case by (intro run_wp) (auto simp: assms intro!: good_same hash_write_same)
qed (simp_all add: assms)

lemma hash_write_run:
  assumes "club_inv E s" "club_same s t" "is_hash t p" "look t p \<noteq> None" "f \<noteq> ''club_user''" "f \<noteq> ''club_manager''" "f \<noteq> ''account''"
  shows "good E u s (hput p f v t)"
  using good_same [OF assms(1)] club_same_trans [OF assms(2) hash_write_same] assms(3-) by blast

text \<open>The marks go to any hash the client names: no club notices.\<close>

lemma marks_same:
  "club_same s t \<Longrightarrow> wp (forM ps (\<lambda>p. bindM (exists_key p) (\<lambda>ex. if ex then hset p ''tag'' ''True'' else retM ())))
     (\<lambda>_. club_same s) (\<lambda>_. club_same s) t"
proof (induction ps arbitrary: t)
  case (Cons p ps)
  have "wp (bindM (exists_key p) (\<lambda>ex. if ex then hset p ''tag'' ''True'' else retM ())) (\<lambda>_. club_same s) (\<lambda>_. club_same s) t"
    by (intro run_wp) (auto simp: Cons.prems intro: club_same_trans [OF Cons.prems hash_write_same])
  then show ?case by (auto simp: wp_bindM wp_thenM intro: wp_mono Cons.IH)
qed (simp add: wp_retM)

lemma history_sign_good:
  assumes "club_inv E s"
  shows "wp (history_sign E sid c paths) (\<lambda>_. good E (session_account s sid) s) (\<lambda>_. good E (session_account s sid) s) s"
proof -
  have m: "wp (forM ps (\<lambda>p. bindM (exists_key p) (\<lambda>ex. if ex then hset p ''tag'' ''True'' else retM ()))) (\<lambda>_. club_same s) (\<lambda>_. club_same s) s" for ps
    by (rule marks_same) simp
  show ?thesis
    unfolding history_sign_def Let_def
    by (intro club_alive_wp run_wp wp_mono [OF m]) (auto simp: assms wp_retM intro: good_same)
qed

lemma manager_texts:
  assumes "set_law E"
  shows "\<exists>l. eval_set E (str_set E (List.insert x data)) = Inr l \<and> set l = insert x (set data)"
    and "\<exists>l. eval_set E (if removeAll x data = [] then ''set()'' else str_set E (removeAll x data)) = Inr l \<and> set l = set data - {x}"
proof -
  have e: "eval_set E ''set()'' = Inr []" and r: "xs \<noteq> [] \<Longrightarrow> \<exists>ys. eval_set E (str_set E xs) = Inr ys \<and> set ys = set xs" for xs
    using assms by (simp_all add: set_law_def)
  have "List.insert x data \<noteq> []" by (cases "x \<in> set data") auto
  from r [OF this] show "\<exists>l. eval_set E (str_set E (List.insert x data)) = Inr l \<and> set l = insert x (set data)" by simp
  show "\<exists>l. eval_set E (if removeAll x data = [] then ''set()'' else str_set E (removeAll x data)) = Inr l \<and> set l = set data - {x}"
  proof (cases "removeAll x data = []")
    case True
    then have "set data - {x} = {}" by (metis list.set(1) set_removeAll)
    with True e show ?thesis by simp
  qed (use r [of "removeAll x data"] in simp)
qed

text \<open>An existing club whose owner is the account of the session.\<close>

lemma owned:
  assumes "club_inv E s" "look s (CLUB_ATTR d) \<noteq> None" "hf s (CLUB_ATTR d) ''club_user'' = account"
  shows "hf s (CLUB_ATTR d) ''club_user'' = Some (fmt account)"
  using assms by (cases account) (auto simp: club_inv_def attrs_ok_def)

lemma card_remdups: "card (set l) = length (remdups l)"
  by (rule length_remdups_card_conv [symmetric])

lemma add_manager_good:
  assumes "club_inv E s" "set_law E"
  shows "wp (add_manager E sid c who) (\<lambda>_. good E (session_account s sid) s) (\<lambda>_. good E (session_account s sid) s) s"
  unfolding add_manager_def Let_def
proof (rule info_wp, goal_cases)
  case (2 uid v)
  have g: "good E (fmt account) s (hput (CLUB_ATTR d) ''club_manager'' (str_set E (List.insert x data)) s)"
    if "look s (CLUB_ATTR d) \<noteq> None" "hf s (CLUB_ATTR d) ''club_user'' = account" "eval_field E (hf s (CLUB_ATTR d) ''club_manager'') = Inr data" "length (remdups data) < 3" for account d x data
  proof -
    obtain l where l: "eval_set E (str_set E (List.insert x data)) = Inr l" "set l = insert x (set data)" using manager_texts(1) [OF assms(2)] by blast
    have m: "club_mgrs E s d = set data" using that(3) by (simp add: club_mgrs_def)
    show ?thesis
    proof (rule managers_good [OF assms(1) owned [OF assms(1) that(1,2)] l(1)])
      show "card (set l) \<le> 3" using that(4) l(2) card_insert_le_m1 [of 3 "set data" x] by (simp add: card_remdups)
      show "card (club_mgrs E s d) < 3 \<and> set l = insert x (club_mgrs E s d) \<or> set l = club_mgrs E s d - {x}"
        using that(4) l(2) m by (simp add: card_remdups)
    qed
  qed
  show ?case unfolding prod.case session_account_def
    by (intro run_wp; (rule good_refl [OF assms(1)] | (rule g; simp add: not_le)))
qed (simp add: assms)

lemma relieve_manager_good:
  assumes "club_inv E s" "set_law E"
  shows "wp (relieve_manager E sid c who) (\<lambda>_. good E (session_account s sid) s) (\<lambda>_. good E (session_account s sid) s) s"
  unfolding relieve_manager_def Let_def
proof (rule info_wp, goal_cases)
  case (2 uid v)
  have g: "good E (fmt account) s (hput (CLUB_ATTR d) ''club_manager'' (if removeAll x data = [] then ''set()'' else str_set E (removeAll x data)) s)"
    if "look s (CLUB_ATTR d) \<noteq> None" "hf s (CLUB_ATTR d) ''club_user'' = account" "eval_field E (hf s (CLUB_ATTR d) ''club_manager'') = Inr data" for account d x data
  proof -
    obtain l where l: "eval_set E (if removeAll x data = [] then ''set()'' else str_set E (removeAll x data)) = Inr l" "set l = set data - {x}"
      using manager_texts(2) [OF assms(2)] by blast
    have m: "club_mgrs E s d = set data" using that(3) by (simp add: club_mgrs_def)
    have "card (set data) \<le> 3" using assms(1) that(1,3) by (auto simp: club_inv_def attrs_ok_def)
    then have c: "card (set l) \<le> 3" using l(2) card_Diff1_le [of "set data" x] by simp
    show ?thesis by (rule managers_good [OF assms(1) owned [OF assms(1) that(1,2)] l(1) c]) (use l(2) m in blast)
  qed
  show ?case unfolding prod.case session_account_def
    by (intro run_wp; (rule good_refl [OF assms(1)] | (rule g; simp add: not_le)))
qed (simp add: assms)

section \<open>Applications\<close>

lemma same_then_good: "club_same s t \<Longrightarrow> good E u t v \<Longrightarrow> good E u s v"
  by (simp add: good_def club_same_abs)

lemma only_answer_item: "only {CLUB_AUDI_LIST c} (answer_item c x parts status)"
  unfolding answer_item_def by (intro only_intros) auto

lemma answer_item_same:
  assumes "club_same s t"
  shows "wp (answer_item c x parts status) (\<lambda>_. club_same s) (\<lambda>_. club_same s) t"
proof (rule only_wp [OF only_answer_item])
  fix v assume v: "\<And>k. k \<notin> {CLUB_AUDI_LIST c} \<Longrightarrow> look v k = look t k"
  have "look v k = look t k" if "k \<in> club_places" for k using v [of k] other_places(1) [of c] that by blast
  then show "club_same s v" by (intro club_same_trans [OF assms] club_same_frame)
  then show "club_same s v" .
qed

lemma answer_add:
  assumes "club_inv E s" "club_same s t" "look s (CLUB_ATTR c) \<noteq> None \<Longrightarrow> may_manage u (clubs_of E s) c"
  shows "wp (op_add_club (Some who) c) (\<lambda>ok v. if ok then good E u s v else club_same s v) (\<lambda>_ _. False) t"
proof -
  have inv: "club_inv E t" using assms(1,2) by (simp add: club_same_inv)
  with club_same_exists [OF assms(2), of c] have "good E u t (entered c who t)" if "look t (CLUB_ATTR c) \<noteq> None"
    using entered_good [OF inv that] assms(2,3) that by (simp add: club_same_abs)
  then show ?thesis by (intro wp_mono [OF add_club_run [OF inv]]) (auto intro: same_then_good [OF assms(2)] simp: assms(2) split: if_splits)
qed

lemma answer_loop_good:
  assumes "club_inv E s" "club_same s t" "look s (CLUB_ATTR c) \<noteq> None \<Longrightarrow> may_manage u (clubs_of E s) c"
  shows "wp (answer_loop accept c who status es) (\<lambda>_. good E u s) (\<lambda>_. good E u s) t"
  using assms(2)
proof (induction es arbitrary: t)
  case Nil
  then show ?case using assms(1) by (simp add: wp_retM good_same)
next
  case (Cons e es)
  have loop: "wp (answer_loop b c who status es) (\<lambda>_. good E u s) (\<lambda>_. good E u s) v" if "b = accept" "club_same s v" for b v
    using Cons.IH that by simp
  have here: "good E u s t" by (rule good_same [OF assms(1) Cons.prems])
  have go: "wp (op_add_club (Some a) c) (\<lambda>ok. wp (if ok then retM r else answer_loop b c who status es) (\<lambda>_. good E u s) (\<lambda>_. good E u s)) (\<lambda>_. good E u s) v"
    if "b = accept" "club_same s v" for a b r v
    by (rule wp_mono [OF answer_add [OF assms(1) that(2) assms(3)]]) (auto simp: wp_retM intro: loop [OF that(1)] split: if_splits)
  show ?case
    by (auto simp: wp_bindM wp_thenM wp_liftE wp_retM here loop [OF _ Cons.prems] go intro!: wp_mono [OF answer_item_same [OF Cons.prems]] good_same [OF assms(1)] split: sum.split)
qed

lemma apply_club_audit_good:
  assumes "club_inv E s"
  shows "wp (apply_club_audit E sid c who status) (\<lambda>_. good E (session_account s sid) s) (\<lambda>_. good E (session_account s sid) s) s"
  unfolding apply_club_audit_def Let_def
proof (rule info_wp, goal_cases)
  case (2 uid v)
  define d where "d = strip c"
  define account where "account = hf s (FORMAT_USER_HALL_SESSION (strip sid)) ''account''"
  have right: "wp (if ex then bindM (hget (CLUB_ATTR d) ''club_manager'') (\<lambda>m. bindM (liftE (eval_field E m)) (\<lambda>data.
        bindM (hget (CLUB_ATTR d) ''club_user'') (\<lambda>club_user. retM (no_right club_user account data)))) else retM False)
      (\<lambda>refused t. t = s \<and> (\<not> refused \<and> look s (CLUB_ATTR d) \<noteq> None \<longrightarrow> may_manage (fmt account) (clubs_of E s) d)) (\<lambda>_ t. t = s) s"
    if "ex = (look s (CLUB_ATTR d) \<noteq> None)" for ex
  proof -
    have "hf s (CLUB_ATTR d) ''club_user'' \<noteq> None" if "look s (CLUB_ATTR d) \<noteq> None" using assms that by (simp add: club_inv_def attrs_ok_def)
    then show ?thesis using that by (intro run_wp) (auto intro: right_managed)
  qed
  have loop: "wp (answer_loop b d x y es) (\<lambda>_. good E (fmt account) s) (\<lambda>_. good E (fmt account) s) s"
    if "look s (CLUB_ATTR d) \<noteq> None \<longrightarrow> may_manage (fmt account) (clubs_of E s) d" for b x y es
    by (rule answer_loop_good) (use assms that in auto)
  show ?case
    unfolding prod.case session_account_def account_def [symmetric] d_def [symmetric]
    by (intro run_if run_retM run_bindM run_exists_key run_liftE run_smembers wp_mono [OF right]) (auto simp: assms intro!: loop run_smembers run_bindM)
qed (simp add: assms)

section \<open>The requests of the module\<close>

datatype club_op =
    Create_club string string
  | Disband_club string string
  | Edit_club string string string
  | Join_club string string
  | Sign_out_club string string
  | Force_sign_out string string string
  | Apply_club string string
  | Audit_club string string string string
  | Add_manager string string string
  | Relieve_manager string string string
  | Sign_history string string string
  | Allow_auto string string
  | Set_auto string string string string string
  | Clear_auto string string

fun club_do :: "pyset \<Rightarrow> club_op \<Rightarrow> redis \<Rightarrow> redis" where
  "club_do E (Create_club sid nm) s = snd (create_club sid nm s)"
| "club_do E (Disband_club sid c) s = snd (delete_club sid c s)"
| "club_do E (Edit_club sid c content) s = snd (edit_club E sid c content s)"
| "club_do E (Join_club sid c) s = snd (join_club sid c s)"
| "club_do E (Sign_out_club sid c) s = snd (sign_out_club sid c s)"
| "club_do E (Force_sign_out sid who c) s = snd (force_sign_out_club E sid who c s)"
| "club_do E (Apply_club sid c) s = snd (apply_club sid c s)"
| "club_do E (Audit_club sid c who status) s = snd (apply_club_audit E sid c who status s)"
| "club_do E (Add_manager sid c who) s = snd (add_manager E sid c who s)"
| "club_do E (Relieve_manager sid c who) s = snd (relieve_manager E sid c who s)"
| "club_do E (Sign_history sid c paths) s = snd (history_sign E sid c paths s)"
| "club_do E (Allow_auto sid c) s = snd (settting_auto_create_allow sid c s)"
| "club_do E (Set_auto sid c game rule i) s = snd (setting_auto_create sid c game rule i s)"
| "club_do E (Clear_auto sid c) s = snd (clear_auto_create sid c s)"

fun club_sid :: "club_op \<Rightarrow> string" where
  "club_sid (Create_club sid nm) = sid"
| "club_sid (Disband_club sid c) = sid"
| "club_sid (Edit_club sid c content) = sid"
| "club_sid (Join_club sid c) = sid"
| "club_sid (Sign_out_club sid c) = sid"
| "club_sid (Force_sign_out sid who c) = sid"
| "club_sid (Apply_club sid c) = sid"
| "club_sid (Audit_club sid c who status) = sid"
| "club_sid (Add_manager sid c who) = sid"
| "club_sid (Relieve_manager sid c who) = sid"
| "club_sid (Sign_history sid c paths) = sid"
| "club_sid (Allow_auto sid c) = sid"
| "club_sid (Set_auto sid c game rule i) = sid"
| "club_sid (Clear_auto sid c) = sid"

lemma only_club_guard [only_intros]: "(\<And>a. only ks (body a)) \<Longrightarrow> only ks (club_guard sid e body)"
  unfolding club_guard_def by (intro only_intros)

lemma only_club_alive [only_intros]: "(\<And>a. only ks (body a)) \<Longrightarrow> only ks (club_alive sid c body)"
  unfolding club_alive_def by (intro only_intros)

lemma only_owner_cards [only_intros]: "only ks (owner_cards o')"
  unfolding owner_cards_def getUserByAccount_def by (intro only_intros)

lemma only_ag_club [only_intros]: "only ks (ag_club c)"
  unfolding ag_club_def getUserByAccount_def by (intro only_intros)

lemma only_auto_allowed [only_intros]: "only ks (auto_allowed c)"
  unfolding auto_allowed_def by (intro only_intros)

lemma only_club_rest:
  "only (- club_places) (apply_club sid c)" "only (- club_places) (settting_auto_create_allow sid c)"
  "only (- club_places) (setting_auto_create sid c game rule i)" "only (- club_places) (clear_auto_create sid c)"
  unfolding apply_club_def settting_auto_create_allow_def setting_auto_create_def clear_auto_create_def Let_def
  by (intro only_intros; simp)+

lemma request_good:
  assumes "club_inv E s" "set_law E"
  shows "good E (session_account s (club_sid op)) s (club_do E op s)"
proof -
  note st = wp_state [THEN iffD1]
  note rest = only_club_rest [THEN frame_good, OF assms(1), THEN st]
  show ?thesis
    using create_club_good [OF assms, THEN st] add_manager_good [OF assms, THEN st] relieve_manager_good [OF assms, THEN st]
      delete_club_good [OF assms(1), THEN st] edit_club_good [OF assms(1), THEN st] join_club_good [OF assms(1), THEN st]
      sign_out_club_good [OF assms(1), THEN st] force_sign_out_good [OF assms(1), THEN st] apply_club_audit_good [OF assms(1), THEN st]
      history_sign_good [OF assms(1), THEN st] rest
    by (cases op) simp_all
qed

text \<open>The actor of a request: the account of its session, in the state the request finds.\<close>

definition actor :: "club_op \<Rightarrow> redis \<Rightarrow> string" where
  "actor op s = session_account s (club_sid op)"

interpretation clubs: labelled_simulation "club_do E" "\<lambda>s. club_inv E s \<and> set_law E" "clubs_of E" actor club_step for E
  by unfold_locales (use request_good in \<open>auto simp: good_def actor_def\<close>)

section \<open>Who may do what\<close>

lemma step_rights:
  assumes "club_step u A B"
  shows "(c, a) \<in> membs A \<Longrightarrow> (c, a) \<notin> membs B \<Longrightarrow> a = u \<or> may_manage u A c"
    and "(c, a) \<notin> membs A \<Longrightarrow> (c, a) \<in> membs B \<Longrightarrow> a = u \<or> may_manage u A c"
    and "owner A c \<noteq> None \<Longrightarrow> mgrs B c \<noteq> mgrs A c \<Longrightarrow> owner A c = Some u"
    and "owner B c \<noteq> owner A c \<Longrightarrow> owner A c = None \<and> owner B c = Some u \<or> owner A c = Some u \<and> owner B c = None"
  using assms by (auto elim!: club_step.cases simp: may_manage_def split: if_splits)

text \<open>A text form of sets for the examples: every character is marked, and every element ends with a bar.\<close>

fun unmark :: "string \<Rightarrow> string \<Rightarrow> string list" where
  "unmark acc (m # cs) = (if m = CHR ''|'' then acc # unmark [] cs else case cs of c # r \<Rightarrow> unmark (acc @ [c]) r | [] \<Rightarrow> [])"
| "unmark acc [] = []"

definition demo_pyset :: pyset where
  "demo_pyset = \<lparr>str_set = (\<lambda>xs. concat (map (\<lambda>x. concat (map (\<lambda>c. [CHR ''c'', c]) x) @ ''|'') xs)),
     eval_set = (\<lambda>t. if t = ''set()'' then Inr [] else Inr (unmark [] t))\<rparr>"

lemma unmark_char: "unmark acc (concat (map (\<lambda>c. [CHR ''c'', c]) x) @ CHR ''|'' # r) = (acc @ x) # unmark [] r"
  by (induction x arbitrary: acc) simp_all

lemma unmark_set: "unmark [] (concat (map (\<lambda>x. concat (map (\<lambda>c. [CHR ''c'', c]) x) @ ''|'') xs)) = xs"
  by (induction xs) (simp_all add: unmark_char)

lemma set_law_demo: "set_law demo_pyset"
proof -
  have "concat (map (\<lambda>x. concat (map (\<lambda>c. [CHR ''c'', c]) x) @ ''|'') xs) \<noteq> ''set()''" for xs
    by (cases xs; cases "hd xs") auto
  then show ?thesis by (simp add: set_law_def demo_pyset_def unmark_set)
qed

definition demo_clubs :: redis where
  "demo_clubs = empty_db\<lparr>kv :=
     [(FORMAT_USER_HALL_SESSION ''o'', RHash [(''account'', ''ann''), (''uid'', ''1'')]),
      (FORMAT_USER_HALL_SESSION ''b'', RHash [(''account'', ''bob''), (''uid'', ''2'')]),
      (FORMAT_ACCOUNT2USER_TABLE ''ann'', RStr ''users:1''), (FORMAT_ACCOUNT2USER_TABLE ''bob'', RStr ''users:2''),
      (''users:1'', RHash [(''parentAg'', ''9'')]),
      (''users:2'', RHash [(''parentAg'', ''9''), (''account'', ''bob''), (''nickname'', ''Bob''), (''headImgUrl'', ''u'')])]\<rparr>"

lemma club_inv_demo: "club_inv demo_pyset demo_clubs"
proof -
  have n: "look demo_clubs k = None" if "k \<in> club_sets \<or> k \<in> range CLUB_ATTR" for k
    using that by (auto simp: demo_clubs_def look_def club_sets_def club_keys FORMAT_ACCOUNT2USER_TABLE_def)
  have "\<not> numeric a" if "hf demo_clubs (FORMAT_USER_HALL_SESSION r) ''account'' = Some a" for r a
    using that by (auto simp: hf_def hash_of_def demo_clubs_def look_def FORMAT_USER_HALL_SESSION_def FORMAT_ACCOUNT2USER_TABLE_def numeric_def is_digit_def split: if_splits)
  with n show ?thesis
    by (simp add: club_inv_def sets_ok_def attrs_ok_def sides_ok_def names_ok_def is_set_def members_def)
qed

definition demo_joined :: redis where
  "demo_joined = fold (club_do demo_pyset) [Create_club ''o'' ''n'', Join_club ''b'' ''2000''] demo_clubs"

lemma demo_joined_eval:
  "demo_joined = demo_clubs\<lparr>kv := kv demo_clubs @
     [(CLUB_LIST, RSet [''2000'']),
      (CLUB_ATTR ''2000'', RHash [(''club_name'', ''n''), (''club_user'', ''ann''), (''club_max_players'', ''9999''), (''club_is_vip'', ''0''),
         (''club_content'', ''n''), (''club_use_create_room'', ''1''), (''club_manager'', ''set()''), (''club_agent'', ''9'')]),
      (CLUB_ACCOUNT_LIST ''ann'', RSet [''2000'']), (CLUB_PLAYER_TO_CLUB_LIST ''bob'', RSet [''2000'']), (CLUB_PLAYER_LIST ''2000'', RSet [''bob''])]\<rparr>"
  by code_simp

text \<open>C12: no request to the clubs goes beyond the rights of the account its session belongs to.  Whoever gets
  into or out of a club is that account itself or is moved by an owner or manager of the club; the managers
  of a club change only by its owner; and a club gets an owner only by founding it, and loses it only
  by that owner.  The requests that failed half-way are included.\<close>

theorem club_request_authorised:
  assumes "club_inv E s" "set_law E"
    and "u = session_account s (club_sid op)" "A = clubs_of E s" "B = clubs_of E (club_do E op s)"
  shows "(((c, a) \<in> membs A) \<noteq> ((c, a) \<in> membs B) \<longrightarrow> a = u \<or> may_manage u A c) \<and>
    (owner A c \<noteq> None \<and> mgrs B c \<noteq> mgrs A c \<longrightarrow> owner A c = Some u) \<and>
    (owner B c \<noteq> owner A c \<longrightarrow> owner A c = None \<and> owner B c = Some u \<or> owner A c = Some u \<and> owner B c = None)"
proof -
  have "club_step u A B" using request_good [OF assms(1,2), of op] unfolding assms(3-5) good_def by (rule conjunct2)
  note r = step_rights [OF this]
  show ?thesis using r(1,2) [of c a] r(3,4) [of c] by blast
qed

theorem club_request_authorised_witness:
  "''bob'' \<in> set (members (club_do demo_pyset (Force_sign_out ''x'' ''bob'' ''2000'') demo_joined) (CLUB_PLAYER_LIST ''2000''))"
proof -
  have inv: "club_inv demo_pyset demo_joined"
    using clubs.inv_run [of demo_pyset demo_clubs] club_inv_demo set_law_demo unfolding demo_joined_def by blast
  have acc: "session_account demo_joined ''x'' = ''None''" unfolding demo_joined_eval by code_simp
  have "hf demo_joined (CLUB_ATTR ''2000'') ''club_user'' = Some ''ann''" unfolding demo_joined_eval by code_simp
  moreover have "hf demo_joined (CLUB_ATTR ''2000'') ''club_manager'' = Some ''set()''" unfolding demo_joined_eval by code_simp
  moreover have "''bob'' \<in> set (members demo_joined (CLUB_PLAYER_LIST ''2000''))" unfolding demo_joined_eval by code_simp
  ultimately have "\<not> may_manage ''None'' (clubs_of demo_pyset demo_joined) ''2000''" "(''2000'', ''bob'') \<in> membs (clubs_of demo_pyset demo_joined)"
    by (simp_all add: may_manage_def clubs_of_def club_mgrs_def eval_field_def demo_pyset_def numeric_def is_digit_def)
  with club_request_authorised [OF inv set_law_demo refl refl refl, where op = "Force_sign_out ''x'' ''bob'' ''2000''" and c = "''2000''" and a = "''bob''"] acc
  have "(''2000'', ''bob'') \<in> membs (clubs_of demo_pyset (club_do demo_pyset (Force_sign_out ''x'' ''bob'' ''2000'') demo_joined))" by auto
  then show ?thesis by (simp add: clubs_of_def)
qed

text \<open>C13: every history of requests to the clubs is a history of the abstract clubs, request by request, in which the
  step of a request is taken by the account of its session: that account founds clubs for itself, disbands only
  clubs it owns, enters and leaves itself or moves others in clubs it manages, and appoints and relieves only
  managers of its own clubs.\<close>

theorem club_run_refines:
  assumes "club_inv E s" "set_law E"
  shows "trace club_step (labels actor (club_do E) ops s) (clubs_of E s) (clubs_of E (fold (club_do E) ops s))"
  by (rule clubs.lsim_run) (simp add: assms)

theorem club_run_refines_witness:
  "trace club_step [''ann'', ''bob'', ''ann'', ''ann''] (clubs_of demo_pyset demo_clubs) (clubs_of demo_pyset (fold (club_do demo_pyset)
     [Create_club ''o'' ''n'', Apply_club ''b'' ''2000'', Audit_club ''o'' ''2000'' ''bob'' ''1'', Add_manager ''o'' ''2000'' ''bob''] demo_clubs))"
proof -
  let ?ops = "[Create_club ''o'' ''n'', Apply_club ''b'' ''2000'', Audit_club ''o'' ''2000'' ''bob'' ''1'', Add_manager ''o'' ''2000'' ''bob'']"
  have "labels actor (club_do demo_pyset) ?ops demo_clubs = [''ann'', ''bob'', ''ann'', ''ann'']" by code_simp
  then show ?thesis using club_run_refines [OF club_inv_demo set_law_demo, of ?ops] by simp
qed

lemma run_inv:
  assumes "club_inv E s" "set_law E"
  shows "club_inv E (fold (club_do E) ops s)"
  using clubs.inv_run [of E s ops] assms by simp

text \<open>C14: in every history of requests the two sides of a membership agree: a player is in the set of a club
  exactly when the club is in the set of the player; only clubs that exist have members; and a club that
  exists is in the list of clubs, has an owner and at most three managers.\<close>

theorem club_membership_two_sided:
  assumes "club_inv E s" "set_law E" "t = fold (club_do E) ops s" "numeric c"
  shows "(a \<in> set (members t (CLUB_PLAYER_LIST c)) \<longleftrightarrow> c \<in> set (members t (CLUB_PLAYER_TO_CLUB_LIST a))) \<and>
    (a \<in> set (members t (CLUB_PLAYER_LIST c)) \<longrightarrow> look t (CLUB_ATTR c) \<noteq> None) \<and>
    (look t (CLUB_ATTR c) \<noteq> None \<longrightarrow> c \<in> set (members t CLUB_LIST) \<and> hf t (CLUB_ATTR c) ''club_user'' \<noteq> None \<and> card (club_mgrs E t c) \<le> 3)"
proof -
  have t: "club_inv E t" unfolding assms(3) by (rule run_inv [OF assms(1,2)])
  then have "a \<in> set (members t (CLUB_PLAYER_LIST c)) \<longleftrightarrow> c \<in> set (members t (CLUB_PLAYER_TO_CLUB_LIST a))"
    "a \<in> set (members t (CLUB_PLAYER_LIST c)) \<longrightarrow> look t (CLUB_ATTR c) \<noteq> None"
    using assms(4) by (auto simp: club_inv_def sides_ok_def)
  moreover have "look t (CLUB_ATTR c) \<noteq> None \<longrightarrow> c \<in> set (members t CLUB_LIST) \<and> hf t (CLUB_ATTR c) ''club_user'' \<noteq> None \<and> card (club_mgrs E t c) \<le> 3"
    using t by (auto simp: club_inv_def attrs_ok_def club_mgrs_def)
  ultimately show ?thesis by blast
qed

theorem club_membership_two_sided_witness:
  "''2000'' \<in> set (members demo_joined (CLUB_PLAYER_TO_CLUB_LIST ''bob''))"
proof -
  have "numeric ''2000''" by (simp add: numeric_def is_digit_def)
  from club_membership_two_sided [OF club_inv_demo set_law_demo demo_joined_def this, of "''bob''"]
  have "''bob'' \<in> set (members demo_joined (CLUB_PLAYER_LIST ''2000'')) \<longleftrightarrow> ''2000'' \<in> set (members demo_joined (CLUB_PLAYER_TO_CLUB_LIST ''bob''))" ..
  moreover have "''bob'' \<in> set (members demo_joined (CLUB_PLAYER_LIST ''2000''))" unfolding demo_joined_eval by code_simp
  ultimately show ?thesis by blast
qed

text \<open>C39: every history of requests leaves the keys of the clubs with the types their commands need: the list of
  clubs and both sides of the membership stay sets, the attributes of a club a hash whose managers are
  the text of a set, and every listed number a decimal number, which the next number can be computed from.\<close>

theorem club_keys_typed:
  assumes "club_inv E s" "set_law E" "t = fold (club_do E) ops s"
  shows "is_set t CLUB_LIST \<and> is_set t (CLUB_PLAYER_LIST c) \<and> is_set t (CLUB_PLAYER_TO_CLUB_LIST a) \<and> is_hash t (CLUB_ATTR c) \<and>
    (look t (CLUB_ATTR c) \<noteq> None \<longrightarrow> (\<exists>l. eval_field E (hf t (CLUB_ATTR c) ''club_manager'') = Inr l)) \<and>
    (\<forall>d \<in> set (members t CLUB_LIST). py_int d = Inr (digits_val d))"
proof -
  have t: "club_inv E t" unfolding assms(3) by (rule run_inv [OF assms(1,2)])
  have "is_hash t (CLUB_ATTR c)"
    using t by (cases "look t (CLUB_ATTR c)") (auto simp: club_inv_def attrs_ok_def is_hash_def)
  then show ?thesis
    using t inv_sets [OF t] py_int_numeric by (auto simp: club_inv_def attrs_ok_def sets_ok_def)
qed

theorem club_keys_typed_witness:
  "\<exists>l. eval_field demo_pyset (hf demo_joined (CLUB_ATTR ''2000'') ''club_manager'') = Inr l"
proof -
  have "look demo_joined (CLUB_ATTR ''2000'') \<noteq> None" unfolding demo_joined_eval by code_simp
  then show ?thesis using club_keys_typed [OF club_inv_demo set_law_demo demo_joined_def, of "''2000''"] by blast
qed

end
