(* ===== verification/ClubPromises.thy ===== *)
theory ClubPromises
  imports ClubRuns
begin

text \<open>
  What single requests to the clubs achieve: the club that is founded, an application on its way to a
  membership, and the switch of the automatic rooms.
\<close>

section \<open>Founding\<close>

definition newborn :: "string option \<Rightarrow> string \<Rightarrow> string \<Rightarrow> string \<Rightarrow> string \<Rightarrow> redis \<Rightarrow> redis" where
  "newborn account c nm ag content s = (let t = founded c (club_create_fields account nm ag content) s
     in put_set (CLUB_ACCOUNT_LIST (fmt account)) (List.insert c (members t (CLUB_ACCOUNT_LIST (fmt account)))) t)"

lemma op_create_ok: "wp (op_create_club account c nm ag content) (\<lambda>_ t. t = newborn account c nm ag content s) (\<lambda>_ _. True) s"
  unfolding op_create_club_def by (intro ok_wp) (simp add: newborn_def founded_def Let_def)

definition founding :: "string \<Rightarrow> string \<Rightarrow> int \<Rightarrow> redis \<Rightarrow> redis \<Rightarrow> bool" where
  "founding sid nm n s t \<longleftrightarrow> (\<exists>vs ag. all_ints (members s CLUB_LIST) = Inr vs \<and> next_club_id vs = Inr n \<and>
     length (members s (CLUB_ACCOUNT_LIST (session_account s sid))) < 10 \<and>
     t = newborn (hf s (FORMAT_USER_HALL_SESSION (strip sid)) ''account'') (show_int n) (strip nm) ag (strip nm) s)"

lemma create_ok: "wp (create_club sid nm) (\<lambda>r t. \<forall>n. r = Inr n \<longrightarrow> founding sid nm n s t) (\<lambda>_ _. True) s"
proof -
  have k: "wp (retM (Inl r)) (\<lambda>r t. \<forall>n. r = Inr n \<longrightarrow> P n t) X t" for r :: reply and P :: "int \<Rightarrow> redis \<Rightarrow> bool" and X t
    by (simp add: wp_retM)
  show ?thesis
    unfolding create_club_def wp_tryM Let_def
  proof (intro run_if club_guard_wp k, goal_cases)
    case 2
    show ?case
      by (intro run_wp k wp_mono [OF op_create_ok]) (auto simp: wp_retM founding_def session_account_def not_le)
  qed simp
qed

text \<open>C16: a club that was founded got a number without the digit four that is larger than the number of every club
  before, so no club had it; the account of the session owned fewer than ten clubs, owns this one now, and the
  club has the given name, which is its description too.\<close>

theorem create_club_effect:
  assumes "club_inv E s" "create_club sid nm s = (Inr (Inr n), t)" "u = session_account s sid" "c = show_int n"
  shows "CHR ''4'' \<notin> set c \<and> look s (CLUB_ATTR c) = None \<and> (\<forall>d \<in> set (members s CLUB_LIST). digits_val d < n) \<and>
    length (members s (CLUB_ACCOUNT_LIST u)) < 10 \<and> c \<in> set (members t (CLUB_ACCOUNT_LIST u)) \<and>
    set (members t CLUB_LIST) = insert c (set (members s CLUB_LIST)) \<and> hf t (CLUB_ATTR c) ''club_user'' = Some u \<and>
    hf t (CLUB_ATTR c) ''club_name'' = Some (strip nm) \<and> hf t (CLUB_ATTR c) ''club_content'' = Some (strip nm)"
proof -
  from wp_InrD [OF create_ok assms(2)] obtain vs ag where v: "all_ints (members s CLUB_LIST) = Inr vs" "next_club_id vs = Inr n"
    and few: "length (members s (CLUB_ACCOUNT_LIST u)) < 10"
    and t: "t = newborn (hf s (FORMAT_USER_HALL_SESSION (strip sid)) ''account'') c (strip nm) ag (strip nm) s"
    by (auto simp: founding_def assms(3,4))
  have num: "\<forall>d \<in> set (members s CLUB_LIST). numeric d" using assms(1) by (simp add: club_inv_def sets_ok_def)
  note fresh = next_club_id_fresh [OF num v]
  have "look s (CLUB_ATTR c) = None" using fresh(4) assms(1) unfolding assms(4) club_inv_def attrs_ok_def by blast
  moreover have "digits_val d < n" if "d \<in> set (members s CLUB_LIST)" for d
    using fresh(3) num py_int_numeric [of d] that by force
  moreover have "c \<in> set (members t (CLUB_ACCOUNT_LIST u))" unfolding t newborn_def Let_def by (simp add: assms(3) session_account_def)
  moreover have "look t k = look (founded c (club_create_fields (hf s (FORMAT_USER_HALL_SESSION (strip sid)) ''account'') (strip nm) ag (strip nm)) s) k"
    if "k \<in> club_places" for k
    unfolding t newborn_def Let_def using that by (auto simp: look_put_set)
  then have fr: "hf t (CLUB_ATTR c) f = hf (founded c (club_create_fields (hf s (FORMAT_USER_HALL_SESSION (strip sid)) ''account'') (strip nm) ag (strip nm)) s) (CLUB_ATTR c) f"
    "members t CLUB_LIST = members (founded c (club_create_fields (hf s (FORMAT_USER_HALL_SESSION (strip sid)) ''account'') (strip nm) ag (strip nm)) s) CLUB_LIST" for f
    by (simp_all add: hf_def hash_of_def members_def club_places_def)
  have "set (members t CLUB_LIST) = insert c (set (members s CLUB_LIST))" unfolding fr(2) by (simp add: founded_def members_hputs)
  moreover have "hf t (CLUB_ATTR c) ''club_user'' = Some u" "hf t (CLUB_ATTR c) ''club_name'' = Some (strip nm)"
    "hf t (CLUB_ATTR c) ''club_content'' = Some (strip nm)"
    unfolding fr(1) by (simp_all add: founded_def hf_hputs_same club_create_fields_def assms(3) session_account_def)
  ultimately show ?thesis using few fresh(2) assms(4) by simp
qed

theorem create_club_effect_witness:
  "hf (snd (create_club ''o'' ''n'' demo_joined)) (CLUB_ATTR ''2001'') ''club_user'' = Some ''ann'' \<and> CHR ''4'' \<notin> set ''2001''"
proof -
  have "fst (create_club ''o'' ''n'' demo_joined) = Inr (Inr 2001)" unfolding demo_joined_eval by code_simp
  then have r: "create_club ''o'' ''n'' demo_joined = (Inr (Inr 2001), snd (create_club ''o'' ''n'' demo_joined))" by (simp add: prod_eq_iff)
  have inv: "club_inv demo_pyset demo_joined"
    unfolding demo_joined_def by (rule run_inv [OF club_inv_demo set_law_demo])
  have "session_account demo_joined ''o'' = ''ann''" unfolding demo_joined_eval by code_simp
  moreover have "show_int 2001 = ''2001''" by code_simp
  ultimately show ?thesis using create_club_effect [OF inv r refl refl] by simp
qed

section \<open>From an application to a membership\<close>

lemma split_sep_plain: "CHR ''|'' \<notin> set x \<Longrightarrow> split_sep audit_sep acc x = [rev acc @ x]"
  by (induction x arbitrary: acc) (auto simp: audit_sep_def)

lemma split_sep_part: "CHR ''|'' \<notin> set x \<Longrightarrow> split_sep audit_sep acc (x @ audit_sep @ r) = (rev acc @ x) # split_sep audit_sep [] r"
proof (induction x arbitrary: acc)
  case (Cons c x)
  then have "take (length audit_sep) ((c # x) @ audit_sep @ r) \<noteq> audit_sep" by (auto simp: audit_sep_def)
  then show ?case using Cons by simp
qed (simp add: audit_sep_def)

definition no_bar :: "string option \<Rightarrow> bool" where
  "no_bar v \<longleftrightarrow> CHR ''|'' \<notin> set (fmt v)"

text \<open>An application is read back part by part.\<close>

lemma audit_parts_item:
  assumes "no_bar a" "no_bar n" "no_bar i" "CHR ''|'' \<notin> set st"
  shows "audit_parts (audit_item a n i st) = Inr (fmt a, fmt n, fmt i, st)"
  using assms by (simp add: audit_parts_def audit_item_def no_bar_def split_sep_part split_sep_plain)

definition audits_ok :: "redis \<Rightarrow> string \<Rightarrow> bool" where
  "audits_ok s c \<longleftrightarrow> (\<forall>x \<in> set (members s (CLUB_AUDI_LIST c)). \<exists>a n i st k. audit_parts x = Inr (a, n, i, st) \<and> py_int st = Inr k)"

text \<open>What an accepted application leaves behind.\<close>

definition accepted :: "string \<Rightarrow> string \<Rightarrow> redis \<Rightarrow> bool" where
  "accepted c who t \<longleftrightarrow> who \<in> set (members t (CLUB_PLAYER_LIST c)) \<and> c \<in> set (members t (CLUB_PLAYER_TO_CLUB_LIST who)) \<and>
     (\<exists>n i. audit_item (Some who) (Some n) (Some i) ''1'' \<in> set (members t (CLUB_AUDI_LIST c)))"

lemma audi_neq [simp]: "CLUB_AUDI_LIST c \<noteq> CLUB_PLAYER_LIST d" "CLUB_AUDI_LIST c \<noteq> CLUB_PLAYER_TO_CLUB_LIST a"
  "CLUB_PLAYER_LIST d \<noteq> CLUB_AUDI_LIST c" "CLUB_PLAYER_TO_CLUB_LIST a \<noteq> CLUB_AUDI_LIST c"
  by (simp_all add: club_keys)

lemma entered_accepted:
  assumes "club_inv E t" "look t (CLUB_ATTR c) \<noteq> None" "audit_item (Some who) (Some n) (Some i) ''1'' \<in> set (members t (CLUB_AUDI_LIST c))"
  shows "accepted c who (entered c who t)"
proof -
  have c: "numeric c" by (rule inv_numeric [OF assms(1,2)])
  have "look (entered c who t) (CLUB_AUDI_LIST c) = look t (CLUB_AUDI_LIST c)" by (rule member_moves_frame) simp
  then have "members (entered c who t) (CLUB_AUDI_LIST c) = members t (CLUB_AUDI_LIST c)" by (simp add: members_def)
  then show ?thesis using assms(3) entered_members [OF c c] by (auto simp: accepted_def)
qed

lemma accept_one:
  assumes "club_inv E t" "look t (CLUB_ATTR c) \<noteq> None" "is_set t (CLUB_AUDI_LIST c)"
  shows "wp (answer_item c x (who, n, i, st) ''1'') (\<lambda>_. wp (op_add_club (Some who) c) (\<lambda>ok v. ok \<and> accepted c who v) (\<lambda>_ _. False)) (\<lambda>_ _. False) t"
proof -
  let ?t1 = "put_set (CLUB_AUDI_LIST c) (removeAll x (members t (CLUB_AUDI_LIST c))) t"
  let ?t2 = "put_set (CLUB_AUDI_LIST c) (List.insert (audit_item (Some who) (Some n) (Some i) ''1'') (members ?t1 (CLUB_AUDI_LIST c))) ?t1"
  have "look ?t2 k = look t k" if "k \<in> club_places" for k using that by (auto simp: look_put_set)
  then have same: "club_same t ?t2" by (rule club_same_frame)
  then have inv: "club_inv E ?t2" using assms(1) by (simp add: club_same_inv)
  have at: "look ?t2 (CLUB_ATTR c) \<noteq> None" using club_same_exists [OF same] assms(2) by simp
  have "accepted c who (entered c who ?t2)" by (rule entered_accepted [OF inv at, where n = n and i = i]) simp
  then have "wp (op_add_club (Some who) c) (\<lambda>ok v. ok \<and> accepted c who v) (\<lambda>_ _. False) ?t2"
    by (intro wp_mono [OF add_club_exists [OF inv at]]) auto
  then show ?thesis using assms(3) by (simp add: answer_item_def wp_thenM wp_srem wp_sadd)
qed

lemma answer_loop_accepts:
  assumes "club_inv E t" "look t (CLUB_ATTR c) \<noteq> None" "is_set t (CLUB_AUDI_LIST c)"
    and "\<forall>x \<in> set es. \<exists>a n i st k. audit_parts x = Inr (a, n, i, st) \<and> py_int st = Inr k"
    and "\<exists>x \<in> set es. \<exists>n i. audit_parts x = Inr (who, n, i, ''0'')"
  shows "wp (answer_loop True c who ''1'' es) (\<lambda>r v. r = Reply 0 ''accepted'' \<and> accepted c who v) (\<lambda>_ _. False) t"
  using assms(4,5)
proof (induction es)
  case (Cons e es)
  from Cons.prems(1) obtain a n i st k where e: "audit_parts e = Inr (a, n, i, st)" "py_int st = Inr k" by auto
  show ?case
  proof (cases "a = who \<and> k = 0")
    case True
    have "wp (answer_item c e (who, n, i, st) ''1'') (\<lambda>_. wp (bindM (op_add_club (Some who) c)
        (\<lambda>ok. if ok then retM (Reply 0 ''accepted'') else answer_loop True c who ''1'' es)) (\<lambda>r v. r = Reply 0 ''accepted'' \<and> accepted c who v)
        (\<lambda>_ _. False)) (\<lambda>_ _. False) t"
      by (rule wp_mono [OF accept_one [OF assms(1-3)]]) (auto simp: wp_retM wp_bindM elim: wp_mono)
    then show ?thesis using e True by (simp add: wp_bindM wp_thenM wp_liftE wp_retM)
  next
    case False
    have "py_int ''0'' = Inr 0" by code_simp
    then have "audit_parts e \<noteq> Inr (who, n', i', ''0'')" for n' i' using e False by auto
    then have "wp (answer_loop True c who ''1'' es) (\<lambda>r v. r = Reply 0 ''accepted'' \<and> accepted c who v) (\<lambda>_ _. False) t"
      using Cons by auto
    then show ?thesis using e False by (auto simp: wp_bindM wp_liftE wp_retM)
  qed
qed simp

text \<open>A session that the handlers do not turn away, and what it may manage.\<close>

definition live_session :: "redis \<Rightarrow> string \<Rightarrow> string \<Rightarrow> bool" where
  "live_session s sid account \<longleftrightarrow> (\<exists>uid v. fst (getInfoBySid (strip sid) s) = Inr (FORMAT_USER_HALL_SESSION (strip sid), Some account, uid, v) \<and>
     (v = None \<or> v = Some [] \<or> v = Some (strip sid)))"

lemma live_session_wp:
  assumes "live_session s sid m" "\<And>uid v. \<not> (truthy v \<and> Some (strip sid) \<noteq> v) \<Longrightarrow> wp (body (FORMAT_USER_HALL_SESSION (strip sid), Some m, uid, v)) Q E s"
  shows "wp (bindM (getInfoBySid (strip sid)) body) Q E s"
proof -
  from assms(1) obtain uid v where r: "fst (getInfoBySid (strip sid) s) = Inr (FORMAT_USER_HALL_SESSION (strip sid), Some m, uid, v)"
    and v: "\<not> (truthy v \<and> Some (strip sid) \<noteq> v)" by (auto simp: live_session_def truthy_def)
  have "snd (getInfoBySid (strip sid) s) = s"
    using info_wp [where body = retM and Q = "\<lambda>_ t. t = s" and E = "\<lambda>_ t. t = s" and s = s and sid = "strip sid"]
    by (auto simp: wp_def bindM_def retM_def split: prod.splits sum.splits)
  with r have "getInfoBySid (strip sid) s = (Inr (FORMAT_USER_HALL_SESSION (strip sid), Some m, uid, v), s)" by (simp add: prod_eq_iff)
  then show ?thesis using assms(2) [OF v, of uid] unfolding wp_bindM by (simp add: wp_def [of "getInfoBySid (strip sid)"])
qed

lemma manager_may:
  assumes "club_inv E s" "look s (CLUB_ATTR c) \<noteq> None" "may_manage m (clubs_of E s) c"
  shows "\<exists>l. eval_field E (hf s (CLUB_ATTR c) ''club_manager'') = Inr l \<and> \<not> no_right (hf s (CLUB_ATTR c) ''club_user'') (Some m) l"
proof -
  from assms(1,2) obtain l where "eval_field E (hf s (CLUB_ATTR c) ''club_manager'') = Inr l" by (auto simp: club_inv_def attrs_ok_def)
  then show ?thesis using assms(3) by (auto simp: may_manage_def clubs_of_def club_mgrs_def no_right_def among_def)
qed

lemma audit_accepts:
  assumes inv: "club_inv E t" "look t (CLUB_ATTR (strip c)) \<noteq> None" "is_set t (CLUB_AUDI_LIST (strip c))" "audits_ok t (strip c)"
    and may: "live_session t sid m" "may_manage m (clubs_of E t) (strip c)" and who: "strip w = who" "who \<noteq> []" "strip c \<noteq> []"
    and wait: "\<exists>x \<in> set (members t (CLUB_AUDI_LIST (strip c))). \<exists>n i. audit_parts x = Inr (who, n, i, ''0'')"
  shows "wp (apply_club_audit E sid c w ''1'') (\<lambda>r v. r = Reply 0 ''accepted'' \<and> accepted (strip c) who v) (\<lambda>_ _. False) t"
proof -
  have one: "strip ''1'' = ''1''" "py_int ''1'' = Inr 1" by code_simp+
  obtain l where l: "eval_field E (hf t (CLUB_ATTR (strip c)) ''club_manager'') = Inr l" "\<not> no_right (hf t (CLUB_ATTR (strip c)) ''club_user'') (Some m) l"
    using manager_may [OF inv(1,2) may(2)] by blast
  have "is_hash t (CLUB_ATTR (strip c))" using inv(1,2) by (auto simp: club_inv_def attrs_ok_def)
  then show ?thesis
    unfolding apply_club_audit_def Let_def
    by (intro live_session_wp [OF may(1)])
      (use inv who one l wait in \<open>auto simp: wp_eqs audits_ok_def intro!: answer_loop_accepts\<close>)
qed

definition application :: "redis \<Rightarrow> string \<Rightarrow> string" where
  "application s ut = audit_item (hf s ut ''account'') (hf s ut ''nickname'') (hf s ut ''headImgUrl'') ''0''"

definition applied :: "redis \<Rightarrow> string \<Rightarrow> string \<Rightarrow> redis" where
  "applied s c ut = put_set (CLUB_AUDI_LIST c) (List.insert (application s ut) (members s (CLUB_AUDI_LIST c))) s"

lemma apply_ok:
  assumes "look s (FORMAT_ACCOUNT2USER_TABLE (session_account s sid)) = Some (RStr ut)"
  shows "wp (apply_club sid c) (\<lambda>r t. r = Reply 0 ''applied'' \<longrightarrow>
     strip c \<noteq> [] \<and> look s (CLUB_ATTR (strip c)) \<noteq> None \<and> t = applied s (strip c) ut) (\<lambda>_ _. True) s"
  unfolding apply_club_def Let_def
proof (intro run_if club_guard_wp, goal_cases)
  case 4
  then show ?case
    by (intro run_wp) (use assms in \<open>auto simp: wp_retM session_account_def applied_def application_def\<close>)
qed (simp_all add: wp_retM)

lemma applied_same: "club_same s (applied s c ut)"
  by (rule club_same_frame) (auto simp: applied_def look_put_set)

text \<open>C15: an application that was taken becomes a membership.  When a player has applied and the owner or a manager
  answers with 1 from a live session, the answer is accepted, the player is in the club on both sides, and
  the application is kept as accepted.  The parts of the profile must not contain the separator, and the
  applications on record must be readable; otherwise the answer raises.\<close>

theorem application_accepted:
  assumes "club_inv E s" "apply_club sid c s = (Inr (Reply 0 ''applied''), t)" "audits_ok s (strip c)"
    and "look s (FORMAT_ACCOUNT2USER_TABLE (session_account s sid)) = Some (RStr ut)" "hf s ut ''account'' = Some who"
    and "no_bar (Some who)" "no_bar (hf s ut ''nickname'')" "no_bar (hf s ut ''headImgUrl'')" "strip w = who" "who \<noteq> []"
    and "live_session t msid m" "may_manage m (clubs_of E s) (strip c)"
  shows "\<exists>v. apply_club_audit E msid c w ''1'' t = (Inr (Reply 0 ''accepted''), v) \<and> accepted (strip c) who v"
proof -
  from wp_InrD [OF apply_ok [OF assms(4)] assms(2)] have a: "strip c \<noteq> []" "look s (CLUB_ATTR (strip c)) \<noteq> None" and t: "t = applied s (strip c) ut"
    by simp_all
  have same: "club_same s t" unfolding t by (rule applied_same)
  have entry: "audit_parts (application s ut) = Inr (who, fmt (hf s ut ''nickname''), fmt (hf s ut ''headImgUrl''), ''0'')"
    using audit_parts_item [OF assms(6-8), of "''0''"] by (simp add: application_def assms(5))
  have zero: "py_int ''0'' = Inr 0" by code_simp
  have "audits_ok t (strip c)" using assms(3) entry zero by (auto simp: t applied_def audits_ok_def)
  moreover have "is_set t (CLUB_AUDI_LIST (strip c))" "application s ut \<in> set (members t (CLUB_AUDI_LIST (strip c)))"
    by (simp_all add: t applied_def is_set_def look_put_set)
  moreover have "club_inv E t" "look t (CLUB_ATTR (strip c)) \<noteq> None" "may_manage m (clubs_of E t) (strip c)"
    using same assms(1,12) a(2) club_same_exists [OF same] by (simp_all add: club_same_inv club_same_abs)
  ultimately have "wp (apply_club_audit E msid c w ''1'') (\<lambda>r v. r = Reply 0 ''accepted'' \<and> accepted (strip c) who v) (\<lambda>_ _. False) t"
    using audit_accepts assms(9-11) a(1) entry by blast
  then show ?thesis by (auto simp: wp_def split: prod.splits sum.splits)
qed

definition demo_founded :: redis where
  "demo_founded = fold (club_do demo_pyset) [Create_club ''o'' ''n''] demo_clubs"

lemma demo_founded_eval:
  "demo_founded = demo_clubs\<lparr>kv := kv demo_clubs @
     [(CLUB_LIST, RSet [''2000'']),
      (CLUB_ATTR ''2000'', RHash [(''club_name'', ''n''), (''club_user'', ''ann''), (''club_max_players'', ''9999''), (''club_is_vip'', ''0''),
         (''club_content'', ''n''), (''club_use_create_room'', ''1''), (''club_manager'', ''set()''), (''club_agent'', ''9'')]),
      (CLUB_ACCOUNT_LIST ''ann'', RSet [''2000''])]\<rparr>"
  by code_simp

theorem application_accepted_witness:
  "accepted ''2000'' ''bob'' (snd (apply_club_audit demo_pyset ''o'' ''2000'' ''bob'' ''1'' (snd (apply_club ''b'' ''2000'' demo_founded))))"
proof -
  let ?t = "snd (apply_club ''b'' ''2000'' demo_founded)"
  have inv: "club_inv demo_pyset demo_founded"
    unfolding demo_founded_def by (rule run_inv [OF club_inv_demo set_law_demo])
  have "fst (apply_club ''b'' ''2000'' demo_founded) = Inr (Reply 0 ''applied'')" unfolding demo_founded_eval by code_simp
  then have t: "apply_club ''b'' ''2000'' demo_founded = (Inr (Reply 0 ''applied''), ?t)" by (simp add: prod_eq_iff)
  have two: "strip ''2000'' = ''2000''" "strip ''bob'' = ''bob''" by code_simp+
  have "members demo_founded (CLUB_AUDI_LIST ''2000'') = []" unfolding demo_founded_eval by code_simp
  then have au: "audits_ok demo_founded (strip ''2000'')" by (simp add: audits_ok_def two)
  have ut: "look demo_founded (FORMAT_ACCOUNT2USER_TABLE (session_account demo_founded ''b'')) = Some (RStr ''users:2'')"
    unfolding demo_founded_eval by code_simp
  have who: "hf demo_founded ''users:2'' ''account'' = Some ''bob''" "no_bar (Some ''bob'')" "no_bar (hf demo_founded ''users:2'' ''nickname'')"
    "no_bar (hf demo_founded ''users:2'' ''headImgUrl'')"
    unfolding demo_founded_eval by code_simp+
  have "fst (getInfoBySid (strip ''o'') ?t) = Inr (FORMAT_USER_HALL_SESSION (strip ''o''), Some ''ann'', Some ''1'', None)"
    unfolding demo_founded_eval by code_simp
  then have live: "live_session ?t ''o'' ''ann''" by (auto simp: live_session_def)
  have "hf demo_founded (CLUB_ATTR ''2000'') ''club_user'' = Some ''ann''" unfolding demo_founded_eval by code_simp
  then have may: "may_manage ''ann'' (clubs_of demo_pyset demo_founded) (strip ''2000'')" by (simp add: may_manage_def clubs_of_def two)
  show ?thesis
    using application_accepted [OF inv t au ut who two(2) _ live may] two by auto
qed

section \<open>The switch of the automatic rooms\<close>

lemma owner_cards_reads: "(\<And>n. Q n s) \<Longrightarrow> wp (owner_cards account) Q (\<lambda>_ _. True) s"
  unfolding owner_cards_def getUserByAccount_def
  by (intro ok_wp) (auto intro!: ok_wp split: list.split)

lemma switch_ok:
  "wp (settting_auto_create_allow sid c) (\<lambda>r t. r \<noteq> Reply 1 ''no right'' \<and>
     (\<forall>x. r = Reply 0 x \<longrightarrow> (\<exists>old. int_or (hf s auto_create_allow (strip c)) 0 = Inr old \<and>
        x = (if old = 0 then ''1'' else ''0'') \<and> t = hput auto_create_allow (strip c) x s))) (\<lambda>_ _. True) s"
proof -
  have i: "show_int 1 = ''1''" "show_int 0 = ''0''" by code_simp+
  show ?thesis
    unfolding settting_auto_create_allow_def Let_def
  proof (rule club_alive_wp, goal_cases)
    case 3
    show ?case
      unfolding auto_allowed_def
      by (intro ok_wp owner_cards_reads) (auto simp: chain_refuses_def i split: if_splits option.splits)
  qed auto
qed

text \<open>The switch of the automatic rooms of a club does not ask who turns it.  No request is refused for want of a
  right; one that succeeds reverses the switch and changes nothing else, whoever the session belongs to.\<close>

theorem auto_switch_unguarded:
  assumes "settting_auto_create_allow sid c s = (Inr r, t)"
  shows "r \<noteq> Reply 1 ''no right'' \<and> (\<forall>x. r = Reply 0 x \<longrightarrow> (\<exists>old. int_or (hf s auto_create_allow (strip c)) 0 = Inr old \<and>
     x = (if old = 0 then ''1'' else ''0'') \<and> t = hput auto_create_allow (strip c) x s))"
  by (rule wp_InrD [OF switch_ok assms])

text \<open>The same club, with its switch on.\<close>

definition demo_switch :: redis where
  "demo_switch = hput auto_create_allow ''2000'' ''1'' demo_joined"

theorem auto_switch_unguarded_witness:
  "\<not> may_manage ''bob'' (clubs_of demo_pyset demo_switch) ''2000'' \<and>
   snd (settting_auto_create_allow ''b'' ''2000'' demo_switch) = hput auto_create_allow ''2000'' ''0'' demo_switch"
proof
  have "hf demo_switch (CLUB_ATTR ''2000'') ''club_user'' = Some ''ann''" "hf demo_switch (CLUB_ATTR ''2000'') ''club_manager'' = Some ''set()''"
    unfolding demo_switch_def demo_joined_eval by code_simp+
  then show "\<not> may_manage ''bob'' (clubs_of demo_pyset demo_switch) ''2000''"
    by (simp add: may_manage_def clubs_of_def club_mgrs_def eval_field_def demo_pyset_def)
  have "fst (settting_auto_create_allow ''b'' ''2000'' demo_switch) = Inr (Reply 0 ''0'')" unfolding demo_switch_def demo_joined_eval by code_simp
  then have "settting_auto_create_allow ''b'' ''2000'' demo_switch = (Inr (Reply 0 ''0''), snd (settting_auto_create_allow ''b'' ''2000'' demo_switch))"
    by (simp add: prod_eq_iff)
  moreover have two: "strip ''2000'' = ''2000''" by code_simp
  ultimately show "snd (settting_auto_create_allow ''b'' ''2000'' demo_switch) = hput auto_create_allow ''2000'' ''0'' demo_switch"
    using auto_switch_unguarded by fastforce
qed

end
