(* ===== verification/HallGold.thy ===== *)
theory HallGold
  imports Clubs FishExchange
begin

text \<open>
  The gold rooms of the hall: entering them and the welfare of their players (hall/hall_gold.py, the welfare
  part of model/goldModel.py, gold_db_define.py).  A handler works on the main database and on the ranking a
  private server keeps; the calendar, the test for a floating point number, the id of a message and the
  choice of a room are arguments.
\<close>

section \<open>Keys and numbers\<close>

definition MASTER_GAMEID :: string where "MASTER_GAMEID = ''555''"
definition GAME2REDIS :: "string \<Rightarrow> string" where "GAME2REDIS g = ''gameRedisDatas:'' @ g @ '':hesh''"
definition ROOM2SERVER :: "string \<Rightarrow> string" where "ROOM2SERVER r = ''room2server:'' @ r @ '':hesh''"
definition WELFARE_USER_SIGN :: "string \<Rightarrow> string \<Rightarrow> string" where "WELFARE_USER_SIGN a d = ''welfare:sign:user:'' @ a @ '':'' @ d @ '':key''"
definition WELFARE_USER_PATCH_SIGN :: "string \<Rightarrow> string \<Rightarrow> string" where
  "WELFARE_USER_PATCH_SIGN a m = ''welfare:patch:sign:user:'' @ a @ '':'' @ m @ '':set''"
definition WELFARE_USER_INSURANCE :: "string \<Rightarrow> string \<Rightarrow> string" where
  "WELFARE_USER_INSURANCE a d = ''welfare:insurance:user:'' @ a @ '':'' @ d @ '':list''"
definition GOLD_REWARD_NEW_PRESENT_HASH :: string where "GOLD_REWARD_NEW_PRESENT_HASH = ''gold:reward:new:present:hash''"
definition GOLD_REWARD_DAY_BUY_GOLD_HASH :: "string \<Rightarrow> string" where "GOLD_REWARD_DAY_BUY_GOLD_HASH d = ''gold:reward:buy:gold:'' @ d @ '':hash''"
definition DAILY_USER_GOLD2_SET :: "string \<Rightarrow> string" where "DAILY_USER_GOLD2_SET d = ''gold2:user:date:'' @ d @ '':set''"
definition GOLD_WELFARE_SIGN_7DAYS :: string where "GOLD_WELFARE_SIGN_7DAYS = ''gold:welfare:sign:7days:hash''"
definition GOLD_WELFARE_SIGN_15DAYS :: string where "GOLD_WELFARE_SIGN_15DAYS = ''gold:welfare:sign:15days:hash''"
definition GOLD_WELFARE_SIGN_MONTH :: string where "GOLD_WELFARE_SIGN_MONTH = ''gold:welfare:sign:month:hash''"
definition GOLD_MONEY_RANK_WITH_AGENT_ZSET :: "string \<Rightarrow> string" where "GOLD_MONEY_RANK_WITH_AGENT_ZSET ag = ''gold:money:rank:'' @ ag @ '':zset''"
definition GOLD_ROOM_ACCOUNT_KEY :: "string \<Rightarrow> string" where "GOLD_ROOM_ACCOUNT_KEY a = ''gold:room:account:'' @ a @ '':key''"
definition GOLD_ROOM_ACCOUNT_LIST :: "string \<Rightarrow> string" where "GOLD_ROOM_ACCOUNT_LIST a = ''gold:room:account:'' @ a @ '':list''"
definition GOLD_ACCOUNT_WAIT_JOIN_TABLE :: "string \<Rightarrow> string" where "GOLD_ACCOUNT_WAIT_JOIN_TABLE a = ''gold:account:'' @ a @ '':wait:join:table''"
definition GOLD_CAN_JOIN_ROOM_SET :: "string \<Rightarrow> string \<Rightarrow> string" where "GOLD_CAN_JOIN_ROOM_SET g p = ''gold:canjoin:room:'' @ g @ '':'' @ p @ '':set''"

definition SIGN_MAX :: int where "SIGN_MAX = 2"
definition SIGN_LINE :: int where "SIGN_LINE = 2000"
definition SIGN_COINNUM :: int where "SIGN_COINNUM = 2000"
definition PATCH_SIGN_MAX :: int where "PATCH_SIGN_MAX = 5"
definition PATCH_SIGN_FEE :: int where "PATCH_SIGN_FEE = 2"

definition MESSION_STATUS_NO :: string where "MESSION_STATUS_NO = ''0''"
definition MESSION_STATUS_OK :: string where "MESSION_STATUS_OK = ''1''"
definition MESSION_STATUS_OVER :: string where "MESSION_STATUS_OVER = ''2''"

section \<open>Stores\<close>

text \<open>The ranking: the score of a member of a sorted set, as the text that was sent.\<close>

record gold_db =
  gmain :: redis
  gboard :: "((string \<times> string) \<times> string) list"

type_synonym 'a gh = "(gold_db, 'a) handler"

definition on_gold :: "'a rh \<Rightarrow> 'a gh" where
  "on_gold m = (\<lambda>s. case m (gmain s) of (r, t) \<Rightarrow> (r, s\<lparr>gmain := t\<rparr>))"

record gold_env =
  is_double :: "string \<Rightarrow> bool"
  month_of :: "string \<Rightarrow> exn + int"
  hex_id :: string
  pick_room :: nat

definition zadd :: "gold_env \<Rightarrow> string \<Rightarrow> string \<Rightarrow> string \<Rightarrow> unit gh" where
  "zadd G key member score = (\<lambda>s. if is_double G score then (Inr (), s\<lparr>gboard := AList.update (key, member) score (gboard s)\<rparr>)
     else (Inl ResponseError, s))"

text \<open>Whether the private server is configured; every failure on the way counts as no.\<close>

definition getPrivateRedisInst :: "string \<Rightarrow> bool rh" where
  "getPrivateRedisInst gameid =
     tryM (bindM (exists_key (GAME2REDIS gameid)) (\<lambda>ex. if \<not> ex then retM False else
       bindM (hgetall (GAME2REDIS gameid)) (\<lambda>info.
       case (map_of info ''ip'', map_of info ''passwd'') of
         (Some ip, Some passwd) \<Rightarrow>
           (case (map_of info ''port'', map_of info ''num'') of
              (Some port, Some num) \<Rightarrow> bindM (liftE (py_int port)) (\<lambda>_. bindM (liftE (py_int num)) (\<lambda>_. retM True))
            | _ \<Rightarrow> raiseM KeyError)
       | _ \<Rightarrow> raiseM KeyError)))
     (retM False)"

section \<open>Players\<close>

definition second_part :: "string \<Rightarrow> exn + string" where
  "second_part t = (case split_on (CHR '':'') t of _ # p # _ \<Rightarrow> Inr p | _ \<Rightarrow> Inl IndexError)"

definition get_user_info :: "string option \<Rightarrow> (string \<times> string) list rh" where
  "get_user_info account =
     bindM (get (FORMAT_ACCOUNT2USER_TABLE (fmt account))) (\<lambda>user_table. if \<not> truthy user_table then retM [] else
     bindM (hgetall (fmt user_table)) (\<lambda>info.
     bindM (liftE (second_part (fmt user_table))) (\<lambda>uid. retM (AList.update ''uid'' uid info))))"

definition field_of :: "(string \<times> string) list \<Rightarrow> string \<Rightarrow> exn + string" where
  "field_of info f = (case map_of info f of None \<Rightarrow> Inl KeyError | Some v \<Rightarrow> Inr v)"

text \<open>What both functions do after the gold has changed: put the player into the ranking of the guild.\<close>

definition rank_player :: "gold_env \<Rightarrow> string option \<Rightarrow> bool gh" where
  "rank_player G account =
     bindM (on_gold (getPrivateRedisInst MASTER_GAMEID)) (\<lambda>prredis.
     bindM (on_gold (get_user_info account)) (\<lambda>user_info. if user_info = [] then retM False else
     bindM (liftE (field_of user_info ''parentAg'')) (\<lambda>agentid.
     bindM (liftE (field_of user_info ''gold'')) (\<lambda>gold.
     if \<not> prredis then raiseM AttributeError else
     thenM (zadd G (GOLD_MONEY_RANK_WITH_AGENT_ZSET agentid) (fmt account) gold) (retM True)))))"

definition player_add_gold :: "gold_env \<Rightarrow> string option \<Rightarrow> int \<Rightarrow> bool gh" where
  "player_add_gold G account gold =
     bindM (on_gold (get (FORMAT_ACCOUNT2USER_TABLE (fmt account)))) (\<lambda>user_table. if \<not> truthy user_table then retM False else
     thenM (on_gold (drop_reply (hincrby (fmt user_table) ''gold'' (show_int gold)))) (rank_player G account))"

definition player_set_gold :: "gold_env \<Rightarrow> string option \<Rightarrow> string \<Rightarrow> bool gh" where
  "player_set_gold G account gold =
     bindM (on_gold (get (FORMAT_ACCOUNT2USER_TABLE (fmt account)))) (\<lambda>user_table. if \<not> truthy user_table then retM False else
     thenM (on_gold (hset (fmt user_table) ''gold'' gold)) (rank_player G account))"

text \<open>The opening lines of the welfare handlers: a refusal, or the account, the user id and the guild.\<close>

definition gold_guard :: "string \<Rightarrow> (reply + string option \<times> string option \<times> string) rh" where
  "gold_guard sid =
     bindM (getInfoBySid sid) (\<lambda>(SessionTable, account, uid, verfiySid).
     if truthy verfiySid \<and> Some sid \<noteq> verfiySid then retM (Inl (Reply (- 4) ''elsewhere'')) else
     bindM (getUserByAccount (fmt account)) (\<lambda>userTable.
     bindM (exists_key SessionTable) (\<lambda>alive. if \<not> alive then retM (Inl (Reply (- 3) ''session'')) else
     bindM (exists_key (fmt userTable)) (\<lambda>known. if \<not> known then retM (Inl (Reply (- 5) ''no user'')) else
     bindM (hmget (fmt userTable) [''headImgUrl'', ''sex'', ''parentAg'', ''isVolntExitGroup'', ''maxScore'', ''baseScore'']) (\<lambda>v.
     retM (if \<not> truthy (v ! 2) then Inl (Reply (- 7) ''no guild'') else Inr (account, uid, fmt (v ! 2))))))))"

section \<open>Signs\<close>

definition do_PlayerWelfareSign :: "gold_env \<Rightarrow> string \<Rightarrow> string option \<Rightarrow> int option gh" where
  "do_PlayerWelfareSign G today account =
     bindM (on_gold (exists_key (WELFARE_USER_SIGN (fmt account) today))) (\<lambda>ex. if ex then retM None else
     bindM (player_add_gold G account 2000) (\<lambda>ok. if \<not> ok then retM None else
     thenM (on_gold (set_str (WELFARE_USER_SIGN (fmt account) today) ''1'')) (retM (Some 2000))))"

definition doWelfareSign :: "gold_env \<Rightarrow> string \<Rightarrow> string \<Rightarrow> reply gh" where
  "doWelfareSign G today sid_form =
     bindM (on_gold (gold_guard (strip sid_form))) (\<lambda>g. case g of Inl r \<Rightarrow> retM r | Inr (account, uid, groupId) \<Rightarrow>
     bindM (do_PlayerWelfareSign G today account) (\<lambda>res.
     retM (case res of None \<Rightarrow> Reply 1 ''signed already'' | Some n \<Rightarrow> Reply 0 (show_int n))))"

definition doPatchSign :: "gold_env \<Rightarrow> string option \<Rightarrow> string \<Rightarrow> reply rh" where
  "doPatchSign G account date =
     bindM (get_user_info account) (\<lambda>user_info.
     bindM (liftE (field_of user_info ''uid'')) (\<lambda>uid.
     bindM (liftE (field_of user_info ''parentAg'')) (\<lambda>agentid.
     bindM (get (USER4AGENT_CARD agentid uid)) (\<lambda>c.
     bindM (liftE (int_or c 0)) (\<lambda>roomcard.
     if roomcard < PATCH_SIGN_FEE then retM (Reply 1 ''too few diamonds'') else
     bindM (liftE (month_of G date)) (\<lambda>month.
     let key = WELFARE_USER_PATCH_SIGN (fmt account) (show_int month) in
     bindM (sismember key date) (\<lambda>again. if again then retM (Reply 1 ''signed already'') else
     bindM (scard key) (\<lambda>times. if times \<noteq> 0 \<and> times > PATCH_SIGN_MAX then retM (Reply 1 ''no more this month'') else
     thenM (sadd key date) (retM (Reply 0 ''signed''))))))))))"

definition doWelfarePatchSign :: "gold_env \<Rightarrow> string \<Rightarrow> string \<Rightarrow> reply gh" where
  "doWelfarePatchSign G sid_form date_form =
     (let date = strip date_form in
      on_gold (bindM (gold_guard (strip sid_form)) (\<lambda>g. case g of Inl r \<Rightarrow> retM r | Inr (account, uid, groupId) \<Rightarrow>
      if date = [] then retM (Reply 1 ''failed'') else doPatchSign G account date)))"

section \<open>Relief and presents\<close>

definition doWelfareById :: "gold_env \<Rightarrow> string \<Rightarrow> string option \<Rightarrow> string option \<Rightarrow> string \<Rightarrow> reply gh" where
  "doWelfareById G today uid account i =
     (if i = ''2'' then
        bindM (on_gold (hget (user_key uid) ''gold'')) (\<lambda>v.
        bindM (liftE (int_or v 0)) (\<lambda>playerCoin.
        if playerCoin \<ge> SIGN_LINE then retM (Reply 1 ''not poor'') else
        (let key = WELFARE_USER_INSURANCE (fmt account) today in
         bindM (on_gold (llen key)) (\<lambda>n. if n \<ge> SIGN_MAX then retM (Reply 1 ''no more today'') else
         thenM (on_gold (lpush key (show_int SIGN_COINNUM)))
         (bindM (player_add_gold G account SIGN_COINNUM) (\<lambda>_. retM (Reply 0 ''received'')))))))
      else if i = ''1'' then
        bindM (on_gold (hget GOLD_REWARD_NEW_PRESENT_HASH (fmt account))) (\<lambda>v.
        if v = Some MESSION_STATUS_OVER then retM (Reply 1 ''received already'') else
        thenM (on_gold (hset GOLD_REWARD_NEW_PRESENT_HASH (fmt account) MESSION_STATUS_OVER)) (retM (Reply 0 ''received'')))
      else if i = ''0'' then
        bindM (on_gold (sismember (DAILY_USER_GOLD2_SET today) (fmt account))) (\<lambda>paid. if \<not> paid then retM (Reply 1 ''nothing bought'') else
        bindM (on_gold (hget (GOLD_REWARD_DAY_BUY_GOLD_HASH today) (fmt account))) (\<lambda>v.
        if v = Some MESSION_STATUS_OVER then retM (Reply 1 ''received already'') else raiseM TypeError))
      else retM (Reply 0 ''received''))"

definition doWelfareInsurancen :: "gold_env \<Rightarrow> string \<Rightarrow> string \<Rightarrow> reply gh" where
  "doWelfareInsurancen G today sid_form =
     bindM (on_gold (getInfoBySid (strip sid_form))) (\<lambda>(SessionTable, account, uid, verfiySid). doWelfareById G today uid account ''2'')"

definition do_get_welfare :: "gold_env \<Rightarrow> string \<Rightarrow> string \<Rightarrow> string \<Rightarrow> reply gh" where
  "do_get_welfare G today sid_form id_form =
     bindM (on_gold (gold_guard (strip sid_form))) (\<lambda>g. case g of Inl r \<Rightarrow> retM r | Inr (account, uid, groupId) \<Rightarrow>
     doWelfareById G today uid account (strip id_form))"

text \<open>No reward of the sign list is paid.\<close>

definition doSignRewardById :: "string option \<Rightarrow> string option \<Rightarrow> string \<Rightarrow> reply rh" where
  "doSignRewardById uid account i = retM (Reply 0 ''received'')"

definition do_get_reward :: "string \<Rightarrow> string \<Rightarrow> reply gh" where
  "do_get_reward sid_form id_form =
     on_gold (bindM (gold_guard (strip sid_form)) (\<lambda>g. case g of Inl r \<Rightarrow> retM r | Inr (account, uid, groupId) \<Rightarrow>
     doSignRewardById uid account (strip id_form)))"

definition checkWelfareIsGM :: "gold_env \<Rightarrow> string \<Rightarrow> string \<Rightarrow> reply gh" where
  "checkWelfareIsGM G sid_form coin_form =
     (let coinNum = strip coin_form in
      if coinNum = [] \<or> \<not> set coinNum \<subseteq> set ''0123456789.+-'' then retM (Reply 1 ''no number'') else
      bindM (on_gold (getInfoBySid (strip sid_form))) (\<lambda>(SessionTable, account, uid, verfiySid).
      bindM (player_set_gold G account coinNum) (\<lambda>ok. retM (if ok then Reply 0 ''set'' else Reply (- 1) ''failed''))))"

section \<open>The welfare page\<close>

text \<open>The days of the month before today, each as its date, its day and its month in two digits.  All three rewards
  write their status to the first row of the reward list.\<close>

record welfare_page =
  wf_date :: string
  wf_issigned :: int
  wf_signed :: "string list"
  wf_unsinged :: "string list"
  wf_reward :: string
  wf_first_buy :: string
  wf_present :: string
  wf_relief :: string

definition day_signed :: "string option \<Rightarrow> string \<times> string \<times> string \<Rightarrow> bool rh" where
  "day_signed account d = (case d of (date, day, month) \<Rightarrow>
     bindM (exists_key (WELFARE_USER_SIGN (fmt account) date)) (\<lambda>ex. if ex then retM True else
     sismember (WELFARE_USER_PATCH_SIGN (fmt account) month) date))"

definition sign_status :: "string \<Rightarrow> string option \<Rightarrow> string rh" where
  "sign_status table account =
     bindM (exists_key table) (\<lambda>ex. if \<not> ex then retM MESSION_STATUS_NO else
     bindM (hget table (fmt account)) (\<lambda>v. retM (if v = Some MESSION_STATUS_OVER then MESSION_STATUS_OVER else MESSION_STATUS_OK)))"

definition first_buy_status :: "string \<Rightarrow> string option \<Rightarrow> string rh" where
  "first_buy_status today account =
     bindM (sismember (DAILY_USER_GOLD2_SET today) (fmt account)) (\<lambda>paid. if \<not> paid then retM MESSION_STATUS_NO else
     bindM (hget (GOLD_REWARD_DAY_BUY_GOLD_HASH today) (fmt account)) (\<lambda>v.
     retM (if v = Some MESSION_STATUS_OVER then MESSION_STATUS_OVER else MESSION_STATUS_OK)))"

definition relief_status :: "string \<Rightarrow> string option \<Rightarrow> string rh" where
  "relief_status today account =
     bindM (exists_key (WELFARE_USER_INSURANCE (fmt account) today)) (\<lambda>ex. if \<not> ex then retM MESSION_STATUS_OK else
     bindM (llen (WELFARE_USER_INSURANCE (fmt account) today)) (\<lambda>n. retM (if n \<ge> SIGN_MAX then MESSION_STATUS_OVER else MESSION_STATUS_OK)))"

definition get_welfare_info :: "string \<Rightarrow> (string \<times> string \<times> string) list \<Rightarrow> string option \<Rightarrow> welfare_page rh" where
  "get_welfare_info today past account =
     bindM (exists_key (WELFARE_USER_SIGN (fmt account) today)) (\<lambda>issigned.
     bindM (mapM past (\<lambda>d. bindM (day_signed account d) (\<lambda>b. retM (fst (snd d), b)))) (\<lambda>days.
     thenM (sign_status GOLD_WELFARE_SIGN_7DAYS account)
     (thenM (sign_status GOLD_WELFARE_SIGN_15DAYS account)
     (bindM (sign_status GOLD_WELFARE_SIGN_MONTH account) (\<lambda>reward.
     bindM (first_buy_status today account) (\<lambda>first_buy.
     bindM (hget GOLD_REWARD_NEW_PRESENT_HASH (fmt account)) (\<lambda>present.
     bindM (relief_status today account) (\<lambda>relief.
     retM \<lparr>wf_date = today, wf_issigned = (if issigned then 1 else 0), wf_signed = map fst (filter snd days),
       wf_unsinged = map fst (filter (\<lambda>d. \<not> snd d) days), wf_reward = reward, wf_first_buy = first_buy,
       wf_present = (if present = Some MESSION_STATUS_OVER then MESSION_STATUS_OVER else MESSION_STATUS_OK),
       wf_relief = relief\<rparr>))))))))"

definition getWelfare :: "string \<Rightarrow> (string \<times> string \<times> string) list \<Rightarrow> string \<Rightarrow> (reply + welfare_page) gh" where
  "getWelfare today past sid_form =
     on_gold (bindM (gold_guard (strip sid_form)) (\<lambda>g. case g of Inl r \<Rightarrow> retM (Inl r) | Inr (account, uid, groupId) \<Rightarrow>
     bindM (get_welfare_info today past account) (\<lambda>p. retM (Inr p))))"

section \<open>Entering a gold room\<close>

text \<open>The session checks of the rooms: a refusal, or the account and the user table.\<close>

definition room_guard :: "string \<Rightarrow> (reply + string option \<times> string) rh" where
  "room_guard sid =
     bindM (getInfoBySid sid) (\<lambda>(SessionTable, account, uid, verfiySid).
     if truthy verfiySid \<and> Some sid \<noteq> verfiySid then retM (Inl (Reply (- 4) ''elsewhere'')) else
     bindM (exists_key SessionTable) (\<lambda>alive. if \<not> alive then retM (Inl (Reply (- 3) ''session'')) else
     bindM (getUserByAccount (fmt account)) (\<lambda>userTable.
     bindM (exists_key (fmt userTable)) (\<lambda>known.
     retM (if \<not> known then Inl (Reply (- 5) ''no user'') else Inr (account, fmt userTable))))))"

definition do_NotJoinGoldRoom :: "string \<Rightarrow> reply rh" where
  "do_NotJoinGoldRoom sid_form =
     bindM (room_guard (strip sid_form)) (\<lambda>g. retM (case g of Inl r \<Rightarrow> r | Inr _ \<Rightarrow> Reply 0 ''out''))"

text \<open>The bounds the client names: the least gold, and the most, where there is one.\<close>

definition need_bounds :: "string \<Rightarrow> exn + int \<times> int" where
  "need_bounds need =
     (let l = split_on (CHR '','') need in
      case int_or (Some (hd l)) 0 of Inl e \<Rightarrow> Inl e | Inr lo \<Rightarrow>
      (case l of _ # m # _ \<Rightarrow> (case py_int m of Inl e \<Rightarrow> Inl e | Inr hi \<Rightarrow> Inr (lo, hi)) | _ \<Rightarrow> Inr (lo, 9999999999)))"

text \<open>Whether the player sits in a room that is alive; a room that is gone is forgotten.\<close>

definition seated_already :: "string option \<Rightarrow> string \<Rightarrow> string \<Rightarrow> reply option rh" where
  "seated_already account gameid playid =
     bindM (get (GOLD_ROOM_ACCOUNT_KEY (fmt account))) (\<lambda>myroom_key. if \<not> truthy myroom_key then retM None else
     bindM (hmget (fmt myroom_key) [''roomid'', ''playid'']) (\<lambda>r.
     bindM (hmget (ROOM2SERVER (fmt (r ! 0))) [''ip'', ''port'', ''gameid'']) (\<lambda>v.
     if truthy (v ! 0) \<and> truthy (v ! 1) \<and> truthy (v ! 2) then
       retM (Some (if Some playid \<noteq> r ! 1 \<or> v ! 2 \<noteq> Some gameid then Reply (- 1) ''in another game'' else Reply 0 ''seated already''))
     else thenM (delete_key (GOLD_ROOM_ACCOUNT_KEY (fmt account))) (retM None))))"

definition enter_wait :: "gold_env \<Rightarrow> string option \<Rightarrow> string \<Rightarrow> string \<Rightarrow> reply rh" where
  "enter_wait G account gameid playid =
     thenM (sendProtocol2GameService gameid (''joinGoldRoom|'' @ fmt account @ ''|'' @ playid @ ''|'' @ hex_id G))
     (thenM (hmset (GOLD_ACCOUNT_WAIT_JOIN_TABLE (fmt account)) [(''playid'', playid), (''gameid'', gameid)])
     (thenM (expire_key (GOLD_ACCOUNT_WAIT_JOIN_TABLE (fmt account)) 5) (retM (Reply 0 ''waiting''))))"

definition do_JoinGoldRoom :: "gold_env \<Rightarrow> string \<Rightarrow> string \<Rightarrow> string \<Rightarrow> string \<Rightarrow> string \<Rightarrow> string \<Rightarrow> reply rh" where
  "do_JoinGoldRoom G sid_form game_form id_form need_form cost_form base_form =
     (let gameid = strip game_form; playid = strip id_form in
      bindM (liftE (py_int (strip cost_form))) (\<lambda>cost.
      bindM (liftE (py_int (strip base_form))) (\<lambda>base_score.
      bindM (room_guard (strip sid_form)) (\<lambda>g. case g of Inl r \<Rightarrow> retM r | Inr (account, userTable) \<Rightarrow>
      bindM (hget userTable ''parentAg'') (\<lambda>groupId. if \<not> truthy groupId then retM (Reply (- 7) ''no guild'') else
      bindM (exists_key (GAME_TABLE gameid)) (\<lambda>game. if \<not> game then retM (Reply (- 1) ''no game'') else
      bindM (lrange_all (FORMAT_GAME_SERVICE_SET gameid)) (\<lambda>serverList. if serverList = [] then retM (Reply (- 1) ''busy'') else
      bindM (seated_already account gameid playid) (\<lambda>seated. case seated of Some r \<Rightarrow> retM r | None \<Rightarrow>
      bindM (liftE (second_part userTable)) (\<lambda>uid.
      bindM (hget (user_key (Some uid)) ''gold'') (\<lambda>v.
      bindM (liftE (int_or v 0)) (\<lambda>coin.
      bindM (liftE (need_bounds (strip need_form))) (\<lambda>(min_need, max_need).
      if coin < min_need then retM (Reply (- 2) ''too little gold'') else
      if coin > max_need then retM (Reply (- 1) ''too much gold'') else
      enter_wait G account gameid playid))))))))))))"

text \<open>The outcome of the check: a place in a room, the numbers to show while waiting, or a refusal.  When the room is
  gone, the game it belongs to has been overwritten by the missing one.\<close>

datatype gold_seat =
    Refused reply
  | Waiting
  | Seat "string option" "string option" "string option"

definition fifth_part :: "string \<Rightarrow> exn + string" where
  "fifth_part t = (let l = split_on (CHR '':'') t in if length l > 4 then Inr (l ! 4) else Inl IndexError)"

definition player_count :: "string \<Rightarrow> int rh" where
  "player_count roomid = bindM (hget (ROOM2SERVER roomid) ''playerCount'') (\<lambda>v. liftE (int_or v 0))"

definition choose_seat :: "gold_env \<Rightarrow> string \<Rightarrow> string option \<Rightarrow> string list \<Rightarrow> gold_seat rh" where
  "choose_seat G SessionTable playid roomids =
     bindM (mapM roomids (\<lambda>r. bindM (player_count r) (\<lambda>n. retM (r, n)))) (\<lambda>counts.
     let choice_roomids = map fst (filter (\<lambda>c. snd c \<noteq> 0) counts);
         l = (if choice_roomids = [] then roomids else choice_roomids);
         roomid = l ! (pick_room G mod length l) in
     thenM (hmset SessionTable [(''roomid'', roomid), (''action'', ''0'')])
     (bindM (hmget (ROOM2SERVER roomid) [''ip'', ''port'', ''gameid'']) (\<lambda>v.
      if \<not> truthy (v ! 0) \<or> \<not> truthy (v ! 1) \<or> \<not> truthy (v ! 2) then
        thenM (srem (GOLD_CAN_JOIN_ROOM_SET (fmt (v ! 2)) (fmt playid)) roomid) (retM (Seat (v ! 0) (v ! 1) (v ! 2)))
      else retM (Seat (v ! 0) (v ! 1) (v ! 2)))))"

definition do_CheckJoinGoldRoom :: "gold_env \<Rightarrow> string \<Rightarrow> gold_seat rh" where
  "do_CheckJoinGoldRoom G sid_form =
     (let sid = strip sid_form in
      bindM (getInfoBySid sid) (\<lambda>(SessionTable, account, uid, verfiySid).
      if truthy verfiySid \<and> Some sid \<noteq> verfiySid then retM (Refused (Reply (- 4) ''elsewhere'')) else
      bindM (exists_key SessionTable) (\<lambda>alive. if \<not> alive then retM (Refused (Reply (- 3) ''session'')) else
      bindM (get (GOLD_ROOM_ACCOUNT_KEY (fmt account))) (\<lambda>myroom_key.
      if truthy myroom_key then
        bindM (hget (fmt myroom_key) ''roomid'') (\<lambda>roomid.
        bindM (hmget (ROOM2SERVER (fmt roomid)) [''ip'', ''port'', ''gameid'']) (\<lambda>v. retM (Seat (v ! 0) (v ! 1) (v ! 2))))
      else
        bindM (exists_key (GOLD_ACCOUNT_WAIT_JOIN_TABLE (fmt account))) (\<lambda>wait. if \<not> wait then retM (Refused (Reply (- 1) ''timeout'')) else
        bindM (hmget (GOLD_ACCOUNT_WAIT_JOIN_TABLE (fmt account)) [''playid'', ''gameid'']) (\<lambda>w.
        bindM (smembers (GOLD_CAN_JOIN_ROOM_SET (fmt (w ! 1)) (fmt (w ! 0)))) (\<lambda>roomids. if roomids = [] then retM Waiting else
        bindM (lrange (GOLD_ROOM_ACCOUNT_LIST (fmt account)) 0 1) (\<lambda>recent.
        bindM (mapM (filter (\<lambda>t. t \<noteq> []) recent) (\<lambda>t. liftE (fifth_part t))) (\<lambda>f.
        let l = filter (\<lambda>r. r \<notin> set f) roomids in
        if l = [] then retM Waiting else choose_seat G SessionTable (w ! 0) l))))))))) "

end
