(* ===== verification/GoldLaws.thy ===== *)
theory GoldLaws
  imports HallGold RunRules SpringLaws
begin

text \<open>
  Laws of the gold rooms: what no history of requests can exceed, and what a sign is worth and how often.
\<close>

section \<open>Handlers on two stores\<close>

lemma wp_on_gold [wp_eqs]:
  "wp (on_gold m) Q E s = wp m (\<lambda>x t. Q x (s\<lparr>gmain := t\<rparr>)) (\<lambda>e t. E e (s\<lparr>gmain := t\<rparr>)) (gmain s)"
  by (simp add: wp_def on_gold_def split: prod.split sum.split)

lemma wp_zadd [wp_eqs]:
  "wp (zadd G k m v) Q E s = (if is_double G v then Q () (s\<lparr>gboard := AList.update (k, m) v (gboard s)\<rparr>) else E ResponseError s)"
  by (simp add: wp_def zadd_def)

lemma keeps_on_gold [pres_intros]: "keeps P m \<Longrightarrow> keeps (\<lambda>s. P (gmain s)) (on_gold m)"
  by (simp add: keeps_def on_gold_def case_prod_beta)

lemma keeps_zadd [pres_intros]: "keeps (\<lambda>s. P (gmain s)) (zadd G k m v)"
  by (simp add: keeps_def zadd_def)

lemma keeps_gold_reads [pres_intros]:
  "keeps P (smembers k)" "keeps P (scard k)" "keeps P (llen k)" "keeps P (lrange_all k)"
  by (auto simp: keeps_def wp_state [symmetric] wp_eqs)

lemma keeps_lrange [pres_intros]: "keeps P (lrange k i j)"
  unfolding lrange_def Let_def by (intro pres_intros)

lemma keeps_gold_guards [pres_intros]:
  "keeps P (getPrivateRedisInst g)" "keeps P (get_user_info a)" "keeps P (gold_guard sid)" "keeps P (room_guard sid)"
  unfolding getPrivateRedisInst_def get_user_info_def gold_guard_def room_guard_def getUserByAccount_def
  by (intro pres_intros; simp split: option.split add: pres_intros)+

section \<open>What the requests leave alone\<close>

datatype gold_op =
    Gold_sign string string
  | Gold_patch string string
  | Gold_insurance string string
  | Gold_welfare string string string
  | Gold_reward string string
  | Gold_set string string
  | Gold_page string "(string \<times> string \<times> string) list" string
  | Gold_join string string string string string string
  | Gold_check string

fun gold_do :: "gold_env \<Rightarrow> gold_op \<Rightarrow> gold_db \<Rightarrow> gold_db" where
  "gold_do G (Gold_sign today sid) s = snd (doWelfareSign G today sid s)"
| "gold_do G (Gold_patch sid date) s = snd (doWelfarePatchSign G sid date s)"
| "gold_do G (Gold_insurance today sid) s = snd (doWelfareInsurancen G today sid s)"
| "gold_do G (Gold_welfare today sid i) s = snd (do_get_welfare G today sid i s)"
| "gold_do G (Gold_reward sid i) s = snd (do_get_reward sid i s)"
| "gold_do G (Gold_set sid num) s = snd (checkWelfareIsGM G sid num s)"
| "gold_do G (Gold_page today past sid) s = snd (getWelfare today past sid s)"
| "gold_do G (Gold_join sid g i need cost base) s = snd (on_gold (do_JoinGoldRoom G sid g i need cost base) s)"
| "gold_do G (Gold_check sid) s = snd (on_gold (do_CheckJoinGoldRoom G sid) s)"

text \<open>
  A predicate of the main database that survives the writes of the module: hashes, marks of signs, the
  queues and rooms, and the two lists under the conditions the handlers check before they write to them.
\<close>

locale gold_frame =
  fixes P :: "redis \<Rightarrow> bool"
  assumes hset: "keeps P (hset k f v)"
    and hmset: "keeps P (hmset k fs)"
    and hincrby: "keeps P (hincrby k f amt)"
    and sign: "keeps P (set_str (WELFARE_USER_SIGN a d) v)"
    and queue: "keeps P (rpush (FORMAT_SERVICE_PROTOCOL_TABLE g ad) l)"
    and room: "keeps P (delete_key (GOLD_ROOM_ACCOUNT_KEY a))"
    and wait: "keeps P (expire_key (GOLD_ACCOUNT_WAIT_JOIN_TABLE a) n)"
    and gone: "keeps P (srem (GOLD_CAN_JOIN_ROOM_SET g p) r)"
    and patch: "P s \<Longrightarrow> length (members s (WELFARE_USER_PATCH_SIGN a m)) \<le> 5 \<Longrightarrow>
      P (put_set (WELFARE_USER_PATCH_SIGN a m) (List.insert d (members s (WELFARE_USER_PATCH_SIGN a m))) s)"
    and relief: "P s \<Longrightarrow> length (list_of s (WELFARE_USER_INSURANCE a d)) < 2 \<Longrightarrow>
      P (set_list (WELFARE_USER_INSURANCE a d) (v # list_of s (WELFARE_USER_INSURANCE a d)) s)"
begin

lemma rank: "keeps (\<lambda>s. P (gmain s)) (rank_player G a)"
  unfolding rank_player_def by (intro pres_intros)

lemma add_gold: "keeps (\<lambda>s. P (gmain s)) (player_add_gold G a n)"
  unfolding player_add_gold_def by (intro pres_intros keeps_on_gold keeps_drop_reply hincrby rank)

lemma set_gold: "keeps (\<lambda>s. P (gmain s)) (player_set_gold G a v)"
  unfolding player_set_gold_def by (intro pres_intros hset rank)

lemma relief_list: "keeps (\<lambda>s. P (gmain s)) (doWelfareById G today uid a i)"
proof -
  have "keeps (\<lambda>s. P (gmain s)) (bindM (on_gold (llen (WELFARE_USER_INSURANCE (fmt a) today))) (\<lambda>n. if n \<ge> SIGN_MAX then retM r else
      thenM (on_gold (lpush (WELFARE_USER_INSURANCE (fmt a) today) v)) k))" if "keeps (\<lambda>s. P (gmain s)) k" for r v k
  proof (rule keepsI)
    fix s :: gold_db assume s: "P (gmain s)"
    have "wp k (\<lambda>_ s. P (gmain s)) (\<lambda>_ s. P (gmain s)) t" if "P (gmain t)" for t by (rule wp_keeps [OF \<open>keeps _ k\<close> that])
    then show "wp (bindM (on_gold (llen (WELFARE_USER_INSURANCE (fmt a) today))) (\<lambda>n. if n \<ge> SIGN_MAX then retM r else
        thenM (on_gold (lpush (WELFARE_USER_INSURANCE (fmt a) today) v)) k)) (\<lambda>_ s. P (gmain s)) (\<lambda>_ s. P (gmain s)) s"
      using s relief [OF s] by (auto simp: wp_eqs SIGN_MAX_def)
  qed
  note list = this
  show ?thesis
    unfolding doWelfareById_def Let_def by (intro pres_intros list add_gold hset)
qed

lemma patch_list: "keeps P (doPatchSign G a date)"
proof -
  have "keeps P (bindM (scard (WELFARE_USER_PATCH_SIGN c m)) (\<lambda>n. if n \<noteq> 0 \<and> n > PATCH_SIGN_MAX then retM r else
      thenM (sadd (WELFARE_USER_PATCH_SIGN c m) date) (retM r')))" for c m r r'
  proof (rule keepsI)
    fix s assume "P s"
    from patch [OF this, of c m date] this
    show "wp (bindM (scard (WELFARE_USER_PATCH_SIGN c m)) (\<lambda>n. if n \<noteq> 0 \<and> n > PATCH_SIGN_MAX then retM r else
        thenM (sadd (WELFARE_USER_PATCH_SIGN c m) date) (retM r'))) (\<lambda>_. P) (\<lambda>_. P) s"
      by (auto simp: wp_eqs PATCH_SIGN_MAX_def)
  qed
  note list = this
  show ?thesis unfolding doPatchSign_def Let_def by (intro pres_intros list)
qed

lemma send: "keeps P (sendProtocol2GameService g l)"
  unfolding sendProtocol2GameService_def by (intro pres_intros; simp split: list.split add: queue pres_intros)

lemma join: "keeps P (do_JoinGoldRoom G sid g i need cost base)"
  unfolding do_JoinGoldRoom_def seated_already_def enter_wait_def Let_def
  by (intro pres_intros send hmset wait room; (simp split: sum.split)?; (intro pres_intros send hmset wait room)?)

lemma check: "keeps P (do_CheckJoinGoldRoom G sid)"
  unfolding do_CheckJoinGoldRoom_def choose_seat_def player_count_def Let_def
  by (intro pres_intros hmset gone)

lemma page: "keeps P (get_welfare_info today past a)"
  unfolding get_welfare_info_def day_signed_def sign_status_def first_buy_status_def relief_status_def
  by (intro pres_intros)

lemma request: "P (gmain s) \<Longrightarrow> P (gmain (gold_do G op s))"
proof -
  have g: "keeps Q (case g of Inl r \<Rightarrow> retM r | Inr (x, y, z) \<Rightarrow> k x y z)" if "\<And>x y z. keeps Q (k x y z)" for Q g and k :: "_ \<Rightarrow> _ \<Rightarrow> _ \<Rightarrow> ('c, 'd) handler"
    using that by (auto split: sum.split intro: pres_intros)
  have h1: "keeps (\<lambda>s. P (gmain s)) (doWelfareSign G t sid)" for t sid
    unfolding doWelfareSign_def do_PlayerWelfareSign_def by (intro pres_intros g add_gold sign)
  have h2: "keeps (\<lambda>s. P (gmain s)) (doWelfarePatchSign G sid d)" for sid d
    unfolding doWelfarePatchSign_def Let_def by (intro keeps_on_gold pres_intros g patch_list)
  have h3: "keeps (\<lambda>s. P (gmain s)) (doWelfareInsurancen G t sid)" for t sid
    unfolding doWelfareInsurancen_def by (intro pres_intros relief_list)
  have h4: "keeps (\<lambda>s. P (gmain s)) (do_get_welfare G t sid i)" for t sid i
    unfolding do_get_welfare_def by (intro pres_intros g relief_list)
  have h5: "keeps (\<lambda>s. P (gmain s)) (do_get_reward sid i)" for sid i
    unfolding do_get_reward_def doSignRewardById_def by (intro keeps_on_gold pres_intros g)
  have h6: "keeps (\<lambda>s. P (gmain s)) (checkWelfareIsGM G sid c)" for sid c
    unfolding checkWelfareIsGM_def Let_def by (intro pres_intros set_gold)
  have h7: "keeps (\<lambda>s. P (gmain s)) (getWelfare t past sid)" for t past sid
    unfolding getWelfare_def by (intro keeps_on_gold pres_intros page)
  have h8: "P (gmain s) \<Longrightarrow> P (gmain (snd (on_gold (do_JoinGoldRoom G sid g i need cost base) s)))" for sid g i need cost base
    by (rule keepsD [OF keeps_on_gold [OF join]])
  have h9: "P (gmain s) \<Longrightarrow> P (gmain (snd (on_gold (do_CheckJoinGoldRoom G sid) s)))" for sid
    by (rule keepsD [OF keeps_on_gold [OF check]])
  show "P (gmain s) \<Longrightarrow> P (gmain (gold_do G op s))"
    by (cases op) (simp_all add: h8 h9 keepsD [OF h1] keepsD [OF h2] keepsD [OF h3] keepsD [OF h4] keepsD [OF h5] keepsD [OF h6] keepsD [OF h7])
qed

end

sublocale gold_frame \<subseteq> requests: state_machine "gold_do G" "\<lambda>s. P (gmain s)" for G
  by unfold_locales (rule request)

section \<open>Limits\<close>

lemmas gold_keys = WELFARE_USER_SIGN_def WELFARE_USER_PATCH_SIGN_def WELFARE_USER_INSURANCE_def GOLD_ROOM_ACCOUNT_KEY_def
  GOLD_ACCOUNT_WAIT_JOIN_TABLE_def GOLD_CAN_JOIN_ROOM_SET_def FORMAT_SERVICE_PROTOCOL_TABLE_def GAME2REDIS_def

lemma gold_keys_neq [simp]:
  "WELFARE_USER_INSURANCE a d \<noteq> WELFARE_USER_SIGN b e" "WELFARE_USER_INSURANCE a d \<noteq> WELFARE_USER_PATCH_SIGN b e"
  "WELFARE_USER_PATCH_SIGN b e \<noteq> WELFARE_USER_INSURANCE a d" "WELFARE_USER_PATCH_SIGN a d \<noteq> WELFARE_USER_SIGN b e"
  "WELFARE_USER_SIGN a d \<noteq> WELFARE_USER_PATCH_SIGN b e" "WELFARE_USER_SIGN a d \<noteq> WELFARE_USER_INSURANCE b e"
  "WELFARE_USER_INSURANCE a d \<noteq> FORMAT_SERVICE_PROTOCOL_TABLE g ad" "WELFARE_USER_SIGN a d \<noteq> FORMAT_SERVICE_PROTOCOL_TABLE g ad"
  "WELFARE_USER_PATCH_SIGN a d \<noteq> FORMAT_SERVICE_PROTOCOL_TABLE g ad"
  "WELFARE_USER_INSURANCE a d \<noteq> GOLD_CAN_JOIN_ROOM_SET g p" "WELFARE_USER_SIGN a d \<noteq> GOLD_CAN_JOIN_ROOM_SET g p"
  "WELFARE_USER_PATCH_SIGN a d \<noteq> GOLD_CAN_JOIN_ROOM_SET g p"
  "WELFARE_USER_SIGN a d \<noteq> GOLD_ROOM_ACCOUNT_KEY b" "WELFARE_USER_SIGN a d \<noteq> GOLD_ACCOUNT_WAIT_JOIN_TABLE b"
  by (simp_all add: gold_keys)

lemma other_types [simp]:
  "list_of (put_set k l s) j = (if j = k then [] else list_of s j)" "members (set_list k l s) j = (if j = k then [] else members s j)"
  "members (set_key k v s) j = (if j = k then [] else members s j)"
  by (simp_all add: list_of_def members_def look_put_set look_set_list)

lemma ttl_types [simp]: "list_of (s\<lparr>ttl := x\<rparr>) j = list_of s j" "members (s\<lparr>ttl := x\<rparr>) j = members s j"
  by (simp_all add: list_of_def members_def look_def)

lemma shrinking:
  "length (list_of (hput k f v s) j) \<le> length (list_of s j)" "length (list_of (hputs k fs s) j) \<le> length (list_of s j)"
  "length (members (hput k f v s) j) \<le> length (members s j)" "length (members (hputs k fs s) j) \<le> length (members s j)"
proof -
  have h: "length (list_of (hput k f v s) j) \<le> length (list_of s j)" "length (members (hput k f v s) j) \<le> length (members s j)" for k f v s
    by (simp_all add: list_of_def members_def hput_def look_def put_def update_conv')
  then show "length (list_of (hput k f v s) j) \<le> length (list_of s j)" "length (members (hput k f v s) j) \<le> length (members s j)" by blast+
  have "length (list_of (hputs k fs s) j) \<le> length (list_of s j) \<and> length (members (hputs k fs s) j) \<le> length (members s j)"
  proof (induction k fs s rule: hputs.induct)
    case (2 k f v r s)
    then show ?case using order_trans [OF conjunct1 [OF 2] h(1)] order_trans [OF conjunct2 [OF 2] h(2)] by simp
  qed simp
  then show "length (list_of (hputs k fs s) j) \<le> length (list_of s j)" "length (members (hputs k fs s) j) \<le> length (members s j)" by blast+
qed

definition gold_limits :: "redis \<Rightarrow> bool" where
  "gold_limits s \<longleftrightarrow> (\<forall>a d. length (list_of s (WELFARE_USER_INSURANCE a d)) \<le> 2) \<and> (\<forall>a m. length (members s (WELFARE_USER_PATCH_SIGN a m)) \<le> 6)"

lemma gold_limits_le:
  assumes "gold_limits s" "\<And>a d. length (list_of t (WELFARE_USER_INSURANCE a d)) \<le> length (list_of s (WELFARE_USER_INSURANCE a d))"
    "\<And>a m. length (members t (WELFARE_USER_PATCH_SIGN a m)) \<le> length (members s (WELFARE_USER_PATCH_SIGN a m))"
  shows "gold_limits t"
  using assms unfolding gold_limits_def by (meson order_trans)

lemma gold_limits_writes [intro!]:
  assumes "gold_limits s"
  shows "gold_limits (hput k f v s)" "gold_limits (hputs k fs s)" "gold_limits (set_key (WELFARE_USER_SIGN a d) v s)"
    "gold_limits (set_list (FORMAT_SERVICE_PROTOCOL_TABLE g ad) l s)" "gold_limits (unput j s)" "gold_limits (expired j n s)"
    "gold_limits (put_set (GOLD_CAN_JOIN_ROOM_SET g p) r s)"
proof -
  show "gold_limits (hput k f v s)" "gold_limits (hputs k fs s)" by (rule gold_limits_le [OF assms]; rule shrinking)+
  show "gold_limits (set_key (WELFARE_USER_SIGN a d) v s)" "gold_limits (set_list (FORMAT_SERVICE_PROTOCOL_TABLE g ad) l s)"
    "gold_limits (unput j s)" "gold_limits (put_set (GOLD_CAN_JOIN_ROOM_SET g p) r s)"
    by (rule gold_limits_le [OF assms]; simp)+
  show "gold_limits (expired j n s)"
    by (rule gold_limits_le [OF assms]) (simp_all add: expired_def)
qed

interpretation limits: gold_frame gold_limits
proof unfold_locales
  fix k f v fs amt a d g ad l n r p
  show "keeps gold_limits (hset k f v)" "keeps gold_limits (hmset k fs)" "keeps gold_limits (hincrby k f amt)"
    by (rule keepsI; auto simp: wp_eqs split: option.split)+
  show "keeps gold_limits (set_str (WELFARE_USER_SIGN a d) v)" "keeps gold_limits (rpush (FORMAT_SERVICE_PROTOCOL_TABLE g ad) l)"
    "keeps gold_limits (delete_key (GOLD_ROOM_ACCOUNT_KEY a))" "keeps gold_limits (srem (GOLD_CAN_JOIN_ROOM_SET g p) r)"
    "keeps gold_limits (expire_key (GOLD_ACCOUNT_WAIT_JOIN_TABLE a) n)"
    by (rule keepsI; auto simp: wp_eqs)+
qed (auto simp: gold_limits_def List.insert_def less_Suc_eq_le numeral_2_eq_2)

definition demo_gold_env :: gold_env where
  "demo_gold_env = \<lparr>is_double = (\<lambda>t. strtoll t \<noteq> None), month_of = (\<lambda>_. Inr 5), hex_id = ''u'', pick_room = 0\<rparr>"

definition demo_gold :: gold_db where
  "demo_gold = \<lparr>gmain = empty_db\<lparr>kv :=
     [(FORMAT_USER_HALL_SESSION ''s'', RHash [(''account'', ''ann''), (''uid'', ''7'')]),
      (FORMAT_ACCOUNT2USER_TABLE ''ann'', RStr (user_key (Some ''7''))),
      (user_key (Some ''7''), RHash [(''gold'', ''10''), (''parentAg'', ''9'')]),
      (GAME2REDIS MASTER_GAMEID, RHash [(''ip'', ''h''), (''passwd'', ''p''), (''port'', ''1''), (''num'', ''2'')]),
      (USER4AGENT_CARD ''9'' ''7'', RStr ''2'')]\<rparr>, gboard = []\<rparr>"

lemma gold_limits_demo: "gold_limits (gmain demo_gold)"
  by (auto simp: gold_limits_def demo_gold_def list_of_def members_def look_def gold_keys FORMAT_USER_HALL_SESSION_def
      FORMAT_ACCOUNT2USER_TABLE_def user_key_def USER4AGENT_CARD_def split: option.split if_splits)

section \<open>Signs\<close>

interpretation signed: gold_frame "\<lambda>s. look s (WELFARE_USER_SIGN a d) \<noteq> None" for a d
proof unfold_locales
  fix k f v fs amt c e g ad l n r p
  have hp: "look (hputs k fs s) j \<noteq> None" if "look s j \<noteq> None" for s j
    using that by (induction k fs s rule: hputs.induct) (auto simp: hput_def)
  show "keeps (\<lambda>s. look s (WELFARE_USER_SIGN a d) \<noteq> None) (hset k f v)" "keeps (\<lambda>s. look s (WELFARE_USER_SIGN a d) \<noteq> None) (hincrby k f amt)"
    by (rule keepsI; auto simp: wp_eqs hput_def split: option.split)+
  show "keeps (\<lambda>s. look s (WELFARE_USER_SIGN a d) \<noteq> None) (hmset k fs)"
    by (rule keepsI) (use hp in \<open>simp add: wp_eqs\<close>)
  show "keeps (\<lambda>s. look s (WELFARE_USER_SIGN a d) \<noteq> None) (set_str (WELFARE_USER_SIGN c e) v)"
    "keeps (\<lambda>s. look s (WELFARE_USER_SIGN a d) \<noteq> None) (delete_key (GOLD_ROOM_ACCOUNT_KEY c))"
    "keeps (\<lambda>s. look s (WELFARE_USER_SIGN a d) \<noteq> None) (srem (GOLD_CAN_JOIN_ROOM_SET g p) r)"
    by (rule keepsI; auto simp: wp_eqs look_put_set set_key_def)+
  show "keeps (\<lambda>s. look s (WELFARE_USER_SIGN a d) \<noteq> None) (rpush (FORMAT_SERVICE_PROTOCOL_TABLE g ad) l)"
    by (rule keepsI) (auto simp: wp_eqs look_set_list)
  show "keeps (\<lambda>s. look s (WELFARE_USER_SIGN a d) \<noteq> None) (expire_key (GOLD_ACCOUNT_WAIT_JOIN_TABLE c) n)"
    by (rule keepsI) (auto simp: wp_eqs expired_def)
qed (simp_all add: look_put_set look_set_list)

definition gold_at :: "redis \<Rightarrow> string \<Rightarrow> int" where
  "gold_at s ut = (case counter (hf s ut ''gold'') of None \<Rightarrow> 0 | Some n \<Rightarrow> n)"

lemma rank_main: "keeps (\<lambda>s. P (gmain s)) (rank_player G a)"
  unfolding rank_player_def by (intro pres_intros)

lemma ok_gold_guard:
  assumes "\<And>c m. c < 0 \<Longrightarrow> Q (Inl (Reply c m)) s"
    and "\<And>ag. Q (Inr (hf s (FORMAT_USER_HALL_SESSION sid) ''account'', hf s (FORMAT_USER_HALL_SESSION sid) ''uid'', ag)) s"
  shows "wp (gold_guard sid) Q (\<lambda>_ _. True) s"
  unfolding gold_guard_def getUserByAccount_def
  by (rule ok_bindM, rule ok_getInfoBySid) (use assms in \<open>auto intro!: ok_wp split: if_splits\<close>)

lemma ok_on_gold: "wp m (\<lambda>x t. Q x (s\<lparr>gmain := t\<rparr>)) (\<lambda>_ _. True) (gmain s) \<Longrightarrow> wp (on_gold m) Q (\<lambda>_ _. True) s"
  by (simp add: wp_on_gold)

lemma str_value [simp]: "Some (RStr x) = map_option RStr v \<longleftrightarrow> v = Some x" "map_option RStr v = Some (RStr x) \<longleftrightarrow> v = Some x"
  by (cases v; auto)+

definition richer :: "string \<Rightarrow> int \<Rightarrow> redis \<Rightarrow> redis" where
  "richer ut n s = hput ut ''gold'' (show_int (gold_at s ut + n)) s"

lemma add_gold_ok:
  assumes "look (gmain s) (FORMAT_ACCOUNT2USER_TABLE (fmt account)) = Some (RStr ut)"
  shows "wp (player_add_gold G account n) (\<lambda>ok t. ok \<longrightarrow> gmain t = richer ut n (gmain s) \<and> in_llong (gold_at (gmain s) ut + n)) (\<lambda>_ _. True) s"
proof -
  have r: "wp (rank_player G account) (\<lambda>ok t. gmain t = g) (\<lambda>_ _. True) v" if "gmain v = g" for v g
    by (rule wp_mono [OF wp_keeps [OF rank_main [where P = "\<lambda>x. x = g"] that]]) simp_all
  show ?thesis
    unfolding player_add_gold_def
    by (intro ok_bindM ok_on_gold ok_get ok_if ok_thenM ok_drop_reply ok_hincrby ok_retM wp_mono [OF r])
      (use assms in \<open>auto simp: richer_def gold_at_def strtoll_show_int_iff split: if_splits\<close>)
qed

definition sign_done :: "string \<Rightarrow> string \<Rightarrow> string \<Rightarrow> redis \<Rightarrow> redis \<Rightarrow> bool" where
  "sign_done a d ut s t \<longleftrightarrow> look s (WELFARE_USER_SIGN a d) = None \<and> in_llong (gold_at s ut + 2000) \<and>
     t = set_key (WELFARE_USER_SIGN a d) ''1'' (richer ut 2000 s)"

lemma sign_ok:
  assumes "look (gmain s) (FORMAT_ACCOUNT2USER_TABLE (session_account (gmain s) sid)) = Some (RStr ut)"
  shows "wp (doWelfareSign G d sid) (\<lambda>r t. \<forall>m. r = Reply 0 m \<longrightarrow> m = show_int 2000 \<and>
     sign_done (session_account (gmain s) sid) d ut (gmain s) (gmain t)) (\<lambda>_ _. True) s"
  unfolding doWelfareSign_def do_PlayerWelfareSign_def
  by (intro ok_bindM ok_on_gold ok_gold_guard) (use assms in \<open>auto simp: wp_retM session_account_def sign_done_def intro!: ok_wp ok_on_gold wp_mono [OF add_gold_ok]\<close>)

text \<open>A sign of a day that is marked changes nothing.\<close>

lemma sign_refused:
  assumes "look (gmain s) (WELFARE_USER_SIGN (session_account (gmain s) sid) d) \<noteq> None"
  shows "wp (doWelfareSign G d sid) (\<lambda>r t. (\<forall>m. r \<noteq> Reply 0 m) \<and> gmain t = gmain s) (\<lambda>_ t. gmain t = gmain s) s"
proof -
  have g: "wp (gold_guard (strip sid)) (\<lambda>r t. t = gmain s \<and> (case r of Inl (Reply c m) \<Rightarrow> c \<noteq> 0 | Inr (a, u, ag) \<Rightarrow> fmt a = session_account (gmain s) sid))
      (\<lambda>_ t. t = gmain s) (gmain s)"
    unfolding gold_guard_def getUserByAccount_def
    by (rule info_wp) (auto simp: session_account_def wp_retM intro!: run_wp split: if_splits)
  show ?thesis
    unfolding doWelfareSign_def do_PlayerWelfareSign_def wp_bindM wp_on_gold
    by (rule wp_mono [OF g]) (use assms in \<open>auto simp: wp_eqs split: sum.splits reply.splits\<close>)
qed

lemma user_table_neq_sign: "ut \<in> user_tables \<Longrightarrow> ut \<noteq> WELFARE_USER_SIGN a d"
  by (auto simp: user_tables_def user_key_def gold_keys)

text \<open>C21: a sign is worth 2000 gold and counts once a day.  When it succeeds, the gold of the player has grown by
  2000 and nothing else of the player has changed; after any requests that follow, no session of the
  account signs again for that day, and the attempt changes nothing.\<close>

theorem gold_sign_once:
  assumes "accounts_ok (gmain s)" "look (gmain s) (FORMAT_ACCOUNT2USER_TABLE (session_account (gmain s) sid)) = Some (RStr ut)"
    and "doWelfareSign G d sid s = (Inr (Reply 0 m), t)" "u = fold (gold_do G) ops t"
    and "session_account (gmain u) sid' = session_account (gmain s) sid"
  shows "gold_at (gmain t) ut = gold_at (gmain s) ut + 2000 \<and> (\<forall>f. f \<noteq> ''gold'' \<longrightarrow> hf (gmain t) ut f = hf (gmain s) ut f) \<and>
    (\<forall>m'. fst (doWelfareSign G d sid' u) \<noteq> Inr (Reply 0 m')) \<and> gmain (snd (doWelfareSign G d sid' u)) = gmain u"
proof -
  let ?k = "WELFARE_USER_SIGN (session_account (gmain s) sid) d"
  from wp_InrD [OF sign_ok [OF assms(2)] assms(3)]
  have t: "in_llong (gold_at (gmain s) ut + 2000)" "gmain t = set_key ?k ''1'' (richer ut 2000 (gmain s))" by (simp_all add: sign_done_def)
  have ut: "ut \<noteq> ?k" using assms(1,2) user_table_neq_sign unfolding accounts_ok_def by blast
  then have "gold_at (gmain t) ut = gold_at (gmain s) ut + 2000" "\<forall>f. f \<noteq> ''gold'' \<longrightarrow> hf (gmain t) ut f = hf (gmain s) ut f"
    using t by (simp_all add: richer_def gold_at_def [of "set_key a b c" for a b c] strtoll_show_int)
  moreover have "look (gmain t) ?k \<noteq> None" unfolding t(2) by (simp add: set_key_def)
  then have "look (gmain u) (WELFARE_USER_SIGN (session_account (gmain u) sid') d) \<noteq> None"
    unfolding assms(4) assms(5) [unfolded assms(4)] by (rule signed.requests.inv_run)
  from sign_refused [OF this, of G] have "(\<forall>m'. fst (doWelfareSign G d sid' u) \<noteq> Inr (Reply 0 m')) \<and> gmain (snd (doWelfareSign G d sid' u)) = gmain u"
    by (auto simp: wp_def split: prod.splits sum.splits)
  ultimately show ?thesis by blast
qed

lemma accounts_demo_gold: "accounts_ok (gmain demo_gold)"
  by (auto simp: accounts_ok_def demo_gold_def look_def user_tables_def FORMAT_USER_HALL_SESSION_def
      FORMAT_ACCOUNT2USER_TABLE_def user_key_def USER4AGENT_CARD_def GAME2REDIS_def split: if_splits)

theorem gold_sign_once_witness:
  "gold_at (gmain (snd (doWelfareSign demo_gold_env ''d'' ''s'' demo_gold))) (user_key (Some ''7'')) = 2010"
proof -
  let ?t = "snd (doWelfareSign demo_gold_env ''d'' ''s'' demo_gold)"
  have "fst (doWelfareSign demo_gold_env ''d'' ''s'' demo_gold) = Inr (Reply 0 ''2000'')" by code_simp
  then have t: "doWelfareSign demo_gold_env ''d'' ''s'' demo_gold = (Inr (Reply 0 ''2000''), ?t)" by (simp add: prod_eq_iff)
  have ut: "look (gmain demo_gold) (FORMAT_ACCOUNT2USER_TABLE (session_account (gmain demo_gold) ''s'')) = Some (RStr (user_key (Some ''7'')))" by code_simp
  have "session_account (gmain ?t) ''s'' = session_account (gmain demo_gold) ''s''" by code_simp
  moreover have "gold_at (gmain demo_gold) (user_key (Some ''7'')) = 10" by code_simp
  ultimately show ?thesis
    using gold_sign_once [OF accounts_demo_gold ut t, where u = ?t and ops = "[]" and sid' = "''s''"] by simp
qed

end
