(* ===== verification/GoldFaults.thy ===== *)
theory GoldFaults
  imports GoldLaws
begin

text \<open>
  What the missing ranking server and the missing checks of the gold rooms do: signs that are paid and not
  counted, signs afterwards that cost and count nothing, and gold that anybody may set.
\<close>

section \<open>Without a ranking server\<close>

text \<open>A live session of a player with a guild, which is the one the last login of the user set or there is no such mark;
  the player has not signed, and the private server is not configured.\<close>

definition unranked :: "redis \<Rightarrow> string \<Rightarrow> string \<Rightarrow> string \<Rightarrow> bool" where
  "unranked s sid d i \<longleftrightarrow> (\<exists>a ag. let k = FORMAT_USER_HALL_SESSION (strip sid); ut = user_key (Some i) in
     is_hash s k \<and> look s k \<noteq> None \<and> hf s k ''account'' = Some a \<and> look s (FORMAT_USER_PLATFORM_SESSION (fmt (hf s k ''uid''))) \<in> {None, Some (RStr (strip sid))} \<and>
     look s (FORMAT_ACCOUNT2USER_TABLE a) = Some (RStr ut) \<and> is_hash s ut \<and> look s ut \<noteq> None \<and> hf s ut ''parentAg'' = Some ag \<and> ag \<noteq> [] \<and>
     look s (GAME2REDIS MASTER_GAMEID) = None \<and> look s (WELFARE_USER_SIGN a d) = None \<and> counter (hf s ut ''gold'') \<noteq> None)"

lemma wp_raise_eq: "wp m (\<lambda>_ _. False) (\<lambda>e t. e = x \<and> t = u) s \<longleftrightarrow> m s = (Inl x, u)"
  by (cases "m s"; cases "fst (m s)") (auto simp: wp_def)

lemma user_key_nonempty [simp]: "user_key u \<noteq> []"
  by (simp add: user_key_def)

lemma map_of_hash: "map_of (hash_of s k) f = hf s k f"
  by (simp add: hf_def)

lemma second_user_key: "second_part (user_key (Some i)) = Inr (hd (split_on (CHR '':'') i))"
  using split_on_ne [of "CHR '':''" i] by (cases "split_on (CHR '':'') i") (simp_all add: second_part_def user_key_def)

lemma user_key_other [simp]:
  "user_key u \<noteq> FORMAT_USER_HALL_SESSION r" "user_key u \<noteq> FORMAT_USER_PLATFORM_SESSION r" "user_key u \<noteq> GAME2REDIS g"
  "user_key u \<noteq> WELFARE_USER_SIGN a d" "FORMAT_USER_HALL_SESSION r \<noteq> user_key u" "FORMAT_USER_PLATFORM_SESSION r \<noteq> user_key u"
  "GAME2REDIS g \<noteq> user_key u" "WELFARE_USER_SIGN a d \<noteq> user_key u"
  by (simp_all add: user_key_def FORMAT_USER_HALL_SESSION_def FORMAT_USER_PLATFORM_SESSION_def gold_keys)

lemma sign_fails:
  assumes "unranked (gmain s) sid d i" "ut = user_key (Some i)" "in_llong (gold_at (gmain s) ut + 2000)"
  shows "doWelfareSign G d sid s = (Inl AttributeError, s\<lparr>gmain := richer ut 2000 (gmain s)\<rparr>)"
proof -
  let ?k = "FORMAT_USER_HALL_SESSION (strip sid)"
  obtain a ag where a: "is_hash (gmain s) ?k" "look (gmain s) ?k \<noteq> None" "hf (gmain s) ?k ''account'' = Some a"
      "look (gmain s) (FORMAT_USER_PLATFORM_SESSION (fmt (hf (gmain s) ?k ''uid''))) \<in> {None, Some (RStr (strip sid))}"
    and ac: "look (gmain s) (FORMAT_ACCOUNT2USER_TABLE a) = Some (RStr ut)" "is_hash (gmain s) ut" "look (gmain s) ut \<noteq> None"
      "hf (gmain s) ut ''parentAg'' = Some ag" "ag \<noteq> []"
    and no: "look (gmain s) (GAME2REDIS MASTER_GAMEID) = None" "look (gmain s) (WELFARE_USER_SIGN a d) = None" "counter (hf (gmain s) ut ''gold'') \<noteq> None"
    using assms(1) unfolding unranked_def Let_def assms(2) by blast
  have "ut \<noteq> FORMAT_ACCOUNT2USER_TABLE a" using ac(1,2) by (auto simp: is_hash_def)
  note ne = this this [symmetric]
  have neq: "ut \<noteq> GAME2REDIS MASTER_GAMEID" "GAME2REDIS MASTER_GAMEID \<noteq> ut" by (simp_all add: assms(2))
  obtain g where g: "counter (hf (gmain s) ut ''gold'') = Some g" using no(3) by auto
  let ?t = "richer ut 2000 (gmain s)"
  have t: "?t = hput ut ''gold'' (show_int (g + 2000)) (gmain s)" by (simp add: richer_def gold_at_def g)
  have fo: "look ?t (FORMAT_ACCOUNT2USER_TABLE a) = Some (RStr ut)" "look ?t (GAME2REDIS MASTER_GAMEID) = None" "is_hash ?t ut"
    "hf ?t ut ''parentAg'' = Some ag" "hf ?t ut ''gold'' = Some (show_int (g + 2000))"
    unfolding t using ac no ne neq by (simp_all add: look_hput_other)
  have guard: "wp (gold_guard (strip sid)) (\<lambda>r t. t = gmain s \<and> r = Inr (Some a, hf (gmain s) ?k ''uid'', ag)) (\<lambda>_ _. False) (gmain s)"
    using a ac by (auto simp: gold_guard_def getInfoBySid_def getUserByAccount_def wp_eqs)
  have rank: "wp (rank_player G (Some a)) (\<lambda>_ _. False) (\<lambda>e v. e = AttributeError \<and> v = s\<lparr>gmain := ?t\<rparr>) (s\<lparr>gmain := ?t\<rparr>)"
    using fo by (simp add: rank_player_def getPrivateRedisInst_def get_user_info_def field_of_def wp_eqs assms(2) second_user_key update_conv' map_of_hash)
  have add: "wp (player_add_gold G (Some a) 2000) (\<lambda>_ _. False) (\<lambda>e v. e = AttributeError \<and> v = s\<lparr>gmain := ?t\<rparr>) s"
    using rank ac g assms(3) user_key_nonempty [of "Some i"] strtoll_show_int [of 2000]
    by (simp add: player_add_gold_def wp_eqs t gold_at_def in_llong_def llong_min_def llong_max_def flip: assms(2))
  have "wp (doWelfareSign G d sid) (\<lambda>_ _. False) (\<lambda>e v. e = AttributeError \<and> v = s\<lparr>gmain := ?t\<rparr>) s"
    unfolding doWelfareSign_def do_PlayerWelfareSign_def wp_bindM wp_on_gold
    by (rule wp_mono [OF guard]) (use no in \<open>auto simp: wp_eqs intro!: wp_mono [OF add]\<close>)
  then show ?thesis by (simp add: wp_raise_eq)
qed

lemma unranked_richer:
  assumes "unranked s sid d i" "in_llong (gold_at s (user_key (Some i)) + 2000)"
  shows "unranked (richer (user_key (Some i)) 2000 s) sid d i"
    "gold_at (richer (user_key (Some i)) 2000 s) (user_key (Some i)) = gold_at s (user_key (Some i)) + 2000"
proof -
  let ?ut = "user_key (Some i)" let ?t = "richer ?ut 2000 s"
  have k: "hf ?t j f = (if j = ?ut \<and> f = ''gold'' then Some (show_int (gold_at s ?ut + 2000)) else hf s j f)" for j f
    by (simp add: richer_def)
  have l: "look ?t j = look s j" if "j \<noteq> ?ut" for j using that by (simp add: richer_def look_hput_other)
  have h: "is_hash ?t ?ut" "look ?t ?ut \<noteq> None" by (simp_all add: richer_def) (simp add: hput_def)
  have ih: "is_hash ?t j = is_hash s j" if "j \<noteq> ?ut" for j using that by (simp add: richer_def)
  show g: "gold_at ?t ?ut = gold_at s ?ut + 2000" using assms(2) by (simp add: gold_at_def [of ?t] k strtoll_show_int)
  obtain a ag where w: "look s (FORMAT_ACCOUNT2USER_TABLE a) = Some (RStr ?ut)" "is_hash s ?ut"
      "is_hash s (FORMAT_USER_HALL_SESSION (strip sid))" "look s (FORMAT_USER_HALL_SESSION (strip sid)) \<noteq> None"
      "hf s (FORMAT_USER_HALL_SESSION (strip sid)) ''account'' = Some a"
      "look s (FORMAT_USER_PLATFORM_SESSION (fmt (hf s (FORMAT_USER_HALL_SESSION (strip sid)) ''uid''))) \<in> {None, Some (RStr (strip sid))}"
      "hf s ?ut ''parentAg'' = Some ag" "ag \<noteq> []" "look s (GAME2REDIS MASTER_GAMEID) = None" "look s (WELFARE_USER_SIGN a d) = None"
    using assms(1) unfolding unranked_def Let_def by blast
  have "FORMAT_ACCOUNT2USER_TABLE a \<noteq> ?ut" using w(1,2) by (auto simp: is_hash_def)
  then show "unranked ?t sid d i"
    using w h assms(2) unfolding unranked_def Let_def by (simp add: k l ih strtoll_show_int)
qed

text \<open>C22: while no ranking server is configured every sign of a logged-in player with a guild who has not signed raises an
  error after the gold was paid and before the mark is set, so the same session collects 2000 gold with every
  request of the day.\<close>

theorem sign_without_ranking:
  assumes "unranked (gmain s) sid d i" "in_llong (gold_at (gmain s) (user_key (Some i)) + 2000 * (int n + 1))"
    "t = (gold_do G (Gold_sign d sid) ^^ n) s"
  shows "gold_at (gmain t) (user_key (Some i)) = gold_at (gmain s) (user_key (Some i)) + 2000 * int n \<and>
    fst (doWelfareSign G d sid t) = Inl AttributeError"
proof -
  define f where "f = gold_do G (Gold_sign d sid)"
  have f: "f v = snd (doWelfareSign G d sid v)" for v by (simp add: f_def)
  have in0: "in_llong (gold_at (gmain s) (user_key (Some i)))"
    using counter_in_llong by (auto simp: gold_at_def in_llong_def llong_min_def llong_max_def split: option.split)
  have step: "in_llong (gold_at (gmain s) (user_key (Some i)) + 2000 * (int k + 1))" if "k \<le> n" for k
    using in0 assms(2) that by (simp add: in_llong_def)
  have "k \<le> n \<Longrightarrow> unranked (gmain ((f ^^ k) s)) sid d i \<and>
      gold_at (gmain ((f ^^ k) s)) (user_key (Some i)) = gold_at (gmain s) (user_key (Some i)) + 2000 * int k" for k
  proof (induction k)
    case (Suc k)
    let ?u = "(f ^^ k) s"
    have u: "unranked (gmain ?u) sid d i" "gold_at (gmain ?u) (user_key (Some i)) = gold_at (gmain s) (user_key (Some i)) + 2000 * int k"
      using Suc.IH Suc_leD [OF Suc.prems] by blast+
    have l: "in_llong (gold_at (gmain ?u) (user_key (Some i)) + 2000)" using step [of k] Suc.prems by (simp add: u(2) algebra_simps)
    from sign_fails [OF u(1) refl l, of G] unranked_richer [OF u(1) l] show ?case by (simp add: u(2) f [of "(f ^^ k) s"])
  qed (simp add: assms(1))
  then have u: "unranked (gmain t) sid d i" "gold_at (gmain t) (user_key (Some i)) = gold_at (gmain s) (user_key (Some i)) + 2000 * int n"
    by (simp_all add: assms(3) flip: f_def)
  have "in_llong (gold_at (gmain t) (user_key (Some i)) + 2000)" using step [of n] by (simp add: u(2) algebra_simps)
  from sign_fails [OF u(1) refl this, of G] u(2) show ?thesis by simp
qed

definition demo_unranked :: gold_db where
  "demo_unranked = demo_gold\<lparr>gmain := set_key (FORMAT_USER_PLATFORM_SESSION ''7'') ''s'' (unput (GAME2REDIS MASTER_GAMEID) (gmain demo_gold))\<rparr>"

theorem sign_without_ranking_witness:
  "gold_at (gmain ((gold_do demo_gold_env (Gold_sign ''d'' ''s'') ^^ 3) demo_unranked)) (user_key (Some ''7'')) = 6010"
proof -
  have "unranked (gmain demo_unranked) ''s'' ''d'' ''7''"
    unfolding unranked_def Let_def by (rule exI [of _ "''ann''"], rule exI [of _ "''9''"]) code_simp
  moreover have "gold_at (gmain demo_unranked) (user_key (Some ''7'')) = 10" by code_simp
  ultimately show ?thesis
    using sign_without_ranking [where s = demo_unranked and sid = "''s''" and d = "''d''" and i = "''7''" and n = 3 and G = demo_gold_env, OF _ _ refl]
    by (simp add: in_llong_def llong_min_def llong_max_def)
qed

section \<open>Signs of past days\<close>

definition patch_key :: "gold_env \<Rightarrow> string \<Rightarrow> string \<Rightarrow> redis \<Rightarrow> string" where
  "patch_key G sid date s = WELFARE_USER_PATCH_SIGN (session_account s sid) (case month_of G (strip date) of Inl e \<Rightarrow> [] | Inr n \<Rightarrow> show_int n)"

lemma patch_ok:
  "wp (doWelfarePatchSign G sid date) (\<lambda>r t. \<forall>m. r = Reply 0 m \<longrightarrow>
     (let k = patch_key G sid date (gmain s) in
      strip date \<notin> set (members (gmain s) k) \<and> length (members (gmain s) k) \<le> 5 \<and> (\<exists>n. month_of G (strip date) = Inr n) \<and>
      t = s\<lparr>gmain := put_set k (List.insert (strip date) (members (gmain s) k)) (gmain s)\<rparr>)) (\<lambda>_ _. True) s"
proof -
  have d: "wp (doPatchSign G c d) (\<lambda>r t. \<forall>m. r = Reply 0 m \<longrightarrow> (\<exists>n. month_of G d = Inr n \<and>
      (let k = WELFARE_USER_PATCH_SIGN (fmt c) (show_int n) in d \<notin> set (members v k) \<and> length (members v k) \<le> 5 \<and>
       t = put_set k (List.insert d (members v k)) v))) (\<lambda>_ _. True) v" for c d v
    unfolding doPatchSign_def get_user_info_def Let_def
    by (intro ok_wp) (auto simp: PATCH_SIGN_MAX_def wp_eqs)
  show ?thesis
    unfolding doWelfarePatchSign_def Let_def
    by (intro ok_on_gold ok_bindM ok_gold_guard)
      (auto simp: wp_retM patch_key_def session_account_def Let_def intro!: ok_wp wp_mono [OF d])
qed

lemma patch_key_zero: "WELFARE_USER_PATCH_SIGN a (''0'' @ m) \<noteq> WELFARE_USER_PATCH_SIGN a m"
  by (simp add: WELFARE_USER_PATCH_SIGN_def)

lemma day_signed_same:
  assumes "look t (WELFARE_USER_SIGN (fmt a) date) = look s (WELFARE_USER_SIGN (fmt a) date)"
    "look t (WELFARE_USER_PATCH_SIGN (fmt a) month) = look s (WELFARE_USER_PATCH_SIGN (fmt a) month)"
  shows "fst (day_signed a (date, day, month) t) = fst (day_signed a (date, day, month) s)"
  using assms by (simp add: day_signed_def bindM_def exists_key_def retM_def sismember_def is_set_def members_def split: option.split)

text \<open>C40: signing a past day succeeds at most six times a month, only adds the day to the set of the month and takes no diamonds;
  the welfare page of a month below October looks into the key of the month with a leading zero and so never shows it.\<close>

theorem patch_sign_effect:
  assumes "doWelfarePatchSign G sid date s = (Inr (Reply 0 m), t)" "month_of G (strip date) = Inr n" "k = patch_key G sid date (gmain s)"
  shows "members (gmain t) k = List.insert (strip date) (members (gmain s) k) \<and> length (members (gmain t) k) \<le> 6 \<and>
    (\<forall>j. j \<noteq> k \<longrightarrow> look (gmain t) j = look (gmain s) j) \<and> gboard t = gboard s \<and>
    fst (day_signed (Some (session_account (gmain s) sid)) (strip date, day, ''0'' @ show_int n) (gmain t)) =
    fst (day_signed (Some (session_account (gmain s) sid)) (strip date, day, ''0'' @ show_int n) (gmain s))"
proof -
  have k: "k = WELFARE_USER_PATCH_SIGN (session_account (gmain s) sid) (show_int n)" using assms(2,3) by (simp add: patch_key_def)
  from wp_InrD [OF patch_ok assms(1)]
  have t: "t = s\<lparr>gmain := put_set k (List.insert (strip date) (members (gmain s) k)) (gmain s)\<rparr>"
    and l: "length (members (gmain s) k) \<le> 5" "strip date \<notin> set (members (gmain s) k)" by (simp_all add: Let_def flip: assms(3))
  have "\<forall>j. j \<noteq> k \<longrightarrow> look (gmain t) j = look (gmain s) j" by (simp add: t look_put_set)
  moreover from this have "fst (day_signed (Some (session_account (gmain s) sid)) (strip date, day, ''0'' @ show_int n) (gmain t)) =
    fst (day_signed (Some (session_account (gmain s) sid)) (strip date, day, ''0'' @ show_int n) (gmain s))"
    by (intro day_signed_same) (simp_all add: k patch_key_zero [simplified])
  ultimately show ?thesis using l by (simp add: t List.insert_def)
qed

theorem patch_sign_effect_witness:
  "members (gmain (snd (doWelfarePatchSign demo_gold_env ''s'' ''2018-05-03'' demo_gold))) (WELFARE_USER_PATCH_SIGN ''ann'' ''5'') = [''2018-05-03'']"
proof -
  let ?t = "snd (doWelfarePatchSign demo_gold_env ''s'' ''2018-05-03'' demo_gold)"
  have "fst (doWelfarePatchSign demo_gold_env ''s'' ''2018-05-03'' demo_gold) = Inr (Reply 0 ''signed'')" by code_simp
  then have t: "doWelfarePatchSign demo_gold_env ''s'' ''2018-05-03'' demo_gold = (Inr (Reply 0 ''signed''), ?t)" by (simp add: prod_eq_iff)
  have n: "month_of demo_gold_env (strip ''2018-05-03'') = Inr 5" by code_simp
  have k: "WELFARE_USER_PATCH_SIGN ''ann'' ''5'' = patch_key demo_gold_env ''s'' ''2018-05-03'' (gmain demo_gold)" by code_simp
  have "List.insert (strip ''2018-05-03'') (members (gmain demo_gold) (WELFARE_USER_PATCH_SIGN ''ann'' ''5'')) = [''2018-05-03'']" by code_simp
  then show ?thesis using patch_sign_effect [OF t n k] by simp
qed

section \<open>Gold of one's own choice\<close>

lemma set_gold_ok:
  assumes "look (gmain s) (FORMAT_ACCOUNT2USER_TABLE (fmt account)) = Some (RStr ut)"
  shows "wp (player_set_gold G account n) (\<lambda>ok t. ok \<longrightarrow> gmain t = hput ut ''gold'' n (gmain s)) (\<lambda>_ _. True) s"
proof -
  have r: "wp (rank_player G account) (\<lambda>ok t. gmain t = g) (\<lambda>_ _. True) v" if "gmain v = g" for v g
    by (rule wp_mono [OF wp_keeps [OF rank_main [where P = "\<lambda>x. x = g"] that]]) simp_all
  show ?thesis
    unfolding player_set_gold_def
    by (intro ok_bindM ok_on_gold ok_get ok_if ok_thenM ok_hset ok_retM wp_mono [OF r]) (use assms in auto)
qed

text \<open>The request that sets gold asks for no right: when it succeeds, the gold of the account of the session is the text of the
  form, any text over digits, points and signs, and nothing else of the database has changed.\<close>

theorem gm_sets_gold:
  assumes "look (gmain s) (FORMAT_ACCOUNT2USER_TABLE (session_account (gmain s) sid)) = Some (RStr ut)"
    "checkWelfareIsGM G sid num s = (Inr (Reply 0 m), t)"
  shows "gmain t = hput ut ''gold'' (strip num) (gmain s) \<and> strip num \<noteq> [] \<and> set (strip num) \<subseteq> set ''0123456789.+-''"
proof -
  have "wp (checkWelfareIsGM G sid num) (\<lambda>r t. \<forall>m. r = Reply 0 m \<longrightarrow> gmain t = hput ut ''gold'' (strip num) (gmain s) \<and>
      strip num \<noteq> [] \<and> set (strip num) \<subseteq> set ''0123456789.+-'') (\<lambda>_ _. True) s"
    unfolding checkWelfareIsGM_def Let_def
    by (intro ok_if ok_bindM ok_on_gold ok_getInfoBySid)
      (use assms(1) in \<open>auto simp: wp_retM session_account_def intro!: ok_bindM ok_wp wp_mono [OF set_gold_ok]\<close>)
  from wp_InrD [OF this assms(2)] show ?thesis by blast
qed

theorem gm_sets_gold_witness:
  "hf (gmain (snd (checkWelfareIsGM demo_gold_env ''s'' ''999999999'' demo_gold))) (user_key (Some ''7'')) ''gold'' = Some ''999999999''"
proof -
  let ?t = "snd (checkWelfareIsGM demo_gold_env ''s'' ''999999999'' demo_gold)"
  have "fst (checkWelfareIsGM demo_gold_env ''s'' ''999999999'' demo_gold) = Inr (Reply 0 ''set'')" by code_simp
  then have t: "checkWelfareIsGM demo_gold_env ''s'' ''999999999'' demo_gold = (Inr (Reply 0 ''set''), ?t)" by (simp add: prod_eq_iff)
  have ut: "look (gmain demo_gold) (FORMAT_ACCOUNT2USER_TABLE (session_account (gmain demo_gold) ''s'')) = Some (RStr (user_key (Some ''7'')))" by code_simp
  have "strip ''999999999'' = ''999999999''" by code_simp
  then show ?thesis using gm_sets_gold [OF ut t] by simp
qed

end
