(* ===== verification/GoldLimits.thy ===== *)
theory GoldLimits
  imports GoldFaults Histories
begin

text \<open>
  How often the gold rooms pay relief and count signs of past days: every payment leaves a mark that no request
  takes away, and the marks are bounded.
\<close>

section \<open>Marks stay\<close>

lemma mark_keys_neq [simp]:
  "WELFARE_USER_INSURANCE a d \<noteq> GOLD_ROOM_ACCOUNT_KEY b" "WELFARE_USER_PATCH_SIGN a d \<noteq> GOLD_ROOM_ACCOUNT_KEY b"
  by (simp_all add: gold_keys)

lemma marks_longer:
  "is_hash s k \<Longrightarrow> length (list_of s j) \<le> length (list_of (hput k f v s) j)" "is_hash s k \<Longrightarrow> length (list_of s j) \<le> length (list_of (hputs k fs s) j)"
  "is_hash s k \<Longrightarrow> length (members s j) \<le> length (members (hput k f v s) j)" "is_hash s k \<Longrightarrow> length (members s j) \<le> length (members (hputs k fs s) j)"
proof -
  have h: "look (hput k f v s) j = look s j \<or> list_of s j = [] \<and> members s j = []" if "is_hash s k" for f v s
    using that by (cases "j = k") (auto simp: look_hput_other is_hash_def list_of_def members_def split: option.splits rval.splits)
  from this [of s f v] show "is_hash s k \<Longrightarrow> length (list_of s j) \<le> length (list_of (hput k f v s) j)" "is_hash s k \<Longrightarrow> length (members s j) \<le> length (members (hput k f v s) j)"
    by (auto simp: list_of_def members_def)
  have "look (hputs k fs s) j = look s j \<or> list_of s j = [] \<and> members s j = []" if "is_hash s k"
    using that by (cases "j = k") (auto simp: look_hputs_other is_hash_def list_of_def members_def split: option.splits rval.splits)
  then show "is_hash s k \<Longrightarrow> length (list_of s j) \<le> length (list_of (hputs k fs s) j)" "is_hash s k \<Longrightarrow> length (members s j) \<le> length (members (hputs k fs s) j)"
    by (auto simp: list_of_def members_def)
qed

lemma keeps_length:
  assumes "\<And>s. n \<le> length (l s) \<Longrightarrow> wp m (\<lambda>_ t. length (l s) \<le> length (l t)) (\<lambda>_ t. length (l s) \<le> length (l t)) s"
  shows "keeps (\<lambda>s. n \<le> length (l s)) m"
  by (rule keepsI, rule wp_mono [OF assms]) auto

interpretation relief_frame: gold_frame "\<lambda>s. n \<le> length (list_of s (WELFARE_USER_INSURANCE a d))" for n a d
proof unfold_locales
  fix k f v fs amt c e g ad l x r p
  let ?P = "\<lambda>s. n \<le> length (list_of s (WELFARE_USER_INSURANCE a d))"
  show "keeps ?P (hset k f v)" "keeps ?P (hmset k fs)" "keeps ?P (hincrby k f amt)"
    by (rule keeps_length; auto simp: wp_eqs marks_longer split: option.split)+
  show "keeps ?P (set_str (WELFARE_USER_SIGN c e) v)" "keeps ?P (rpush (FORMAT_SERVICE_PROTOCOL_TABLE g ad) l)"
    "keeps ?P (delete_key (GOLD_ROOM_ACCOUNT_KEY c))" "keeps ?P (srem (GOLD_CAN_JOIN_ROOM_SET g p) r)"
    "keeps ?P (expire_key (GOLD_ACCOUNT_WAIT_JOIN_TABLE c) x)"
    by (rule keeps_length; auto simp: wp_eqs expired_def gold_keys)+
qed (auto split: if_splits)

interpretation patch_frame: gold_frame "\<lambda>s. n \<le> length (members s (WELFARE_USER_PATCH_SIGN a m))" for n a m
proof unfold_locales
  fix k f v fs amt c e g ad l x r p
  let ?P = "\<lambda>s. n \<le> length (members s (WELFARE_USER_PATCH_SIGN a m))"
  show "keeps ?P (hset k f v)" "keeps ?P (hmset k fs)" "keeps ?P (hincrby k f amt)"
    by (rule keeps_length; auto simp: wp_eqs marks_longer split: option.split)+
  show "keeps ?P (set_str (WELFARE_USER_SIGN c e) v)" "keeps ?P (rpush (FORMAT_SERVICE_PROTOCOL_TABLE g ad) l)"
    "keeps ?P (delete_key (GOLD_ROOM_ACCOUNT_KEY c))" "keeps ?P (srem (GOLD_CAN_JOIN_ROOM_SET g p) r)"
    "keeps ?P (expire_key (GOLD_ACCOUNT_WAIT_JOIN_TABLE c) x)"
    by (rule keeps_length; auto simp: wp_eqs expired_def gold_keys)+
qed (auto simp: List.insert_def split: if_splits)

section \<open>Relief\<close>

text \<open>The session of a request for relief of day \<open>d\<close>, and the answer to it.\<close>

fun relief_of :: "string \<Rightarrow> gold_op \<Rightarrow> string option" where
  "relief_of d (Gold_insurance today sid) = (if today = d then Some sid else None)"
| "relief_of d (Gold_welfare today sid i) = (if today = d \<and> strip i = ''2'' then Some sid else None)"
| "relief_of d _ = None"

fun relief_answer :: "gold_env \<Rightarrow> gold_op \<Rightarrow> gold_db \<Rightarrow> exn + reply" where
  "relief_answer G (Gold_insurance today sid) s = fst (doWelfareInsurancen G today sid s)"
| "relief_answer G (Gold_welfare today sid i) s = fst (do_get_welfare G today sid i s)"
| "relief_answer G _ s = Inr (Reply 1 ''no relief'')"

text \<open>A request for relief by a session of the account that is answered with success, or that changes the gold of
  anybody however it ends.\<close>

definition relief_given :: "gold_env \<Rightarrow> string \<Rightarrow> string \<Rightarrow> gold_op \<Rightarrow> gold_db \<Rightarrow> bool" where
  "relief_given G a d op s \<longleftrightarrow> (\<exists>sid. relief_of d op = Some sid \<and> session_account (gmain s) sid = a \<and>
     ((\<exists>m. relief_answer G op s = Inr (Reply 0 m)) \<or> (\<exists>k. hf (gmain (gold_do G op s)) k ''gold'' \<noteq> hf (gmain s) k ''gold'')))"

definition one_more :: "string \<Rightarrow> string \<Rightarrow> gold_db \<Rightarrow> gold_db \<Rightarrow> bool" where
  "one_more a d s t \<longleftrightarrow> Suc (length (list_of (gmain s) (WELFARE_USER_INSURANCE a d))) \<le> length (list_of (gmain t) (WELFARE_USER_INSURANCE a d))"

lemma relief_marked:
  "wp (doWelfareById G d uid account ''2'') (\<lambda>r t. one_more (fmt account) d s t \<or> t = s \<and> (\<forall>m. r \<noteq> Reply 0 m))
     (\<lambda>_ t. one_more (fmt account) d s t \<or> t = s) s"
proof -
  let ?K = "WELFARE_USER_INSURANCE (fmt account) d"
  have pay: "wp (player_add_gold G account n) (\<lambda>_. one_more (fmt account) d s) (\<lambda>_. one_more (fmt account) d s)
      (s\<lparr>gmain := set_list ?K (v # list_of (gmain s) ?K) (gmain s)\<rparr>)" for n v
    unfolding one_more_def by (rule wp_keeps [OF relief_frame.add_gold]) simp
  show ?thesis
    unfolding doWelfareById_def Let_def
    by (auto simp: wp_eqs intro!: wp_mono [OF pay] split: sum.split)
qed

lemma outcome:
  "wp m (\<lambda>r t. A t \<or> t = s \<and> (\<forall>m. r \<noteq> Reply 0 m)) (\<lambda>_ t. A t \<or> t = s) s \<Longrightarrow>
    A (snd (m s)) \<or> snd (m s) = s \<and> (\<forall>x. fst (m s) \<noteq> Inr (Reply 0 x))"
  by (auto simp: wp_def split: prod.splits sum.splits)

lemma relief_request_marked:
  assumes "relief_of d op = Some sid"
  shows "one_more (session_account (gmain s) sid) d s (gold_do G op s) \<or>
    gold_do G op s = s \<and> (\<forall>m. relief_answer G op s \<noteq> Inr (Reply 0 m))"
proof -
  let ?Q = "\<lambda>r t. one_more (session_account (gmain s) sid) d s t \<or> t = s \<and> (\<forall>m. r \<noteq> Reply 0 m)"
  let ?E = "\<lambda>_ t. one_more (session_account (gmain s) sid) d s t \<or> t = s"
  let ?a = "hf (gmain s) (FORMAT_USER_HALL_SESSION (strip sid)) ''account''"
  have body: "wp (doWelfareById G d uid ?a ''2'') ?Q ?E s" for uid
    using relief_marked [of G d uid ?a s] by (simp add: session_account_def)
  have insurance: "wp (doWelfareInsurancen G d sid) ?Q ?E s"
    unfolding doWelfareInsurancen_def wp_bindM wp_on_gold
    by (auto simp: getInfoBySid_def wp_eqs intro: body split: option.split rval.split)
  have "wp (gold_guard (strip sid)) (\<lambda>r t. t = gmain s \<and> (case r of Inl (Reply c m) \<Rightarrow> c \<noteq> 0 | Inr (x, u, ag) \<Rightarrow> x = ?a))
      (\<lambda>_ t. t = gmain s) (gmain s)"
    unfolding gold_guard_def getUserByAccount_def
    by (rule info_wp) (auto simp: wp_retM intro!: run_wp split: if_splits)
  then have welfare: "wp (do_get_welfare G d sid i) ?Q ?E s" if "strip i = ''2''" for i
    unfolding do_get_welfare_def wp_bindM wp_on_gold that
    by (rule wp_mono) (auto simp: wp_retM intro: body split: sum.splits reply.splits)
  show ?thesis
    using assms outcome [OF insurance] outcome [OF welfare] by (cases op) (simp_all split: if_splits)
qed

interpretation reliefs: counting "gold_do G" "\<lambda>s. gold_limits (gmain s)" "relief_given G a d" "\<lambda>_. True"
    "\<lambda>s. length (list_of (gmain s) (WELFARE_USER_INSURANCE a d))" for G a d
proof unfold_locales
  fix s :: gold_db and op
  have "length (list_of (gmain s) (WELFARE_USER_INSURANCE a d)) \<le> length (list_of (gmain (gold_do G op s)) (WELFARE_USER_INSURANCE a d))"
    by (rule relief_frame.request) simp
  moreover have "one_more a d s (gold_do G op s)" if "relief_given G a d op s"
    using that relief_request_marked [of d op _ s G] unfolding relief_given_def by metis
  ultimately show "(if relief_given G a d op s then 1 else 0) + length (list_of (gmain s) (WELFARE_USER_INSURANCE a d))
      \<le> length (list_of (gmain (gold_do G op s)) (WELFARE_USER_INSURANCE a d))"
    by (simp add: one_more_def)
qed

section \<open>Signs of past days\<close>

definition patch_given :: "gold_env \<Rightarrow> string \<Rightarrow> int \<Rightarrow> gold_op \<Rightarrow> gold_db \<Rightarrow> bool" where
  "patch_given G a n op s \<longleftrightarrow> (\<exists>sid date m. op = Gold_patch sid date \<and> session_account (gmain s) sid = a \<and>
     month_of G (strip date) = Inr n \<and> fst (doWelfarePatchSign G sid date s) = Inr (Reply 0 m))"

lemma patch_marked:
  assumes "patch_given G a n op s"
  shows "Suc (length (members (gmain s) (WELFARE_USER_PATCH_SIGN a (show_int n)))) \<le>
    length (members (gmain (gold_do G op s)) (WELFARE_USER_PATCH_SIGN a (show_int n)))"
proof -
  obtain sid date m where op: "op = Gold_patch sid date" "session_account (gmain s) sid = a" "month_of G (strip date) = Inr n"
      "doWelfarePatchSign G sid date s = (Inr (Reply 0 m), gold_do G op s)"
    using assms by (auto simp: patch_given_def prod_eq_iff)
  have "patch_key G sid date (gmain s) = WELFARE_USER_PATCH_SIGN a (show_int n)" using op by (simp add: patch_key_def)
  with wp_InrD [OF patch_ok op(4)] show ?thesis by (auto simp: Let_def List.insert_def)
qed

interpretation patches: counting "gold_do G" "\<lambda>s. gold_limits (gmain s)" "patch_given G a n" "\<lambda>_. True"
    "\<lambda>s. length (members (gmain s) (WELFARE_USER_PATCH_SIGN a (show_int n)))" for G a n
proof unfold_locales
  fix s :: gold_db and op
  have "length (members (gmain s) (WELFARE_USER_PATCH_SIGN a (show_int n))) \<le> length (members (gmain (gold_do G op s)) (WELFARE_USER_PATCH_SIGN a (show_int n)))"
    by (rule patch_frame.request) simp
  then show "(if patch_given G a n op s then 1 else 0) + length (members (gmain s) (WELFARE_USER_PATCH_SIGN a (show_int n)))
      \<le> length (members (gmain (gold_do G op s)) (WELFARE_USER_PATCH_SIGN a (show_int n)))"
    using patch_marked by simp
qed

text \<open>C20: whatever requests arrive, on whatever days and also when they fail half-way, the sessions of an account are
  paid relief of a day at most twice, counting the times already noted: no more requests for relief succeed or change
  the gold of anybody; and at most six signs of past days of a month succeed.\<close>

theorem gold_limited:
  assumes "gold_limits (gmain s)"
  shows "occurs (relief_given G a d) (gold_do G) ops s + length (list_of (gmain s) (WELFARE_USER_INSURANCE a d)) \<le> 2 \<and>
    occurs (patch_given G a n) (gold_do G) ops s + length (members (gmain s) (WELFARE_USER_PATCH_SIGN a (show_int n))) \<le> 6"
proof
  have l: "list_all (\<lambda>_. True) ops" by (simp add: list_all_iff)
  show "occurs (relief_given G a d) (gold_do G) ops s + length (list_of (gmain s) (WELFARE_USER_INSURANCE a d)) \<le> 2"
    by (rule reliefs.occurs_bounded [OF assms l]) (simp add: gold_limits_def)
  show "occurs (patch_given G a n) (gold_do G) ops s + length (members (gmain s) (WELFARE_USER_PATCH_SIGN a (show_int n))) \<le> 6"
    by (rule patches.occurs_bounded [OF assms l]) (simp add: gold_limits_def)
qed

theorem gold_limited_witness:
  "occurs (relief_given demo_gold_env ''ann'' ''d'') (gold_do demo_gold_env)
     [Gold_insurance ''d'' ''s'', Gold_insurance ''d'' ''s'', Gold_welfare ''d'' ''s'' ''2''] demo_gold \<le> 2"
  using gold_limited [OF gold_limits_demo, where n = 5 and G = demo_gold_env and a = "''ann''" and d = "''d''" and
      ops = "[Gold_insurance ''d'' ''s'', Gold_insurance ''d'' ''s'', Gold_welfare ''d'' ''s'' ''2'']"]
  by (simp del: occurs.simps)

end
