(* ===== verification/FishLogin.thy ===== *)
theory FishLogin
  imports FishSpring
begin

text \<open>
  The way into the fishing lobby: registering an account, logging in with a password or through WeChat, and
  the session that results (fish/fish.py, the registration functions of model/hallModel.py and
  wechat/wechatData.py, the session object of bottle_session.py).  Digests, clocks, addresses, the random
  characters of a name and what WeChat answers are arguments.
\<close>

section \<open>Keys and numbers\<close>

definition FORMAT_LOGIN_POOL_SET :: string where "FORMAT_LOGIN_POOL_SET = ''login:pools:set''"
definition AGENT_ID_TABLE :: string where "AGENT_ID_TABLE = ''agents:ids:set''"
definition AGENT_TABLE :: "string \<Rightarrow> string" where "AGENT_TABLE i = ''agents:id:'' @ i"
definition ONLINE_ACCOUNTS_TABLE4FISH :: string where "ONLINE_ACCOUNTS_TABLE4FISH = ''online4Fish:accounts''"
definition FORMAT_CUR_USER_GAME_ONLINE :: "string \<Rightarrow> string" where "FORMAT_CUR_USER_GAME_ONLINE a = ''user:'' @ a @ '':online''"
definition WEIXIN2ACCOUNT :: "string \<Rightarrow> string" where "WEIXIN2ACCOUNT u = ''unionid2account:weixin:'' @ u @ '':key''"
definition ACCOUNT4WEIXIN_SET4FISH :: string where "ACCOUNT4WEIXIN_SET4FISH = ''account4weixin4fish:set''"
definition FORMAT_REG_DATE_TABLE4FISH :: "string \<Rightarrow> string" where "FORMAT_REG_DATE_TABLE4FISH d = ''reg4fish:date:account:'' @ d"
definition UNIONID2GROUP :: "string \<Rightarrow> string" where "UNIONID2GROUP u = ''unionId2Group:unionId:'' @ u"
definition FORMAT_ADMIN_ACCOUNT_MEMBER_TABLE :: "string \<Rightarrow> string" where
  "FORMAT_ADMIN_ACCOUNT_MEMBER_TABLE i = ''agent:'' @ i @ '':member:children''"
definition JOIN_GROUP_RESULT :: "string \<Rightarrow> string" where "JOIN_GROUP_RESULT i = ''joinGroupResult:'' @ i @ '':key''"
definition ACCOUNT2WAIT_JOIN_PARTY_TABLE :: "string \<Rightarrow> string" where
  "ACCOUNT2WAIT_JOIN_PARTY_TABLE a = ''testAccount2waitJoinPartyTable:'' @ a @ '':str''"
definition FORMAT_USER_COUNT_TABLE :: string where "FORMAT_USER_COUNT_TABLE = ''users:count''"
definition FORMAT_USER_COIN_TABLE :: string where "FORMAT_USER_COIN_TABLE = ''users:coin:zset''"
definition FORMAT_USER_COINDELTA_TABLE :: string where "FORMAT_USER_COINDELTA_TABLE = ''users:coinDelta:zset''"

definition registered_set :: string where "registered_set = ''register:account:set''"
definition kick_key :: "string \<Rightarrow> string" where "kick_key sid = ''kick:session:'' @ sid"
definition roles_key :: "string \<Rightarrow> string" where "roles_key uid = ''user:'' @ uid @ '':roles:set''"

definition GIVE_COIN_FIRST_LOGIN :: int where "GIVE_COIN_FIRST_LOGIN = 1500"
definition GIVE_LOCK_COUNT_DAY_LOGIN :: int where "GIVE_LOCK_COUNT_DAY_LOGIN = 30"
definition GIVE_LOCK_COUNT_DAY_LOGIN_MAX :: int where "GIVE_LOCK_COUNT_DAY_LOGIN_MAX = 99"

section \<open>Sorted sets\<close>

text \<open>The commands \<open>ZADD\<close> and \<open>ZSCORE\<close>; a score is stored as the floating point number next to it.\<close>

definition is_zset :: "redis \<Rightarrow> string \<Rightarrow> bool" where
  "is_zset s k = (case look s k of None \<Rightarrow> True | Some (RZset l) \<Rightarrow> True | Some _ \<Rightarrow> False)"

definition zset_of :: "redis \<Rightarrow> string \<Rightarrow> (string \<times> int) list" where
  "zset_of s k = (case look s k of Some (RZset l) \<Rightarrow> l | _ \<Rightarrow> [])"

definition zadd_to :: "(int \<Rightarrow> int) \<Rightarrow> string \<Rightarrow> string \<Rightarrow> int \<Rightarrow> unit rh" where
  "zadd_to dbl k m v = (\<lambda>s. if is_zset s k then (Inr (), put k (RZset (AList.update m (dbl v) (zset_of s k))) s)
     else (Inl ResponseError, s))"

definition zscore :: "string \<Rightarrow> string \<Rightarrow> int option rh" where
  "zscore k m = (\<lambda>s. if is_zset s k then (Inr (map_of (zset_of s k) m), s) else (Inl ResponseError, s))"

section \<open>Surroundings of a request\<close>

text \<open>\<open>code_fish\<close> and \<open>code_web\<close> are \<open>checkWeixinCode4fish\<close> and the n-th call of \<open>checkWeixinCodeWEB\<close>, \<open>wx_data\<close> is
  \<open>getWeixinData\<close>: the answer as a dictionary of texts, or \<open>None\<close> for an error.  \<open>name_draws\<close> holds the numbers
  drawn for every attempt at an account name; running out of them stands for the depth of the recursion.\<close>

type_synonym wx_answer = "(string \<times> string) list option"

record login_env =
  md5 :: "string \<Rightarrow> string"
  now_s :: string
  time_s :: string
  remote_addr :: string
  web_id :: string
  lclock :: clock
  ljson :: spring_json
  dbl :: "int \<Rightarrow> int"
  code_fish :: "string \<Rightarrow> wx_answer"
  code_web :: "nat \<Rightarrow> string \<Rightarrow> wx_answer"
  wx_data :: "string \<Rightarrow> string \<Rightarrow> wx_answer"
  name_draws :: "nat list list"

text \<open>The session object: a hash of the database whose time to live is renewed with every access.\<close>

definition session_hash :: "login_env \<Rightarrow> string" where "session_hash E = ''session:'' @ web_id E"

definition session_set :: "login_env \<Rightarrow> string \<Rightarrow> string \<Rightarrow> unit rh" where
  "session_set E f v = thenM (hset (session_hash E) f v) (expire_key (session_hash E) 300)"

definition session_get :: "login_env \<Rightarrow> string \<Rightarrow> string option rh" where
  "session_get E f = thenM (expire_key (session_hash E) 300) (hget (session_hash E) f)"

definition session_login :: "login_env \<Rightarrow> string \<Rightarrow> string \<Rightarrow> string \<Rightarrow> string \<Rightarrow> string \<Rightarrow> unit rh" where
  "session_login E uid account ip date sid =
     thenM (session_set E ''member_id'' uid)
     (thenM (session_set E ''member_account'' account)
     (thenM (session_set E ''member_lastIp'' ip)
     (thenM (session_set E ''member_lastDate'' date)
     (session_set E ''session_key'' sid))))"

section \<open>New users\<close>

definition new_user_fields :: "login_env \<Rightarrow> string \<Rightarrow> string \<Rightarrow> string \<Rightarrow> (string \<times> string) list" where
  "new_user_fields E account passwd agent_id =
     [(''account'', account), (''password'', md5 E passwd), (''nickname'', account), (''name'', []), (''currency'', ''CNY''),
      (''money'', ''0.0''), (''wallet'', ''0.0''), (''vip_level'', ''0''), (''exp'', ''0''), (''level'', ''0''), (''charge'', ''0.0''),
      (''charge_count'', ''0''), (''game_count'', ''0''), (''coin_delta'', ''0''), (''parentAg'', agent_id), (''email'', []),
      (''phone'', []), (''valid'', ''1''), (''lastJoinIP'', []), (''lastJoinDate'', []), (''lastExitIP'', []), (''lastExitDate'', []),
      (''lastLoginIP'', []), (''lastLoginDate'', []), (''lastLogoutIP'', []), (''lastLogoutDate'', []), (''lastPresentDate'', []),
      (''newcomer_present_date'', []), (''reg_ip'', remote_addr E), (''reg_date'', now_s E), (''coin'', ''0''), (''accessToken'', []),
      (''refreshToken'', []), (''openid'', []), (''sex'', ''1''), (''roomCard'', ''5''), (''headImgUrl'', []), (''unionID'', []),
      (''playCount'', ''0''), (''info_comp'', ''0'')]"

definition register_by_account :: "login_env \<Rightarrow> string \<Rightarrow> string \<Rightarrow> string \<Rightarrow> string rh" where
  "register_by_account E account passwd agent_id =
     bindM (incrby FORMAT_USER_COUNT_TABLE ''1'') (\<lambda>n.
     let uid = show_int n; table = user_key (Some uid) in
     thenM (execute
       [hmset table (new_user_fields E account passwd agent_id),
        set_str (FORMAT_ACCOUNT2USER_TABLE account) table,
        sadd (FORMAT_REG_DATE_TABLE4FISH (today_s (lclock E))) account,
        sadd registered_set account,
        sadd (FORMAT_ADMIN_ACCOUNT_MEMBER_TABLE agent_id) uid])
     (retM uid))"

definition RANDOM_LIST :: string where "RANDOM_LIST = ''0123456789ABCDEFGHIJKLMNOPQRSTUVWXYZabcdefghijklmnopqrstuvwxyz''"
definition RANDOM_ACCOUNT_COUNT :: nat where "RANDOM_ACCOUNT_COUNT = 5"

definition random_name :: "nat list \<Rightarrow> string" where
  "random_name draws = map (\<lambda>n. RANDOM_LIST ! (n mod length RANDOM_LIST)) (take RANDOM_ACCOUNT_COUNT draws)"

fun getRandomAccount :: "nat list list \<Rightarrow> string \<Rightarrow> string rh" where
  "getRandomAccount [] i = raiseM RuntimeError"
| "getRandomAccount (d # ds) i =
     (let account = random_name d @ i in
      bindM (get (FORMAT_ACCOUNT2USER_TABLE account)) (\<lambda>table.
      if truthy table then getRandomAccount ds i else retM account))"

definition wx_field :: "wx_answer \<Rightarrow> string \<Rightarrow> exn + string" where
  "wx_field a f = (case a of None \<Rightarrow> Inl TypeError | Some d \<Rightarrow> (case map_of d f of None \<Rightarrow> Inl KeyError | Some v \<Rightarrow> Inr v))"

text \<open>The profile is nickname, sex, picture and union id; the tokens are the open id, the access token and the refresh token.\<close>

definition weixin_fields :: "login_env \<Rightarrow> string \<Rightarrow> string \<Rightarrow> string \<times> string \<times> string \<times> string \<Rightarrow> string \<times> string \<times> string \<Rightarrow> (string \<times> string) list" where
  "weixin_fields E account code = (\<lambda>(nickname, sex, img, unionid) (openID, accessToken, refreshToken).
     [(''account'', account), (''password'', md5 E code), (''nickname'', if nickname = [] then account else nickname), (''name'', account),
      (''currency'', ''CNY''), (''money'', ''0.0''), (''wallet'', ''0.0''), (''vip_level'', ''0''), (''exp'', ''0''), (''level'', ''0''),
      (''charge'', ''0.0''), (''charge_count'', ''0''), (''game_count'', ''0''), (''coin_delta'', ''0''), (''parentAg'', []), (''email'', []),
      (''phone'', []), (''valid'', ''1''), (''last_join_ip'', []), (''last_join_date'', []), (''last_exit_ip'', []), (''last_exit_date'', []),
      (''last_login_ip'', []), (''last_login_date'', []), (''last_logout_ip'', []), (''last_logout_date'', []), (''last_present_date'', []),
      (''newcomer_present_date'', []), (''reg_ip'', remote_addr E), (''reg_date'', now_s E), (''coin'', ''0''), (''accessToken'', accessToken),
      (''refreshToken'', refreshToken), (''openid'', openID), (''sex'', sex), (''roomCard'', ''5''), (''headImgUrl'', img), (''unionID'', unionid),
      (''playCount'', ''0'')])"

definition setOpenid2account4fish :: "login_env \<Rightarrow> string \<Rightarrow> string \<Rightarrow> string \<Rightarrow> string \<Rightarrow> string rh" where
  "setOpenid2account4fish E openID accessToken refreshToken code =
     (let userData = wx_data E openID accessToken in
      bindM (liftE (wx_field userData ''unionid'')) (\<lambda>unionid.
      bindM (incrby FORMAT_USER_COUNT_TABLE ''1'') (\<lambda>n.
      let i = show_int n; table = user_key (Some i) in
      bindM (getRandomAccount (name_draws E) i) (\<lambda>account.
      bindM (liftE (wx_field userData ''nickname'')) (\<lambda>nickname.
      bindM (liftE (wx_field userData ''sex'')) (\<lambda>sex.
      bindM (liftE (wx_field userData ''headimgurl'')) (\<lambda>img.
      thenM (execute
        [hmset table (weixin_fields E account code (nickname, sex, img, unionid) (openID, accessToken, refreshToken)),
         set_str (WEIXIN2ACCOUNT unionid) account,
         set_str (FORMAT_ACCOUNT2USER_TABLE account) table])
      (retM account))))))))"

section \<open>Checking an account\<close>

text \<open>The branches for codes of WeChat: the user of the union id gets the new tokens and the code as password, or is
  created.  The result is the name and the password the login goes on with.\<close>

definition weixin_login :: "login_env \<Rightarrow> wx_answer \<Rightarrow> string \<Rightarrow> (string \<times> string) option rh" where
  "weixin_login E tokenMessage account =
     (if tokenMessage = None \<or> tokenMessage = Some [] then
        thenM (srem FORMAT_LOGIN_POOL_SET account) (retM None)
      else
      bindM (liftE (wx_field tokenMessage ''access_token'')) (\<lambda>accessToken.
      bindM (liftE (wx_field tokenMessage ''refresh_token'')) (\<lambda>refreshToken.
      bindM (liftE (wx_field tokenMessage ''openid'')) (\<lambda>openID.
      bindM (liftE (wx_field (wx_data E openID accessToken) ''unionid'')) (\<lambda>unionid.
      bindM (exists_key (WEIXIN2ACCOUNT unionid)) (\<lambda>known.
      thenM (if known then
          bindM (get (WEIXIN2ACCOUNT unionid)) (\<lambda>realAccount.
          bindM (get (FORMAT_ACCOUNT2USER_TABLE (fmt realAccount))) (\<lambda>table.
          hmset (fmt table) [(''accessToken'', accessToken), (''refreshToken'', refreshToken), (''password'', md5 E account)]))
        else drop_reply (setOpenid2account4fish E openID accessToken refreshToken account))
      (thenM (srem FORMAT_LOGIN_POOL_SET account) (retM (Some (unionid, account))))))))))"

text \<open>A union id with a password: the stored digest is compared, and the profile is renewed if WeChat answers.\<close>

definition unionid_login :: "login_env \<Rightarrow> string \<Rightarrow> string \<Rightarrow> (string \<times> string) option rh" where
  "unionid_login E account passwd =
     bindM (exists_key (WEIXIN2ACCOUNT account)) (\<lambda>known. if \<not> known then retM None else
     bindM (get (WEIXIN2ACCOUNT account)) (\<lambda>realAccount.
     bindM (get (FORMAT_ACCOUNT2USER_TABLE (fmt realAccount))) (\<lambda>table.
     bindM (hmget (fmt table) [''password'', ''openid'', ''accessToken'']) (\<lambda>v.
     if v ! 0 \<noteq> Some (md5 E passwd) then retM None else
     (let userData = wx_data E (fmt (v ! 1)) (fmt (v ! 2)) in
      thenM (if userData = None \<or> userData = Some [] then retM () else
        bindM (liftE (wx_field userData ''nickname'')) (\<lambda>nickname.
        bindM (liftE (wx_field userData ''sex'')) (\<lambda>sex.
        bindM (liftE (wx_field userData ''headimgurl'')) (\<lambda>img.
        hmset (fmt table) [(''nickname'', nickname), (''sex'', sex), (''headImgUrl'', img)]))))
      (thenM (srem FORMAT_LOGIN_POOL_SET account) (retM (Some (account, passwd)))))))))"

definition password_login :: "login_env \<Rightarrow> string \<Rightarrow> string \<Rightarrow> (string \<times> string) option rh" where
  "password_login E account passwd =
     bindM (exists_key (FORMAT_ACCOUNT2USER_TABLE account)) (\<lambda>known. if \<not> known then retM None else
     bindM (get (FORMAT_ACCOUNT2USER_TABLE account)) (\<lambda>table.
     bindM (hget (fmt table) ''password'') (\<lambda>truePassword.
     retM (if truePassword = Some (md5 E passwd) then Some (account, passwd) else None))))"

definition onRegFish :: "login_env \<Rightarrow> string \<Rightarrow> string \<Rightarrow> int \<Rightarrow> (string \<times> string) option rh" where
  "onRegFish E account passwd login_type =
     bindM (if login_type = 1 then weixin_login E (code_fish E account) account
            else if login_type = 2 then
              bindM (unionid_login E account passwd) (\<lambda>r.
              if r = None then thenM (srem FORMAT_LOGIN_POOL_SET account) (retM None) else retM r)
            else if login_type = 3 then weixin_login E (code_web E 0 account) account
            else if login_type = 4 then weixin_login E (code_web E 1 account) account
            else if login_type = 0 then password_login E account passwd
            else retM None) (\<lambda>r.
     if r = None then thenM (srem FORMAT_LOGIN_POOL_SET account) (retM None) else retM r)"

section \<open>Registering\<close>

record login_info =
  l_sid :: string
  l_account :: string
  l_passwd :: string
  l_weixin :: bool
  l_sign :: "int option"
  l_join :: "(int \<times> int) option"

text \<open>A player who sits in a game is thrown out by a line to its servers.\<close>

definition kick_player :: "string \<Rightarrow> string \<Rightarrow> unit rh" where
  "kick_player account uid =
     bindM (sismember ONLINE_ACCOUNTS_TABLE4FISH account) (\<lambda>online. if \<not> online then retM () else
     bindM (hget (FORMAT_CUR_USER_GAME_ONLINE account) ''game'') (\<lambda>gameNum. if \<not> truthy gameNum then retM () else
     bindM (get (FORMAT_USER_PLATFORM_SESSION uid)) (\<lambda>playerSid.
     sendProtocol2GameService (fmt gameNum) (''kickMember4repeat|'' @ account @ ''|'' @ fmt playerSid))))"

definition lock_box :: "string \<Rightarrow> unit rh" where
  "lock_box uid =
     bindM (hget (user_key (Some uid)) ''box_pwd'') (\<lambda>p.
     if truthy p then hset (user_key (Some uid)) ''box_lock'' ''1'' else retM ())"

text \<open>The coins a player may sign for today, as the reply to a login announces them.\<close>

definition sign_notice :: "login_env \<Rightarrow> string \<Rightarrow> int option rh" where
  "sign_notice E uid =
     bindM (hget (user_key (Some uid)) ''last_sign_date'') (\<lambda>d.
     if d = Some (today_s (lclock E)) then retM None else
     bindM (get_should_sign_warheads (Some uid)) (\<lambda>w. retM (Some w)))"

definition login_fields :: "login_env \<Rightarrow> string \<Rightarrow> (string \<times> string) list" where
  "login_fields E clientType =
     [(''lastLoginIp'', remote_addr E), (''lastLoginDate'', now_s E), (''lastLoginClientType'', clientType)]"

definition do_inner :: "login_env \<Rightarrow> string \<Rightarrow> string \<Rightarrow> string \<Rightarrow> string \<Rightarrow> (reply + login_info) rh" where
  "do_inner E type_form account_form passwd_form agent_form =
     (let clientType = strip type_form; account = strip account_form; passwd = strip passwd_form; agent_id = strip agent_form in
      if length passwd > 20 \<or> length passwd < 6 \<or> length account > 20 \<or> length account < 6 then retM (Inl (Reply 1 ''length'')) else
      bindM (smembers registered_set) (\<lambda>known. if account \<in> set known then retM (Inl (Reply 1 ''account exists'')) else
      bindM (smembers AGENT_ID_TABLE) (\<lambda>agents. if agent_id \<notin> set agents then retM (Inl (Reply 1 ''no guild'')) else
      bindM (register_by_account E account passwd agent_id) (\<lambda>uid.
      bindM (hmget (user_key (Some uid)) [''alevel'', ''account'', ''valid'', ''password'', ''lastLoginDate'']) (\<lambda>v.
      if v ! 3 \<noteq> Some (md5 E passwd) then raiseM NameError else
      bindM (liftE (py_int_none (v ! 2))) (\<lambda>valid.
      if valid = 0 then thenM (srem FORMAT_LOGIN_POOL_SET (fmt (v ! 1))) (retM (Inl (Reply 105 ''frozen''))) else
      bindM (get (FORMAT_USER_PLATFORM_SESSION uid)) (\<lambda>exist_sid.
      thenM (delete_key (FORMAT_USER_HALL_SESSION (fmt exist_sid)))
      (thenM (set_str (kick_key (fmt exist_sid)) uid)
      (thenM (expire_key (kick_key (fmt exist_sid)) 200)
      (thenM (kick_player (fmt (v ! 1)) uid)
      (let sid = md5 E (uid @ time_s E) in
       bindM (exists_key (FORMAT_USER_HALL_SESSION sid)) (\<lambda>taken. if taken then raiseM NameError else
       bindM (sign_notice E uid) (\<lambda>notice.
       thenM (set_str (FORMAT_USER_PLATFORM_SESSION uid) sid)
       (thenM (sadd FORMAT_LOGIN_POOL_SET (fmt (v ! 1)))
       (thenM (hmset (user_key (Some uid)) (login_fields E clientType))
       (thenM (session_login E uid (fmt (v ! 1)) (remote_addr E) (fmt (v ! 4)) sid)
       (thenM (execute
          [hmset (FORMAT_USER_HALL_SESSION sid) [(''account'', fmt (v ! 1)), (''uid'', uid), (''sid'', sid), (''loginIp'', remote_addr E)],
           set_str (FORMAT_USER_PLATFORM_SESSION uid) sid,
           expire_key (FORMAT_USER_HALL_SESSION sid) 2400])
       (bindM (hmget (user_key (Some uid)) [''nickname'', ''openid'']) (\<lambda>w.
        thenM (if v ! 0 = Some ''1'' then drop_reply (smembers (roles_key uid)) else retM ())
        (thenM (hget (user_key (Some uid)) ''nickname'')
        (thenM (lock_box uid)
        (retM (Inr \<lparr>l_sid = sid, l_account = fmt (v ! 1), l_passwd = passwd, l_weixin = truthy (w ! 1), l_sign = notice, l_join = None\<rparr>)))))))))))))))))))))))"

section \<open>Logging in\<close>

text \<open>The gifts of the first login.\<close>

definition first_login :: "login_env \<Rightarrow> string \<Rightarrow> string \<Rightarrow> unit rh" where
  "first_login E realAccount userTable =
     bindM (sismember ACCOUNT4WEIXIN_SET4FISH realAccount) (\<lambda>known. if known then retM () else
     thenM (sadd ACCOUNT4WEIXIN_SET4FISH realAccount)
     (thenM (sadd (FORMAT_REG_DATE_TABLE4FISH (today_s (lclock E))) realAccount)
     (hset userTable ''coin'' (show_int GIVE_COIN_FIRST_LOGIN))))"

text \<open>A user with an invitation of a guild; \<open>CHECK_SUCCESS\<close> is no name of the module.\<close>

definition join_invited :: "string \<Rightarrow> unit rh" where
  "join_invited reAccount =
     bindM (exists_key (UNIONID2GROUP reAccount)) (\<lambda>invited. if \<not> invited then retM () else
     bindM (get (UNIONID2GROUP reAccount)) (\<lambda>needJoinGroup.
     bindM (exists_key (AGENT_TABLE (fmt needJoinGroup))) (\<lambda>ex. if \<not> ex then retM () else
     bindM (hmget (AGENT_TABLE (fmt needJoinGroup)) [''valid'', ''auto_check'', ''type'']) (\<lambda>v.
     if v ! 0 = Some ''1'' \<and> v ! 2 \<noteq> Some ''1'' then raiseM NameError else retM ()))))"

text \<open>The locks a player gets for the first login of a day.\<close>

definition day_login :: "login_env \<Rightarrow> string \<Rightarrow> string \<Rightarrow> int \<Rightarrow> int option rh" where
  "day_login E uid userTable lockCount =
     bindM (sign_notice E uid) (\<lambda>notice.
     thenM (if notice \<noteq> None \<and> lockCount < GIVE_LOCK_COUNT_DAY_LOGIN_MAX then
         drop_reply (hincrby userTable ''lockCount'' (show_int (min (GIVE_LOCK_COUNT_DAY_LOGIN_MAX - lockCount) GIVE_LOCK_COUNT_DAY_LOGIN)))
       else retM ())
     (retM notice))"

text \<open>The answer of a guild to an application: its number and the result, shown once.\<close>

definition join_answer :: "string \<Rightarrow> (int \<times> int) option rh" where
  "join_answer uid =
     bindM (get (JOIN_GROUP_RESULT uid)) (\<lambda>joinMessage. if \<not> truthy joinMessage then retM None else
     (case split_on (CHR '':'') (fmt joinMessage) of
        a # b # _ \<Rightarrow>
          bindM (liftE (py_int a)) (\<lambda>joinNum.
          bindM (liftE (py_int b)) (\<lambda>joinResult.
          thenM (if joinResult = 1 then delete_key (JOIN_GROUP_RESULT uid) else retM ())
          (retM (Some (joinNum, joinResult)))))
      | [a] \<Rightarrow> bindM (liftE (py_int a)) (\<lambda>_. raiseM IndexError)
      | [] \<Rightarrow> raiseM IndexError))"

text \<open>A player who waits for a party leaves the list.  The line for the server names a variable that is not bound:
  it is never sent.\<close>

definition leave_party :: "string \<Rightarrow> unit rh" where
  "leave_party account =
     bindM (get (ACCOUNT2WAIT_JOIN_PARTY_TABLE account)) (\<lambda>key. if \<not> truthy key then retM () else
     bindM (lrange_all (fmt key)) (\<lambda>l. if account \<notin> set l then retM () else
     thenM (tryM (bindM (get (''account:'' @ account @ '':wantServer'')) (\<lambda>_. raiseM NameError))
                 (drop_reply (get (''account:'' @ account @ '':wantServer''))))
     (lrem (fmt key) account)))"

definition rank_coin :: "login_env \<Rightarrow> string \<Rightarrow> string \<Rightarrow> unit rh" where
  "rank_coin E account userTable =
     bindM (hincrby userTable ''coin'' ''0'') (\<lambda>coin.
     thenM (zadd_to (dbl E) FORMAT_USER_COIN_TABLE account coin)
     (bindM (zscore FORMAT_USER_COINDELTA_TABLE account) (\<lambda>d.
      if d = None \<or> d = Some 0 then zadd_to (dbl E) FORMAT_USER_COINDELTA_TABLE account 0 else retM ())))"

text \<open>The session of a login through a web page of WeChat has the id 0.\<close>

definition login_sid :: "login_env \<Rightarrow> int \<Rightarrow> string \<Rightarrow> string" where
  "login_sid E login_type uid = (if login_type = 3 then ''0'' else md5 E (uid @ time_s E))"

definition open_session :: "login_env \<Rightarrow> string \<Rightarrow> string \<Rightarrow> string \<Rightarrow> string \<Rightarrow> string option list \<Rightarrow> unit rh" where
  "open_session E clientType uid sid userTable v =
     thenM (set_str (FORMAT_USER_PLATFORM_SESSION uid) sid)
     (thenM (hmset userTable (login_fields E clientType))
     (thenM (session_login E uid (fmt (v ! 0)) (fmt (v ! 3)) (fmt (v ! 4)) sid)
     (execute
        [hmset (FORMAT_USER_HALL_SESSION sid) [(''account'', fmt (v ! 0)), (''uid'', uid), (''sid'', sid), (''loginIp'', remote_addr E)],
         expire_key (FORMAT_USER_HALL_SESSION sid) 2400])))"

definition enter_lobby :: "login_env \<Rightarrow> string \<Rightarrow> string \<Rightarrow> int \<Rightarrow> string \<Rightarrow> string \<Rightarrow> string option \<Rightarrow> string \<Rightarrow> string \<Rightarrow> (reply + login_info) rh" where
  "enter_lobby E form_account clientType login_type reAccount rePasswd realAccount userTable uid =
     bindM (hmget userTable [''account'', ''nickname'', ''parentAg'', ''lastLoginIp'', ''lastLoginDate'', ''picUrl'', ''gender'', ''valid'', ''lockCount'', ''openid'']) (\<lambda>v.
     bindM (liftE (int_or (v ! 8) 0)) (\<lambda>lockCount.
     bindM (hmget (AGENT_TABLE (fmt (v ! 2))) [''isTrail'', ''recharge'']) (\<lambda>a.
     bindM (liftE (py_int_none (v ! 7))) (\<lambda>valid.
     if valid = 0 then thenM (srem FORMAT_LOGIN_POOL_SET form_account) (retM (Inl (Reply 105 ''frozen''))) else
     (let sid = login_sid E login_type uid in
      bindM (exists_key (FORMAT_USER_HALL_SESSION sid)) (\<lambda>taken. if taken then raiseM TypeError else
      thenM (open_session E clientType uid sid userTable v)
      (thenM (check_spring_all (ljson E) (lclock E))
      (bindM (day_login E uid userTable lockCount) (\<lambda>notice.
       thenM (kick_player (fmt realAccount) uid)
       (bindM (liftE (int_or (a ! 0) 0)) (\<lambda>isTrail.
        bindM (join_answer uid) (\<lambda>answer.
        thenM (leave_party (fmt (v ! 0)))
        (thenM (rank_coin E (fmt (v ! 0)) userTable)
        (thenM (srem FORMAT_LOGIN_POOL_SET (if answer \<noteq> None \<and> fst (the answer) \<noteq> 0 then form_account else fmt (v ! 0)))
        (retM (Inr \<lparr>l_sid = sid, l_account = reAccount, l_passwd = rePasswd, l_weixin = truthy (v ! 9), l_sign = notice,
           l_join = (if answer \<noteq> None \<and> fst (the answer) \<noteq> 0 then answer else None)\<rparr>))))))))))))))))"

definition do_login :: "login_env \<Rightarrow> string \<Rightarrow> string \<Rightarrow> string \<Rightarrow> string \<Rightarrow> (reply + login_info) rh" where
  "do_login E account_form type_form passwd_form login_type_form =
     (let account = strip account_form; clientType = (if strip type_form = [] then ''0'' else strip type_form); passwd = strip passwd_form in
      bindM (liftE (int_or (Some (strip login_type_form)) 0)) (\<lambda>login_type.
      thenM (smembers FORMAT_LOGIN_POOL_SET)
      (thenM (sadd FORMAT_LOGIN_POOL_SET account)
      (bindM (onRegFish E account passwd login_type) (\<lambda>r.
       case r of
         None \<Rightarrow> thenM (srem FORMAT_LOGIN_POOL_SET account) (retM (Inl (Reply 101 ''wrong'')))
       | Some (reAccount, rePasswd) \<Rightarrow>
         if reAccount = [] then thenM (srem FORMAT_LOGIN_POOL_SET account) (retM (Inl (Reply 101 ''wrong''))) else
         bindM (if login_type \<noteq> 0 then get (WEIXIN2ACCOUNT reAccount) else retM (Some reAccount)) (\<lambda>realAccount.
         bindM (get (FORMAT_ACCOUNT2USER_TABLE (fmt realAccount))) (\<lambda>userTable.
         case userTable of None \<Rightarrow> raiseM AttributeError | Some ut \<Rightarrow>
         (case split_on (CHR '':'') ut of _ # uid # _ \<Rightarrow>
            thenM (lock_box uid)
            (thenM (first_login E (fmt realAccount) ut)
            (thenM (join_invited reAccount)
            (enter_lobby E account clientType login_type reAccount rePasswd realAccount ut uid)))
          | _ \<Rightarrow> raiseM IndexError))))))))"

end
