(* ===== verification/FishLobby.thy ===== *)
theory FishLobby
  imports FishLogin FishPay
begin

text \<open>
  The lobby of the fishing game after a login (fish/fish.py, fish_util/fish_func.py, the room list of
  model/fishModel.py, the settings and broadcasts of model/hallModel.py): sharing and its reward, the
  exchange code, the way into a room, mails and activities, rankings.  The calendar, \<open>eval\<close> of the stored
  rankings and the host of the request are arguments.
\<close>

section \<open>Keys and numbers\<close>

definition FISH_SHARE_TOTAL :: string where "FISH_SHARE_TOTAL = ''fish:first:share:total''"
definition FISH_FIRST_SHARE_PER_DAY_SET :: "string \<Rightarrow> string" where "FISH_FIRST_SHARE_PER_DAY_SET d = ''fish:first:share:'' @ d @ '':sets''"
definition FISH_SHARE_NOT_TAKE_SETS :: string where "FISH_SHARE_NOT_TAKE_SETS = ''fish:share:not:take:sets''"
definition FISH_SHARE_TAKE_SETS :: "string \<Rightarrow> string" where "FISH_SHARE_TAKE_SETS d = ''fish:share:take:'' @ d @ '':sets''"
definition FISH_HOTUPDATE_TABLE :: string where "FISH_HOTUPDATE_TABLE = ''fish:hotupdate:hesh''"
definition FISH_ROOM_TABLE :: "string \<Rightarrow> string" where "FISH_ROOM_TABLE i = ''fish:channel:'' @ i @ '':info''"
definition EXIT_PLAYER_FISH :: "string \<Rightarrow> string \<Rightarrow> string" where
  "EXIT_PLAYER_FISH a i = ''player:'' @ a @ '':exitPlayer4fish:id:'' @ i @ '':hash''"
definition FORMAT_USER_MSG_FISH_LIST :: "string \<Rightarrow> string" where "FORMAT_USER_MSG_FISH_LIST u = ''user:'' @ u @ '':fish:msg:list''"
definition FORMAT_GAMEHALL_NOTIC_TABLE :: "string \<Rightarrow> string" where "FORMAT_GAMEHALL_NOTIC_TABLE i = ''notice:'' @ i"
definition FORMAT_MSG_READ_SET :: "string \<Rightarrow> string" where "FORMAT_MSG_READ_SET i = ''notices:'' @ i @ '':read:set''"
definition FORMAT_USER_ACTIVE_FISH_LIST :: "string \<Rightarrow> string" where "FORMAT_USER_ACTIVE_FISH_LIST u = ''user:'' @ u @ '':fish:actives:list''"
definition FORMAT_GAMEHALL_ACTIVE_TABEL :: "string \<Rightarrow> string" where "FORMAT_GAMEHALL_ACTIVE_TABEL i = ''actives:'' @ i"
definition FORMAT_ACT_READ_SET :: "string \<Rightarrow> string" where "FORMAT_ACT_READ_SET i = ''actives:'' @ i @ '':read:set''"
definition GOODS_TYPE_LIST :: "string \<Rightarrow> string" where "GOODS_TYPE_LIST i = ''goods:type:'' @ i @ '':list''"
definition HALL_BRO_PLAY_SET :: string where "HALL_BRO_PLAY_SET = ''hall:bro:play:set''"
definition HALL_BRO_TABLE :: "string \<Rightarrow> string" where "HALL_BRO_TABLE i = ''hall:broadcast:'' @ i @ '':info''"
definition FISH_BRO_CONTAIN_ALL_LIST :: "string \<Rightarrow> string" where "FISH_BRO_CONTAIN_ALL_LIST i = ''fish:broadcast:type:'' @ i @ '':list''"

definition exchange_hesh :: string where "exchange_hesh = ''fish:exchageCode:hesh''"
definition exchange_code :: string where "exchange_code = ''4c445de82c3537a5995a497b1c8202d7''"
definition redpick_hesh :: string where "redpick_hesh = ''fish:redpick:account:hesh''"
definition active_users_key :: "string \<Rightarrow> string" where "active_users_key d = ''active:users:date:'' @ d"
definition house_no_key :: "string \<Rightarrow> string \<Rightarrow> string" where "house_no_key g u = ''fish:'' @ g @ '':player:'' @ u @ '':houseNo''"
definition day_gain_key :: "string \<Rightarrow> string \<Rightarrow> string \<Rightarrow> string" where "day_gain_key u what d = ''user:'' @ u @ '':gain:'' @ what @ '':date:'' @ d"

section \<open>Sharing\<close>

text \<open>A user id from the session, as a member of a set.\<close>

definition in_members :: "string option \<Rightarrow> string \<Rightarrow> bool rh" where
  "in_members uid k = bindM (smembers k) (\<lambda>l. retM (uid \<noteq> None \<and> fmt uid \<in> set l))"

definition on_shareCallback :: "clock \<Rightarrow> string \<Rightarrow> reply rh" where
  "on_shareCallback c sid =
     session_guard sid (\<lambda>code. Reply code ''session'') (\<lambda>account uid user_table.
     bindM (in_members uid (FISH_FIRST_SHARE_PER_DAY_SET (today_s c))) (\<lambda>again. if again then retM (Reply (- 4001) ''shared already'') else
     thenM (execute
       [sadd (FISH_FIRST_SHARE_PER_DAY_SET (today_s c)) (fmt uid),
        sadd FISH_SHARE_NOT_TAKE_SETS (fmt uid),
        drop_reply (incrby FISH_SHARE_TOTAL ''1'')])
     (retM (Reply 0 ''shared''))))"

definition get_fish_share_reward :: "clock \<Rightarrow> string \<Rightarrow> reply rh" where
  "get_fish_share_reward c sid =
     session_guard sid (\<lambda>code. Reply code ''session'') (\<lambda>account uid user_table.
     thenM (in_members uid (FISH_FIRST_SHARE_PER_DAY_SET (today_s c)))
     (thenM (in_members uid FISH_SHARE_NOT_TAKE_SETS)
     (bindM (in_members uid (FISH_SHARE_TAKE_SETS (today_s c))) (\<lambda>taken. if taken then retM (Reply (- 3002) ''taken already'') else
      bindM (hget FISH_CONSTS_CONFIG ''share_coin'') (\<lambda>share_coin. if \<not> truthy share_coin then retM (Reply (- 3001) ''no amount'') else
      thenM (execute
        [srem FISH_SHARE_NOT_TAKE_SETS (fmt uid),
         sadd (FISH_SHARE_TAKE_SETS (today_s c)) (fmt uid),
         drop_reply (hincrby user_table ''coin'' (fmt share_coin))])
      (bindM (hget user_table ''coin'') (\<lambda>coin. retM (Reply 0 (show_int (to_int coin))))))))))"

section \<open>The exchange code\<close>

definition doExchageCode :: "string \<Rightarrow> string \<Rightarrow> reply rh" where
  "doExchageCode sid_form code_form =
     bindM (getInfoBySid (strip sid_form)) (\<lambda>(SessionTable, account, uid, verfiySid).
     bindM (exists_key SessionTable) (\<lambda>alive. if \<not> alive then retM (Reply (- 3) ''session'') else
     bindM (hget exchange_hesh (fmt account)) (\<lambda>v. if v = Some ''1'' then retM (Reply 1 ''taken already'') else
     if strip code_form \<noteq> exchange_code then retM (Reply 1 ''wrong code'') else
     thenM (hset exchange_hesh (fmt account) ''1'')
     (bindM (get (FORMAT_ACCOUNT2USER_TABLE (fmt account))) (\<lambda>userTable.
      thenM (hincrby (fmt userTable) ''coin'' ''888888'')
      (bindM (hmget (fmt userTable) [''coin'', ''exchange_ticket'']) (\<lambda>v. retM (Reply 0 (fmt (v ! 0))))))))))"

definition exchange_check :: "string \<Rightarrow> (reply + int) rh" where
  "exchange_check sid_form =
     bindM (getInfoBySid (strip sid_form)) (\<lambda>(SessionTable, account, uid, verfiySid).
     bindM (exists_key SessionTable) (\<lambda>alive. if \<not> alive then retM (Inl (Reply (- 3) ''session'')) else
     bindM (hget exchange_hesh (fmt account)) (\<lambda>v. bindM (liftE (int_or v 0)) (\<lambda>n. retM (Inr n)))))"

section \<open>Sessions\<close>

definition do_sessionExpire :: "login_env \<Rightarrow> string \<Rightarrow> unit rh" where
  "do_sessionExpire E SessionTable =
     bindM (session_get E ''session_key'') (\<lambda>k.
     thenM (expire_key (fmt k) 3600)
     (thenM (expire_key SessionTable 600) (expire_key (session_hash E) 300)))"

definition extendSession :: "login_env \<Rightarrow> string \<Rightarrow> unit rh" where
  "extendSession E SessionTable =
     bindM (session_get E ''session_key'') (\<lambda>k.
     thenM (expire_key (fmt k) 3600) (expire_key SessionTable 2400))"

definition do_extendSession :: "login_env \<Rightarrow> string \<Rightarrow> reply rh" where
  "do_extendSession E sid_form =
     (let SessionTable = FORMAT_USER_HALL_SESSION (strip sid_form) in
      bindM (exists_key SessionTable) (\<lambda>alive. if \<not> alive then retM (Reply 1 ''session'') else
      thenM (extendSession E SessionTable) (retM (Reply 0 ''extended''))))"

section \<open>Settings, rooms and goods\<close>

definition get_fish_hall_setting :: "(string \<times> string) list rh" where
  "get_fish_hall_setting = hgetall FISH_HOTUPDATE_TABLE"

text \<open>The address of the update, which both pages complete.\<close>

definition with_pack :: "(string \<times> string) list \<Rightarrow> exn + (string \<times> string) list" where
  "with_pack d =
     (case (map_of d ''hotUpdateURL'', map_of d ''packName'') of
       (Some url, Some pack) \<Rightarrow> Inr (AList.update ''hotUpdateURL'' (url @ ''/'' @ pack) d)
     | _ \<Rightarrow> Inl KeyError)"

definition getHallVersion :: "(string \<times> string) list rh" where
  "getHallVersion = bindM get_fish_hall_setting (\<lambda>d. liftE (with_pack d))"

definition trans2IntList :: "string list" where
  "trans2IntList = [''min_coin'', ''max_coin'', ''base_coin'', ''max_base_coin'', ''step_base_coin'', ''max_player_count'']"

text \<open>The numbers of a room: those that are not empty become integers, a missing one is an error.\<close>

fun trans_ints :: "string list \<Rightarrow> pydict \<Rightarrow> exn + pydict" where
  "trans_ints [] d = Inr d"
| "trans_ints (k # ks) d =
     (case map_of d k of
        None \<Rightarrow> Inl KeyError
      | Some (PInt n) \<Rightarrow> trans_ints ks d
      | Some (PStr t) \<Rightarrow> trans_ints ks (if t = [] then d else AList.update k (PInt (to_int (Some t))) d))"

definition room_entry :: "string \<Rightarrow> (int \<times> pydict) rh" where
  "room_entry room_id =
     bindM (hgetall (FISH_ROOM_TABLE room_id)) (\<lambda>info.
     bindM (liftE (py_int room_id)) (\<lambda>i.
     let d = AList.update ''room_id'' (PInt i) (map (\<lambda>(k, v). (k, PStr v)) info);
         d = (if map_of d ''need_coin'' = None then AList.update ''need_coin'' (PInt 0) d else d);
         d = (if map_of d ''coin_value'' = None then AList.update ''coin_value'' (PInt 0) d else d) in
     bindM (case map_of d ''field_type'' of
         Some (PStr t) \<Rightarrow> if t = [] then retM d else bindM (liftE (py_int t)) (\<lambda>n. retM (AList.update ''field_type'' (PInt n) d))
       | _ \<Rightarrow> retM d) (\<lambda>d.
     bindM (liftE (trans_ints trans2IntList d)) (\<lambda>d. retM (i, d)))))"

definition get_room_list :: "(int \<times> pydict) list rh" where
  "get_room_list =
     bindM (lrange_all FISH_ROOM_LIST) (\<lambda>room_ids.
     bindM (mapM room_ids room_entry) (\<lambda>l. retM (sort_key fst l)))"

definition get_coin_goods_list :: "(string \<times> string) list list rh" where
  "get_coin_goods_list =
     bindM (lrange_all (GOODS_TYPE_LIST ''1'')) (\<lambda>ids.
     bindM (mapM ids (\<lambda>i. hgetall (GOODS_TABLE i))) (\<lambda>l. retM (filter (\<lambda>d. d \<noteq> []) l)))"

definition lobby_goods_info :: "string \<Rightarrow> (int + (string \<times> string) list list \<times> (string \<times> string) list list) rh" where
  "lobby_goods_info sid =
     session_guard sid Inl (\<lambda>account uid user_table.
     bindM get_coin_goods_list (\<lambda>goods_info.
     bindM (smembers ''currency:change:course:set'') (\<lambda>cids.
     bindM (mapM cids (\<lambda>cid. bindM (hgetall (''currency:change:course:'' @ cid @ '':hesh'')) (\<lambda>d. retM (AList.update ''cid'' cid d)))) (\<lambda>l.
     retM (Inr (goods_info, l))))))"

section \<open>The way into a room\<close>

text \<open>A numbered room exists and has a free place, or the refusal.\<close>

definition check_house :: "string \<Rightarrow> string \<Rightarrow> reply option rh" where
  "check_house gameid house_no =
     (if house_no = [] then retM None else
      bindM (hget (FISH_ROOM_TABLE gameid) ''max_player_count'') (\<lambda>m.
      bindM (liftE (py_int_none m)) (\<lambda>max_player_count.
      bindM (hget (house_key gameid house_no) ''player_num'') (\<lambda>p.
      bindM (liftE (int_or p 0)) (\<lambda>player_num.
      bindM (keys ''hall:session:*'') (\<lambda>online.
      retM (if house_no \<notin> set (map (\<lambda>i. show_int (int i)) [1..<12 + length online]) then Some (Reply 1 ''no such room'')
        else if player_num \<ge> max_player_count then Some (Reply 1 ''room full'') else None)))))))"

text \<open>\<open>int(maxRoomCount) * maxPlayerCount\<close>: the second factor is a text, which is repeated.\<close>

definition player_limit :: "string option \<Rightarrow> string option \<Rightarrow> exn + (int + string)" where
  "player_limit maxRoomCount maxPlayerCount =
     (if truthy maxRoomCount \<and> truthy maxPlayerCount then
        (case py_int (fmt maxRoomCount) of Inl e \<Rightarrow> Inl e
         | Inr n \<Rightarrow> Inr (Inr (concat (replicate (nat n) (fmt maxPlayerCount)))))
      else Inr (Inl 0))"

text \<open>The servers with places; the comparison of the number of rooms with a text never holds.\<close>

fun reserved_servers :: "int + string \<Rightarrow> string list \<Rightarrow> (string \<times> string \<times> string) list rh" where
  "reserved_servers limit [] = retM []"
| "reserved_servers limit (serverTable # l) =
     bindM (hincrby serverTable ''playerCount'' ''0'') (\<lambda>playerCount.
     thenM (hincrby serverTable ''roomCount'' ''0'')
     (bindM (liftE (case limit of Inl n \<Rightarrow> Inr n | Inr t \<Rightarrow> py_int t)) (\<lambda>n.
      if n \<noteq> 0 \<and> playerCount \<ge> n then reserved_servers (Inl n) l else
      (case split_on (CHR '':'') serverTable of
         [_, _, _, currency, ip, port] \<Rightarrow>
           bindM (reserved_servers (Inl n) l) (\<lambda>r. retM ((currency, ip, port) # r))
       | _ \<Rightarrow> raiseM ValueError))))"

text \<open>A player who left a room comes back to its server, if it has places.\<close>

definition pick_server :: "string option \<Rightarrow> string option \<Rightarrow> (string \<times> string \<times> string) list \<Rightarrow> string \<times> string \<times> string" where
  "pick_server ip port servers =
     (case filter (\<lambda>(c, i, p). Some i = ip \<and> Some p = port) servers of [] \<Rightarrow> hd servers | x # _ \<Rightarrow> x)"

definition do_joinRoom :: "clock \<Rightarrow> string \<Rightarrow> string option \<Rightarrow> string option \<Rightarrow> string \<Rightarrow> (reply + string \<times> string) rh" where
  "do_joinRoom c domain sid_form game_form house_form =
     (case sid_form of None \<Rightarrow> raiseM AttributeError | Some sid_form \<Rightarrow>
     (case game_form of None \<Rightarrow> raiseM AttributeError | Some game_form \<Rightarrow>
     let sid = strip sid_form; gameid = strip game_form; house_no = strip house_form in
     bindM (check_house gameid house_no) (\<lambda>refusal. case refusal of Some r \<Rightarrow> retM (Inl r) | None \<Rightarrow>
     (case py_int gameid of Inl e \<Rightarrow> retM (Inl (Reply (- 300) ''form'')) | Inr n \<Rightarrow>
     let gameId = show_int n in
     bindM (getInfoBySid sid) (\<lambda>(SessionTable, account, uid, verfiySid).
     thenM (if truthy uid then sadd (active_users_key (today_s c)) (fmt uid) else retM ())
     (bindM (check_session_verfiy SessionTable account sid verfiySid) (\<lambda>(check_code, user_table).
      if check_code < 0 then retM (Inl (Reply check_code ''session'')) else
      bindM (hget (fmt user_table) ''parentAg'') (\<lambda>ag.
      thenM (hget (AGENT_TABLE (fmt ag)) ''valid'')
      (bindM (hget (GAME_TABLE gameId) ''maxRoomCount'') (\<lambda>maxRoomCount.
      bindM (hget (FISH_ROOM_TABLE gameId) ''max_player_count'') (\<lambda>maxPlayerCount.
      bindM (liftE (player_limit maxRoomCount maxPlayerCount)) (\<lambda>limit.
      bindM (lrange_all (FORMAT_GAME_SERVICE_SET gameId)) (\<lambda>serverList.
      bindM (reserved_servers limit serverList) (\<lambda>reservedServers.
      if reservedServers = [] then retM (Inl (Reply (- 1) ''busy'')) else
      bindM (exists_key (EXIT_PLAYER_FISH (fmt account) gameId)) (\<lambda>left.
      bindM (if left then bindM (hmget (EXIT_PLAYER_FISH (fmt account) gameId) [''ip'', ''port'']) (\<lambda>v.
               retM (pick_server (v ! 0) (v ! 1) reservedServers))
             else retM (hd reservedServers)) (\<lambda>(currency, serverIp, serverPort).
      thenM (if house_no = [] then retM () else setex (house_no_key gameid (fmt uid)) house_no 60)
      (retM (Inr (domain, serverPort)))))))))))))))))))"

section \<open>Mails and activities\<close>

text \<open>A list of messages with a mark whether the player has read them, the unread ones first, and their number.\<close>

definition unread_first :: "((string \<times> string) list \<times> bool) list \<Rightarrow> (string \<times> string) list list \<times> int" where
  "unread_first l =
     (map (\<lambda>(d, r). AList.update ''read'' (if r then ''1'' else ''0'') d) (filter (\<lambda>(d, r). \<not> r) l @ filter (\<lambda>(d, r). r) l),
      int (length (filter (\<lambda>(d, r). \<not> r) l)))"

definition do_mailRefresh :: "string \<Rightarrow> (int + (string \<times> string) list list \<times> int) rh" where
  "do_mailRefresh sid =
     session_guard sid Inl (\<lambda>account uid user_table.
     bindM (lrange_all (FORMAT_USER_MSG_FISH_LIST (fmt uid))) (\<lambda>ids.
     bindM (mapM ids (\<lambda>mailId.
       bindM (in_members uid (FORMAT_MSG_READ_SET mailId)) (\<lambda>seen.
       bindM (hgetall (FORMAT_GAMEHALL_NOTIC_TABLE mailId)) (\<lambda>d. retM (d, seen))))) (\<lambda>l.
     retM (Inr (unread_first l)))))"

text \<open>The rank of an activity is read as a number; here it stays the text of it.\<close>

definition active_message :: "string option \<Rightarrow> string \<Rightarrow> ((string \<times> string) list \<times> bool) rh" where
  "active_message uid mail_id =
     bindM (hgetall (FORMAT_GAMEHALL_ACTIVE_TABEL mail_id)) (\<lambda>d.
     case map_of d ''sort'' of None \<Rightarrow> raiseM KeyError | Some v \<Rightarrow>
     bindM (sismember (FORMAT_ACT_READ_SET mail_id) (fmt uid)) (\<lambda>seen.
     retM (AList.update ''sort'' (show_int (to_int (Some v))) d, seen)))"

definition do_activeRefresh :: "string \<Rightarrow> (int + (string \<times> string) list list \<times> int) rh" where
  "do_activeRefresh sid =
     session_guard sid Inl (\<lambda>account uid user_table.
     bindM (lrange_all (FORMAT_USER_ACTIVE_FISH_LIST (fmt uid))) (\<lambda>ids.
     bindM (mapM (filter (\<lambda>i. i \<noteq> []) ids) (active_message uid)) (\<lambda>l.
     retM (Inr (unread_first l)))))"

text \<open>Broadcasts of the lobby: all running ones of kind 1 and the first running one of kind 0.\<close>

definition broad_detail :: "string \<Rightarrow> (string \<times> int) rh" where
  "broad_detail b =
     bindM (hgetall (HALL_BRO_TABLE b)) (\<lambda>d.
     case map_of d ''content'' of None \<Rightarrow> raiseM KeyError | Some content \<Rightarrow>
     (case map_of d ''per_sec'' of None \<Rightarrow> raiseM KeyError | Some p \<Rightarrow>
      bindM (liftE (py_int p)) (\<lambda>n. retM (content, n))))"

definition getHallBroadInfo :: "(string \<times> int) list rh" where
  "getHallBroadInfo =
     bindM (smembers HALL_BRO_PLAY_SET) (\<lambda>play_set.
     bindM (lrange_all (FISH_BRO_CONTAIN_ALL_LIST ''1'')) (\<lambda>l1.
     bindM (mapM (filter (\<lambda>b. b \<in> set play_set) l1) broad_detail) (\<lambda>d1.
     bindM (lrange_all (FISH_BRO_CONTAIN_ALL_LIST ''0'')) (\<lambda>l0.
     bindM (mapM (take 1 (filter (\<lambda>b. b \<in> set play_set) l0)) broad_detail) (\<lambda>d0.
     retM (d1 @ d0))))))"

definition get_hall_broad :: "string \<Rightarrow> (int + (string \<times> int) list) rh" where
  "get_hall_broad sid = session_guard sid Inl (\<lambda>account uid user_table. bindM getHallBroadInfo (\<lambda>l. retM (Inr l)))"

section \<open>The lobby page\<close>

record lobby_page =
  pg_user :: "(string \<times> pyv option) list"
  pg_lobby :: "(string \<times> string) list"
  pg_rooms :: "(int \<times> pydict) list"
  pg_shop :: int
  pg_exchange :: int

definition or_zero :: "string option \<Rightarrow> pyv" where
  "or_zero v = (if truthy v then PStr (fmt v) else PInt 0)"

text \<open>0 for a player who has not shared, 1 for one whose reward waits, 2 for one who took it today.\<close>

definition share_state :: "clock \<Rightarrow> string option \<Rightarrow> int rh" where
  "share_state c uid =
     bindM (sismember FISH_SHARE_NOT_TAKE_SETS (fmt uid)) (\<lambda>waits. if waits then retM 1 else
     bindM (sismember (FISH_SHARE_TAKE_SETS (today_s c)) (fmt uid)) (\<lambda>taken. retM (if taken then 2 else 0)))"

definition lobby_user :: "login_env \<Rightarrow> string option \<Rightarrow> string \<Rightarrow> ((string \<times> pyv option) list \<times> string option list) rh" where
  "lobby_user E uid user_table =
     (let today = today_s (lclock E) in
      bindM (hmget user_table [''headImgUrl'', ''sex'', ''isVolntExitGroup'', ''coin'', ''exchange_ticket'']) (\<lambda>v.
      bindM (hmget user_table [''diamond'', ''warhead'', ''info_comp'', ''openid'', ''vip_level'', ''vip_charge'']) (\<lambda>w.
      bindM (liftE (int_or (w ! 2) 0)) (\<lambda>info_comp.
      bindM (share_state (lclock E) uid) (\<lambda>share.
      bindM (can_take_benefit (lclock E) uid user_table) (\<lambda>(code, info).
      bindM (hmget FISH_CONSTS_CONFIG [''share_coin'', ''exchange_shop'', ''hall_shop'', ''shop_version'', ''exchange_shop_ver'']) (\<lambda>k.
      bindM (get (day_gain_key (fmt uid) ''fish'' today)) (\<lambda>today_fish.
      bindM (get (day_gain_key (fmt uid) ''coins'' today)) (\<lambda>today_coins.
      bindM (get (day_gain_key (fmt uid) ''warheads'' today)) (\<lambda>today_warheads.
      bindM (liftE (int_or (w ! 0) 0)) (\<lambda>diamond.
      bindM (liftE (int_or (w ! 1) 0)) (\<lambda>warhead.
      bindM (liftE (int_or (w ! 4) 0)) (\<lambda>vip_level.
      bindM (liftE (int_or (w ! 5) 0)) (\<lambda>vip_charge.
      retM
        ([(''diamond'', Some (PInt diamond)), (''warhead'', Some (PInt warhead)), (''id'', map_option PStr uid), (''ip'', Some (PStr (remote_addr E))),
          (''picUrl'', map_option PStr (v ! 0)), (''exchangeTicket'', Some (PInt (to_int (v ! 4)))), (''isTakeReward'', Some (PInt share)),
          (''shareCoin'', Some (PInt (to_int (k ! 0)))), (''gender'', map_option PStr (v ! 1)), (''isTrail'', Some (PInt 0)),
          (''shop'', Some (PInt (to_int (k ! 2)))), (''exchangeShop'', Some (PInt (to_int (k ! 1)))), (''coin'', Some (PInt (to_int (v ! 3)))),
          (''canTakeBenefit'', Some (PInt (if code < 0 then 0 else 1))), (''info_comp'', Some (PInt info_comp)),
          (''is_weixin_user'', Some (PInt (if truthy (w ! 3) then 1 else 0))), (''today_fish'', Some (or_zero today_fish)),
          (''today_coins'', Some (or_zero today_coins)), (''today_warheads'', Some (or_zero today_warheads)),
          (''vip_levels'', Some (PInt vip_level)), (''vip_charge'', Some (PInt vip_charge))], k)))))))))))))))"

definition do_refresh :: "login_env \<Rightarrow> string \<Rightarrow> (int + lobby_page) rh" where
  "do_refresh E sid_form =
     bindM (get (kick_key (strip sid_form))) (\<lambda>k_uid. if truthy k_uid then retM (Inl (- 4)) else
     session_guard sid_form Inl (\<lambda>account uid user_table.
     thenM (do_sessionExpire E (FORMAT_USER_HALL_SESSION (strip sid_form)))
     (bindM (lobby_user E uid user_table) (\<lambda>(userInfo, k).
      bindM get_fish_hall_setting (\<lambda>lobbyInfo.
      bindM get_room_list (\<lambda>roomInfo.
      bindM (liftE (with_pack lobbyInfo)) (\<lambda>lobbyInfo.
      retM (Inr \<lparr>pg_user = userInfo, pg_lobby = lobbyInfo, pg_rooms = roomInfo, pg_shop = to_int (k ! 3), pg_exchange = to_int (k ! 4)\<rparr>))))))))"

section \<open>Red packets\<close>

record red_row =
  rr_name :: "string option"
  rr_number :: int
  rr_img :: "string option"
  rr_account :: string

definition red_row_of :: "string \<times> string \<Rightarrow> red_row rh" where
  "red_row_of e =
     bindM (get (FORMAT_ACCOUNT2USER_TABLE (fst e))) (\<lambda>userTable.
     bindM (hmget (fmt userTable) [''nickname'', ''headImgUrl'']) (\<lambda>v.
     bindM (liftE (py_int (snd e))) (\<lambda>n.
     retM \<lparr>rr_name = v ! 0, rr_number = n, rr_img = v ! 1, rr_account = fst e\<rparr>)))"

text \<open>The ten players with most red packets, and the last place of the account among them (0 for none).\<close>

definition red_top :: "red_row list \<Rightarrow> red_row list" where
  "red_top l = take 10 (sort_key (\<lambda>r. - rr_number r) l)"

definition last_place :: "string option \<Rightarrow> red_row list \<Rightarrow> nat" where
  "last_place account l = (case rev (filter (\<lambda>i. account = Some (rr_account (l ! i))) [0..<length l]) of [] \<Rightarrow> 0 | i # _ \<Rightarrow> i + 1)"

text \<open>The page also holds the number of red packets of the player; each is worth eight.\<close>

definition redPackOrder :: "string \<Rightarrow> (reply + red_row list \<times> int \<times> nat) rh" where
  "redPackOrder sid_form =
     bindM (getInfoBySid (strip sid_form)) (\<lambda>(SessionTable, account, uid, verfiySid).
     bindM (exists_key SessionTable) (\<lambda>alive. if \<not> alive then retM (Inl (Reply (- 3) ''session'')) else
     bindM (hget redpick_hesh (fmt account)) (\<lambda>curPick.
     bindM (get (FORMAT_ACCOUNT2USER_TABLE (fmt account))) (\<lambda>userTable.
     thenM (hmget (fmt userTable) [''nickname'', ''headImgUrl''])
     (bindM (liftE (int_or curPick 0)) (\<lambda>mine.
      bindM (hgetall redpick_hesh) (\<lambda>order.
      bindM (mapM order red_row_of) (\<lambda>rows.
      let result = red_top rows in
      retM (Inr (result, mine, last_place account result))))))))))"

end
