(* ===== verification/FishRank.thy ===== *)
theory FishRank
  imports FishLobby
begin

text \<open>
  The rankings of the fishing lobby (fish/fish.py, fish_util/fish_func.py): by profit and by coins, read from
  sorted sets, and the ranking of warheads kept as a text.  Scores are integers.
\<close>

definition TMP_FORMAT_USER_COIN_TABLE :: string where "TMP_FORMAT_USER_COIN_TABLE = ''users:coinTmp:zset''"
definition TMP_FORMAT_USER_COINDELTA_TABLE :: string where "TMP_FORMAT_USER_COINDELTA_TABLE = ''users:coinDeltaTmp:zset''"
definition RANK_COUNT :: nat where "RANK_COUNT = 10"
definition MY_MAX_RANK :: int where "MY_MAX_RANK = 50"
definition NOT_RANK_USE_NUM :: int where "NOT_RANK_USE_NUM = 10000"

section \<open>Reading a sorted set from the top\<close>

text \<open>By falling score, members of the same score by falling name.\<close>

definition zdesc :: "(string \<times> int) list \<Rightarrow> (string \<times> int) list" where
  "zdesc l = rev (sort_key snd (sort_key fst l))"

definition zread :: "string \<Rightarrow> ((string \<times> int) list \<Rightarrow> 'a) \<Rightarrow> 'a rh" where
  "zread k f = (\<lambda>s. if is_zset s k then (Inr (f (zdesc (zset_of s k))), s) else (Inl ResponseError, s))"

definition zrevrange :: "string \<Rightarrow> nat \<Rightarrow> nat \<Rightarrow> (string \<times> int) list rh" where
  "zrevrange k i j = zread k (\<lambda>l. take (Suc j - i) (drop i l))"

definition zrevrangebyscore :: "string \<Rightarrow> int \<Rightarrow> int \<Rightarrow> string list rh" where
  "zrevrangebyscore k hi lo = zread k (\<lambda>l. map fst (filter (\<lambda>e. lo \<le> snd e \<and> snd e \<le> hi) l))"

definition zrevrank :: "string \<Rightarrow> string \<Rightarrow> nat option rh" where
  "zrevrank k m = zread k (\<lambda>l. if m \<in> fst ` set l then Some (length (takeWhile (\<lambda>e. fst e \<noteq> m) l)) else None)"

section \<open>Rows\<close>

record rank_row =
  r_rank :: int
  r_name :: "string option"
  r_img :: "string option"
  r_score :: int
  r_uid :: int

definition pbAppendRank :: "rank_row list \<Rightarrow> int \<Rightarrow> string option \<Rightarrow> string option \<Rightarrow> int \<Rightarrow> int \<Rightarrow> rank_row list" where
  "pbAppendRank rankList rank nickname img score uid =
     rankList @ [\<lparr>r_rank = rank, r_name = nickname, r_img = img, r_score = score, r_uid = uid\<rparr>]"

text \<open>The number in a user table: \<open>int(table.split(':')[1])\<close>.\<close>

definition table_uid :: "string option \<Rightarrow> exn + int" where
  "table_uid t = (case t of None \<Rightarrow> Inl AttributeError | Some t \<Rightarrow>
     (case split_on (CHR '':'') t of _ # p # _ \<Rightarrow> py_int p | _ \<Rightarrow> Inl IndexError))"

text \<open>How far the list reaches: to the fiftieth player and all who share its score.\<close>

definition last_rank :: "string \<Rightarrow> nat rh" where
  "last_rank T =
     bindM (zrevrange T 49 49) (\<lambda>lastPlayers. case lastPlayers of [] \<Rightarrow> retM 49 | p # _ \<Rightarrow>
     bindM (zrevrangebyscore T (snd p) (snd p)) (\<lambda>l.
     bindM (zrevrank T (hd l)) (\<lambda>r. case r of None \<Rightarrow> raiseM TypeError | Some r \<Rightarrow> retM (r + length l - 1))))"

text \<open>Whether somebody is below zero.\<close>

definition below_zero :: "string \<Rightarrow> bool rh" where
  "below_zero T =
     bindM (zrevrangebyscore T 0 0) (\<lambda>zeroPlayers. if zeroPlayers = [] then retM False else
     bindM (zrevrank T (last zeroPlayers)) (\<lambda>r. case r of None \<Rightarrow> raiseM TypeError | Some r \<Rightarrow>
     bindM (zrevrange T (r + 1) (r + 1)) (\<lambda>l. retM (l \<noteq> []))))"

record rank_walk =
  w_rank :: int
  w_same :: int
  w_delta :: int
  w_self :: int
  w_self_delta :: int
  w_rows :: "rank_row list"

text \<open>The loop over the players; \<open>skip\<close> leaves out those below zero, as the ranking by profit does.\<close>

fun walk_players :: "bool \<Rightarrow> bool \<Rightarrow> string option \<Rightarrow> (string \<times> int) list \<Rightarrow> rank_walk \<Rightarrow> rank_walk rh" where
  "walk_players skip debt account [] w = retM w"
| "walk_players skip debt account (p # ps) w =
     (let ahead = snd p \<ge> w_delta w;
          rank = (if ahead then w_rank w else w_rank w + w_same w);
          w = w\<lparr>w_rank := rank, w_same := (if ahead then w_same w + 1 else 1), w_delta := snd p\<rparr> in
      if skip \<and> snd p < 0 then walk_players skip debt account ps w else
      bindM (get (FORMAT_ACCOUNT2USER_TABLE (fst p))) (\<lambda>playerTable.
      bindM (hmget (fmt playerTable) [''nickname'', ''headImgUrl'']) (\<lambda>v.
      bindM (liftE (table_uid playerTable)) (\<lambda>uid.
      let rows = pbAppendRank (w_rows w) rank (v ! 0) (v ! 1) (snd p) uid in
      walk_players skip debt account ps
        (if Some (fst p) = account then w\<lparr>w_self := rank, w_self_delta := snd p, w_rows := rows\<rparr>
         else if snd p \<noteq> 0 \<or> debt then w\<lparr>w_rows := rows\<rparr> else w)))))"

text \<open>Players of the same score are put in the order of their ids.\<close>

fun insert_before :: "rank_row \<Rightarrow> rank_row list \<Rightarrow> rank_row list option" where
  "insert_before r [] = None"
| "insert_before r (x # l) =
     (if r_score r = r_score x \<and> r_uid r < r_uid x then Some (r # x # l) else map_option (Cons x) (insert_before r l))"

definition rank_add :: "rank_row list \<Rightarrow> rank_row \<Rightarrow> rank_row list" where
  "rank_add l r = (case insert_before r l of Some l' \<Rightarrow> l' | None \<Rightarrow> if r \<in> set l then l else l @ [r])"

definition rank_list :: "rank_row list \<Rightarrow> rank_row list" where
  "rank_list rows = (case rows of [] \<Rightarrow> [] | r # l \<Rightarrow> foldl rank_add [r] l)"

definition number_rows :: "rank_row list \<Rightarrow> rank_row list" where
  "number_rows l = map (\<lambda>(i, r). r\<lparr>r_rank := int i + 1\<rparr>) (enumerate 0 l)"

definition rank_of_uid :: "int \<Rightarrow> rank_row list \<Rightarrow> int \<Rightarrow> int" where
  "rank_of_uid uid l d = foldl (\<lambda>n r. if r_uid r = uid then r_rank r else n) d l"

text \<open>The rank of a player who is not among the listed ones.\<close>

definition own_rank :: "string \<Rightarrow> string option \<Rightarrow> rank_walk \<Rightarrow> (int \<times> int) rh" where
  "own_rank T account w =
     (if w_self w \<noteq> 0 then retM (w_self w, w_self_delta w) else
      bindM (zscore T (fmt account)) (\<lambda>d.
      if d = None \<or> d = Some 0 then retM (NOT_RANK_USE_NUM, 0) else
      bindM (zrevrangebyscore T (the d) (the d)) (\<lambda>l.
      if l = [] then retM (w_rank w + 1, the d) else
      bindM (zrevrank T (hd l)) (\<lambda>r. case r of None \<Rightarrow> raiseM TypeError | Some r \<Rightarrow> retM (int r + 1, the d)))))"

record rank_page =
  p_rows :: "rank_row list"
  p_self :: rank_row

definition rank_section :: "string \<Rightarrow> bool \<Rightarrow> string option \<Rightarrow> string \<Rightarrow> rank_page rh" where
  "rank_section T skip account user_table =
     bindM (last_rank T) (\<lambda>lastRank.
     bindM (zrevrange T 0 lastRank) (\<lambda>players.
     bindM (below_zero T) (\<lambda>debt.
     bindM (walk_players skip debt account players
       \<lparr>w_rank = 1, w_same = 0, w_delta = (case players of [] \<Rightarrow> 0 | p # _ \<Rightarrow> snd p), w_self = 0, w_self_delta = 0, w_rows = []\<rparr>) (\<lambda>w.
     bindM (own_rank T account w) (\<lambda>(selfRank, selfDelta).
     bindM (hmget user_table [''nickname'', ''headImgUrl'']) (\<lambda>v.
     bindM (liftE (table_uid (Some user_table))) (\<lambda>uid.
     let rankList = number_rows (rank_list (w_rows w));
         selfRank = rank_of_uid uid rankList selfRank;
         selfRank = (if selfRank > MY_MAX_RANK then NOT_RANK_USE_NUM else selfRank) in
     retM \<lparr>p_rows = take RANK_COUNT rankList,
       p_self = \<lparr>r_rank = selfRank, r_name = v ! 0, r_img = v ! 1, r_score = max 0 selfDelta, r_uid = uid\<rparr>\<rparr>)))))))"

text \<open>The row of the player closes both lists; in the list by coins it shows the coins of the user table.\<close>

definition do_getRank :: "string option \<Rightarrow> (int + rank_page \<times> rank_page \<times> string option) rh" where
  "do_getRank sid_form =
     (case sid_form of None \<Rightarrow> raiseM AttributeError | Some sid_form \<Rightarrow>
      session_guard sid_form Inl (\<lambda>account uid user_table.
      bindM (get (FORMAT_ACCOUNT2USER_TABLE (fmt account))) (\<lambda>curTable.
      bindM (hget (fmt curTable) ''coin'') (\<lambda>curScore.
      bindM (rank_section TMP_FORMAT_USER_COINDELTA_TABLE True account user_table) (\<lambda>profit.
      bindM (rank_section TMP_FORMAT_USER_COIN_TABLE False account user_table) (\<lambda>coins.
      retM (Inr (profit, coins, curScore))))))))"

section \<open>The ranking of warheads\<close>

record war_row =
  wr_rank :: nat
  wr_uid :: string
  wr_amount :: string
  wr_name :: "string option"
  wr_img :: "string option"
  wr_today :: "pyv list"

definition war_rows :: "string \<Rightarrow> (string \<times> string) list \<Rightarrow> war_row list rh" where
  "war_rows today l =
     mapM (enumerate 0 l) (\<lambda>(index, t).
       bindM (hmget (user_key (Some (fst t))) [''nickname'', ''headImgUrl'']) (\<lambda>v.
       bindM (get (day_gain_key (fst t) ''fish'' today)) (\<lambda>today_fish.
       bindM (get (day_gain_key (fst t) ''coins'' today)) (\<lambda>today_coins.
       bindM (get (day_gain_key (fst t) ''warheads'' today)) (\<lambda>today_warheads.
       retM \<lparr>wr_rank = index + 1, wr_uid = fst t, wr_amount = snd t, wr_name = v ! 0, wr_img = v ! 1,
         wr_today = [or_zero today_fish, or_zero today_coins, or_zero today_warheads]\<rparr>)))))"

text \<open>\<open>ev\<close> is \<open>eval\<close> of a list of pairs.\<close>

definition war_rank :: "(string \<Rightarrow> exn + (string \<times> string) list) \<Rightarrow> string \<Rightarrow> (war_row list \<times> war_row list) rh" where
  "war_rank ev today =
     bindM (get ''gain:rank:list'') (\<lambda>a.
     bindM (liftE (case a of None \<Rightarrow> Inl TypeError | Some t \<Rightarrow> ev t)) (\<lambda>warhead_list.
     bindM (get ''cost:rank:list'') (\<lambda>b.
     bindM (liftE (case b of None \<Rightarrow> Inl TypeError | Some t \<Rightarrow> ev t)) (\<lambda>active_list.
     bindM (war_rows today warhead_list) (\<lambda>x.
     bindM (war_rows today active_list) (\<lambda>y. retM (x, y)))))))"

end
