(* ===== verification/RankLaws.thy ===== *)
theory RankLaws
  imports FishRank RunRules "HOL-Library.Multiset"
begin

text \<open>
  What the rankings of the lobby show: the best players in order, numbered from one, and the order of the red
  packets.
\<close>

section \<open>Sorted sets\<close>

lemma wp_zread [wp_eqs]: "wp (zread k f) Q E s = (if is_zset s k then Q (f (zdesc (zset_of s k))) s else E ResponseError s)"
  by (simp add: wp_def zread_def)

lemma wp_zscore [wp_eqs]: "wp (zscore k m) Q E s = (if is_zset s k then Q (map_of (zset_of s k) m) s else E ResponseError s)"
  by (simp add: wp_def zscore_def)

lemma set_zdesc [simp]: "set (zdesc l) = set l"
  by (simp add: zdesc_def)

lemma zdesc_sorted: "sorted_wrt (\<lambda>a b. snd b \<le> snd a) (zdesc l)"
proof -
  have "sorted (map snd (sort_key snd (sort_key fst l)))" by simp
  then show ?thesis unfolding zdesc_def sorted_wrt_rev by (simp add: sorted_map)
qed

lemma distinct_zdesc: "distinct (map fst l) \<Longrightarrow> distinct (map fst (zdesc l))"
proof -
  have "mset (map fst (zdesc l)) = mset (map fst l)" unfolding mset_map by (simp add: zdesc_def)
  then show "distinct (map fst l) \<Longrightarrow> distinct (map fst (zdesc l))" by (metis mset_eq_imp_distinct_iff)
qed

section \<open>The order of the rows\<close>

definition row_before :: "rank_row \<Rightarrow> rank_row \<Rightarrow> bool" where
  "row_before r x \<longleftrightarrow> r_score x < r_score r \<or> (r_score x = r_score r \<and> r_uid r \<le> r_uid x)"

lemma insert_before_Some:
  "insert_before r l = Some l' \<Longrightarrow> set l' = insert r (set l)"
  by (induction l arbitrary: l') (auto split: if_splits)

lemma insert_before_sorted:
  assumes "insert_before r l = Some l'" "sorted_wrt row_before l" "\<forall>x\<in>set l. r_score r \<le> r_score x"
  shows "sorted_wrt row_before l'"
  using assms
proof (induction l arbitrary: l')
  case (Cons x l)
  show ?case
  proof (cases "r_score r = r_score x \<and> r_uid r < r_uid x")
    case True
    then have "row_before r y" if "y \<in> set (x # l)" for y
      using Cons.prems(2,3) that by (auto simp: row_before_def)
    with True Cons.prems show ?thesis by auto
  next
    case False
    then obtain l1 where l1: "insert_before r l = Some l1" "l' = x # l1" using Cons.prems(1) by auto
    have "row_before x r" using False Cons.prems(3) by (auto simp: row_before_def)
    with l1 Cons.IH [OF l1(1)] Cons.prems(2,3) insert_before_Some [OF l1(1)] show ?thesis by auto
  qed
qed simp

lemma insert_before_None:
  "insert_before r l = None \<Longrightarrow> x \<in> set l \<Longrightarrow> r_score r \<le> r_score x \<Longrightarrow> row_before x r"
  by (induction l) (auto simp: row_before_def split: if_splits)

lemma rank_add_sorted:
  assumes "sorted_wrt row_before l" "\<forall>x\<in>set l. r_score r \<le> r_score x"
  shows "sorted_wrt row_before (rank_add l r) \<and> set (rank_add l r) = insert r (set l)"
proof (cases "insert_before r l")
  case None
  then show ?thesis using assms insert_before_None [OF None] by (auto simp: rank_add_def sorted_wrt_append)
next
  case (Some l')
  then show ?thesis using insert_before_sorted [OF Some assms] insert_before_Some [OF Some] by (simp add: rank_add_def)
qed

lemma rank_list_sorted:
  assumes "sorted_wrt (\<lambda>a b. r_score b \<le> r_score a) rows"
  shows "sorted_wrt row_before (rank_list rows) \<and> set (rank_list rows) = set rows"
proof -
  have "sorted_wrt row_before (foldl rank_add l rs) \<and> set (foldl rank_add l rs) = set l \<union> set rs"
    if "sorted_wrt row_before l" "\<forall>x\<in>set l. \<forall>r\<in>set rs. r_score r \<le> r_score x" "sorted_wrt (\<lambda>a b. r_score b \<le> r_score a) rs" for l rs
    using that
  proof (induction rs arbitrary: l)
    case (Cons r rs)
    then have a: "sorted_wrt row_before (rank_add l r) \<and> set (rank_add l r) = insert r (set l)"
      by (intro rank_add_sorted) auto
    with Cons.prems have "\<forall>x\<in>set (rank_add l r). \<forall>r\<in>set rs. r_score r \<le> r_score x" by auto
    with Cons.IH [of "rank_add l r"] a Cons.prems(3) show ?case by auto
  qed simp
  from this [of "[hd rows]" "tl rows"] show ?thesis
    using assms by (cases rows) (auto simp: rank_list_def)
qed

lemma number_rows_props:
  "map r_rank (number_rows l) = map int [1..<length l + 1]" "map r_score (number_rows l) = map r_score l" "map r_uid (number_rows l) = map r_uid l"
  "length (number_rows l) = length l"
proof -
  show "map r_rank (number_rows l) = map int [1..<length l + 1]"
    by (rule nth_equalityI) (simp_all add: number_rows_def nth_enumerate_eq del: upt_Suc)
  show "map r_score (number_rows l) = map r_score l" "map r_uid (number_rows l) = map r_uid l"
    by (rule nth_equalityI; simp add: number_rows_def nth_enumerate_eq)+
  show "length (number_rows l) = length l" by (simp add: number_rows_def)
qed

section \<open>How far the list reaches\<close>

lemma filter_tie:
  fixes L :: "(string \<times> int) list"
  assumes "sorted_wrt (\<lambda>a b. snd b \<le> snd a) L" "distinct (map fst L)" "49 < length L" "v = snd (L ! 49)"
    "F = filter (\<lambda>e. v \<le> snd e \<and> snd e \<le> v) L" "r = length (takeWhile (\<lambda>e. fst e \<noteq> fst (hd F)) L)"
  shows "F \<noteq> [] \<and> 50 \<le> r + length F"
proof -
  have in49: "L ! 49 \<in> set F" using assms(3-5) by auto
  then have ne: "F \<noteq> []" by auto
  then have hd: "hd F \<in> set L" "snd (hd F) = v" using hd_in_set [OF ne] assms(5) by auto
  then obtain q where q: "q < length L" "L ! q = hd F" by (auto simp: in_set_conv_nth)
  have r: "r \<le> length L" by (simp add: assms(6) length_takeWhile_le)
  have "r \<le> q" unfolding assms(6) using q by (metis (mono_tags, lifting) linorder_not_less nth_mem takeWhile_nth set_takeWhileD)
  then have rl: "r < length L" using q by simp
  then have "fst (L ! r) = fst (hd F)" using nth_length_takeWhile [of "\<lambda>e. fst e \<noteq> fst (hd F)" L] by (simp add: assms(6))
  then have "r = q" using assms(2) q rl by (metis (no_types, lifting) length_map nth_eq_iff_index_eq nth_map)
  have mid: "snd (L ! i) = v" if "r \<le> i" "i \<le> 49" for i
  proof (rule antisym)
    show "snd (L ! i) \<le> v" using sorted_wrt_nth_less [OF assms(1), of r i] that assms(3) q \<open>r = q\<close> hd(2) by (cases "r = i") auto
    show "v \<le> snd (L ! i)" using sorted_wrt_nth_less [OF assms(1), of i 49] that assms(3,4) by (cases "i = 49") auto
  qed
  have "length F = card {i. i < length L \<and> v \<le> snd (L ! i) \<and> snd (L ! i) \<le> v}" unfolding assms(5) by (rule length_filter_conv_card)
  moreover have "{r..49} \<subseteq> {i. i < length L \<and> v \<le> snd (L ! i) \<and> snd (L ! i) \<le> v}" using mid assms(3) by auto
  ultimately have "50 - r \<le> length F" using card_mono [of "{i. i < length L \<and> v \<le> snd (L ! i) \<and> snd (L ! i) \<le> v}" "{r..49}"] by simp
  with ne show ?thesis by simp
qed

lemma last_rank_ok:
  assumes "distinct (map fst (zset_of s T))"
  shows "wp (last_rank T) (\<lambda>n t. t = s \<and> 49 \<le> n) (\<lambda>_ _. True) s"
proof -
  let ?L = "zdesc (zset_of s T)"
  have "50 \<le> r + length F"
    if "take 1 (drop 49 ?L) = p # l" "F = filter (\<lambda>e. snd p \<le> snd e \<and> snd e \<le> snd p) ?L" "r = length (takeWhile (\<lambda>e. fst e \<noteq> hd (map fst F)) ?L)" for p l F r
  proof -
    have l: "49 < length ?L" using that(1) by (cases "49 < length ?L") auto
    moreover have "p = ?L ! 49" using that(1) l by (simp add: take_Suc hd_drop_conv_nth)
    ultimately have "F \<noteq> []" "50 \<le> length (takeWhile (\<lambda>e. fst e \<noteq> fst (hd F)) ?L) + length F"
      using filter_tie [OF zdesc_sorted distinct_zdesc [OF assms], of "snd p" F] that(2) by simp_all
    then show ?thesis unfolding that(3) by (simp add: hd_map)
  qed
  from this [OF _ refl refl] have tie: "49 \<le> length (takeWhile (\<lambda>e. fst e \<noteq> hd (map fst (filter (\<lambda>e. b \<le> snd e \<and> snd e \<le> b) ?L))) ?L) +
      length (filter (\<lambda>e. b \<le> snd e \<and> snd e \<le> b) ?L) - Suc 0" if "take (Suc 0) (drop 49 ?L) = (a, b) # l" for a b l
    using that by fastforce
  show ?thesis
    unfolding last_rank_def zrevrange_def zrevrangebyscore_def zrevrank_def
    by (auto simp: wp_eqs split: list.split option.split intro: tie)
qed

section \<open>The rows of a ranking\<close>

definition row_of :: "redis \<Rightarrow> string \<Rightarrow> rank_row \<Rightarrow> bool" where
  "row_of s m r \<longleftrightarrow> (\<exists>ut. look s (FORMAT_ACCOUNT2USER_TABLE m) = Some (RStr ut) \<and> table_uid (Some ut) = Inr (r_uid r))"

text \<open>What the loop adds for some players: rows of theirs in falling order, one for everybody above zero.\<close>

definition walked :: "redis \<Rightarrow> bool \<Rightarrow> (string \<times> int) list \<Rightarrow> rank_row list \<Rightarrow> bool" where
  "walked s skip ps new \<longleftrightarrow>
     (sorted_wrt (\<lambda>a b. snd b \<le> snd a) ps \<longrightarrow> sorted_wrt (\<lambda>a b. r_score b \<le> r_score a) new) \<and>
     (\<forall>r\<in>set new. (\<exists>m. (m, r_score r) \<in> set ps \<and> row_of s m r) \<and> (skip \<longrightarrow> 0 \<le> r_score r)) \<and>
     (\<forall>m v. (m, v) \<in> set ps \<and> 0 < v \<longrightarrow> (\<exists>r\<in>set new. r_score r = v \<and> row_of s m r))"

lemma walked_skip: "walked s skip ps new \<Longrightarrow> snd p \<le> 0 \<Longrightarrow> walked s skip (p # ps) new"
  by (auto simp: walked_def)

lemma walked_Cons:
  assumes "walked s skip ps new" "row_of s (fst p) r" "r_score r = snd p" "skip \<longrightarrow> 0 \<le> snd p"
  shows "walked s skip (p # ps) (r # new)"
  using assms unfolding walked_def by (cases p) (fastforce simp: Ball_def)

lemma walk_players_ok:
  "wp (walk_players skip debt account ps w) (\<lambda>w' t. t = s \<and> (\<exists>new. w_rows w' = w_rows w @ new \<and> walked s skip ps new)) (\<lambda>_ _. True) s"
proof (induction ps arbitrary: w)
  case Nil
  show ?case by (auto simp: wp_eqs walked_def)
next
  case (Cons p ps)
  let ?Q = "\<lambda>R w' t. t = s \<and> (\<exists>new. w_rows w' = R @ new \<and> walked s skip (p # ps) new)"
  have skipped: "wp (walk_players skip debt account ps w) (?Q R) (\<lambda>_ _. True) s" if "w_rows w = R" "snd p \<le> 0" for w R
    by (rule wp_mono [OF Cons.IH]) (use that in \<open>auto intro: walked_skip\<close>)
  have added: "wp (walk_players skip debt account ps w) (?Q R) (\<lambda>_ _. True) s"
    if "w_rows w = pbAppendRank R n x y (snd p) uid" "row_of s (fst p) \<lparr>r_rank = n, r_name = x, r_img = y, r_score = snd p, r_uid = uid\<rparr>"
      "skip \<longrightarrow> 0 \<le> snd p" for w R n x y uid
  proof (rule wp_mono [OF Cons.IH])
    fix w' t assume "t = s \<and> (\<exists>new. w_rows w' = w_rows w @ new \<and> walked s skip ps new)"
    then obtain new where new: "t = s" "w_rows w' = w_rows w @ new" "walked s skip ps new" by blast
    let ?r = "\<lparr>r_rank = n, r_name = x, r_img = y, r_score = snd p, r_uid = uid\<rparr>"
    from new(2) that(1) have "w_rows w' = R @ ?r # new" by (simp add: pbAppendRank_def)
    with new(1) walked_Cons [OF new(3) that(2) _ that(3)] show "?Q R w' t" by fastforce
  qed
  show ?case
    unfolding walk_players.simps Let_def
  proof (intro ok_wp, goal_cases)
    case 1
    then show ?case by (intro skipped) simp_all
  next
    case (2 ut uid)
    then have row: "row_of s (fst p) \<lparr>r_rank = n, r_name = x, r_img = y, r_score = v, r_uid = uid\<rparr>" for n x y v
      by (cases ut) (simp_all add: row_of_def table_uid_def)
    show ?case
    proof (cases "Some (fst p) = account \<or> snd p \<noteq> 0 \<or> debt")
      case True
      then show ?thesis
        using 2 by (intro added [of _ _ "if w_delta w \<le> snd p then w_rank w else w_rank w + w_same w"
          "hf s (fmt ut) ''nickname''" "hf s (fmt ut) ''headImgUrl''" uid] row) auto
    next
      case False
      then show ?thesis by (intro skipped) auto
    qed
  qed
qed

lemma rank_reads:
  "wp (below_zero T) (\<lambda>_ t. t = s) (\<lambda>_ _. True) s" "wp (own_rank T account w) (\<lambda>_ t. t = s) (\<lambda>_ _. True) s"
  unfolding below_zero_def own_rank_def zrevrange_def zrevrangebyscore_def zrevrank_def
  by (auto simp: wp_eqs split: option.split)

lemma rank_section_ok:
  assumes "distinct (map fst (zset_of s T))"
  shows "wp (rank_section T skip account ut) (\<lambda>p t. t = s \<and>
     (\<exists>n rows. 49 \<le> n \<and> walked s skip (take (Suc n) (zdesc (zset_of s T))) rows \<and> p_rows p = take 10 (number_rows (rank_list rows)))) (\<lambda>_ _. True) s"
  unfolding rank_section_def zrevrange_def
proof (rule ok_bindM, rule wp_mono [OF last_rank_ok [OF assms]], goal_cases)
  case (1 n t)
  then have n: "t = s" "49 \<le> n" by simp_all
  let ?ps = "take (Suc n) (zdesc (zset_of s T))"
  show ?case
    unfolding n(1)
  proof (rule ok_bindM, simp only: wp_zread drop_0 minus_nat.diff_0 if_bool_eq_conj, intro conjI impI TrueI,
      rule ok_bindM, rule wp_mono [OF rank_reads(1)], goal_cases)
    case (1 debt t)
    then have t: "t = s" by simp
    show ?case
      unfolding t
    proof (rule ok_bindM, rule wp_mono [OF walk_players_ok], goal_cases)
      case (1 w t)
      then obtain rows where w: "t = s" "w_rows w = rows" "walked s skip ?ps rows" by auto
      have post: "\<exists>n r. 49 \<le> n \<and> walked s skip (take (Suc n) (zdesc (zset_of s T))) r \<and>
          take 10 (number_rows (rank_list (w_rows w))) = take 10 (number_rows (rank_list r))"
        using n(2) w(2,3) by blast
      show ?case
        unfolding w(1)
        by (rule ok_bindM, rule wp_mono [OF rank_reads(2)])
          (use post in \<open>simp add: wp_eqs Let_def RANK_COUNT_def split: sum.split prod.split\<close>)
    qed simp
  qed simp_all
qed simp

lemma number_rows_nth:
  assumes "i < length l"
  shows "r_score (number_rows l ! i) = r_score (l ! i) \<and> r_uid (number_rows l ! i) = r_uid (l ! i)"
  using assms number_rows_props(2-4) [of l] by (metis nth_map)

lemma number_rows_sorted: "sorted_wrt row_before l \<Longrightarrow> sorted_wrt row_before (number_rows l)"
  by (simp add: sorted_wrt_iff_nth_less number_rows_props(4) number_rows_nth row_before_def)

lemma number_rows_mem:
  assumes "r \<in> set (number_rows l)" shows "\<exists>x\<in>set l. r_score x = r_score r \<and> r_uid x = r_uid r"
  using assms number_rows_nth number_rows_props(4) by (metis in_set_conv_nth)

lemma number_rows_mem':
  assumes "x \<in> set l" shows "\<exists>r\<in>set (number_rows l). r_score r = r_score x \<and> r_uid r = r_uid x"
  using assms number_rows_nth number_rows_props(4) by (metis in_set_conv_nth)

lemma row_of_uid: "row_of s m r \<Longrightarrow> r_uid x = r_uid r \<Longrightarrow> row_of s m x"
  by (simp add: row_of_def)

text \<open>C27: a ranking lists at most ten players, numbered from one, by falling score and players of one score by their ids.  Every row
  is that of a member of the sorted set, and each of its first fifty members with a positive score has a row, or there
  are ten rows and none is behind it.  Nothing is written.\<close>

theorem rank_section_best:
  assumes "rank_section T skip account ut s = (Inr p, t)" "distinct (map fst (zset_of s T))"
  shows "t = s \<and> length (p_rows p) \<le> 10 \<and> map r_rank (p_rows p) = map int [1..<length (p_rows p) + 1] \<and> sorted_wrt row_before (p_rows p) \<and>
    (\<forall>r\<in>set (p_rows p). \<exists>m. (m, r_score r) \<in> set (zset_of s T) \<and> row_of s m r) \<and>
    (\<forall>m v. (m, v) \<in> set (take 50 (zdesc (zset_of s T))) \<and> 0 < v \<longrightarrow>
      (\<exists>r\<in>set (p_rows p). r_score r = v \<and> row_of s m r) \<or> (length (p_rows p) = 10 \<and> (\<forall>r\<in>set (p_rows p). v \<le> r_score r)))"
proof -
  from wp_InrD [OF rank_section_ok [OF assms(2)] assms(1)] obtain n rows where ts: "t = s" and n: "49 \<le> n"
    and w: "walked s skip (take (Suc n) (zdesc (zset_of s T))) rows" and p: "p_rows p = take 10 (number_rows (rank_list rows))"
    by blast
  let ?L = "number_rows (rank_list rows)"
  have "sorted_wrt (\<lambda>a b. r_score b \<le> r_score a) rows" using w zdesc_sorted sorted_wrt_take unfolding walked_def by blast
  from rank_list_sorted [OF this] have L: "sorted_wrt row_before ?L" "set (rank_list rows) = set rows" by (simp_all add: number_rows_sorted)
  have rows: "\<exists>m. (m, r_score r) \<in> set (zset_of s T) \<and> row_of s m r" if "r \<in> set (p_rows p)" for r
  proof -
    from that p have "r \<in> set ?L" by (auto dest: in_set_takeD)
    then obtain x where x: "x \<in> set rows" "r_score x = r_score r" "r_uid x = r_uid r" using number_rows_mem L(2) by blast
    then obtain m where "(m, r_score x) \<in> set (take (Suc n) (zdesc (zset_of s T)))" "row_of s m x" using w unfolding walked_def by blast
    then have "(m, r_score r) \<in> set (zset_of s T)" "row_of s m r" using x by (auto dest!: in_set_takeD intro: row_of_uid)
    then show ?thesis by blast
  qed
  have best: "(\<exists>r\<in>set (p_rows p). r_score r = v \<and> row_of s m r) \<or> (length (p_rows p) = 10 \<and> (\<forall>r\<in>set (p_rows p). v \<le> r_score r))"
    if mv: "(m, v) \<in> set (take 50 (zdesc (zset_of s T)))" and v: "0 < v" for m v
  proof -
    have "(m, v) \<in> set (take (Suc n) (zdesc (zset_of s T)))" using mv n set_take_subset_set_take [of 50 "Suc n" "zdesc (zset_of s T)"] by auto
    then obtain x where "x \<in> set rows" "r_score x = v" "row_of s m x" using w v unfolding walked_def by blast
    then obtain r where r: "r \<in> set ?L" "r_score r = v" "row_of s m r" using number_rows_mem' [of x "rank_list rows"] L(2) row_of_uid by blast
    show ?thesis
    proof (cases "r \<in> set (take 10 ?L)")
      case True
      then show ?thesis unfolding p using r(2,3) by blast
    next
      case False
      then have d: "r \<in> set (drop 10 ?L)" using r(1) set_append [of "take 10 ?L" "drop 10 ?L"] by simp
      have "sorted_wrt row_before (take 10 ?L @ drop 10 ?L)" using L(1) by simp
      then have "row_before x r" if "x \<in> set (take 10 ?L)" for x using d that unfolding sorted_wrt_append by blast
      then have "\<forall>x\<in>set (take 10 ?L). v \<le> r_score x" using r(2) unfolding row_before_def by force
      moreover have "length (take 10 ?L) = 10" using d by (cases "length ?L \<le> 10") auto
      ultimately show ?thesis using p by simp
    qed
  qed
  have "map r_rank (p_rows p) = map int [1..<length (p_rows p) + 1]"
    unfolding p by (rule nth_equalityI) (simp_all add: number_rows_def nth_enumerate_eq del: upt_Suc)
  moreover have "sorted_wrt row_before (p_rows p)" unfolding p using L(1) by (rule sorted_wrt_take)
  moreover have "length (p_rows p) \<le> 10" by (simp add: p)
  ultimately show ?thesis using ts rows best by blast
qed

definition demo_rank :: redis where
  "demo_rank = \<lparr>kv = [(''z'', RZset [(''ann'', 5), (''bob'', 9), (''eve'', 5)]),
     (FORMAT_ACCOUNT2USER_TABLE ''ann'', RStr ''users:2''), (FORMAT_ACCOUNT2USER_TABLE ''bob'', RStr ''users:3''),
     (FORMAT_ACCOUNT2USER_TABLE ''eve'', RStr ''users:1'')], ttl = []\<rparr>"

definition demo_walked :: rank_walk where
  "demo_walked = \<lparr>w_rank = 2, w_same = 2, w_delta = 5, w_self = 2, w_self_delta = 5, w_rows =
     [\<lparr>r_rank = 1, r_name = None, r_img = None, r_score = 9, r_uid = 3\<rparr>, \<lparr>r_rank = 2, r_name = None, r_img = None, r_score = 5, r_uid = 1\<rparr>,
      \<lparr>r_rank = 2, r_name = None, r_img = None, r_score = 5, r_uid = 2\<rparr>]\<rparr>"

definition demo_page :: rank_page where
  "demo_page = \<lparr>p_rows = number_rows (w_rows demo_walked), p_self = \<lparr>r_rank = 3, r_name = None, r_img = None, r_score = 5, r_uid = 2\<rparr>\<rparr>"

text \<open>One step after the other.\<close>

lemma demo_steps:
  "last_rank ''z'' demo_rank = (Inr 49, demo_rank)" "below_zero ''z'' demo_rank = (Inr False, demo_rank)"
  "zrevrange ''z'' 0 49 demo_rank = (Inr [(''bob'', 9), (''eve'', 5), (''ann'', 5)], demo_rank)"
  "walk_players True False (Some ''ann'') [(''bob'', 9), (''eve'', 5), (''ann'', 5)]
     \<lparr>w_rank = 1, w_same = 0, w_delta = 9, w_self = 0, w_self_delta = 0, w_rows = []\<rparr> demo_rank = (Inr demo_walked, demo_rank)"
  "own_rank ''z'' (Some ''ann'') demo_walked demo_rank = (Inr (2, 5), demo_rank)"
  "hmget ''users:2'' [''nickname'', ''headImgUrl''] demo_rank = (Inr [None, None], demo_rank)"
  "table_uid (Some ''users:2'') = Inr 2" "rank_list (w_rows demo_walked) = w_rows demo_walked"
  "rank_of_uid 2 (number_rows (w_rows demo_walked)) 2 = 3" "take RANK_COUNT (number_rows (w_rows demo_walked)) = number_rows (w_rows demo_walked)"
  by code_simp+

lemma demo_rank_runs: "rank_section ''z'' True (Some ''ann'') ''users:2'' demo_rank = (Inr demo_page, demo_rank)"
  by (simp add: rank_section_def bindM_def liftE_def retM_def Let_def demo_steps demo_page_def MY_MAX_RANK_def del: walk_players.simps)

theorem rank_section_best_witness: "sorted_wrt row_before (p_rows demo_page) \<and> map r_uid (p_rows demo_page) = [3, 1, 2]"
proof
  have "distinct (map fst (zset_of demo_rank ''z''))" by code_simp
  from rank_section_best [OF demo_rank_runs this] show "sorted_wrt row_before (p_rows demo_page)" by blast
  show "map r_uid (p_rows demo_page) = [3, 1, 2]" by code_simp
qed

section \<open>Red packets\<close>

lemma take_best:
  assumes "sorted_wrt (\<lambda>a b. f b \<le> (f a :: int)) l" "x \<in> set (take n l)" "y \<in> set (drop n l)"
  shows "f y \<le> f x"
proof -
  have "sorted_wrt (\<lambda>a b. f b \<le> f a) (take n l @ drop n l)" using assms(1) by simp
  then show ?thesis using assms(2,3) unfolding sorted_wrt_append by blast
qed

lemma take_or_better:
  assumes "sorted_wrt (\<lambda>a b. f b \<le> (f a :: int)) l" "r \<in> set l"
  shows "r \<in> set (take n l) \<or> (length (take n l) = n \<and> (\<forall>x\<in>set (take n l). f r \<le> f x))"
proof (cases "r \<in> set (take n l)")
  case False
  then have d: "r \<in> set (drop n l)" using assms(2) set_append [of "take n l" "drop n l"] by simp
  then show ?thesis using take_best [OF assms(1) _ d] by (cases "length l \<le> n") auto
qed simp

lemma last_place_ok:
  "if last_place a l = 0 then \<forall>r\<in>set l. a \<noteq> Some (rr_account r)
   else last_place a l \<le> length l \<and> a = Some (rr_account (l ! (last_place a l - 1)))"
proof (cases "rev (filter (\<lambda>i. a = Some (rr_account (l ! i))) [0..<length l])")
  case Nil
  then have "{i. i < length l \<and> a = Some (rr_account (l ! i))} = {}" by (auto simp: filter_empty_conv)
  moreover have "last_place a l = 0" by (simp only: last_place_def Nil list.case)
  ultimately show ?thesis by (auto simp: in_set_conv_nth)
next
  case (Cons i k)
  then have "i \<in> set (filter (\<lambda>i. a = Some (rr_account (l ! i))) [0..<length l])" by (metis list.set_intros(1) set_rev)
  moreover have "last_place a l = i + 1" by (simp only: last_place_def Cons list.case)
  ultimately show ?thesis by simp
qed

text \<open>The rows of all entries, each with the number of its entry.\<close>

definition row_for :: "string \<times> string \<Rightarrow> red_row \<Rightarrow> bool" where
  "row_for e r \<longleftrightarrow> rr_account r = fst e \<and> py_int (snd e) = Inr (rr_number r)"

lemma red_rows_ok: "wp (mapM es red_row_of) (\<lambda>rows t. t = s \<and> list_all2 row_for es rows) (\<lambda>_ _. True) s"
proof (induction es)
  case (Cons e es)
  have "wp (red_row_of e) (\<lambda>r t. t = s \<and> row_for e r) (\<lambda>_ _. True) s"
    unfolding red_row_of_def row_for_def by (intro ok_wp) simp
  then show ?case
    unfolding mapM.simps by (intro ok_bindM) (erule wp_mono, auto intro!: ok_bindM wp_mono [OF Cons.IH] simp: wp_retM)
qed (simp add: wp_retM)

lemma red_top_sorted: "sorted_wrt (\<lambda>a b. rr_number b \<le> rr_number a) (sort_key (\<lambda>r. - rr_number r) rows)"
proof -
  have "sorted (map (\<lambda>r. - rr_number r) (sort_key (\<lambda>r. - rr_number r) rows))" by simp
  then show ?thesis by (simp add: sorted_map)
qed

lemma red_top_best:
  assumes "list_all2 row_for es all"
  shows "length (red_top all) \<le> 10" "sorted_wrt (\<lambda>a b. rr_number b \<le> rr_number a) (red_top all)" "\<forall>r\<in>set (red_top all). \<exists>e\<in>set es. row_for e r"
    "\<forall>e\<in>set es. \<exists>r. row_for e r \<and> (r \<in> set (red_top all) \<or> length (red_top all) = 10 \<and> (\<forall>x\<in>set (red_top all). rr_number r \<le> rr_number x))"
proof -
  let ?L = "sort_key (\<lambda>r. - rr_number r) all"
  show "length (red_top all) \<le> 10" "sorted_wrt (\<lambda>a b. rr_number b \<le> rr_number a) (red_top all)"
    unfolding red_top_def by (simp_all add: sorted_wrt_take [OF red_top_sorted])
  have "\<exists>e\<in>set es. row_for e r" if "r \<in> set all" for r
    using that assms by (fastforce simp: list_all2_conv_all_nth in_set_conv_nth)
  then show "\<forall>r\<in>set (red_top all). \<exists>e\<in>set es. row_for e r" by (auto simp: red_top_def dest!: in_set_takeD)
  show "\<forall>e\<in>set es. \<exists>r. row_for e r \<and> (r \<in> set (red_top all) \<or> length (red_top all) = 10 \<and> (\<forall>x\<in>set (red_top all). rr_number r \<le> rr_number x))"
  proof
    fix e assume "e \<in> set es"
    then obtain r where r: "r \<in> set ?L" "row_for e r" using assms by (fastforce simp: list_all2_conv_all_nth in_set_conv_nth)
    from take_or_better [OF red_top_sorted r(1), of 10] r(2)
    show "\<exists>r. row_for e r \<and> (r \<in> set (red_top all) \<or> length (red_top all) = 10 \<and> (\<forall>x\<in>set (red_top all). rr_number r \<le> rr_number x))"
      unfolding red_top_def by blast
  qed
qed

text \<open>C28: the page of the red packets shows at most ten accounts by falling number, nobody left out has more than anybody shown,
  and the place it tells the player is that of his account among them (none if he is not shown).\<close>

theorem red_packets_best:
  assumes "redPackOrder sid s = (Inr (Inr (rows, mine, place)), t)"
  shows "t = s \<and> length rows \<le> 10 \<and> sorted_wrt (\<lambda>a b. rr_number b \<le> rr_number a) rows \<and>
    (\<forall>r\<in>set rows. \<exists>e\<in>set (hash_of s redpick_hesh). row_for e r) \<and>
    (\<forall>e\<in>set (hash_of s redpick_hesh). \<exists>r. row_for e r \<and> (r \<in> set rows \<or> length rows = 10 \<and> (\<forall>x\<in>set rows. rr_number r \<le> rr_number x))) \<and>
    (let me = hf s (FORMAT_USER_HALL_SESSION (strip sid)) ''account'' in
     if place = 0 then \<forall>r\<in>set rows. me \<noteq> Some (rr_account r) else place \<le> length rows \<and> me = Some (rr_account (rows ! (place - 1))))"
proof -
  let ?me = "hf s (FORMAT_USER_HALL_SESSION (strip sid)) ''account''"
  have "wp (redPackOrder sid) (\<lambda>r t. \<forall>rows mine place. r = Inr (rows, mine, place) \<longrightarrow>
      t = s \<and> (\<exists>all. list_all2 row_for (hash_of s redpick_hesh) all \<and> rows = red_top all) \<and> place = last_place ?me rows) (\<lambda>_ _. True) s"
    unfolding redPackOrder_def
  proof (rule info_wp, simp, unfold prod.case Let_def, intro ok_wp wp_mono [OF red_rows_ok], goal_cases)
    case (2 uid v va x all t)
    have a: "t = s" "list_all2 row_for (hash_of s redpick_hesh) all" by (rule 2(5) [THEN conjunct1], rule 2(5) [THEN conjunct2])
    show ?case
    proof (intro allI impI)
      fix rows mine place
      assume "(Inr (red_top all, x, last_place ?me (red_top all)) :: reply + red_row list \<times> int \<times> nat) = Inr (rows, mine, place)"
      then have "red_top all = rows" "last_place ?me (red_top all) = place" by (iprover dest: sum.inject(2) [THEN iffD1] elim: Pair_inject)+
      then show "t = s \<and> (\<exists>all. list_all2 row_for (hash_of s redpick_hesh) all \<and> rows = red_top all) \<and> place = last_place ?me rows"
        by (intro conjI exI [of _ all]) (simp_all only: a)
    qed
  qed simp
  from wp_InrD [OF this assms] obtain all where ts: "t = s" and all: "list_all2 row_for (hash_of s redpick_hesh) all"
    and rows: "rows = red_top all" and place: "place = last_place ?me rows" by blast
  note best = red_top_best [OF all]
  have "if place = 0 then \<forall>r\<in>set rows. ?me \<noteq> Some (rr_account r) else place \<le> length rows \<and> ?me = Some (rr_account (rows ! (place - 1)))"
    unfolding place by (rule last_place_ok)
  with ts best show ?thesis unfolding rows Let_def by iprover
qed

definition demo_red :: redis where
  "demo_red = \<lparr>kv = [(redpick_hesh, RHash [(''ann'', ''2''), (''bob'', ''7'')]),
     (FORMAT_USER_HALL_SESSION ''s'', RHash [(''account'', ''ann''), (''uid'', ''2'')]),
     (FORMAT_ACCOUNT2USER_TABLE ''ann'', RStr ''users:2''), (FORMAT_ACCOUNT2USER_TABLE ''bob'', RStr ''users:3'')], ttl = []\<rparr>"

definition demo_red_rows :: "red_row list" where
  "demo_red_rows = [\<lparr>rr_name = None, rr_number = 7, rr_img = None, rr_account = ''bob''\<rparr>, \<lparr>rr_name = None, rr_number = 2, rr_img = None, rr_account = ''ann''\<rparr>]"

lemma demo_red_runs: "redPackOrder ''s'' demo_red = (Inr (Inr (demo_red_rows, 2, 2)), demo_red)"
  by code_simp

theorem red_packets_best_witness:
  "sorted_wrt (\<lambda>a b. rr_number b \<le> rr_number a) demo_red_rows \<and>
   hf demo_red (FORMAT_USER_HALL_SESSION (strip ''s'')) ''account'' = Some (rr_account (demo_red_rows ! 1))"
  using red_packets_best [OF demo_red_runs] by (simp add: Let_def)

end
