(* ===== verification/LobbyLaws.thy ===== *)
theory LobbyLaws
  imports FishRank BenefitLaws GoldLaws
begin

text \<open>
  What no history of requests to the lobby undoes: the marks that a reward was taken, that an account used
  the exchange code, that a name is registered and had its first login.
\<close>

section \<open>Marks\<close>

lemmas lobby_keys = FISH_SHARE_TAKE_SETS_def FISH_SHARE_NOT_TAKE_SETS_def FISH_FIRST_SHARE_PER_DAY_SET_def FISH_SHARE_TOTAL_def
  exchange_hesh_def registered_set_def ACCOUNT4WEIXIN_SET4FISH_def FORMAT_ACCOUNT2USER_TABLE_def FORMAT_USER_HALL_SESSION_def
  FORMAT_USER_PLATFORM_SESSION_def user_key_def kick_key_def session_hash_def WEIXIN2ACCOUNT_def JOIN_GROUP_RESULT_def
  FORMAT_USER_COUNT_TABLE_def FORMAT_LOGIN_POOL_SET_def house_no_key_def service_keys

definition mark_sets :: "string set" where
  "mark_sets = insert registered_set (insert ACCOUNT4WEIXIN_SET4FISH (range FISH_SHARE_TAKE_SETS))"

text \<open>\<open>S\<close> are members of the sets of marks, \<open>X\<close> accounts marked in the hash of the exchange code.\<close>

definition lobby_inv :: "(string \<times> string) set \<Rightarrow> string set \<Rightarrow> redis \<Rightarrow> bool" where
  "lobby_inv S X s \<longleftrightarrow> accounts_ok s \<and> (\<forall>(k, m)\<in>S. k \<in> mark_sets \<and> m \<in> set (members s k)) \<and> (\<forall>a\<in>X. hf s exchange_hesh a = Some ''1'')"

lemma other_kind:
  "is_hash s k \<Longrightarrow> members s k = []" "is_list s k \<Longrightarrow> members s k = []" "is_zset s k \<Longrightarrow> members s k = []"
  "is_set s k \<Longrightarrow> hf s k f = None" "is_list s k \<Longrightarrow> hf s k f = None" "is_zset s k \<Longrightarrow> hf s k f = None"
  by (auto simp: members_def hf_def hash_of_def is_hash_def is_list_def is_zset_def is_set_def split: option.splits rval.splits)

lemma lobby_inv_step:
  assumes "lobby_inv S X s"
    and "\<And>a ut. look t (FORMAT_ACCOUNT2USER_TABLE a) = Some (RStr ut) \<Longrightarrow> look s (FORMAT_ACCOUNT2USER_TABLE a) = Some (RStr ut) \<or> ut \<in> user_tables"
    and "\<And>k m. k \<in> mark_sets \<Longrightarrow> m \<in> set (members s k) \<Longrightarrow> m \<in> set (members t k)"
    and "\<And>a. hf s exchange_hesh a = Some ''1'' \<Longrightarrow> hf t exchange_hesh a = Some ''1''"
  shows "lobby_inv S X t"
  using assms unfolding lobby_inv_def accounts_ok_def by (auto simp: split_beta; blast)

lemma hput_kinds:
  "look (hput k f v s) j = (if j = k then Some (RHash (AList.update f v (hash_of s k))) else look s j)"
  "members (hput k f v s) j = (if j = k then [] else members s j)"
  by (simp_all add: hput_def members_def)

lemma lobby_hput: "lobby_inv S X s \<Longrightarrow> is_hash s k \<Longrightarrow> k \<noteq> exchange_hesh \<or> v = ''1'' \<or> hf s k f \<noteq> Some ''1'' \<Longrightarrow> lobby_inv S X (hput k f v s)"
  by (rule lobby_inv_step, assumption) (auto simp: hput_kinds other_kind split: if_splits)

lemma lobby_hputs: "lobby_inv S X s \<Longrightarrow> is_hash s k \<Longrightarrow> k \<noteq> exchange_hesh \<Longrightarrow> lobby_inv S X (hputs k m s)"
proof (induction k m s rule: hputs.induct)
  case (2 k f v m s)
  then have "lobby_inv S X (hput k f v s)" by (intro lobby_hput) auto
  with 2 show ?case by simp
qed simp

lemma lobby_set_key:
  assumes "lobby_inv S X s" "k \<notin> mark_sets" "k \<noteq> exchange_hesh" "(\<forall>a. k \<noteq> FORMAT_ACCOUNT2USER_TABLE a) \<or> v \<in> user_tables"
  shows "lobby_inv S X (put k (RStr v) s)" "lobby_inv S X (set_key k v s)" "lobby_inv S X (unput k s)"
  by (rule lobby_inv_step [OF assms(1)]; use assms in \<open>auto simp: members_def split: if_splits\<close>)+

lemma lobby_ttl: "lobby_inv S X s \<Longrightarrow> lobby_inv S X (s\<lparr>ttl := x\<rparr>)"
  by (rule lobby_inv_step, assumption) auto

lemma lobby_put_set: "lobby_inv S X s \<Longrightarrow> is_set s k \<Longrightarrow> k \<in> mark_sets \<longrightarrow> set (members s k) \<subseteq> set l \<Longrightarrow> lobby_inv S X (put_set k l s)"
  by (rule lobby_inv_step, assumption) (auto simp: look_put_set other_kind split: if_splits)

lemma list_kinds: "hf (set_list k l s) j g = (if j = k then None else hf s j g)"
  by (simp add: hf_def hash_of_def look_set_list)

lemma zset_kinds:
  "hf (put k (RZset l) s) j g = (if j = k then None else hf s j g)" "members (put k (RZset l) s) j = (if j = k then [] else members s j)"
  by (simp_all add: hf_def hash_of_def members_def)

lemma wp_zadd_to [wp_eqs]:
  "wp (zadd_to d k m v) Q E s = (if is_zset s k then Q () (put k (RZset (AList.update m (d v) (zset_of s k))) s) else E ResponseError s)"
  by (simp add: wp_def zadd_to_def)

lemma lobby_set_list: "lobby_inv S X s \<Longrightarrow> is_list s k \<Longrightarrow> lobby_inv S X (set_list k l s)"
  by (rule lobby_inv_step, assumption) (auto simp: look_set_list list_kinds other_kind split: if_splits)

lemma lobby_put_zset: "lobby_inv S X s \<Longrightarrow> is_zset s k \<Longrightarrow> lobby_inv S X (put k (RZset l) s)"
  by (rule lobby_inv_step, assumption) (auto simp: other_kind zset_kinds simp del: hf_put_other split: if_splits)

text \<open>The commands.\<close>

lemma keeps_lobby_hash:
  "k \<noteq> exchange_hesh \<or> v = ''1'' \<Longrightarrow> keeps (lobby_inv S X) (hset k f v)"
  "k \<noteq> exchange_hesh \<Longrightarrow> keeps (lobby_inv S X) (hmset k m)" "k \<noteq> exchange_hesh \<Longrightarrow> keeps (lobby_inv S X) (hincrby k f a)"
  by (rule keepsI, auto simp: wp_eqs intro: lobby_hput lobby_hputs split: option.split)+

lemma keeps_lobby_touch: "keeps (lobby_inv S X) (hincrby k f ''0'')"
proof (rule keepsI)
  fix s assume s: "lobby_inv S X s"
  have z: "strtoll ''0'' = Some 0" "strtoll ''1'' = Some 1" "show_int 1 = ''1''" by code_simp+
  show "wp (hincrby k f ''0'') (\<lambda>_. lobby_inv S X) (\<lambda>_. lobby_inv S X) s"
    using s by (cases "hf s k f = Some ''1''") (auto simp: wp_eqs z intro!: lobby_hput split: option.split)
qed

definition plain_key :: "string \<Rightarrow> bool" where
  "plain_key k \<longleftrightarrow> k \<notin> mark_sets \<and> k \<noteq> exchange_hesh \<and> (\<forall>a. k \<noteq> FORMAT_ACCOUNT2USER_TABLE a)"

lemma lobby_plain:
  "lobby_inv S X s \<Longrightarrow> plain_key k \<Longrightarrow> lobby_inv S X (put k (RStr v) s)" "lobby_inv S X s \<Longrightarrow> plain_key k \<Longrightarrow> lobby_inv S X (set_key k v s)"
  "lobby_inv S X s \<Longrightarrow> plain_key k \<Longrightarrow> lobby_inv S X (unput k s)"
  by (rule lobby_set_key; simp add: plain_key_def)+

lemma lobby_users: "lobby_inv S X s \<Longrightarrow> ut \<in> user_tables \<Longrightarrow> lobby_inv S X (set_key (FORMAT_ACCOUNT2USER_TABLE b) ut s)"
  by (rule lobby_set_key) (auto simp: mark_sets_def lobby_keys)

lemma lobby_setex: "wp (setex k v n) Q E s = (if n \<le> 0 then E ResponseError s else Q () ((set_key k v s)\<lparr>ttl := AList.update k n (ttl (set_key k v s))\<rparr>))"
  by (simp add: wp_def setex_def)

lemma keeps_lobby_str:
  "plain_key k \<Longrightarrow> keeps (lobby_inv S X) (set_str k v)" "plain_key k \<Longrightarrow> keeps (lobby_inv S X) (setex k v n)"
  "plain_key k \<Longrightarrow> keeps (lobby_inv S X) (delete_key k)" "plain_key k \<Longrightarrow> keeps (lobby_inv S X) (incrby k a)"
  "ut \<in> user_tables \<Longrightarrow> keeps (lobby_inv S X) (set_str (FORMAT_ACCOUNT2USER_TABLE b) ut)"
  "0 < n \<Longrightarrow> keeps (lobby_inv S X) (expire_key j n)"
  by (rule keepsI, auto simp: wp_eqs lobby_setex expired_def intro!: lobby_plain lobby_ttl lobby_users split: option.split)+

lemma keeps_lobby_sets:
  "keeps (lobby_inv S X) (sadd k m)" "k \<notin> mark_sets \<Longrightarrow> keeps (lobby_inv S X) (srem k m)"
  "keeps (lobby_inv S X) (rpush k m)" "keeps (lobby_inv S X) (lrem k m)" "keeps (lobby_inv S X) (zadd_to d k m n)"
  by (rule keepsI, auto simp: wp_eqs intro!: lobby_put_set lobby_set_list lobby_put_zset)+

section \<open>Requests\<close>

lemma plain_keys [simp]:
  "plain_key (kick_key x)" "plain_key (FORMAT_USER_PLATFORM_SESSION x)" "plain_key (FORMAT_USER_HALL_SESSION x)" "plain_key (WEIXIN2ACCOUNT x)"
  "plain_key (JOIN_GROUP_RESULT x)" "plain_key FORMAT_USER_COUNT_TABLE" "plain_key FISH_SHARE_TOTAL"
  by (auto simp: plain_key_def mark_sets_def lobby_keys)

lemma house_no_plain [simp]: "plain_key (house_no_key g u)"
  using arg_cong [of "house_no_key g u" exchange_hesh last] arg_cong [of "house_no_key g u" "FISH_SHARE_TAKE_SETS _" last]
  by (auto simp: plain_key_def mark_sets_def house_no_key_def exchange_hesh_def FISH_SHARE_TAKE_SETS_def registered_set_def
      ACCOUNT4WEIXIN_SET4FISH_def FORMAT_ACCOUNT2USER_TABLE_def)

lemma not_marks [simp]: "FISH_SHARE_NOT_TAKE_SETS \<notin> mark_sets" "FORMAT_LOGIN_POOL_SET \<notin> mark_sets"
  by (auto simp: mark_sets_def lobby_keys)

lemma not_exchange [simp]:
  "session_hash E \<noteq> exchange_hesh" "user_key u \<noteq> exchange_hesh" "FORMAT_USER_HALL_SESSION x \<noteq> exchange_hesh"
  by (simp_all add: lobby_keys)

lemma user_tables_not_exchange [simp]: "ut \<in> user_tables \<Longrightarrow> ut \<noteq> exchange_hesh"
  by (auto simp: user_tables_def lobby_keys)

lemma show_int_no_colon: "CHR '':'' \<notin> set (show_int n)"
proof -
  have "CHR '':'' \<notin> set (show_nat m)" for m
    using show_nat_digits [of m] by (auto simp: list_all_iff is_digit_def)
  then show ?thesis by (simp add: show_int_def)
qed

lemma new_user_table [simp]: "user_key (Some (show_int n)) \<in> user_tables"
  using show_int_no_colon by (auto simp: user_tables_def)

lemma keeps_lobby_guard:
  assumes "\<And>a u ut. ut \<in> user_tables \<Longrightarrow> keeps (lobby_inv S X) (body a u ut)"
  shows "keeps (lobby_inv S X) (session_guard sid r body)"
proof (rule keepsI, rule session_guard_wp)
  fix s account uid ut
  assume s: "lobby_inv S X s" and "look s (FORMAT_ACCOUNT2USER_TABLE (fmt account)) = Some (RStr ut) \<or> ut = ''None''"
  then have "ut \<in> user_tables" using guard_user_tables by (auto simp: lobby_inv_def)
  then show "wp (body account uid ut) (\<lambda>_. lobby_inv S X) (\<lambda>_. lobby_inv S X) s" using assms s by (simp add: wp_keeps)
qed

lemma keeps_lobby_account: "(\<And>v. fmt v \<in> user_tables \<Longrightarrow> keeps (lobby_inv S X) (f v)) \<Longrightarrow>
    keeps (lobby_inv S X) (bindM (get (FORMAT_ACCOUNT2USER_TABLE a)) f)"
  by (rule keeps_account) (auto simp: lobby_inv_def)

lemma keeps_list [pres_intros]:
  "(v = [] \<Longrightarrow> keeps P m) \<Longrightarrow> (\<And>x xs. v = x # xs \<Longrightarrow> keeps P (f x xs)) \<Longrightarrow> keeps P (case v of [] \<Rightarrow> m | x # xs \<Rightarrow> f x xs)"
  by (cases v) auto

lemma keeps_pyv [pres_intros]:
  "(\<And>n. keeps P (f n)) \<Longrightarrow> (\<And>t. keeps P (g t)) \<Longrightarrow> keeps P (case v of PInt n \<Rightarrow> f n | PStr t \<Rightarrow> g t)"
  by (cases v) auto

lemma keeps_lobby_reads [pres_intros]:
  "keeps P (keys p)" "keeps P (zread k f)" "keeps P (zscore k m)"
  by (simp_all add: keeps_def keys_def zread_def zscore_def)

lemma keeps_lobby_parts [pres_intros]:
  "keeps P (in_members uid k)" "keeps P get_room_list" "keeps P get_coin_goods_list" "keeps P (check_house g h)" "keeps P getHallBroadInfo"
  "keeps P (active_message uid m)" "keeps P (red_row_of e)" "keeps P get_fish_hall_setting" "keeps P (can_take_benefit c uid ut)"
  unfolding in_members_def get_room_list_def room_entry_def get_coin_goods_list_def check_house_def getHallBroadInfo_def broad_detail_def
    active_message_def red_row_of_def get_fish_hall_setting_def can_take_benefit_def Let_def
  by (intro pres_intros)+

lemma keeps_walk [pres_intros]: "keeps P (walk_players skip debt account ps w)"
  by (induction ps arbitrary: w) (auto simp: Let_def intro!: pres_intros)

lemma keeps_rank_section [pres_intros]: "keeps P (rank_section T skip account ut)" "keeps P (war_rank ev today)"
  unfolding rank_section_def last_rank_def below_zero_def own_rank_def zrevrange_def zrevrangebyscore_def zrevrank_def war_rank_def war_rows_def Let_def
  by (intro pres_intros)+

lemma keeps_touch_servers: "keeps (lobby_inv S X) (reserved_servers limit l)"
proof (induction l arbitrary: limit)
  case (Cons x l)
  show ?case unfolding reserved_servers.simps by (rule keeps_lobby_touch | rule Cons.IH | rule pres_intros)+
qed (simp add: pres_intros)

lemmas keeps_lobby = keeps_lobby_hash keeps_lobby_touch keeps_lobby_str keeps_lobby_sets

lemma keeps_lobby_session [pres_intros]: "keeps (lobby_inv S X) (session_get E f)" "keeps (lobby_inv S X) (session_set E f v)"
  unfolding session_get_def session_set_def by (intro pres_intros keeps_lobby; simp)+

lemma keeps_pipe: "keeps P (execute [])" "keeps P c \<Longrightarrow> keeps P (execute cs) \<Longrightarrow> keeps P (execute (c # cs))"
proof -
  have "snd (execute cs s) = snd (run_all cs s)" for cs s by (simp add: execute_def split: prod.split option.split)
  then show "keeps P (execute [])" "keeps P c \<Longrightarrow> keeps P (execute cs) \<Longrightarrow> keeps P (execute (c # cs))"
    by (auto simp: keeps_def split: prod.split sum.split)
qed

lemma keeps_lobby_requests:
  "keeps (lobby_inv S X) (on_shareCallback c sid)" "keeps (lobby_inv S X) (get_fish_share_reward c sid)"
  unfolding on_shareCallback_def get_fish_share_reward_def
  by (rule keeps_lobby_guard | rule keeps_pipe | rule pres_intros | (rule keeps_lobby; simp))+

lemma keeps_lobby_code:
  "keeps (lobby_inv S X) (doExchageCode sid code)" "keeps (lobby_inv S X) (exchange_check sid)" "keeps (lobby_inv S X) (redPackOrder sid)"
  unfolding doExchageCode_def exchange_check_def redPackOrder_def Let_def
  by (rule keeps_lobby_account | rule pres_intros | (rule keeps_lobby; simp))+

lemma keeps_lobby_pages:
  "keeps (lobby_inv S X) (do_extendSession E sid)" "keeps (lobby_inv S X) (do_refresh E sid)" "keeps (lobby_inv S X) (lobby_goods_info sid)"
  unfolding do_extendSession_def extendSession_def do_refresh_def lobby_goods_info_def lobby_user_def share_state_def do_sessionExpire_def Let_def
  by (rule keeps_lobby_guard | rule pres_intros | (rule keeps_lobby; simp))+

lemma keeps_lobby_rest:
  "keeps (lobby_inv S X) (do_joinRoom c d sid' g h)" "keeps (lobby_inv S X) (do_mailRefresh sid)" "keeps (lobby_inv S X) (do_activeRefresh sid)"
  "keeps (lobby_inv S X) (get_hall_broad sid)" "keeps (lobby_inv S X) (do_getRank sid')"
  unfolding do_joinRoom_def do_mailRefresh_def do_activeRefresh_def get_hall_broad_def do_getRank_def check_session_verfiy_def getUserByAccount_def Let_def
  by (rule keeps_lobby_guard | rule keeps_touch_servers | rule pres_intros | (rule keeps_lobby; simp))+

section \<open>Logging in\<close>

lemma keeps_random_account [pres_intros]: "keeps P (getRandomAccount ds i)"
  by (induction ds i rule: getRandomAccount.induct) (auto simp: Let_def intro!: pres_intros)

lemma keeps_weixin: "keeps (lobby_inv S X) (weixin_login E tm account)"
  unfolding weixin_login_def setOpenid2account4fish_def Let_def
  by (rule keeps_lobby_account | rule keeps_pipe | rule pres_intros | (rule keeps_lobby; simp))+

lemma keeps_reg_fish: "keeps (lobby_inv S X) (onRegFish E account passwd n)"
  unfolding onRegFish_def unionid_login_def password_login_def Let_def
  by (rule keeps_weixin | rule keeps_lobby_account | rule pres_intros | (rule keeps_lobby; simp))+

lemma keeps_login_parts:
  "keeps (lobby_inv S X) (kick_player account uid)" "keeps (lobby_inv S X) (lock_box uid)" "keeps (lobby_inv S X) (sign_notice E uid)"
  "keeps (lobby_inv S X) (join_invited account)" "keeps (lobby_inv S X) (join_answer uid)" "keeps (lobby_inv S X) (leave_party account)"
  "keeps (lobby_inv S X) (register_by_account E account passwd ag)" "keeps (lobby_inv S X) (session_login E uid account ip date sid)"
  unfolding kick_player_def lock_box_def sign_notice_def join_invited_def join_answer_def leave_party_def sendProtocol2GameService_def
    get_should_sign_warheads_def register_by_account_def session_login_def Let_def
  by (rule keeps_pipe | rule pres_intros | (rule keeps_lobby; simp))+

lemma keeps_user_writes:
  assumes "ut \<in> user_tables"
  shows "keeps (lobby_inv S X) (first_login E a ut)" "keeps (lobby_inv S X) (day_login E uid ut n)" "keeps (lobby_inv S X) (rank_coin E a ut)"
    "keeps (lobby_inv S X) (open_session E ct uid sid ut v)"
  unfolding first_login_def day_login_def rank_coin_def open_session_def
  by (rule keeps_login_parts | rule keeps_pipe | rule pres_intros | (rule keeps_lobby; simp add: assms))+

lemma keeps_enter: "ut \<in> user_tables \<Longrightarrow> keeps (lobby_inv S X) (enter_lobby E form ct n a p ra ut uid)"
  unfolding enter_lobby_def check_spring_all_def Let_def
  by (rule keeps_login_parts | (rule keeps_user_writes; assumption) | rule pres_intros | (rule keeps_lobby; simp))+

lemma keeps_some: "(v = None \<Longrightarrow> keeps P m) \<Longrightarrow> (\<And>x. v = Some x \<Longrightarrow> keeps P (f x)) \<Longrightarrow> keeps P (case v of None \<Rightarrow> m | Some x \<Rightarrow> f x)"
  by (cases v) auto

lemma keeps_lobby_login: "keeps (lobby_inv S X) (do_login E a ct p n)" "keeps (lobby_inv S X) (do_inner E ct a p ag)"
  unfolding do_login_def do_inner_def Let_def
  by (rule keeps_lobby_account | rule keeps_some | rule keeps_reg_fish | rule keeps_login_parts | rule keeps_pipe | rule pres_intros |
      (rule keeps_user_writes keeps_enter; simp) | (rule keeps_lobby; simp))+

section \<open>Histories\<close>

datatype lobby_op =
    Share clock string
  | Share_reward clock string
  | Exchange string string
  | Exchange_check string
  | Extend login_env string
  | Refresh login_env string
  | Goods string
  | Join_room clock string "string option" "string option" string
  | Mails string
  | Actives string
  | Broads string
  | Red_packets string
  | Ranks "string option"
  | War_ranks "string \<Rightarrow> exn + (string \<times> string) list" string
  | Register login_env string string string string
  | Login login_env string string string string
  | Session_over string

fun lobby_do :: "lobby_op \<Rightarrow> redis \<Rightarrow> redis" where
  "lobby_do (Share c sid) s = snd (on_shareCallback c sid s)"
| "lobby_do (Share_reward c sid) s = snd (get_fish_share_reward c sid s)"
| "lobby_do (Exchange sid code) s = snd (doExchageCode sid code s)"
| "lobby_do (Exchange_check sid) s = snd (exchange_check sid s)"
| "lobby_do (Extend E sid) s = snd (do_extendSession E sid s)"
| "lobby_do (Refresh E sid) s = snd (do_refresh E sid s)"
| "lobby_do (Goods sid) s = snd (lobby_goods_info sid s)"
| "lobby_do (Join_room c d sid g h) s = snd (do_joinRoom c d sid g h s)"
| "lobby_do (Mails sid) s = snd (do_mailRefresh sid s)"
| "lobby_do (Actives sid) s = snd (do_activeRefresh sid s)"
| "lobby_do (Broads sid) s = snd (get_hall_broad sid s)"
| "lobby_do (Red_packets sid) s = snd (redPackOrder sid s)"
| "lobby_do (Ranks sid) s = snd (do_getRank sid s)"
| "lobby_do (War_ranks ev today) s = snd (war_rank ev today s)"
| "lobby_do (Register E ct a p ag) s = snd (do_inner E ct a p ag s)"
| "lobby_do (Login E a ct p n) s = snd (do_login E a ct p n s)"
| "lobby_do (Session_over sid) s = expire_now (FORMAT_USER_HALL_SESSION sid) s"

lemma lobby_session_over: "lobby_inv S X s \<Longrightarrow> lobby_inv S X (expire_now (FORMAT_USER_HALL_SESSION sid) s)"
  by (simp add: expire_now_def lobby_plain)

interpretation lobby: state_machine lobby_do "lobby_inv S X" for S X
proof unfold_locales
  fix s op assume s: "lobby_inv S X s"
  show "lobby_inv S X (lobby_do op s)"
    by (cases op; simp only: lobby_do.simps;
        intro keepsD [where P = "lobby_inv S X", OF _ s] keeps_lobby_requests keeps_lobby_code keeps_lobby_pages keeps_lobby_rest keeps_lobby_login keeps_rank_section lobby_session_over s)
qed

lemma lobby_frame: "accounts_ok s \<Longrightarrow> lobby_inv {} {} s"
  by (simp add: lobby_inv_def)

lemma lobby_marked:
  assumes "lobby_inv {} {} t" "k \<in> mark_sets" "m \<in> set (members t k)"
  shows "m \<in> set (members (fold lobby_do ops t) k)"
proof -
  have "lobby_inv {(k, m)} {} t" using assms by (simp add: lobby_inv_def)
  from lobby.inv_run [OF this, of ops] show ?thesis by (simp add: lobby_inv_def)
qed

section \<open>Rewards of sharing\<close>

text \<open>The reward credits the configured coins to the user the session belongs to and leaves the mark of the day.\<close>

definition share_paid :: "string \<Rightarrow> string \<Rightarrow> string \<Rightarrow> redis \<Rightarrow> redis \<Rightarrow> bool" where
  "share_paid day u ut s t \<longleftrightarrow> u \<in> set (members t (FISH_SHARE_TAKE_SETS day)) \<and>
     (\<exists>v n b. hf s FISH_CONSTS_CONFIG ''share_coin'' = Some v \<and> strtoll v = Some n \<and> counter (hf s ut ''coin'') = Some b \<and>
        hf t ut ''coin'' = Some (show_int (b + n)))"

lemma share_reward_ok:
  assumes "hf s (FORMAT_USER_HALL_SESSION (strip sid)) ''uid'' = Some u" "accounts_ok s"
  shows "wp (get_fish_share_reward c sid) (\<lambda>r t. if \<exists>m. r = Reply 0 m
       then u \<notin> set (members s (FISH_SHARE_TAKE_SETS (today_s c))) \<and>
         (\<exists>ut. (look s (FORMAT_ACCOUNT2USER_TABLE (fmt (hf s (FORMAT_USER_HALL_SESSION (strip sid)) ''account''))) = Some (RStr ut) \<or> ut = ''None'') \<and>
           share_paid (today_s c) u ut s t)
       else t = s) (\<lambda>_ _. True) s"
  unfolding get_fish_share_reward_def
proof (rule session_guard_wp, goal_cases)
  case (3 account uid ut)
  have ut: "ut \<in> user_tables" using guard_user_tables [OF assms(2) 3(4)] .
  then have keys: "ut \<noteq> FISH_SHARE_TAKE_SETS d" "ut \<noteq> FISH_SHARE_NOT_TAKE_SETS" "FISH_SHARE_TAKE_SETS d \<noteq> FISH_SHARE_NOT_TAKE_SETS" for d
    by (auto simp: user_tables_def lobby_keys)
  have u: "uid = Some u" using 3(2) assms(1) by simp
  show ?case
    unfolding in_members_def
  proof (intro ok_wp, goal_cases)
    case (3 old incr)
    have "share_paid (today_s c) u ut s (hput ut ''coin'' (show_int (old + incr)) (put_set (FISH_SHARE_TAKE_SETS (today_s c))
        (List.insert u (members s (FISH_SHARE_TAKE_SETS (today_s c)))) (put_set FISH_SHARE_NOT_TAKE_SETS (removeAll u (members s FISH_SHARE_NOT_TAKE_SETS)) s)))"
      using 3 keys by (cases "hf s FISH_CONSTS_CONFIG ''share_coin''") (auto simp: share_paid_def hput_kinds truthy_def)
    then show ?case using 3 keys \<open>look s _ = _ \<or> _\<close> by (auto simp: u \<open>hf s _ ''account'' = account\<close>)
  qed simp_all
qed (simp_all)

text \<open>C24: a player is paid the configured coins for sharing at most once a day: after a request that paid, no history of requests
  of any players to the lobby makes another one of the same player on the same day pay or change anything.\<close>

theorem share_once:
  assumes "accounts_ok s" "hf s (FORMAT_USER_HALL_SESSION (strip sid)) ''uid'' = Some u"
    and "get_fish_share_reward c sid s = (Inr (Reply 0 m), t)"
    and "hf (fold lobby_do ops t) (FORMAT_USER_HALL_SESSION (strip sid2)) ''uid'' = Some u" "today_s c2 = today_s c"
  shows "(\<exists>ut. (look s (FORMAT_ACCOUNT2USER_TABLE (fmt (hf s (FORMAT_USER_HALL_SESSION (strip sid)) ''account''))) = Some (RStr ut) \<or> ut = ''None'') \<and>
      share_paid (today_s c) u ut s t) \<and>
    (\<forall>r t2. get_fish_share_reward c2 sid2 (fold lobby_do ops t) = (Inr r, t2) \<longrightarrow> t2 = fold lobby_do ops t \<and> (\<forall>m. r \<noteq> Reply 0 m))"
proof -
  let ?t = "fold lobby_do ops t"
  have paid: "\<exists>ut. (look s (FORMAT_ACCOUNT2USER_TABLE (fmt (hf s (FORMAT_USER_HALL_SESSION (strip sid)) ''account''))) = Some (RStr ut) \<or> ut = ''None'') \<and>
      share_paid (today_s c) u ut s t"
    using wp_InrD [OF share_reward_ok [OF assms(2,1)] assms(3)] by auto
  have inv: "lobby_inv {} {} t" using keepsD [OF keeps_lobby_requests(2) lobby_frame [OF assms(1)], of c sid] assms(3) by simp
  have "u \<in> set (members ?t (FISH_SHARE_TAKE_SETS (today_s c)))"
    using lobby_marked [OF inv] paid by (auto simp: share_paid_def mark_sets_def)
  moreover have "accounts_ok ?t" using lobby.inv_run [OF inv] by (simp add: lobby_inv_def)
  ultimately have "t2 = ?t \<and> (\<forall>m. r \<noteq> Reply 0 m)" if "get_fish_share_reward c2 sid2 ?t = (Inr r, t2)" for r t2
    using wp_InrD [OF share_reward_ok [OF assms(4)] that] assms(5) by (auto split: if_splits)
  with paid show ?thesis by blast
qed

definition demo_lobby :: redis where
  "demo_lobby = empty_db\<lparr>kv := [(FORMAT_USER_HALL_SESSION ''s'', RHash [(''account'', ''ann''), (''uid'', ''7'')]),
     (FORMAT_USER_HALL_SESSION ''s2'', RHash [(''account'', ''ann''), (''uid'', ''7'')]),
     (FORMAT_ACCOUNT2USER_TABLE ''ann'', RStr (user_key (Some ''7''))), (user_key (Some ''7''), RHash [(''coin'', ''10'')]),
     (FISH_CONSTS_CONFIG, RHash [(''share_coin'', ''200'')])]\<rparr>"

lemma accounts_ok_demo: "accounts_ok demo_lobby"
  by (auto simp: accounts_ok_def demo_lobby_def look_def benefit_keys user_tables_def split: if_splits)

definition demo_shared :: redis where
  "demo_shared = snd (get_fish_share_reward demo_clock ''s'' demo_lobby)"

lemma demo_share_runs:
  "get_fish_share_reward demo_clock ''s'' demo_lobby = (Inr (Reply 0 ''210''), demo_shared)"
  "hf demo_lobby (FORMAT_USER_HALL_SESSION (strip ''s'')) ''uid'' = Some ''7''"
  "hf (fold lobby_do [Share demo_clock ''s'', Session_over ''s''] demo_shared) (FORMAT_USER_HALL_SESSION (strip ''s2'')) ''uid'' = Some ''7''"
  by code_simp+

theorem share_once_witness:
  "(\<exists>ut. share_paid (today_s demo_clock) ''7'' ut demo_lobby demo_shared) \<and>
   snd (get_fish_share_reward demo_clock ''s2'' (fold lobby_do [Share demo_clock ''s'', Session_over ''s''] demo_shared)) =
     fold lobby_do [Share demo_clock ''s'', Session_over ''s''] demo_shared"
proof -
  let ?t = "fold lobby_do [Share demo_clock ''s'', Session_over ''s''] demo_shared"
  have "fst (get_fish_share_reward demo_clock ''s2'' ?t) = Inr (Reply (- 3002) ''taken already'')" by code_simp
  then obtain t2 where t2: "get_fish_share_reward demo_clock ''s2'' ?t = (Inr (Reply (- 3002) ''taken already''), t2)" by (metis prod.collapse)
  from share_once [OF accounts_ok_demo demo_share_runs(2,1,3) refl] t2
  have "(\<exists>ut. share_paid (today_s demo_clock) ''7'' ut demo_lobby demo_shared) \<and> t2 = ?t" by blast
  with t2 show ?thesis by simp
qed

section \<open>The exchange code\<close>

definition code_paid :: "string \<Rightarrow> redis \<Rightarrow> redis \<Rightarrow> bool" where
  "code_paid a s t \<longleftrightarrow> hf t exchange_hesh a = Some ''1'' \<and>
     (\<exists>v b. look s (FORMAT_ACCOUNT2USER_TABLE a) = map_option RStr v \<and> counter (hf s (fmt v) ''coin'') = Some b \<and>
        hf t (fmt v) ''coin'' = Some (show_int (b + 888888)))"

lemma exchange_code_ok:
  assumes "accounts_ok s"
  shows "wp (doExchageCode sid code) (\<lambda>r t. if \<exists>m. r = Reply 0 m
      then hf s exchange_hesh (fmt (hf s (FORMAT_USER_HALL_SESSION (strip sid)) ''account'')) \<noteq> Some ''1'' \<and> strip code = exchange_code \<and>
        code_paid (fmt (hf s (FORMAT_USER_HALL_SESSION (strip sid)) ''account'')) s t
      else t = s) (\<lambda>_ _. True) s"
proof -
  have n: "strtoll ''888888'' = Some 888888" by code_simp
  show ?thesis
    unfolding doExchageCode_def
  proof (rule info_wp, simp, unfold prod.case, intro ok_wp, goal_cases)
    case (4 uid w v old incr)
    have "FORMAT_ACCOUNT2USER_TABLE a \<noteq> exchange_hesh" for a by (simp add: lobby_keys)
    then have look: "look s (FORMAT_ACCOUNT2USER_TABLE (fmt (hf s (FORMAT_USER_HALL_SESSION (strip sid)) ''account''))) = map_option RStr v"
      using 4 by (simp add: look_hput_other)
    then have "fmt v \<in> user_tables" using assms by (cases v) (auto simp: accounts_ok_def, simp add: user_tables_def)
    then have "fmt v \<noteq> exchange_hesh" by simp
    with 4 n look show ?case by (auto simp: code_paid_def lobby_keys hput_kinds)
  qed auto
qed

text \<open>C25: the exchange code pays 888888 coins, only for the code in the source and at most once for an account: after a request that
  paid, no history of requests to the lobby makes another one of the same account pay or change anything.\<close>

theorem exchange_code_once:
  assumes "accounts_ok s" "doExchageCode sid code s = (Inr (Reply 0 m), t)"
    and "hf (fold lobby_do ops t) (FORMAT_USER_HALL_SESSION (strip sid2)) ''account'' = hf s (FORMAT_USER_HALL_SESSION (strip sid)) ''account''"
  shows "strip code = exchange_code \<and> code_paid (fmt (hf s (FORMAT_USER_HALL_SESSION (strip sid)) ''account'')) s t \<and>
    (\<forall>code r t2. doExchageCode sid2 code (fold lobby_do ops t) = (Inr r, t2) \<longrightarrow> t2 = fold lobby_do ops t \<and> (\<forall>m. r \<noteq> Reply 0 m))"
proof -
  let ?t = "fold lobby_do ops t" and ?a = "fmt (hf s (FORMAT_USER_HALL_SESSION (strip sid)) ''account'')"
  have paid: "strip code = exchange_code" "code_paid ?a s t"
    using wp_InrD [OF exchange_code_ok [OF assms(1)] assms(2)] by auto
  have "lobby_inv {} {} t" using keepsD [OF keeps_lobby_code(1) lobby_frame [OF assms(1)], of sid code] assms(2) by simp
  then have "lobby_inv {} {?a} t" using paid(2) by (simp add: lobby_inv_def code_paid_def)
  from lobby.inv_run [OF this, of ops] have t: "accounts_ok ?t" "hf ?t exchange_hesh ?a = Some ''1''" by (simp_all add: lobby_inv_def)
  have "t2 = ?t \<and> (\<forall>m. r \<noteq> Reply 0 m)" if "doExchageCode sid2 code ?t = (Inr r, t2)" for code r t2
    using wp_InrD [OF exchange_code_ok [OF t(1)] that] t(2) by (auto simp: assms(3) split: if_splits)
  with paid show ?thesis by blast
qed

definition demo_marked :: redis where
  "demo_marked = hput exchange_hesh ''ann'' ''1'' demo_lobby"

definition demo_coded :: redis where
  "demo_coded = hput ''users:7'' ''coin'' ''888898'' demo_marked"

lemma demo_code_steps:
  "getInfoBySid (strip ''s'') demo_lobby = (Inr (''hall:session:s'', Some ''ann'', Some ''7'', None), demo_lobby)"
  "exists_key ''hall:session:s'' demo_lobby = (Inr True, demo_lobby)" "hget exchange_hesh ''ann'' demo_lobby = (Inr None, demo_lobby)"
  "hset exchange_hesh ''ann'' ''1'' demo_lobby = (Inr (), demo_marked)" "strip exchange_code = exchange_code"
  "get (FORMAT_ACCOUNT2USER_TABLE ''ann'') demo_marked = (Inr (Some ''users:7''), demo_marked)"
  "is_hash demo_marked ''users:7''" "hf demo_marked ''users:7'' ''coin'' = Some ''10''" "strtoll ''10'' = Some 10" "strtoll ''888888'' = Some 888888"
  "hmget ''users:7'' [''coin'', ''exchange_ticket''] demo_coded = (Inr [Some ''888898'', None], demo_coded)"
  by code_simp+

lemma demo_code_runs:
  "doExchageCode ''s'' exchange_code demo_lobby = (Inr (Reply 0 ''888898''), demo_coded)"
  "hf (fold lobby_do [Exchange_check ''s''] demo_coded) (FORMAT_USER_HALL_SESSION (strip ''s2'')) ''account'' = hf demo_lobby (FORMAT_USER_HALL_SESSION (strip ''s'')) ''account''"
proof -
  have "digit_char 8 = CHR ''8''" "digit_char 9 = CHR ''9''" by code_simp+
  then have "show_int 888898 = ''888898''" by (simp add: show_int_def show_nat.simps)
  then have "hincrby ''users:7'' ''coin'' ''888888'' demo_marked = (Inr 888898, demo_coded)"
    by (simp add: hincrby_def demo_code_steps incr_overflows_def llong_min_def llong_max_def demo_coded_def)
  then show "doExchageCode ''s'' exchange_code demo_lobby = (Inr (Reply 0 ''888898''), demo_coded)"
    by (simp add: doExchageCode_def bindM_def thenM_def retM_def demo_code_steps)
  show "hf (fold lobby_do [Exchange_check ''s''] demo_coded) (FORMAT_USER_HALL_SESSION (strip ''s2'')) ''account'' =
      hf demo_lobby (FORMAT_USER_HALL_SESSION (strip ''s'')) ''account''"
    by code_simp
qed

theorem exchange_code_once_witness:
  "code_paid ''ann'' demo_lobby demo_coded \<and>
   snd (doExchageCode ''s2'' exchange_code (fold lobby_do [Exchange_check ''s''] demo_coded)) = fold lobby_do [Exchange_check ''s''] demo_coded"
proof -
  let ?t = "fold lobby_do [Exchange_check ''s''] demo_coded"
  have acc: "fmt (hf demo_lobby (FORMAT_USER_HALL_SESSION (strip ''s'')) ''account'') = ''ann''" by code_simp
  have "fst (doExchageCode ''s2'' exchange_code ?t) = Inr (Reply 1 ''taken already'')" by code_simp
  then obtain t2 where t2: "doExchageCode ''s2'' exchange_code ?t = (Inr (Reply 1 ''taken already''), t2)" by (metis prod.collapse)
  from exchange_code_once [OF accounts_ok_demo demo_code_runs, unfolded acc] t2
  have "code_paid ''ann'' demo_lobby demo_coded \<and> t2 = ?t" by blast
  with t2 show ?thesis by simp
qed

end
