(* ===== verification/LoginLaws.thy ===== *)
theory LoginLaws
  imports LobbyLaws
begin

text \<open>
  What a login needs and what it leaves: the stored password, an account that is not frozen, and one
  session of the user, the latest.
\<close>

section \<open>The session a login opens\<close>

definition opened :: "string \<Rightarrow> string \<Rightarrow> string \<Rightarrow> redis \<Rightarrow> bool" where
  "opened uid sid account t \<longleftrightarrow> hf t (FORMAT_USER_HALL_SESSION sid) ''uid'' = Some uid \<and>
     hf t (FORMAT_USER_HALL_SESSION sid) ''account'' = Some account \<and> look t (FORMAT_USER_PLATFORM_SESSION uid) = Some (RStr sid)"

lemma opened_kinds:
  assumes "opened uid sid account s"
  shows "is_hash s k \<Longrightarrow> k \<noteq> FORMAT_USER_PLATFORM_SESSION uid" "is_set s k \<Longrightarrow> k \<noteq> FORMAT_USER_PLATFORM_SESSION uid"
    "is_list s k \<Longrightarrow> k \<noteq> FORMAT_USER_PLATFORM_SESSION uid" "is_zset s k \<Longrightarrow> k \<noteq> FORMAT_USER_PLATFORM_SESSION uid"
    "is_set s k \<Longrightarrow> k \<noteq> FORMAT_USER_HALL_SESSION sid" "is_list s k \<Longrightarrow> k \<noteq> FORMAT_USER_HALL_SESSION sid" "is_zset s k \<Longrightarrow> k \<noteq> FORMAT_USER_HALL_SESSION sid"
proof -
  show "is_hash s k \<Longrightarrow> k \<noteq> FORMAT_USER_PLATFORM_SESSION uid" "is_set s k \<Longrightarrow> k \<noteq> FORMAT_USER_PLATFORM_SESSION uid"
    "is_list s k \<Longrightarrow> k \<noteq> FORMAT_USER_PLATFORM_SESSION uid" "is_zset s k \<Longrightarrow> k \<noteq> FORMAT_USER_PLATFORM_SESSION uid"
    using assms by (auto simp: opened_def is_hash_def is_set_def is_list_def is_zset_def)
  show "is_set s k \<Longrightarrow> k \<noteq> FORMAT_USER_HALL_SESSION sid" "is_list s k \<Longrightarrow> k \<noteq> FORMAT_USER_HALL_SESSION sid" "is_zset s k \<Longrightarrow> k \<noteq> FORMAT_USER_HALL_SESSION sid"
    using assms other_kind(4-6) [of s k "''uid''"] by (auto simp: opened_def)
qed

lemma keeps_opened:
  "k \<noteq> FORMAT_USER_HALL_SESSION sid \<Longrightarrow> keeps (opened uid sid account) (hset k f v)"
  "k \<noteq> FORMAT_USER_HALL_SESSION sid \<Longrightarrow> keeps (opened uid sid account) (hincrby k f v)"
  "k \<notin> {FORMAT_USER_HALL_SESSION sid, FORMAT_USER_PLATFORM_SESSION uid} \<Longrightarrow> keeps (opened uid sid account) (delete_key k)"
  "keeps (opened uid sid account) (sadd k m)" "keeps (opened uid sid account) (srem k m)" "keeps (opened uid sid account) (rpush k m)"
  "keeps (opened uid sid account) (lrem k m)" "keeps (opened uid sid account) (zadd_to d k m n)" "keeps (opened uid sid account) (expire_key k 2400)"
proof (rule_tac [!] keepsI)
  fix s assume s: "opened uid sid account s"
  note kinds = opened_kinds [OF s]
  let ?P = "opened uid sid account"
  show "wp (hset k f v) (\<lambda>_. ?P) (\<lambda>_. ?P) s" "wp (hincrby k f v) (\<lambda>_. ?P) (\<lambda>_. ?P) s" if "k \<noteq> FORMAT_USER_HALL_SESSION sid" 
    using s that kinds(1) [of k] by (auto simp: wp_eqs opened_def hput_kinds split: option.split)
  show "wp (delete_key k) (\<lambda>_. ?P) (\<lambda>_. ?P) s" if "k \<notin> {FORMAT_USER_HALL_SESSION sid, FORMAT_USER_PLATFORM_SESSION uid}"
    using s that by (auto simp: wp_eqs opened_def)
  show "wp (sadd k m) (\<lambda>_. ?P) (\<lambda>_. ?P) s" "wp (srem k m) (\<lambda>_. ?P) (\<lambda>_. ?P) s"
    using s kinds(2,5) [of k] by (auto simp: wp_eqs opened_def look_put_set)
  show "wp (rpush k m) (\<lambda>_. ?P) (\<lambda>_. ?P) s" "wp (lrem k m) (\<lambda>_. ?P) (\<lambda>_. ?P) s"
    using s kinds(3,6) [of k] by (auto simp: wp_eqs opened_def look_set_list list_kinds)
  show "wp (zadd_to d k m n) (\<lambda>_. ?P) (\<lambda>_. ?P) s"
    using s kinds(4,7) [of k] by (auto simp: wp_eqs opened_def zset_kinds simp del: hf_put_other)
  show "wp (expire_key k 2400) (\<lambda>_. ?P) (\<lambda>_. ?P) s"
    using s by (simp add: wp_eqs opened_def expired_def)
qed

lemma kicks_others:
  assumes "opened uid sid account t" "hf t (FORMAT_USER_HALL_SESSION (strip old)) ''uid'' = Some uid" "strip old \<noteq> sid" "sid \<noteq> []"
  shows "session_guard old refuse body t = (Inr (refuse (- 4)), t)"
proof -
  have "is_hash t (FORMAT_USER_HALL_SESSION (strip old))" using assms(2) other_kind by (auto simp: is_hash_def hf_def hash_of_def split: option.splits rval.splits)
  with assms show ?thesis
    by (simp add: session_guard_def getInfoBySid_def check_session_verfiy_def bindM_def hmget_def get_def retM_def opened_def truthy_def Let_def)
qed

text \<open>A string the requests leave alone unless they write its key.\<close>

definition string_at :: "string \<Rightarrow> string \<Rightarrow> redis \<Rightarrow> bool" where
  "string_at k v s \<longleftrightarrow> look s k = Some (RStr v)"

lemma keeps_string:
  "keeps (string_at k v) (hset j f x)" "keeps (string_at k v) (hmset j m)" "keeps (string_at k v) (hincrby j f y)" "keeps (string_at k v) (sadd j x)"
  "keeps (string_at k v) (srem j x)" "keeps (string_at k v) (rpush j x)" "0 < n \<Longrightarrow> keeps (string_at k v) (expire_key j n)"
  "j \<noteq> k \<Longrightarrow> keeps (string_at k v) (set_str j x)" "j \<noteq> k \<Longrightarrow> keeps (string_at k v) (delete_key j)"
proof (rule_tac [!] keepsI)
  fix s assume s: "string_at k v s"
  then have k: "is_hash s j \<Longrightarrow> j \<noteq> k" "is_set s j \<Longrightarrow> j \<noteq> k" "is_list s j \<Longrightarrow> j \<noteq> k"
    by (auto simp: string_at_def is_hash_def is_set_def is_list_def)
  let ?P = "string_at k v"
  show "wp (hset j f x) (\<lambda>_. ?P) (\<lambda>_. ?P) s" "wp (hmset j m) (\<lambda>_. ?P) (\<lambda>_. ?P) s" "wp (hincrby j f y) (\<lambda>_. ?P) (\<lambda>_. ?P) s"
    using s k by (auto simp: wp_eqs string_at_def hput_kinds look_hputs_other split: option.split)
  show "wp (sadd j x) (\<lambda>_. ?P) (\<lambda>_. ?P) s" "wp (srem j x) (\<lambda>_. ?P) (\<lambda>_. ?P) s" "wp (rpush j x) (\<lambda>_. ?P) (\<lambda>_. ?P) s"
    using s k by (auto simp: wp_eqs string_at_def look_put_set look_set_list)
  show "wp (expire_key j n) (\<lambda>_. ?P) (\<lambda>_. ?P) s" if "0 < n" using s that by (simp add: wp_eqs string_at_def expired_def)
  show "wp (set_str j x) (\<lambda>_. ?P) (\<lambda>_. ?P) s" "wp (delete_key j) (\<lambda>_. ?P) (\<lambda>_. ?P) s" if "j \<noteq> k"
    using s that by (auto simp: wp_eqs string_at_def)
qed

lemma keeps_string_session [pres_intros]: "keeps (string_at k v) (session_login E uid account ip date sid)"
  unfolding session_login_def session_set_def by (intro pres_intros keeps_string; simp)

lemma open_session_ok: "wp (open_session E ct uid sid ut v) (\<lambda>_ t. opened uid sid (fmt (v ! 0)) t) (\<lambda>_ _. True) s"
proof -
  let ?P = "string_at (FORMAT_USER_PLATFORM_SESSION uid) sid"
  have last: "wp (execute [hmset (FORMAT_USER_HALL_SESSION sid) [(''account'', account), (''uid'', uid), (''sid'', sid), (''loginIp'', ip)],
      expire_key (FORMAT_USER_HALL_SESSION sid) 2400]) (\<lambda>_ t. opened uid sid account t) (\<lambda>_ _. True) t" if "?P t" for account ip t
  proof -
    have "FORMAT_USER_PLATFORM_SESSION uid \<noteq> FORMAT_USER_HALL_SESSION sid" by (simp add: FORMAT_USER_PLATFORM_SESSION_def FORMAT_USER_HALL_SESSION_def)
    with that show ?thesis by (auto simp: wp_eqs opened_def string_at_def expired_def hput_kinds)
  qed
  show ?thesis
    unfolding open_session_def
    by (intro ok_thenM, simp add: wp_set_str, intro wp_mono [OF wp_keeps [OF keeps_string(2)]] ok_thenM wp_mono [OF wp_keeps [OF keeps_string_session]] last)
      (simp_all add: string_at_def)
qed

text \<open>What follows the opening.\<close>

lemma keeps_opened_rest:
  assumes "ut \<noteq> FORMAT_USER_HALL_SESSION sid"
  shows "keeps (opened uid sid account) (day_login E u ut n)" "keeps (opened uid sid account) (kick_player a u)"
    "keeps (opened uid sid account) (join_answer u)" "keeps (opened uid sid account) (leave_party a)" "keeps (opened uid sid account) (rank_coin E a ut)"
    "keeps (opened uid sid account) (check_spring_all j c)"
proof -
  have j: "JOIN_GROUP_RESULT u \<notin> {FORMAT_USER_HALL_SESSION sid, FORMAT_USER_PLATFORM_SESSION uid}" by (simp add: lobby_keys)
  show "keeps (opened uid sid account) (day_login E u ut n)" "keeps (opened uid sid account) (kick_player a u)"
    "keeps (opened uid sid account) (join_answer u)" "keeps (opened uid sid account) (leave_party a)" "keeps (opened uid sid account) (rank_coin E a ut)"
    "keeps (opened uid sid account) (check_spring_all j c)"
    unfolding day_login_def kick_player_def join_answer_def leave_party_def rank_coin_def check_spring_all_def sign_notice_def
      get_should_sign_warheads_def sendProtocol2GameService_def Let_def
    using j by - (rule pres_intros | (rule keeps_opened; simp add: assms))+
qed

lemma wp_conj: "wp m Q E s \<Longrightarrow> wp m R F s \<Longrightarrow> wp m (\<lambda>x t. Q x t \<and> R x t) (\<lambda>e t. E e t \<and> F e t) s"
  by (auto simp: wp_def split: prod.split sum.split)

lemma ok_keeping:
  "keeps P m \<Longrightarrow> P s \<Longrightarrow> (\<And>x t. P t \<Longrightarrow> wp (f x) Q (\<lambda>_ _. True) t) \<Longrightarrow> wp (bindM m f) Q (\<lambda>_ _. True) s"
  "keeps P m \<Longrightarrow> P s \<Longrightarrow> (\<And>t. P t \<Longrightarrow> wp k Q (\<lambda>_ _. True) t) \<Longrightarrow> wp (thenM m k) Q (\<lambda>_ _. True) s"
  by (rule ok_wp, rule wp_mono, erule (1) wp_keeps, simp_all)+

lemma enter_lobby_ok:
  assumes "ut \<in> user_tables"
  shows "wp (enter_lobby E form ct n ra rp re ut uid) (\<lambda>r t. \<forall>i. r = Inr i \<longrightarrow> (\<exists>v. py_int_none (hf s ut ''valid'') = Inr v \<and> v \<noteq> 0) \<and>
      l_sid i = login_sid E n uid \<and> look s (FORMAT_USER_HALL_SESSION (l_sid i)) = None \<and> opened uid (l_sid i) (fmt (hf s ut ''account'')) t) (\<lambda>_ _. True) s"
proof -
  define sid where "sid = login_sid E n uid"
  have ut: "ut \<noteq> FORMAT_USER_HALL_SESSION sid" using user_tables_neq(5) [OF assms] .
  show ?thesis
    unfolding enter_lobby_def sid_def [symmetric] Let_def
  proof (intro ok_wp, goal_cases)
    case (2 x xa)
    let ?P = "opened uid sid (fmt (hf s ut ''account''))"
    note keep = keeps_opened_rest [OF ut, where uid = uid and account = "fmt (hf s ut ''account'')"]
    have valid: "\<exists>v. py_int_none (hf s ut ''valid'') = Inr v \<and> v \<noteq> 0" "look s (FORMAT_USER_HALL_SESSION sid) = None" using 2 by simp_all
    have steps: "wp (open_session E ct uid sid ut v) (\<lambda>_ t. wp k Q (\<lambda>_ _. True) t) (\<lambda>_ _. True) s"
      if "\<And>t. ?P t \<Longrightarrow> wp k Q (\<lambda>_ _. True) t" "v ! 0 = hf s ut ''account''" for k :: "(reply + login_info) rh" and Q v
      by (rule wp_mono [OF open_session_ok]) (use that in auto)
    show ?case
      by (rule steps, rule ok_keeping(2) [OF keep(6)], assumption, rule ok_keeping(1) [OF keep(1)], assumption,
          rule ok_keeping(2) [OF keep(2)], assumption, rule ok_bindM, rule ok_liftE, rule ok_keeping(1) [OF keep(3)], assumption,
          rule ok_keeping(2) [OF keep(4)], assumption, rule ok_keeping(2) [OF keep(5)], assumption,
          rule ok_keeping(2) [OF keeps_opened(5)], assumption, rule ok_retM) (use valid in simp_all)
  qed simp
qed

section \<open>Passwords\<close>

lemma split_user_table:
  assumes "ut \<in> user_tables" "split_on (CHR '':'') ut = x # uid # r"
  shows "ut = user_key (Some uid)"
proof -
  have "split_on (CHR '':'') ''None'' = [''None'']" by code_simp
  then have "ut \<noteq> ''None''" using assms(2) by auto
  then obtain u where u: "ut = user_key (Some u)" "CHR '':'' \<notin> set u" using assms(1) by (auto simp: user_tables_def)
  have "split_on (CHR '':'') (''users'' @ CHR '':'' # u) = [''users'', u]"
    using split_on_append [of "CHR '':''" "''users''" u] split_on_plain [OF u(2)] by simp
  moreover have "ut = ''users'' @ CHR '':'' # u" using u(1) by (simp add: user_key_def)
  ultimately have "uid = u" using assms(2) by (simp del: append.simps split_on.simps)
  with u(1) show ?thesis by simp
qed

text \<open>What a login reads of the user before it opens the session, and what it changes before that.\<close>

definition same_user :: "string \<Rightarrow> redis \<Rightarrow> redis \<Rightarrow> bool" where
  "same_user ut s t \<longleftrightarrow> (\<forall>f\<in>{''account'', ''valid''}. hf t ut f = hf s ut f) \<and> (\<forall>x. look t (FORMAT_USER_HALL_SESSION x) = look s (FORMAT_USER_HALL_SESSION x))"

lemma keeps_same_user:
  "k \<noteq> ut \<Longrightarrow> (\<And>x. FORMAT_USER_HALL_SESSION x \<noteq> k) \<Longrightarrow> keeps (same_user ut s) (sadd k m)"
  "f \<notin> {''account'', ''valid''} \<Longrightarrow> (\<And>x. FORMAT_USER_HALL_SESSION x \<noteq> k) \<Longrightarrow> keeps (same_user ut s) (hset k f v)"
  by (rule keepsI, auto simp: wp_eqs same_user_def look_put_set hput_kinds)+

lemma user_table_keys: "ut \<in> user_tables \<Longrightarrow> ut \<notin> {FORMAT_LOGIN_POOL_SET, ACCOUNT4WEIXIN_SET4FISH, FORMAT_REG_DATE_TABLE4FISH d}"
  by (auto simp: user_tables_def lobby_keys FORMAT_REG_DATE_TABLE4FISH_def)

lemma keeps_same_parts:
  assumes "ut \<in> user_tables"
  shows "keeps (same_user ut s) (lock_box uid)" "keeps (same_user ut s) (first_login E a ut)" "keeps (same_user ut s) (join_invited a)"
proof -
  have keys: "FORMAT_USER_HALL_SESSION x \<noteq> ACCOUNT4WEIXIN_SET4FISH" "FORMAT_USER_HALL_SESSION x \<noteq> FORMAT_REG_DATE_TABLE4FISH d"
    "FORMAT_USER_HALL_SESSION x \<noteq> user_key u" "FORMAT_USER_HALL_SESSION x \<noteq> ut" for x d u
    using user_tables_neq(5) [OF assms] by (auto simp: lobby_keys FORMAT_REG_DATE_TABLE4FISH_def)
  have ne: "ut \<noteq> ACCOUNT4WEIXIN_SET4FISH" "ut \<noteq> FORMAT_REG_DATE_TABLE4FISH d" for d using user_table_keys [OF assms] by auto
  show "keeps (same_user ut s) (lock_box uid)" "keeps (same_user ut s) (first_login E a ut)" "keeps (same_user ut s) (join_invited a)"
    unfolding lock_box_def first_login_def join_invited_def
    by (rule pres_intros | (rule keeps_same_user; simp add: keys ne ne [symmetric]))+
qed

lemma password_login_ok:
  "wp (onRegFish E account passwd 0) (\<lambda>r t. r = None \<or> r = Some (account, passwd) \<and> t = s \<and>
     (\<exists>ut. look s (FORMAT_ACCOUNT2USER_TABLE account) = Some (RStr ut) \<and> hf s ut ''password'' = Some (login_env.md5 E passwd))) (\<lambda>_ _. True) s"
proof -
  have "wp (password_login E account passwd) (\<lambda>r t. t = s \<and> (r = None \<or> r = Some (account, passwd) \<and>
     (\<exists>ut. look s (FORMAT_ACCOUNT2USER_TABLE account) = Some (RStr ut) \<and> hf s ut ''password'' = Some (login_env.md5 E passwd)))) (\<lambda>_ _. True) s"
    unfolding password_login_def
  proof (intro ok_wp, goal_cases)
    case (2 v)
    then show ?case by (cases v) auto
  qed simp
  then have "wp (password_login E account passwd) (\<lambda>r. wp (if r = None then thenM (srem FORMAT_LOGIN_POOL_SET account) (retM None) else retM r)
     (\<lambda>r t. r = None \<or> r = Some (account, passwd) \<and> t = s \<and>
     (\<exists>ut. look s (FORMAT_ACCOUNT2USER_TABLE account) = Some (RStr ut) \<and> hf s ut ''password'' = Some (login_env.md5 E passwd))) (\<lambda>_ _. True)) (\<lambda>_ _. True) s"
    by (rule wp_mono) (auto simp: wp_eqs)
  then show ?thesis by (simp add: onRegFish_def wp_bindM)
qed

lemma login_ok:
  assumes "accounts_ok s" "int_or (Some (strip lt)) 0 = Inr 0"
  shows "wp (do_login E a ct p lt) (\<lambda>r t. \<forall>i. r = Inr i \<longrightarrow> (\<exists>uid. look s (FORMAT_ACCOUNT2USER_TABLE (strip a)) = Some (RStr (user_key (Some uid))) \<and>
      hf s (user_key (Some uid)) ''password'' = Some (login_env.md5 E (strip p)) \<and> (\<exists>v. py_int_none (hf s (user_key (Some uid)) ''valid'') = Inr v \<and> v \<noteq> 0) \<and>
      l_sid i = login_env.md5 E (uid @ time_s E) \<and> look s (FORMAT_USER_HALL_SESSION (l_sid i)) = None \<and>
      opened uid (l_sid i) (fmt (hf s (user_key (Some uid)) ''account'')) t)) (\<lambda>_ _. True) s"
    (is "wp _ ?Q _ s")
proof -
  define s1 where "s1 = put_set FORMAT_LOGIN_POOL_SET (List.insert (strip a) (members s FORMAT_LOGIN_POOL_SET)) s"
  have acct: "look s1 (FORMAT_ACCOUNT2USER_TABLE b) = look s (FORMAT_ACCOUNT2USER_TABLE b)" for b
    by (simp add: s1_def look_put_set lobby_keys)
  have user: "hf s1 ut f = hf s ut f" if "ut \<in> user_tables" for ut f
    using user_table_keys [OF that] by (auto simp: s1_def)
  have hall: "look s1 (FORMAT_USER_HALL_SESSION x) = look s (FORMAT_USER_HALL_SESSION x)" for x
    by (simp add: s1_def look_put_set lobby_keys)
  have enter: "wp (thenM (lock_box uid) (thenM (first_login E ra ut) (thenM (join_invited re) (enter_lobby E form c 0 re rp rr ut uid)))) ?Q (\<lambda>_ _. True) s1"
    if ut: "look s (FORMAT_ACCOUNT2USER_TABLE (strip a)) = Some (RStr ut)" "hf s ut ''password'' = Some (login_env.md5 E (strip p))"
      and uid: "split_on (CHR '':'') ut = x # uid # r" for ra ut re form c rp rr uid x r
  proof -
    have tab: "ut \<in> user_tables" using ut(1) assms(1) by (simp add: accounts_ok_def)
    have key: "ut = user_key (Some uid)" by (rule split_user_table [OF tab uid])
    have start: "same_user ut s s1" by (simp add: same_user_def user [OF tab] hall)
    show ?thesis
    proof (rule ok_keeping(2) [OF keeps_same_parts(1) [OF tab] start], rule ok_keeping(2) [OF keeps_same_parts(2) [OF tab]], assumption,
        rule ok_keeping(2) [OF keeps_same_parts(3) [OF tab]], assumption)
      fix t assume t: "same_user ut s t"
      show "wp (enter_lobby E form c 0 re rp rr ut uid) ?Q (\<lambda>_ _. True) t"
        by (rule wp_mono [OF enter_lobby_ok [OF tab]]) (use t ut key in \<open>auto simp: same_user_def login_sid_def\<close>)
    qed
  qed
  define K where "K = (\<lambda>r. case r of None \<Rightarrow> thenM (srem FORMAT_LOGIN_POOL_SET (strip a)) (retM (Inl (Reply 101 ''wrong''))) | Some (reAccount, rePasswd) \<Rightarrow>
      if reAccount = [] then thenM (srem FORMAT_LOGIN_POOL_SET (strip a)) (retM (Inl (Reply 101 ''wrong''))) else
      bindM (if (0::int) \<noteq> 0 then get (WEIXIN2ACCOUNT reAccount) else retM (Some reAccount)) (\<lambda>realAccount.
      bindM (get (FORMAT_ACCOUNT2USER_TABLE (fmt realAccount))) (\<lambda>userTable. case userTable of None \<Rightarrow> raiseM AttributeError | Some ut \<Rightarrow>
      (case split_on (CHR '':'') ut of _ # uid # _ \<Rightarrow> thenM (lock_box uid) (thenM (first_login E (fmt realAccount) ut) (thenM (join_invited reAccount)
         (enter_lobby E (strip a) (if strip ct = [] then ''0'' else strip ct) 0 reAccount rePasswd realAccount ut uid))) | _ \<Rightarrow> raiseM IndexError))))"
  have none: "wp (K None) ?Q (\<lambda>_ _. True) t" for t by (simp add: K_def wp_eqs)
  have some: "wp (K (Some (strip a, strip p))) ?Q (\<lambda>_ _. True) s1"
    if ut: "look s (FORMAT_ACCOUNT2USER_TABLE (strip a)) = Some (RStr ut)" "hf s ut ''password'' = Some (login_env.md5 E (strip p))" for ut
  proof (cases "strip a = [] \<or> (\<forall>x uid r. split_on (CHR '':'') ut \<noteq> x # uid # r)")
    case True
    then show ?thesis
      by (cases "split_on (CHR '':'') ut"; cases "tl (split_on (CHR '':'') ut)")
        (auto simp: K_def wp_bindM wp_get wp_retM wp_raiseM wp_thenM wp_srem acct ut)
  next
    case False
    then obtain x uid r where u: "split_on (CHR '':'') ut = x # uid # r" "strip a \<noteq> []" by blast
    then have "wp (K (Some (strip a, strip p))) ?Q (\<lambda>_ _. True) s1 = wp (thenM (lock_box uid) (thenM (first_login E (strip a) ut) (thenM (join_invited (strip a))
         (enter_lobby E (strip a) (if strip ct = [] then ''0'' else strip ct) 0 (strip a) (strip p) (Some (strip a)) ut uid)))) ?Q (\<lambda>_ _. True) s1"
      by (simp add: K_def wp_bindM wp_get wp_retM acct ut)
    with enter [OF ut u(1)] show ?thesis by simp
  qed
  have "wp (onRegFish E (strip a) (strip p) 0) (\<lambda>r. wp (K r) ?Q (\<lambda>_ _. True)) (\<lambda>_ _. True) s1"
  proof (rule wp_mono [OF password_login_ok], goal_cases)
    case (1 r t)
    then show ?case
    proof (elim disjE conjE exE)
      fix ut assume h: "r = Some (strip a, strip p)" "t = s1" "look s1 (FORMAT_ACCOUNT2USER_TABLE (strip a)) = Some (RStr ut)"
        "hf s1 ut ''password'' = Some (login_env.md5 E (strip p))"
      then have "ut \<in> user_tables" using assms(1) by (simp add: accounts_ok_def acct)
      with h some [of ut] show ?thesis by (simp add: acct user)
    qed (simp add: none)
  qed
  then show ?thesis
    by (simp add: do_login_def K_def Let_def assms(2) wp_bindM wp_thenM wp_liftE wp_smembers wp_sadd s1_def)
qed

text \<open>C23: a login with a password succeeds only for a known account with the stored digest that is not frozen.  It opens a session
  that was not there, which names the user and the account, and every other session of the user is refused from then on by every guarded handler.\<close>

theorem login_needs_password:
  assumes "accounts_ok s" "int_or (Some (strip lt)) 0 = Inr 0" "do_login E a ct p lt s = (Inr (Inr i), t)"
  shows "\<exists>uid. look s (FORMAT_ACCOUNT2USER_TABLE (strip a)) = Some (RStr (user_key (Some uid))) \<and>
    hf s (user_key (Some uid)) ''password'' = Some (login_env.md5 E (strip p)) \<and> (\<exists>v. py_int_none (hf s (user_key (Some uid)) ''valid'') = Inr v \<and> v \<noteq> 0) \<and>
    look s (FORMAT_USER_HALL_SESSION (l_sid i)) = None \<and> opened uid (l_sid i) (fmt (hf s (user_key (Some uid)) ''account'')) t \<and>
    (\<forall>old refuse body. hf t (FORMAT_USER_HALL_SESSION (strip old)) ''uid'' = Some uid \<and> strip old \<noteq> l_sid i \<and> l_sid i \<noteq> [] \<longrightarrow>
      session_guard old refuse body t = (Inr (refuse (- 4)), t))"
proof -
  from wp_InrD [OF login_ok [OF assms(1,2)] assms(3)] obtain uid where "look s (FORMAT_ACCOUNT2USER_TABLE (strip a)) = Some (RStr (user_key (Some uid)))"
    "hf s (user_key (Some uid)) ''password'' = Some (login_env.md5 E (strip p))" "\<exists>v. py_int_none (hf s (user_key (Some uid)) ''valid'') = Inr v \<and> v \<noteq> 0"
    "look s (FORMAT_USER_HALL_SESSION (l_sid i)) = None" "opened uid (l_sid i) (fmt (hf s (user_key (Some uid)) ''account'')) t" by auto
  with kicks_others show ?thesis by blast
qed

definition demo_env :: login_env where
  "demo_env = \<lparr>login_env.md5 = (\<lambda>x. ''d'' @ x), login_env.now_s = ''n'', time_s = ''t'', remote_addr = ''ip'', web_id = ''w'', lclock = demo_clock,
     ljson = \<lparr>js_obj = (\<lambda>_. Inr [(''from'', PStr ''a''), (''to'', PStr ''b'')]), js_answers = (\<lambda>_. Inr [])\<rparr>, dbl = (\<lambda>n. n),
     code_fish = (\<lambda>_. None), code_web = (\<lambda>_ _. None), wx_data = (\<lambda>_ _. None), name_draws = []\<rparr>"

definition demo_home :: redis where
  "demo_home = empty_db\<lparr>kv := [(FORMAT_USER_HALL_SESSION ''old'', RHash [(''account'', ''ann''), (''uid'', ''7'')]),
     (FORMAT_USER_PLATFORM_SESSION ''7'', RStr ''old''), (FORMAT_ACCOUNT2USER_TABLE ''ann'', RStr (user_key (Some ''7''))),
     (user_key (Some ''7''), RHash [(''account'', ''ann''), (''password'', ''dpw''), (''valid'', ''1''), (''coin'', ''10'')]),
     (ACCOUNT4WEIXIN_SET4FISH, RSet [''ann'']), (ACTIVICE_SPRING_TIME, RStr ''{}'')]\<rparr>"

lemma accounts_ok_home: "accounts_ok demo_home"
  by (auto simp: accounts_ok_def demo_home_def look_def lobby_keys ACTIVICE_SPRING_TIME_def user_tables_def split: if_splits)

definition demo_in :: redis where
  "demo_in = snd (do_login demo_env '' ann'' ''0'' ''pw'' '''' demo_home)"

definition demo_info :: login_info where
  "demo_info = \<lparr>l_sid = ''d7t'', l_account = ''ann'', l_passwd = ''pw'', l_weixin = False, l_sign = Some 1000000, l_join = None\<rparr>"

lemma demo_login_runs: "do_login demo_env '' ann'' ''0'' ''pw'' '''' demo_home = (Inr (Inr demo_info), demo_in)"
  by code_simp

lemma demo_login_reads:
  "int_or (Some (strip '''')) 0 = Inr 0" "look demo_home (FORMAT_ACCOUNT2USER_TABLE (strip '' ann'')) = Some (RStr (user_key (Some ''7'')))"
  "hf demo_in (FORMAT_USER_HALL_SESSION (strip ''old'')) ''uid'' = Some ''7''" "strip ''old'' \<noteq> l_sid demo_info \<and> l_sid demo_info \<noteq> []"
  by code_simp+

theorem login_needs_password_witness:
  "hf demo_home (user_key (Some ''7'')) ''password'' = Some (login_env.md5 demo_env (strip ''pw'')) \<and>
   get_hall_broad ''old'' demo_in = (Inr (Inl (- 4)), demo_in)"
proof -
  from login_needs_password [OF accounts_ok_home demo_login_reads(1) demo_login_runs, unfolded demo_login_reads(2)]
  obtain uid where uid: "user_key (Some ''7'') = user_key (Some uid)" "hf demo_home (user_key (Some uid)) ''password'' = Some (login_env.md5 demo_env (strip ''pw''))"
    "\<And>old refuse (body :: _ \<Rightarrow> _ \<Rightarrow> _ \<Rightarrow> (int + (string \<times> int) list) rh). hf demo_in (FORMAT_USER_HALL_SESSION (strip old)) ''uid'' = Some uid \<and> strip old \<noteq> l_sid demo_info \<and> l_sid demo_info \<noteq> [] \<Longrightarrow>
      session_guard old refuse body demo_in = (Inr (refuse (- 4)), demo_in)" by blast
  then have "uid = ''7''" by (simp add: user_key_def)
  with uid(2) uid(3) [of "''old''"] demo_login_reads(3,4) show ?thesis by (simp add: get_hall_broad_def)
qed

section \<open>Registering\<close>

text \<open>How many users there are, the number the next one is drawn from.\<close>

definition users_counted :: "redis \<Rightarrow> int option" where
  "users_counted s = (case look s FORMAT_USER_COUNT_TABLE of None \<Rightarrow> Some 0 | Some (RStr v) \<Rightarrow> strtoll v | Some _ \<Rightarrow> None)"

text \<open>The account is that of the user numbered \<open>n\<close>, the last one drawn.\<close>

definition last_user :: "string \<Rightarrow> int \<Rightarrow> redis \<Rightarrow> bool" where
  "last_user a n s \<longleftrightarrow> string_at (FORMAT_ACCOUNT2USER_TABLE a) (user_key (Some (show_int n))) s \<and>
     string_at FORMAT_USER_COUNT_TABLE (show_int n) s \<and> in_llong n"

lemma last_user_counted: "last_user a n s \<Longrightarrow> users_counted s = Some n"
  by (simp add: last_user_def users_counted_def string_at_def strtoll_show_int)

lemma run_count:
  assumes "\<And>n. users_counted s = Some n \<Longrightarrow> in_llong (n + 1) \<Longrightarrow> Q (n + 1) (put FORMAT_USER_COUNT_TABLE (RStr (show_int (n + 1))) s)"
  shows "wp (incrby FORMAT_USER_COUNT_TABLE ''1'') Q (\<lambda>_ _. True) s"
proof -
  have one: "strtoll ''1'' = Some 1" by code_simp
  have "in_llong n" if "users_counted s = Some n" for n
    using that strtoll_in_llong by (auto simp: users_counted_def in_llong_def llong_min_def llong_max_def split: option.splits rval.splits)
  moreover have "in_llong 1" by (simp add: in_llong_def llong_min_def llong_max_def)
  ultimately show ?thesis
    using assms incr_overflows_iff [of _ 1] by (auto simp: wp_incrby one users_counted_def split: option.split rval.split)
qed

lemma show_int_count: "''count'' \<noteq> show_int i"
proof
  assume c: "''count'' = show_int i"
  then have "py_int_opt ''count'' = Some i" by (simp only: py_int_opt_show_int)
  moreover have "py_int_opt ''count'' = None" by code_simp
  ultimately show False by simp
qed

lemma register_ok:
  "wp (register_by_account E a p ag) (\<lambda>uid t. \<exists>n. uid = show_int (n + 1) \<and> users_counted s = Some n \<and> last_user a (n + 1) t \<and>
     a \<in> set (members t registered_set)) (\<lambda>_ _. True) s"
proof -
  have keys: "FORMAT_ACCOUNT2USER_TABLE a \<noteq> FORMAT_REG_DATE_TABLE4FISH d" "FORMAT_ACCOUNT2USER_TABLE a \<noteq> registered_set"
    "FORMAT_ACCOUNT2USER_TABLE a \<noteq> FORMAT_ADMIN_ACCOUNT_MEMBER_TABLE g" "registered_set \<noteq> FORMAT_ADMIN_ACCOUNT_MEMBER_TABLE g"
    "FORMAT_USER_COUNT_TABLE \<noteq> FORMAT_REG_DATE_TABLE4FISH d" "FORMAT_USER_COUNT_TABLE \<noteq> registered_set"
    "FORMAT_USER_COUNT_TABLE \<noteq> FORMAT_ADMIN_ACCOUNT_MEMBER_TABLE g" "FORMAT_USER_COUNT_TABLE \<noteq> FORMAT_ACCOUNT2USER_TABLE a"
    "FORMAT_USER_COUNT_TABLE \<noteq> user_key (Some (show_int i))" for d g i
    using show_int_count
    by (simp_all add: lobby_keys FORMAT_REG_DATE_TABLE4FISH_def FORMAT_ADMIN_ACCOUNT_MEMBER_TABLE_def FORMAT_USER_COUNT_TABLE_def)
  show ?thesis
    unfolding register_by_account_def Let_def
    by (intro ok_bindM run_count)
      (auto simp: wp_eqs string_at_def last_user_def look_put_set look_hputs_other keys split: option.split)
qed

lemma keeps_last_user:
  assumes "keeps (string_at (FORMAT_ACCOUNT2USER_TABLE a) (user_key (Some (show_int n)))) m"
    and "keeps (string_at FORMAT_USER_COUNT_TABLE (show_int n)) m"
  shows "keeps (last_user a n) m"
  using assms by (auto simp: keeps_def last_user_def)

text \<open>What follows the registration.\<close>

lemma kept_after_register:
  "keeps (string_at k v) (kick_player b uid)" "keeps (string_at k v) (lock_box uid)" "keeps (string_at k v) (sign_notice E uid)"
  unfolding kick_player_def lock_box_def sign_notice_def get_should_sign_warheads_def sendProtocol2GameService_def
  by (rule pres_intros | (rule keeps_string; simp))+

lemma account_key_neq:
  "FORMAT_USER_HALL_SESSION x \<noteq> FORMAT_ACCOUNT2USER_TABLE a" "FORMAT_USER_PLATFORM_SESSION x \<noteq> FORMAT_ACCOUNT2USER_TABLE a"
  "kick_key x \<noteq> FORMAT_ACCOUNT2USER_TABLE a"
  "FORMAT_USER_HALL_SESSION x \<noteq> FORMAT_USER_COUNT_TABLE" "FORMAT_USER_PLATFORM_SESSION x \<noteq> FORMAT_USER_COUNT_TABLE"
  "kick_key x \<noteq> FORMAT_USER_COUNT_TABLE"
  by (simp_all add: lobby_keys FORMAT_USER_COUNT_TABLE_def)

lemma do_inner_ok:
  assumes "accounts_ok s"
  shows "wp (do_inner E ct a p ag) (\<lambda>r t. \<forall>i. r = Inr i \<longrightarrow> strip a \<notin> set (members s registered_set) \<and> strip ag \<in> set (members s AGENT_ID_TABLE) \<and>
     length (strip a) \<in> {6..20} \<and> length (strip p) \<in> {6..20} \<and> lobby_inv {(registered_set, strip a)} {} t \<and>
     (\<exists>n. users_counted s = Some n \<and> last_user (strip a) (n + 1) t)) (\<lambda>_ _. True) s"
  unfolding do_inner_def Let_def
proof (rule ok_wp, simp add: wp_retM, rule ok_wp, rule ok_wp, rule ok_wp, simp add: wp_retM, rule ok_wp, rule ok_wp, rule ok_wp, simp add: wp_retM,
    rule ok_bindM, rule wp_mono [OF wp_conj [OF register_ok wp_keeps [OF keeps_login_parts(7) lobby_frame [OF assms]]]], elim exE conjE, goal_cases)
  case (1 uid t n)
  then have inv: "lobby_inv {(registered_set, strip a)} {} t" by (simp add: lobby_inv_def mark_sets_def)
  show ?case
    by (rule wp_mono [OF wp_keeps [OF keeps_conj [where P = "last_user (strip a) (n + 1)"
          and Q = "lobby_inv {(registered_set, strip a)} {}"]]],
        (rule keeps_last_user; (rule keeps_pipe | rule kept_after_register | rule pres_intros | (rule keeps_string; simp add: account_key_neq))+),
        (rule keeps_pipe | rule keeps_login_parts | rule pres_intros | (rule keeps_lobby; simp))+)
      (use 1 inv in auto)
qed simp

lemma do_inner_known:
  "strip a \<in> set (members s registered_set) \<Longrightarrow> wp (do_inner E ct a p ag) (\<lambda>r t. t = s \<and> (\<exists>x. r = Inl x)) (\<lambda>_ t. t = s) s"
  by (simp add: do_inner_def Let_def wp_eqs)

text \<open>C26: a name can be registered once.  A registration needs a free name and a password of 6 to 20 characters and a known guild.  It
  draws the next number of a user, one above the count before, which becomes the count, and points the account at the user of that
  number, whatever it pointed at before; no history of requests frees the name again.\<close>

theorem register_once:
  assumes "accounts_ok s" "do_inner E ct a p ag s = (Inr (Inr i), t)" "strip b = strip a"
  shows "strip a \<notin> set (members s registered_set) \<and> strip ag \<in> set (members s AGENT_ID_TABLE) \<and> length (strip a) \<in> {6..20} \<and> length (strip p) \<in> {6..20} \<and>
    (\<exists>n. users_counted s = Some n \<and> users_counted t = Some (n + 1) \<and>
      look t (FORMAT_ACCOUNT2USER_TABLE (strip a)) = Some (RStr (user_key (Some (show_int (n + 1)))))) \<and>
    (\<forall>F. snd (do_inner F ct' b p' ag' (fold lobby_do ops t)) = fold lobby_do ops t \<and> (\<forall>j. fst (do_inner F ct' b p' ag' (fold lobby_do ops t)) \<noteq> Inr (Inr j)))"
proof -
  have new: "last_user c n u \<Longrightarrow> users_counted u = Some n \<and> look u (FORMAT_ACCOUNT2USER_TABLE c) = Some (RStr (user_key (Some (show_int n))))" for c n u
    using last_user_counted by (simp add: last_user_def string_at_def)
  note reg = wp_InrD [OF do_inner_ok [OF assms(1)] assms(2)]
  then have "lobby_inv {(registered_set, strip a)} {} t" by simp
  from lobby.inv_run [OF this, of ops] have "strip b \<in> set (members (fold lobby_do ops t) registered_set)" by (simp add: lobby_inv_def assms(3))
  then have "snd (do_inner F ct' b p' ag' (fold lobby_do ops t)) = fold lobby_do ops t \<and> (\<forall>j. fst (do_inner F ct' b p' ag' (fold lobby_do ops t)) \<noteq> Inr (Inr j))" for F
    using do_inner_known [of b "fold lobby_do ops t" F ct' p' ag'] by (auto simp: wp_def split: prod.splits sum.splits)
  with reg new show ?thesis by simp blast
qed

definition demo_door :: redis where
  "demo_door = empty_db\<lparr>kv := [(FORMAT_USER_COUNT_TABLE, RStr ''7''), (AGENT_ID_TABLE, RSet [''g'']), (FORMAT_ACCOUNT2USER_TABLE ''tester'', RStr (user_key (Some ''3'')))]\<rparr>"

lemma accounts_ok_door: "accounts_ok demo_door"
  by (auto simp: accounts_ok_def demo_door_def look_def lobby_keys AGENT_ID_TABLE_def FORMAT_USER_COUNT_TABLE_def user_tables_def split: if_splits)

definition demo_new :: redis where
  "demo_new = snd (do_inner demo_env ''0'' ''tester'' ''secret'' ''g'' demo_door)"

definition demo_new_info :: login_info where
  "demo_new_info = \<lparr>l_sid = ''d8t'', l_account = ''tester'', l_passwd = ''secret'', l_weixin = False, l_sign = Some 1000000, l_join = None\<rparr>"

lemma demo_register_runs: "do_inner demo_env ''0'' ''tester'' ''secret'' ''g'' demo_door = (Inr (Inr demo_new_info), demo_new)"
  by code_simp

theorem register_once_witness:
  "look demo_door (FORMAT_ACCOUNT2USER_TABLE (strip ''tester'')) = Some (RStr (user_key (Some ''3''))) \<and>
   look demo_new (FORMAT_ACCOUNT2USER_TABLE (strip ''tester'')) = Some (RStr (user_key (Some (show_int 8)))) \<and> users_counted demo_new = Some 8 \<and>
   (\<forall>j. fst (do_inner demo_env ''1'' ''tester'' ''secret'' ''g'' (fold lobby_do [Session_over ''d8t''] demo_new)) \<noteq> Inr (Inr j))"
proof -
  have "users_counted demo_door = Some 7" "look demo_door (FORMAT_ACCOUNT2USER_TABLE (strip ''tester'')) = Some (RStr (user_key (Some ''3'')))"
    by code_simp+
  then show ?thesis
    using register_once [OF accounts_ok_door demo_register_runs refl, of "''1''" "''secret''" "''g''" "[Session_over ''d8t'']"] by auto
qed

end
