(* ===== verification/Spec2Isabelle.thy ===== *)
theory Spec2Isabelle
  imports XxlPay BoxLock RoomWorkers FriendGraph MailLaws QuizPrizes ExchangeLaws BuyLaws ClubPromises GoldLimits RankLaws LoginLaws
begin

text \<open>
  \<^bold>\<open>Verification of the game web services.\<close>

  The repository holds the web side of a platform for card games and a fishing game: handlers of HTTP
  requests written in Python 2 on the bottle framework (src/srcs/mahjong), models they share
  (src/srcs/mahjong/model), background workers (src/srcs/tasks) and a bundled redis 2.6.16 server in which
  all state is kept.  The development models the parts that carry the money and the rules, handler by
  handler, on a model of the redis commands they send.

  \<^bold>\<open>Foundations.\<close>
  \<^item> \<open>Prelude\<close>: exceptions (\<open>exn\<close>), handlers as state transformers with errors (\<open>retM\<close>, \<open>bindM\<close>, \<open>tryM\<close>,
    \<open>forM\<close>, \<open>mapM\<close>), their weakest preconditions (\<open>wp\<close>, collection \<open>wp_eqs\<close>), predicates a handler keeps
    (\<open>keeps\<close>, \<open>pres_intros\<close>), and the interfaces \<open>kv_store\<close> (a keyed store), \<open>state_machine\<close> (what every
    request keeps, every history keeps) and \<open>simulation\<close> (with an abstraction of the state).
  \<^item> \<open>Histories\<close>: how often something happens in a history (\<open>occurs\<close>), bounded by a counter the state keeps (locale
    \<open>counting\<close>), and histories whose steps carry a label read off the request (\<open>trace\<close>, locale \<open>labelled_simulation\<close>).
  \<^item> \<open>PyVal\<close>: the Python string and number routines the code uses (\<open>strip\<close>, \<open>split\<close>, \<open>int\<close>, \<open>str\<close>) and the
    64-bit numbers of the server, with the round trip of decimal texts.
  \<^item> \<open>Redis\<close>, \<open>RedisLaws\<close>: strings, hashes, lists, sets, sorted sets, time-to-live marks and pipelines
    (src/redis-2.6.16/src/t_hash.c, t_list.c, t_set.c, t_string.c, db.c), the rules to execute commands
    symbolically (\<open>wp_eqs\<close> for every run, \<open>ok_wp\<close> for runs that return), and frames (\<open>only\<close>, \<open>leaves\<close>).
  \<^item> \<open>Stores\<close>, \<open>Sessions\<close>: the two databases of the match-three game with its journal of balances
    (common/record_player_info.py), and sessions (common/utilt.py, hall/hall_func.py).

  \<^bold>\<open>The match-three game\<close> (hall/hall_xiaoxiaole.py, model/xiaoxiaole*.py).
  \<^item> \<open>XxlArith\<close>: the run search and the table of bent shapes of xiaoxiaole_arith.py.  \<open>XxlMaths\<close>: the
    generator that plants requested matches and fills the rest (\<open>Maths_Mgr_board\<close>, \<open>CheckBeeLine_runs\<close>,
    \<open>plan_order\<close>, \<open>get_Type_L_shapes\<close>).
  \<^item> \<open>XxlModel\<close>: matches of a board and drawing (xiaoxiaoleModel.py).  \<open>XxlRuns\<close>, \<open>XxlMatch\<close>: the report of
    a board is exact (\<open>getResults_exact\<close>) and its groups are the connected components of the runs
    (\<open>resultLists_components\<close>).  \<open>XxlDraw\<close>: the weighted draw is fair, a run of the manager returns a full
    board with its report (\<open>random_type_fair\<close>, \<open>mgr_run_ok\<close>).
  \<^item> \<open>XxlHall\<close>, \<open>XxlPay\<close>: the handlers and what a round does to the balances (\<open>xiaoxiaole_run_settles\<close>,
    \<open>choose_table_release\<close>).

  \<^bold>\<open>The fishing game\<close> (src/srcs/mahjong/fish).
  \<^item> \<open>FishBag\<close>, \<open>FishBox\<close>: bag and safe box of fish_bag.py (\<open>box_save_moves\<close>, \<open>box_take_effect\<close>,
    \<open>box_take_diamonds\<close>).  \<open>BoxLock\<close>: the lock over every history of requests about boxes, resets of the password
    included (\<open>locked_until_unlocked\<close>).  \<open>FishAccount\<close>, \<open>FishCodes\<close>: verification codes and what
    they authorise (\<open>code_sends_bounded\<close>, \<open>box_find_pwd_guarded\<close>, \<open>forget_pwd_modify_effect\<close>,
    \<open>info_complete_keeps_code\<close>).
  \<^item> \<open>FishFriend\<close>: fish_friend.py.  \<open>FriendLaws\<close>: friendship and requests over histories
    (\<open>friendship_symmetric\<close>, \<open>requests_distinct\<close>).  \<open>FriendGraph\<close>: the module refines an abstract graph
    (\<open>friend_run_refines\<close>).  \<open>MailLaws\<close>: mails with attachments (\<open>send_mail_effect\<close>, \<open>get_attach_once\<close>,
    \<open>mail_round_trip\<close>, \<open>show_mails_order\<close>, \<open>stolen_mail_blocks_box\<close>).
  \<^item> \<open>HallCommon\<close>, \<open>HallLaws\<close>: what handlers share: conversions, pages, the session check, lines to the
    game servers, the festival calendar, the limiter of calls (\<open>pages_cover\<close>, \<open>limiter_bounded\<close>).
  \<^item> \<open>FishBenefit\<close>: relief coins and signs of fish_benefit.py.  \<open>BenefitLaws\<close>, \<open>SignLaws\<close>: limits of a day
    and rewards of a month over histories: the reliefs paid are counted against the counter of the day, within its life
    (\<open>benefit_bounded\<close>); a reward goes to the user its account points at (\<open>sign_month_once\<close>).
  \<^item> \<open>FishSpring\<close>: activities, quiz and survey of fish_spring.py.  \<open>SpringLaws\<close>, \<open>QuizPrizes\<close>: what they pay
    and that they pay once (\<open>survey_once\<close>, \<open>question_once\<close>), and the prizes of a day (\<open>prizes_bounded\<close>).
  \<^item> \<open>FishExchange\<close>, \<open>ExchangeLaws\<close>: currency exchange, addresses, tickets, reward shop of fish_exchange.py
    (\<open>currency_exchange_effect\<close>, \<open>address_round_trip\<close>).
  \<^item> \<open>FishPay\<close>, \<open>PayLaws\<close>: orders, notifications and the app store of fish_pay.py and fish_pay_func.py
    (\<open>apple_credited_once\<close>, \<open>order_paid_credits\<close>, \<open>notify_each_time\<close>, \<open>trade_numbers_distinct\<close>).  \<open>BuyLaws\<close>: buying into
    the box, however the request ends (\<open>buy_coin_effect\<close>, \<open>buy_without_price\<close>).

  \<^bold>\<open>The lobby of the fishing game\<close> (fish/fish.py, fish/fish_broad.py, bottle_session.py, with the functions of
  model/hallModel.py, wechat/wechatData.py, model/fishModel.py, model/goodsModel.py and fish_util/fish_func.py they call).
  \<open>FishLogin\<close>: registering, logging in with a password or through WeChat (\<open>onRegFish\<close>), the session object and what a login
  writes, as one definition per block of \<open>do_login\<close>.  \<open>FishLobby\<close>: sharing, the exchange code, the page of the lobby, the way
  into a room, mails, activities, broadcasts, red packets.  \<open>FishRank\<close>: the rankings, on sorted sets (t_zset.c) with integer
  scores.  \<open>RankLaws\<close>: they show the best, in order (\<open>rank_section_best\<close>, \<open>red_packets_best\<close>).  \<open>LobbyLaws\<close>: no history of
  requests removes a mark (\<open>lobby_inv\<close>), so rewards and the code are paid once (\<open>share_once\<close>, \<open>exchange_code_once\<close>).
  \<open>LoginLaws\<close>: what a login needs and leaves, and that a name is registered once, for a user of
  the next number (\<open>login_needs_password\<close>, \<open>register_once\<close>).

  \<^bold>\<open>Clubs\<close> (hall/club.py).  \<open>Clubs\<close>: the handlers around owners, managers, members, applications and the
  automatic rooms, on sets for both sides of a membership and one hash per club.  \<open>ClubNumbers\<close>: the number of a
  new club.  \<open>RunRules\<close>: symbolic execution of runs that may raise.  \<open>ClubLaws\<close>: the invariant of the keys
  (\<open>club_inv\<close>), the abstract clubs (\<open>clubs\<close>, \<open>club_step\<close>, in which every step has an actor who may take it), and
  what the groups of writes do to them.  \<open>ClubRuns\<close>: every request is such a step by the account of its session, also
  when it fails half-way; with \<open>labelled_simulation\<close>, the labels being the accounts of the sessions, this gives
  \<open>club_run_refines\<close>, \<open>club_request_authorised\<close>,
  \<open>club_membership_two_sided\<close> and \<open>club_keys_typed\<close>.  \<open>ClubPromises\<close>: founding, the way from an application to a
  membership, and the switch of the automatic rooms (\<open>create_club_effect\<close>, \<open>application_accepted\<close>,
  \<open>auto_switch_unguarded\<close>).  That the text of a set is read back as that set is the hypothesis \<open>set_law\<close>.

  \<^bold>\<open>Gold rooms of the hall\<close> (hall/hall_gold.py, model/goldModel.py).  \<open>HallGold\<close>: entering and leaving rooms, signs,
  relief, presents and the welfare page, on the main database and the ranking of a private server.  \<open>GoldLaws\<close>: what
  the requests leave alone (\<open>gold_frame\<close>), with its interpretations the limits of the stored marks (\<open>gold_limits\<close>) and
  the marks of signs (\<open>gold_sign_once\<close>).  \<open>GoldLimits\<close>: every relief and later sign leaves such a mark, so that they are
  bounded (\<open>gold_limited\<close>).  \<open>GoldFaults\<close>: signs without a ranking server, signs of past days, gold of one's own choice
  (\<open>sign_without_ranking\<close>, \<open>patch_sign_effect\<close>, \<open>gm_sets_gold\<close>).

  \<^bold>\<open>Matchmaking\<close> (src/srcs/tasks/gold_worker.py, party_worker.py).  \<open>MatchQueue\<close>: waiting lists, rooms and the
  protocol queue both workers share.  \<open>MatchLaws\<close>: its laws in the locales \<open>room_queue\<close> and \<open>room_service\<close>,
  over the key names of a worker.  \<open>RoomWorkers\<close>: the two workers as interpretations (\<open>gold_rooms\<close>,
  \<open>gold_rooms_lost\<close>, \<open>gold_join\<close>, \<open>gold_join_cancel\<close>, \<open>gold_read_protocols_ends\<close>).

  \<^bold>\<open>How code becomes definitions.\<close>  A handler is a function from the state to a result or an exception and
  the state left behind: a raise half-way leaves the writes made before it, \<open>except\<close> is \<open>tryM\<close>, a pipeline
  runs as a whole at \<open>execute\<close>.  \<open>hincrby\<close> keeps the 64-bit range of the server.  A reply is its code and a tag
  for its message.  Clocks, random numbers, digests, \<open>json\<close>, \<open>eval\<close> and services outside the repository are
  arguments; where a property needs a law of one of them it is a hypothesis by name (\<open>json_law\<close>), with an
  example that has it.  Loops over lists are recursions; where the code loops until something is found
  the model has fuel, and it is proved that the fuel is enough: the length of the point list for
  \<open>relevance\<close>, the board for \<open>CheckBeeLine\<close>, one round per waiting line and one more for
  \<open>read_protocols\<close>.

  \<^bold>\<open>Not modelled.\<close>  The hall of the card games (hall/hall.py), rooms and game histories of clubs, the page of an
  invitation (fish/fish_invite.py) and the older broadcasts of fish_broad.py, the operator pages (admin) and the
  agents (model/agentModel.py) are not reached yet; the lottery activities (model/activeModel.py) use keys that are defined nowhere.  Page rendering,
  logging, the worker threads, the robots' sockets, MySQL look-ups and vendored libraries (bottle,
  redis-py, paste, protobuf, the SMS SDK) are left out: they are I/O, or code of others.
\<close>

end
